(* ===== verification/Prelude.thy ===== *)
theory Prelude
  imports Main "HOL-Library.Word" "HOL-Library.AList"
begin

text \<open>
  What the components share: the types that stand for Rust's machine integers and
  identifiers, the operations of \<^verbatim>\<open>str\<close> that the crates call (a Rust string is its
  UTF-8 bytes, so a \<^typ>\<open>string\<close> is read as a byte list), the hash maps as association
  lists in iteration order, the bounded histories, and the interfaces (locales) that the
  components are proved against.
\<close>

section \<open>Machine types\<close>

type_synonym u8 = "8 word"
type_synonym u16 = "16 word"
type_synonym u32 = "32 word"
type_synonym u64 = "64 word"

text \<open>A \<^verbatim>\<open>Uuid\<close> is 128 bits; \<^verbatim>\<open>Uuid::nil()\<close> is all zeros.\<close>

type_synonym uuid = "128 word"

text \<open>
  \<^verbatim>\<open>DateTime<Utc>\<close> and \<^verbatim>\<open>Duration\<close> are nanosecond counts. Each operation of the program that
  reads the clock takes the reading as an argument, and each that draws a fresh
  \<^verbatim>\<open>Uuid::now_v7()\<close> takes the drawn value.
\<close>

type_synonym timestamp = int
type_synonym duration = int

definition seconds :: "int \<Rightarrow> duration" where
  "seconds n = n * 1000000000"

text \<open>\<^verbatim>\<open>TimeDelta::num_seconds\<close> truncates towards zero.\<close>

definition num_seconds :: "duration \<Rightarrow> int" where
  "num_seconds d = (if 0 \<le> d then d div 1000000000 else - ((- d) div 1000000000))"

lemma num_seconds_le_iff:
  "0 \<le> n \<Longrightarrow> num_seconds d \<le> n \<longleftrightarrow> d < seconds (n + 1)"
  unfolding num_seconds_def seconds_def by (simp split: if_splits) linarith

section \<open>Collections of rewrite rules\<close>

named_theorems str_simps \<open>characterisations of the string operations\<close>
named_theorems hmap_simps \<open>lookup after an update of a hash map\<close>
named_theorems event_simps \<open>accessors of an event\<close>

section \<open>Strings\<close>

definition starts_with :: "string \<Rightarrow> string \<Rightarrow> bool" where
  "starts_with s p \<longleftrightarrow> take (length p) s = p"

definition ends_with :: "string \<Rightarrow> string \<Rightarrow> bool" where
  "ends_with s p \<longleftrightarrow> length p \<le> length s \<and> drop (length s - length p) s = p"

definition strip_prefix :: "string \<Rightarrow> string \<Rightarrow> string option" where
  "strip_prefix s p = (if starts_with s p then Some (drop (length p) s) else None)"

fun str_contains :: "string \<Rightarrow> string \<Rightarrow> bool" where
  "str_contains [] p = (p = [])"
| "str_contains (c # s) p = (starts_with (c # s) p \<or> str_contains s p)"

lemma starts_with_iff [str_simps]: "starts_with s p \<longleftrightarrow> (\<exists>r. s = p @ r)"
  unfolding starts_with_def by (metis append_eq_conv_conj append_take_drop_id)

lemma ends_with_iff [str_simps]: "ends_with s p \<longleftrightarrow> (\<exists>r. s = r @ p)"
  unfolding ends_with_def
  by (metis append_eq_conv_conj append_take_drop_id diff_add_inverse2 le_add2 length_append)

lemma str_contains_iff [str_simps]: "str_contains s p \<longleftrightarrow> (\<exists>a b. s = a @ p @ b)"
proof (induction s)
  case Nil
  then show ?case by auto
next
  case (Cons c s)
  have "(\<exists>a b. c # s = a @ p @ b) \<longleftrightarrow> (\<exists>b. c # s = p @ b) \<or> (\<exists>a b. s = a @ p @ b)"
    by (metis append_Cons append_Nil append_eq_Cons_conv)
  with Cons show ?case by (simp add: starts_with_iff)
qed

lemma strip_prefix_Some_iff [str_simps]: "strip_prefix s p = Some r \<longleftrightarrow> s = p @ r"
  by (auto simp: strip_prefix_def starts_with_iff)

lemma strip_prefix_None_iff [str_simps]: "strip_prefix s p = None \<longleftrightarrow> \<not> starts_with s p"
  by (simp add: strip_prefix_def)

text \<open>\<^verbatim>\<open>u8::to_ascii_lowercase\<close> and \<^verbatim>\<open>str::to_ascii_lowercase\<close>: only the bytes A to Z change.\<close>

definition ascii_lower :: "char \<Rightarrow> char" where
  "ascii_lower c =
     (let n = of_char c :: nat in if 65 \<le> n \<and> n \<le> 90 then char_of (n + 32) else c)"

definition to_ascii_lowercase :: "string \<Rightarrow> string" where
  "to_ascii_lowercase s = map ascii_lower s"

lemma of_char_ascii_lower:
  "(of_char (ascii_lower c) :: nat) =
     (let n = of_char c in if 65 \<le> n \<and> n \<le> 90 then n + 32 else n)"
  by (simp add: ascii_lower_def Let_def)

lemma ascii_lower_idem [simp]: "ascii_lower (ascii_lower c) = ascii_lower c"
  by (simp add: ascii_lower_def Let_def)

lemma to_ascii_lowercase_idem [simp]:
  "to_ascii_lowercase (to_ascii_lowercase s) = to_ascii_lowercase s"
  by (simp add: to_ascii_lowercase_def)

lemma length_to_ascii_lowercase [simp]: "length (to_ascii_lowercase s) = length s"
  by (simp add: to_ascii_lowercase_def)

lemma to_ascii_lowercase_append [simp]:
  "to_ascii_lowercase (s @ t) = to_ascii_lowercase s @ to_ascii_lowercase t"
  by (simp add: to_ascii_lowercase_def)

lemma to_ascii_lowercase_eq_Nil [simp]: "to_ascii_lowercase s = [] \<longleftrightarrow> s = []"
  by (simp add: to_ascii_lowercase_def)

definition eq_ignore_ascii_case :: "string \<Rightarrow> string \<Rightarrow> bool" where
  "eq_ignore_ascii_case s t \<longleftrightarrow> to_ascii_lowercase s = to_ascii_lowercase t"

text \<open>\<^verbatim>\<open>str::split\<close> with a predicate on (ASCII) separators: never empty, keeps empty pieces.\<close>

fun split_by :: "(char \<Rightarrow> bool) \<Rightarrow> string \<Rightarrow> string list" where
  "split_by p [] = [[]]"
| "split_by p (c # s) =
     (if p c then [] # split_by p s
      else case split_by p s of [] \<Rightarrow> [[c]] | x # xs \<Rightarrow> (c # x) # xs)"

lemma split_by_nonempty [simp]: "split_by p s \<noteq> []"
  by (induction s) (auto split: list.splits)

lemma split_by_no_sep: "x \<in> set (split_by p s) \<Longrightarrow> \<forall>c \<in> set x. \<not> p c"
proof (induction s arbitrary: x)
  case Nil
  then show ?case by simp
next
  case (Cons c s)
  show ?case
  proof (cases "p c")
    case True
    with Cons show ?thesis by auto
  next
    case False
    obtain y ys where ys: "split_by p s = y # ys" by (cases "split_by p s") auto
    with Cons.prems False have "x = c # y \<or> x \<in> set ys" by simp
    then show ?thesis
    proof
      assume "x = c # y"
      moreover have "\<forall>d \<in> set y. \<not> p d" using Cons.IH [of y] ys by simp
      ultimately show ?thesis using False by simp
    next
      assume "x \<in> set ys"
      then show ?thesis using Cons.IH [of x] ys by simp
    qed
  qed
qed

text \<open>The decimal rendering of an unsigned integer (\<^verbatim>\<open>Display\<close>).\<close>

fun show_nat :: "nat \<Rightarrow> string" where
  "show_nat n =
     (if n < 10 then [char_of (48 + n)] else show_nat (n div 10) @ [char_of (48 + n mod 10)])"

declare show_nat.simps [simp del]

definition is_digit :: "char \<Rightarrow> bool" where
  "is_digit c \<longleftrightarrow> 48 \<le> (of_char c :: nat) \<and> (of_char c :: nat) \<le> 57"

fun digits_value :: "nat \<Rightarrow> string \<Rightarrow> nat" where
  "digits_value acc [] = acc"
| "digits_value acc (c # s) = digits_value (acc * 10 + (of_char c - 48)) s"

text \<open>
  \<^verbatim>\<open>str::parse\<close> at an unsigned type with values below \<open>bound\<close>: an optional plus sign, at least
  one digit, no overflow.
\<close>

definition parse_unsigned :: "nat \<Rightarrow> string \<Rightarrow> nat option" where
  "parse_unsigned bound s =
     (let ds = (case s of c # r \<Rightarrow> if c = CHR ''+'' then r else s | [] \<Rightarrow> s)
      in if ds \<noteq> [] \<and> list_all is_digit ds \<and> digits_value 0 ds < bound
         then Some (digits_value 0 ds) else None)"

lemma digits_value_append: "digits_value acc (s @ t) = digits_value (digits_value acc s) t"
  by (induction s arbitrary: acc) auto

lemma show_nat_digits: "list_all is_digit (show_nat n) \<and> show_nat n \<noteq> []"
proof (induction n rule: show_nat.induct)
  case (1 n)
  have "is_digit (char_of (48 + m))" if "m < 10" for m :: nat
    using that by (simp add: is_digit_def)
  with 1 show ?case by (subst (1 2) show_nat.simps) auto
qed

lemma digits_value_show_nat: "digits_value 0 (show_nat n) = n"
proof (induction n rule: show_nat.induct)
  case (1 n)
  have d: "of_char (char_of (48 + m) :: char) = 48 + m" if "m < 10" for m :: nat
    using that by simp
  show ?case
  proof (cases "n < 10")
    case True
    with d show ?thesis by (simp add: show_nat.simps [of n])
  next
    case False
    with 1 d [of "n mod 10"] show ?thesis
      by (simp add: show_nat.simps [of n] digits_value_append)
  qed
qed

lemma show_nat_inject [simp]: "show_nat m = show_nat n \<longleftrightarrow> m = n"
  by (metis digits_value_show_nat)

lemma parse_show_nat:
  assumes "n < bound"
  shows "parse_unsigned bound (show_nat n) = Some n"
proof -
  obtain c r where cr: "show_nat n = c # r" using show_nat_digits [of n] by (cases "show_nat n") auto
  moreover have "is_digit c" using show_nat_digits [of n] cr by simp
  then have "c \<noteq> CHR ''+''" by (auto simp: is_digit_def)
  ultimately show ?thesis
    using assms show_nat_digits [of n] digits_value_show_nat [of n]
    by (simp add: parse_unsigned_def)
qed

fun join :: "string \<Rightarrow> string list \<Rightarrow> string" where
  "join sep [] = []"
| "join sep [x] = x"
| "join sep (x # xs) = x @ sep @ join sep xs"

text \<open>\<^verbatim>\<open>str::split_once\<close> and \<^verbatim>\<open>str::rsplit_once\<close> with a one-byte separator.\<close>

fun split_once :: "char \<Rightarrow> string \<Rightarrow> (string \<times> string) option" where
  "split_once c [] = None"
| "split_once c (d # s) =
     (if d = c then Some ([], s) else map_option (\<lambda>(a, b). (d # a, b)) (split_once c s))"

definition rsplit_once :: "char \<Rightarrow> string \<Rightarrow> (string \<times> string) option" where
  "rsplit_once c s = map_option (\<lambda>(a, b). (rev b, rev a)) (split_once c (rev s))"

lemma split_once_Some_iff:
  "split_once c s = Some (a, b) \<longleftrightarrow> s = a @ c # b \<and> c \<notin> set a"
  by (induction s arbitrary: a b) (auto simp: Cons_eq_append_conv)

lemma split_once_None_iff: "split_once c s = None \<longleftrightarrow> c \<notin> set s"
  by (induction s) auto

lemma rsplit_once_Some_iff:
  "rsplit_once c s = Some (a, b) \<longleftrightarrow> s = a @ c # b \<and> c \<notin> set b"
proof -
  have "rsplit_once c s = Some (a, b) \<longleftrightarrow> split_once c (rev s) = Some (rev b, rev a)"
    by (auto simp: rsplit_once_def)
  also have "\<dots> \<longleftrightarrow> rev s = rev (a @ c # b) \<and> c \<notin> set b"
    by (simp add: split_once_Some_iff)
  also have "\<dots> \<longleftrightarrow> s = a @ c # b \<and> c \<notin> set b"
    by (simp only: rev_is_rev_conv)
  finally show ?thesis .
qed

text \<open>
  \<^verbatim>\<open>char::is_whitespace\<close>: the UTF-8 encodings of the characters with the property White_Space;
  \<^verbatim>\<open>str::trim\<close> strips them at both ends.
\<close>

definition whitespace :: "string list" where
  "whitespace =
     map (\<lambda>n. [char_of n]) [9, 10, 11, 12, 13, 32 :: nat] @
     map (map char_of)
       [[0xC2, 0x85], [0xC2, 0xA0], [0xE1, 0x9A, 0x80], [0xE2, 0x80, 0xA8], [0xE2, 0x80, 0xA9],
        [0xE2, 0x80, 0xAF], [0xE2, 0x81, 0x9F], [0xE3, 0x80, 0x80 :: nat]] @
     map (\<lambda>n. map char_of [0xE2, 0x80, n]) [0x80..<0x8B :: nat]"

function strip_any :: "string list \<Rightarrow> string \<Rightarrow> string" where
  "strip_any ws s =
     (case List.find (\<lambda>w. w \<noteq> [] \<and> starts_with s w) ws of
        None \<Rightarrow> s
      | Some w \<Rightarrow> strip_any ws (drop (length w) s))"
  by pat_completeness auto
termination
proof (relation "measure (\<lambda>(ws, s). length s)")
  fix ws s w assume "List.find (\<lambda>w. w \<noteq> [] \<and> starts_with s w) ws = Some w"
  then have "w \<noteq> []" and "starts_with s w" by (auto simp: find_Some_iff)
  then show "((ws, drop (length w) s), ws, s) \<in> measure (\<lambda>(ws, s). length s)"
    by (auto simp: starts_with_iff)
qed simp

declare strip_any.simps [simp del]

definition trim_start :: "string \<Rightarrow> string" where
  "trim_start s = strip_any whitespace s"

definition trim_end :: "string \<Rightarrow> string" where
  "trim_end s = rev (strip_any (map rev whitespace) (rev s))"

definition trim :: "string \<Rightarrow> string" where
  "trim s = trim_end (trim_start s)"

text \<open>Lower-case hexadecimal, as \<^verbatim>\<open>{:x}\<close> prints it.\<close>

definition hex_digit :: "nat \<Rightarrow> char" where
  "hex_digit d = (if d < 10 then char_of (48 + d) else char_of (87 + d))"

fun show_hex :: "nat \<Rightarrow> string" where
  "show_hex n = (if n < 16 then [hex_digit n] else show_hex (n div 16) @ [hex_digit (n mod 16)])"

declare show_hex.simps [simp del]

text \<open>\<^verbatim>\<open>str::split_whitespace().next()\<close>: the first token, if there is one.\<close>

fun take_token :: "string \<Rightarrow> string" where
  "take_token [] = []"
| "take_token (c # s) =
     (if list_ex (\<lambda>w. starts_with (c # s) w) whitespace then [] else c # take_token s)"

definition first_token :: "string \<Rightarrow> string option" where
  "first_token s = (let t = take_token (trim_start s) in if t = [] then None else Some t)"

definition trim_end_matches :: "char \<Rightarrow> string \<Rightarrow> string" where
  "trim_end_matches c s = rev (dropWhile (\<lambda>d. d = c) (rev s))"

definition is_ascii_alphanumeric :: "char \<Rightarrow> bool" where
  "is_ascii_alphanumeric c =
     (let n = of_char c :: nat in 48 \<le> n \<and> n \<le> 57 \<or> 65 \<le> n \<and> n \<le> 90 \<or> 97 \<le> n \<and> n \<le> 122)"

section \<open>Paths\<close>

text \<open>
  \<^verbatim>\<open>Path::file_name\<close> and \<^verbatim>\<open>Path::extension\<close> on Unix: the last component that is neither empty nor
  \<open>.\<close>, unless it is \<open>..\<close>; the part after its last dot, unless that dot is its first byte.
\<close>

definition path_file_name :: "string \<Rightarrow> string option" where
  "path_file_name s =
     (case filter (\<lambda>c. c \<noteq> '''' \<and> c \<noteq> ''.'') (split_by (\<lambda>c. c = CHR ''/'') s) of
        [] \<Rightarrow> None
      | c # cs \<Rightarrow> if last (c # cs) = ''..'' then None else Some (last (c # cs)))"

definition path_extension :: "string \<Rightarrow> string option" where
  "path_extension s =
     (case path_file_name s of
        None \<Rightarrow> None
      | Some f \<Rightarrow>
          (case rsplit_once (CHR ''.'') f of
             None \<Rightarrow> None
           | Some (before, after) \<Rightarrow> if before = [] then None else Some after))"

section \<open>Iterators\<close>

text \<open>\<^verbatim>\<open>Iterator::max\<close>.\<close>

fun iter_max :: "'a::linorder list \<Rightarrow> 'a option" where
  "iter_max [] = None"
| "iter_max (x # xs) = Some (fold max xs x)"

lemma iter_max_eq_Max: "xs \<noteq> [] \<Longrightarrow> iter_max xs = Some (Max (set xs))"
  by (cases xs) (simp, simp only: iter_max.simps Max.set_eq_fold [symmetric])

lemma iter_max_Some: "iter_max xs = Some m \<Longrightarrow> m \<in> set xs \<and> (\<forall>x \<in> set xs. x \<le> m)"
  by (cases "xs = []") (auto simp: iter_max_eq_Max)

lemma iter_max_None [simp]: "iter_max xs = None \<longleftrightarrow> xs = []"
  by (cases xs) auto

text \<open>\<^verbatim>\<open>Iterator::min_by_key\<close>: the first element with the least key.\<close>

fun min_by_key :: "('a \<Rightarrow> 'k::linorder) \<Rightarrow> 'a list \<Rightarrow> 'a option" where
  "min_by_key f [] = None"
| "min_by_key f (x # xs) = Some (foldl (\<lambda>m y. if f y < f m then y else m) x xs)"

lemma foldl_min_by_key:
  fixes f :: "'a \<Rightarrow> 'k::linorder"
  shows "foldl (\<lambda>m y. if f y < f m then y else m) x xs \<in> insert x (set xs) \<and>
    (\<forall>y \<in> insert x (set xs). f (foldl (\<lambda>m y. if f y < f m then y else m) x xs) \<le> f y)"
proof (induction xs arbitrary: x)
  case (Cons a xs)
  show ?case
  proof (cases "f a < f x")
    case True
    with Cons [of a] show ?thesis by (auto intro: order_trans less_imp_le)
  next
    case False
    with Cons [of x] show ?thesis by (auto intro: order_trans simp: not_less)
  qed
qed simp

lemma min_by_key_Some: "min_by_key f xs = Some m \<Longrightarrow> m \<in> set xs \<and> (\<forall>x \<in> set xs. f m \<le> f x)"
  using foldl_min_by_key by (cases xs) fastforce+

lemma min_by_key_None [simp]: "min_by_key f xs = None \<longleftrightarrow> xs = []"
  by (cases xs) auto

text \<open>\<^verbatim>\<open>Iterator::filter_map\<close> and \<^verbatim>\<open>Iterator::find\<close>.\<close>

lemma map_filter_conv: "List.map_filter f xs = map (\<lambda>x. the (f x)) (filter (\<lambda>x. f x \<noteq> None) xs)"
  by (simp add: List.map_filter_def comp_def)

lemma in_map_filter: "y \<in> set (List.map_filter f xs) \<longleftrightarrow> (\<exists>x \<in> set xs. f x = Some y)"
  by (auto simp: map_filter_conv) (metis (mono_tags, lifting) imageI mem_Collect_eq option.sel option.simps(3))

lemma find_Some_in: "List.find P xs = Some x \<Longrightarrow> x \<in> set xs \<and> P x"
  by (auto simp: find_Some_iff)

lemma find_filter_irrelevant:
  "(\<And>x. x \<in> set xs \<Longrightarrow> P x \<Longrightarrow> Q x) \<Longrightarrow> List.find P (filter Q xs) = List.find P xs"
  by (induction xs) auto

lemma find_append: "List.find P (xs @ ys) = (case List.find P xs of None \<Rightarrow> List.find P ys | r \<Rightarrow> r)"
  by (induction xs) auto

lemma find_rev_dropWhile:
  assumes "\<And>x. Q x \<Longrightarrow> \<not> P x"
  shows "List.find P (rev (dropWhile Q xs)) = List.find P (rev xs)"
  using assms by (induction xs) (auto simp: find_append find_None_iff split: option.splits)

section \<open>Hash maps\<close>

text \<open>
  A \<^verbatim>\<open>HashMap\<close> or \<^verbatim>\<open>DashMap\<close> is an association list with distinct keys: the list is the order
  in which an iterator visits the entries, which the libraries leave open. An insertion of a
  new key is appended and an insertion of a present key replaces the value in place; the
  theorems quantify over every list, so over every iteration order of the map they start from.
\<close>

type_synonym ('k, 'v) hmap = "('k \<times> 'v) list"

definition hm_wf :: "('k, 'v) hmap \<Rightarrow> bool" where
  "hm_wf m \<longleftrightarrow> distinct (map fst m)"

definition hm_get :: "('k, 'v) hmap \<Rightarrow> 'k \<Rightarrow> 'v option" where
  "hm_get m k = map_of m k"

definition hm_insert :: "'k \<Rightarrow> 'v \<Rightarrow> ('k, 'v) hmap \<Rightarrow> ('k, 'v) hmap" where
  "hm_insert k v m = AList.update k v m"

definition hm_remove :: "'k \<Rightarrow> ('k, 'v) hmap \<Rightarrow> ('k, 'v) hmap" where
  "hm_remove k m = AList.delete k m"

definition hm_retain :: "('k \<Rightarrow> 'v \<Rightarrow> bool) \<Rightarrow> ('k, 'v) hmap \<Rightarrow> ('k, 'v) hmap" where
  "hm_retain p m = filter (\<lambda>(k, v). p k v) m"

text \<open>The interface the components rely on, and its laws.\<close>

locale map_interface =
  fixes wf :: "'m \<Rightarrow> bool"
    and get :: "'m \<Rightarrow> 'k \<Rightarrow> 'v option"
    and ins :: "'k \<Rightarrow> 'v \<Rightarrow> 'm \<Rightarrow> 'm"
    and rem :: "'k \<Rightarrow> 'm \<Rightarrow> 'm"
    and size_of :: "'m \<Rightarrow> nat"
  assumes get_ins: "get (ins k v m) k' = (if k' = k then Some v else get m k')"
    and get_rem: "get (rem k m) k' = (if k' = k then None else get m k')"
    and wf_ins: "wf m \<Longrightarrow> wf (ins k v m)"
    and wf_rem: "wf m \<Longrightarrow> wf (rem k m)"
    and size_ins: "wf m \<Longrightarrow> size_of (ins k v m) = (if get m k = None then Suc (size_of m) else size_of m)"
    and size_rem: "wf m \<Longrightarrow> size_of (rem k m) = (if get m k = None then size_of m else size_of m - 1)"
    and size_pos: "get m k \<noteq> None \<Longrightarrow> 0 < size_of m"
begin

text \<open>
  The eviction discipline of the bounded maps: when a new key would exceed the cap, one
  present key is removed first. Whatever key that is, the size stays within the cap.
\<close>

lemma evict_then_insert_bounded:
  assumes "wf m" and "size_of m \<le> cap" and "0 < cap"
    and "get m k = None \<Longrightarrow> cap \<le> size_of m \<Longrightarrow> get m victim \<noteq> None"
  shows "size_of (ins k v (if get m k = None \<and> cap \<le> size_of m then rem victim m else m)) \<le> cap"
proof (cases "get m k = None \<and> cap \<le> size_of m")
  case True
  then have "get m victim \<noteq> None" using assms(4) by auto
  with assms(1-3) True have "size_of (rem victim m) = cap - 1" by (auto simp: size_rem)
  with assms(1-3) True show ?thesis by (auto simp: size_ins wf_rem get_rem)
next
  case False
  with assms(1-3) show ?thesis by (auto simp: size_ins)
qed

lemma ins_other: "k' \<noteq> k \<Longrightarrow> get (ins k v m) k' = get m k'"
  by (simp add: get_ins)

end

lemma hm_get_insert [hmap_simps]:
  "hm_get (hm_insert k v m) k' = (if k' = k then Some v else hm_get m k')"
  by (simp add: hm_get_def hm_insert_def update_conv')

lemma hm_get_remove [hmap_simps]:
  "hm_get (hm_remove k m) k' = (if k' = k then None else hm_get m k')"
  by (simp add: hm_get_def hm_remove_def delete_conv')

lemma hm_get_None_iff: "hm_get m k = None \<longleftrightarrow> k \<notin> fst ` set m"
  by (simp add: hm_get_def map_of_eq_None_iff)

lemma hm_get_Some_in: "hm_get m k = Some v \<Longrightarrow> (k, v) \<in> set m"
  by (simp add: hm_get_def map_of_SomeD)

lemma hm_get_Some_iff: "hm_wf m \<Longrightarrow> hm_get m k = Some v \<longleftrightarrow> (k, v) \<in> set m"
  by (simp add: hm_get_def hm_wf_def)

lemma hm_wf_insert: "hm_wf m \<Longrightarrow> hm_wf (hm_insert k v m)"
  by (simp add: hm_wf_def hm_insert_def distinct_update)

lemma hm_wf_remove: "hm_wf m \<Longrightarrow> hm_wf (hm_remove k m)"
  by (simp add: hm_wf_def hm_remove_def distinct_delete)

lemma hm_wf_retain: "hm_wf m \<Longrightarrow> hm_wf (hm_retain p m)"
  by (simp add: hm_wf_def hm_retain_def distinct_map_filter)

lemma hm_wf_Nil [simp]: "hm_wf []"
  by (simp add: hm_wf_def)

lemma hm_get_Nil [simp]: "hm_get [] k = None"
  by (simp add: hm_get_def)

lemma length_hm_insert:
  "length (hm_insert k v m) = (if hm_get m k = None then Suc (length m) else length m)"
  by (induction m) (auto simp: hm_insert_def hm_get_def)

lemma length_hm_remove:
  "hm_wf m \<Longrightarrow> length (hm_remove k m) = (if hm_get m k = None then length m else length m - 1)"
proof (induction m)
  case Nil
  then show ?case by (simp add: hm_remove_def)
next
  case (Cons p m)
  have pos: "length m \<noteq> 0" if "map_of m k \<noteq> None" using that by auto
  show ?case
    using Cons pos by (auto simp: hm_remove_def hm_get_def hm_wf_def)
qed

lemma hm_get_retain:
  assumes "hm_wf m"
  shows "hm_get (hm_retain p m) k =
    (case hm_get m k of None \<Rightarrow> None | Some v \<Rightarrow> if p k v then Some v else None)"
proof -
  have "(k, v) \<in> set (hm_retain p m) \<longleftrightarrow> (k, v) \<in> set m \<and> p k v" for v
    by (auto simp: hm_retain_def)
  then have *: "hm_get (hm_retain p m) k = Some v \<longleftrightarrow> hm_get m k = Some v \<and> p k v" for v
    using assms by (simp add: hm_get_Some_iff hm_wf_retain)
  show ?thesis
  proof (cases "hm_get (hm_retain p m) k")
    case None
    with * show ?thesis by (auto split: option.splits)
  next
    case (Some v)
    with * [of v] show ?thesis by simp
  qed
qed

lemma set_hm_insert: "set (hm_insert k v m) \<subseteq> insert (k, v) (set m)"
  by (induction m) (auto simp: hm_insert_def)

lemma set_hm_insert_other: "k' \<noteq> k \<Longrightarrow> (k', v') \<in> set (hm_insert k v m) \<longleftrightarrow> (k', v') \<in> set m"
  by (induction m) (auto simp: hm_insert_def)

lemma hm_insert_self: "(k, v) \<in> set (hm_insert k v m)"
  by (induction m) (auto simp: hm_insert_def)

lemma hm_remove_subset: "set (hm_remove k m) \<subseteq> set m"
  by (induction m) (auto simp: hm_remove_def)

interpretation hm: map_interface hm_wf hm_get hm_insert hm_remove length
proof unfold_locales
  fix m :: "('a, 'b) hmap" and k assume "hm_get m k \<noteq> None"
  then show "0 < length m" by (cases m) auto
qed (simp_all add: hm_get_insert hm_get_remove hm_wf_insert hm_wf_remove length_hm_insert
    length_hm_remove)

section \<open>Ordered maps\<close>

text \<open>
  A \<^verbatim>\<open>BTreeMap\<close> is the list of its entries in key order; it shares lookup and removal with
  the hash maps and provides the same interface.
\<close>

fun bt_insert :: "'k::linorder \<Rightarrow> 'v \<Rightarrow> ('k \<times> 'v) list \<Rightarrow> ('k \<times> 'v) list" where
  "bt_insert k v [] = [(k, v)]"
| "bt_insert k v ((k', v') # m) =
     (if k < k' then (k, v) # (k', v') # m
      else if k = k' then (k, v) # m
      else (k', v') # bt_insert k v m)"

definition bt_wf :: "('k::linorder \<times> 'v) list \<Rightarrow> bool" where
  "bt_wf m \<longleftrightarrow> sorted_wrt (<) (map fst m)"

lemma set_bt_insert: "bt_wf m \<Longrightarrow> set (bt_insert k v m) = insert (k, v) {p \<in> set m. fst p \<noteq> k}"
  by (induction k v m rule: bt_insert.induct) (auto simp: bt_wf_def)

lemma bt_wf_insert: "bt_wf m \<Longrightarrow> bt_wf (bt_insert k v m)"
proof (induction k v m rule: bt_insert.induct)
  case (2 k v k' v' m)
  then show ?case
    using set_bt_insert [of m k v] by (auto simp: bt_wf_def)
qed (simp add: bt_wf_def)

lemma bt_get_insert: "hm_get (bt_insert k v m) k' = (if k' = k then Some v else hm_get m k')"
  by (induction k v m rule: bt_insert.induct) (auto simp: hm_get_def)

lemma bt_wf_filter: "bt_wf m \<Longrightarrow> bt_wf (filter P m)"
  by (simp add: bt_wf_def sorted_wrt_map sorted_wrt_filter)

lemma bt_wf_hm_wf: "bt_wf m \<Longrightarrow> hm_wf m"
  by (simp add: bt_wf_def hm_wf_def strict_sorted_iff)

lemma length_bt_insert:
  "bt_wf m \<Longrightarrow> length (bt_insert k v m) = (if hm_get m k = None then Suc (length m) else length m)"
proof (induction k v m rule: bt_insert.induct)
  case (2 k v k' v' m)
  have "k \<notin> fst ` set m" if "k < k'"
    using 2(2) that by (auto simp: bt_wf_def)
  with 2 show ?case by (auto simp: bt_wf_def hm_get_def map_of_eq_None_iff)
qed simp

interpretation bt: map_interface bt_wf hm_get bt_insert hm_remove length
proof unfold_locales
  fix m :: "('a \<times> 'b) list" and k assume "bt_wf m"
  then show "bt_wf (hm_remove k m)" by (simp add: hm_remove_def AList.delete_eq bt_wf_filter)
next
  fix m :: "('a \<times> 'b) list" and k assume "hm_get m k \<noteq> None"
  then show "0 < length m" by (rule hm.size_pos)
qed (simp_all add: bt_get_insert hm_get_remove bt_wf_insert length_bt_insert length_hm_remove
    bt_wf_hm_wf)

section \<open>Bounded histories\<close>

text \<open>
  The trackers cap a history the same way: push at the back and, when the length passes the
  cap, drain the overflow from the front. A client relies on the length bound, on keeping the
  most recent entries in order, and on the pushed entry being last.
\<close>

locale bounded_history =
  fixes push :: "'a list \<Rightarrow> 'a \<Rightarrow> nat \<Rightarrow> 'a list"
  assumes push_length: "0 < cap \<Longrightarrow> length (push xs x cap) \<le> max cap (length xs) \<and>
      (length xs \<le> cap \<longrightarrow> length (push xs x cap) \<le> cap)"
    and push_suffix: "0 < cap \<Longrightarrow> \<exists>n. push xs x cap = drop n xs @ [x]"
    and push_room: "length xs < cap \<Longrightarrow> push xs x cap = xs @ [x]"
begin

lemma push_last: "0 < cap \<Longrightarrow> push xs x cap \<noteq> [] \<and> last (push xs x cap) = x"
  using push_suffix [of cap xs x] by auto

lemma push_set: "0 < cap \<Longrightarrow> set (push xs x cap) \<subseteq> insert x (set xs)"
  using push_suffix [of cap xs x] by (auto dest: in_set_dropD)

lemma push_bounded: "0 < cap \<Longrightarrow> length xs \<le> cap \<Longrightarrow> length (push xs x cap) \<le> cap"
  using push_length by blast

lemma fold_push_bounded:
  "0 < cap \<Longrightarrow> length xs \<le> cap \<Longrightarrow> length (fold (\<lambda>y zs. push zs y cap) ys xs) \<le> cap"
  by (induction ys arbitrary: xs) (auto simp: push_bounded)

end

definition push_drain :: "'a list \<Rightarrow> 'a \<Rightarrow> nat \<Rightarrow> 'a list" where
  "push_drain xs x cap =
     (let ys = xs @ [x] in if cap < length ys then drop (length ys - cap) ys else ys)"

interpretation drain: bounded_history push_drain
  by unfold_locales (auto simp: push_drain_def Let_def intro: exI [of _ 0])

end
