(* ===== verification/Float32.thy ===== *)
theory Float32
  imports Complex_Main "HOL-Library.Log_Nat" Prelude
begin

text \<open>
  Rust's \<^verbatim>\<open>f32\<close>, as far as the detection code computes with it: IEEE 754 binary32 values as NaN,
  two infinities and finite rationals, and arithmetic as the exact rational result rounded to
  the nearest binary32 value, ties to even. The rounding is computed, so a concrete score
  evaluates to the value the machine gets. The two zeros are one value: no code modelled here
  divides by a zero or reads the sign of one.
\<close>

datatype f32 = F_NaN | F_Inf bool | F_Fin rat

section \<open>Rounding\<close>

definition pow2 :: "int \<Rightarrow> rat" where
  "pow2 k = (if 0 \<le> k then 2 ^ nat k else 1 / 2 ^ nat (- k))"

text \<open>The binary logarithm of a positive rational, rounded down.\<close>

definition ilog2 :: "rat \<Rightarrow> int" where
  "ilog2 x = (let (n, d) = quotient_of x; k = bitlen n - bitlen d
              in if pow2 k \<le> x then k else k - 1)"

definition round_even :: "rat \<Rightarrow> int" where
  "round_even x =
     (let f = \<lfloor>x\<rfloor>; r = x - of_int f
      in if r < 1 / 2 then f else if 1 / 2 < r then f + 1 else if even f then f else f + 1)"

text \<open>
  A binary32 value has 24 significant bits and no bit below \<open>2 ^ -149\<close>; a result of
  \<open>2 ^ 128\<close> or more overflows to infinity.
\<close>

definition f32_round :: "rat \<Rightarrow> f32" where
  "f32_round x =
     (if x = 0 then F_Fin 0
      else let e = max (ilog2 \<bar>x\<bar> - 23) (- 149);
               v = of_int (round_even (x / pow2 e)) * pow2 e
           in if pow2 128 \<le> \<bar>v\<bar> then F_Inf (x < 0) else F_Fin v)"

text \<open>
  Binary64 arithmetic, as the exact result rounded to 53 bits, ties to even. The numbers
  it is used for stay far below the overflow threshold.
\<close>

definition f64_near :: "rat \<Rightarrow> rat" where
  "f64_near x =
     (if x = 0 then 0
      else let e = max (ilog2 \<bar>x\<bar> - 52) (- 1074) in of_int (round_even (x / pow2 e)) * pow2 e)"

text \<open>A binary64 value as it is stored.\<close>

datatype f64 = D_NaN | D_Inf bool | D_Fin rat

lemma pow2_pos [simp]: "0 < pow2 k"
  by (simp add: pow2_def)

lemma round_even_nonneg: "0 \<le> x \<Longrightarrow> 0 \<le> round_even x"
  by (simp add: round_even_def Let_def)

lemma round_even_of_int [simp]: "round_even (of_int n) = n"
  by (simp add: round_even_def)

lemma f32_round_0 [simp]: "f32_round 0 = F_Fin 0"
  by (simp add: f32_round_def)

lemma f32_round_not_NaN [simp]: "f32_round x \<noteq> F_NaN"
  by (simp add: f32_round_def Let_def)

lemma pow2_powi: "pow2 k = 2 powi k"
  by (simp add: pow2_def power_int_def inverse_eq_divide power_divide)

lemma pow2_mono: "j \<le> k \<Longrightarrow> pow2 j \<le> pow2 k"
  by (simp add: pow2_powi power_int_increasing)

lemma ilog2_le:
  assumes "0 < x"
  shows "pow2 (ilog2 x) \<le> x"
proof -
  obtain n d where nd: "quotient_of x = (n, d)" by (cases "quotient_of x")
  have d: "0 < d" using quotient_of_denom_pos [OF nd] .
  have x: "x = of_int n / of_int d" using quotient_of_div [OF nd] .
  have n: "0 < n" using assms x d by (simp add: zero_less_divide_iff)
  have bn: "1 \<le> bitlen n" and bd: "1 \<le> bitlen d"
    using n d bitlen_eq_zero_iff [of n] bitlen_eq_zero_iff [of d] bitlen_nonneg [of n] bitlen_nonneg [of d]
    by linarith+
  have "(2 :: rat) ^ nat (bitlen n - 1) \<le> of_int n"
    using bitlen_bounds [OF n] by (metis of_int_le_iff of_int_numeral of_int_power)
  then have n': "(2 :: rat) powi (bitlen n - 1) \<le> of_int n" using bn by (simp add: power_int_def)
  have "of_int d \<le> (2 :: rat) ^ nat (bitlen d)"
    using bitlen_bounds [OF d] by (metis less_imp_le of_int_le_iff of_int_numeral of_int_power)
  then have d': "of_int d \<le> (2 :: rat) powi (bitlen d)" using bd by (simp add: power_int_def)
  have "pow2 (bitlen n - bitlen d - 1) = 2 powi (bitlen n - 1) / 2 powi (bitlen d)"
    by (simp add: pow2_powi power_int_diff [symmetric] algebra_simps)
  also have "\<dots> \<le> of_int n / of_int d"
    using n' d' d n by (intro frac_le) auto
  finally have "pow2 (bitlen n - bitlen d - 1) \<le> x" using x by simp
  then show ?thesis by (simp add: ilog2_def nd Let_def)
qed

lemma round_even_ge_1: "1 \<le> x \<Longrightarrow> 1 \<le> round_even x"
  by (auto simp: round_even_def Let_def le_floor_iff)

text \<open>A number of at least 1 does not round to zero.\<close>

lemma f32_round_pos:
  assumes "1 \<le> x"
  shows "f32_round x = F_Inf False \<or> (\<exists>q > 0. f32_round x = F_Fin q)"
proof -
  define e where "e = max (ilog2 \<bar>x\<bar> - 23) (- 149)"
  have "pow2 (- 149) \<le> pow2 0" by (rule pow2_mono) simp
  then have "pow2 (- 149) \<le> x" using assms by (simp add: pow2_def)
  moreover have "pow2 (ilog2 \<bar>x\<bar> - 23) \<le> x"
    using assms ilog2_le [of x] pow2_mono [of "ilog2 x - 23" "ilog2 x"] by simp
  ultimately have "pow2 e \<le> x" by (simp add: e_def max_def)
  then have "1 \<le> round_even (x / pow2 e)" by (intro round_even_ge_1) (simp add: le_divide_eq)
  then have "0 < of_int (round_even (x / pow2 e)) * pow2 e" by simp
  with assms show ?thesis
    unfolding f32_round_def Let_def e_def [symmetric] by auto
qed

lemma round_even_close: "\<bar>of_int (round_even x) - x\<bar> \<le> 1 / 2"
proof -
  have "of_int \<lfloor>x\<rfloor> \<le> x" "x < of_int \<lfloor>x\<rfloor> + 1" using floor_correct [of x] by simp_all
  then show ?thesis unfolding round_even_def Let_def by (simp add: abs_le_iff)
qed

text \<open>Away from the ends of the range, rounding is off by at most a quarter.\<close>

lemma f32_round_close:
  assumes "pow2 (- 100) \<le> x" and "x \<le> pow2 100"
  shows "\<exists>q. f32_round x = F_Fin q \<and> x * 3 / 4 \<le> q \<and> q \<le> x * 5 / 4 \<and> 0 < q"
proof -
  have x: "0 < x" using assms(1) pow2_pos [of "- 100"] by linarith
  define e where "e = max (ilog2 \<bar>x\<bar> - 23) (- 149)"
  define v where "v = of_int (round_even (x / pow2 e)) * pow2 e"
  have split: "pow2 (k + 1) = 2 * pow2 k" for k by (simp add: pow2_powi power_int_add)
  have "pow2 (ilog2 \<bar>x\<bar> - 23) \<le> pow2 (ilog2 x - 1)" using x by (intro pow2_mono) simp
  then have "2 * pow2 (ilog2 \<bar>x\<bar> - 23) \<le> x" using ilog2_le [OF x] split [of "ilog2 x - 1"] by simp
  moreover have "pow2 (- 149) \<le> pow2 (- 101)" by (rule pow2_mono) simp
  then have "2 * pow2 (- 149) \<le> x" using assms(1) split [of "- 101"] by simp
  ultimately have e: "2 * pow2 e \<le> x" by (simp add: e_def max_def)
  have "v - x = (of_int (round_even (x / pow2 e)) - x / pow2 e) * pow2 e"
    using less_imp_neq [OF pow2_pos [of e]] by (simp add: v_def left_diff_distrib)
  then have "\<bar>v - x\<bar> = \<bar>of_int (round_even (x / pow2 e)) - x / pow2 e\<bar> * pow2 e"
    by (simp add: abs_mult less_imp_le)
  also have "\<dots> \<le> 1 / 2 * pow2 e" by (intro mult_right_mono round_even_close less_imp_le [OF pow2_pos])
  finally have "\<bar>v - x\<bar> \<le> x / 4" using e by simp
  then have v: "x * 3 / 4 \<le> v" "v \<le> x * 5 / 4" by linarith+
  have "v < pow2 128" using v(2) assms(2) by (simp add: pow2_def)
  then have "f32_round x = F_Fin v"
    using x v(1) unfolding f32_round_def Let_def e_def [symmetric] v_def [symmetric] by simp
  then show ?thesis using v x by auto
qed

section \<open>Arithmetic and comparison\<close>

fun f32_add :: "f32 \<Rightarrow> f32 \<Rightarrow> f32" where
  "f32_add (F_Fin x) (F_Fin y) = f32_round (x + y)"
| "f32_add (F_Inf s) (F_Fin y) = F_Inf s"
| "f32_add (F_Fin x) (F_Inf t) = F_Inf t"
| "f32_add (F_Inf s) (F_Inf t) = (if s = t then F_Inf s else F_NaN)"
| "f32_add _ _ = F_NaN"

fun f32_mul :: "f32 \<Rightarrow> f32 \<Rightarrow> f32" where
  "f32_mul (F_Fin x) (F_Fin y) = f32_round (x * y)"
| "f32_mul (F_Inf s) (F_Fin y) = (if y = 0 then F_NaN else F_Inf (s \<noteq> (y < 0)))"
| "f32_mul (F_Fin x) (F_Inf t) = (if x = 0 then F_NaN else F_Inf (t \<noteq> (x < 0)))"
| "f32_mul (F_Inf s) (F_Inf t) = F_Inf (s \<noteq> t)"
| "f32_mul _ _ = F_NaN"

fun f32_div :: "f32 \<Rightarrow> f32 \<Rightarrow> f32" where
  "f32_div (F_Fin x) (F_Fin y) =
     (if y \<noteq> 0 then f32_round (x / y) else if x = 0 then F_NaN else F_Inf (x < 0))"
| "f32_div (F_Inf s) (F_Fin y) = F_Inf (s \<noteq> (y < 0))"
| "f32_div (F_Fin x) (F_Inf t) = F_Fin 0"
| "f32_div _ _ = F_NaN"

text \<open>Comparisons are false on NaN.\<close>

fun f32_lt :: "f32 \<Rightarrow> f32 \<Rightarrow> bool" where
  "f32_lt (F_Fin x) (F_Fin y) = (x < y)"
| "f32_lt (F_Inf s) (F_Fin y) = s"
| "f32_lt (F_Fin x) (F_Inf t) = (\<not> t)"
| "f32_lt (F_Inf s) (F_Inf t) = (s \<and> \<not> t)"
| "f32_lt _ _ = False"

fun f32_le :: "f32 \<Rightarrow> f32 \<Rightarrow> bool" where
  "f32_le (F_Fin x) (F_Fin y) = (x \<le> y)"
| "f32_le (F_Inf s) (F_Fin y) = s"
| "f32_le (F_Fin x) (F_Inf t) = (\<not> t)"
| "f32_le (F_Inf s) (F_Inf t) = (s \<or> \<not> t)"
| "f32_le _ _ = False"

definition f32_is_finite :: "f32 \<Rightarrow> bool" where
  "f32_is_finite a \<longleftrightarrow> (case a of F_Fin _ \<Rightarrow> True | _ \<Rightarrow> False)"

text \<open>\<^verbatim>\<open>f32::max\<close> and \<^verbatim>\<open>f32::min\<close> ignore a NaN; \<^verbatim>\<open>f32::clamp\<close> keeps it.\<close>

definition f32_max :: "f32 \<Rightarrow> f32 \<Rightarrow> f32" where
  "f32_max a b = (if a = F_NaN then b else if b = F_NaN then a else if f32_lt a b then b else a)"

definition f32_min :: "f32 \<Rightarrow> f32 \<Rightarrow> f32" where
  "f32_min a b = (if a = F_NaN then b else if b = F_NaN then a else if f32_lt b a then b else a)"

definition f32_clamp :: "f32 \<Rightarrow> f32 \<Rightarrow> f32 \<Rightarrow> f32" where
  "f32_clamp x lo hi = (if f32_lt x lo then lo else if f32_lt hi x then hi else x)"

text \<open>\<^verbatim>\<open>f32::total_cmp\<close>, with the (positive) NaN above everything.\<close>

definition f32_total_le :: "f32 \<Rightarrow> f32 \<Rightarrow> bool" where
  "f32_total_le a b \<longleftrightarrow> b = F_NaN \<or> a \<noteq> F_NaN \<and> f32_le a b"

definition f32_of_nat :: "nat \<Rightarrow> f32" where
  "f32_of_nat n = f32_round (of_nat n)"

definition f32_sum :: "f32 list \<Rightarrow> f32" where
  "f32_sum xs = foldl f32_add (F_Fin 0) xs"

section \<open>Facts the components use\<close>

lemma f32_add_NaN [simp]: "f32_add F_NaN b = F_NaN" "f32_add a F_NaN = F_NaN"
  by (cases b; simp) (cases a; simp)

lemma f32_mul_NaN [simp]: "f32_mul F_NaN b = F_NaN" "f32_mul a F_NaN = F_NaN"
  by (cases b; simp) (cases a; simp)

lemma f32_div_NaN [simp]: "f32_div F_NaN b = F_NaN" "f32_div a F_NaN = F_NaN"
  by (cases b; simp) (cases a; simp)

lemma f32_lt_NaN [simp]: "\<not> f32_lt F_NaN b" "\<not> f32_lt a F_NaN"
  by (cases b; simp) (cases a; simp)

lemma f32_le_NaN [simp]: "\<not> f32_le F_NaN b" "\<not> f32_le a F_NaN"
  by (cases b; simp) (cases a; simp)

lemma f32_le_refl: "a \<noteq> F_NaN \<Longrightarrow> f32_le a a"
  by (cases a) auto

lemma f32_le_trans: "f32_le a b \<Longrightarrow> f32_le b c \<Longrightarrow> f32_le a c"
  by (cases a; cases b; cases c) auto

lemma f32_lt_le_trans: "f32_lt a b \<Longrightarrow> f32_le b c \<Longrightarrow> f32_lt a c"
  by (cases a; cases b; cases c) auto

lemma f32_not_lt: "a \<noteq> F_NaN \<Longrightarrow> b \<noteq> F_NaN \<Longrightarrow> \<not> f32_lt a b \<longleftrightarrow> f32_le b a"
  by (cases a; cases b) auto

lemma f32_is_finite_iff: "f32_is_finite a \<longleftrightarrow> (\<exists>x. a = F_Fin x)"
  by (cases a) (auto simp: f32_is_finite_def)

text \<open>A NaN summand makes every later partial sum NaN.\<close>

lemma foldl_f32_add_NaN [simp]: "foldl f32_add F_NaN xs = F_NaN"
  by (induction xs) auto

lemma f32_sum_NaN: "F_NaN \<in> set xs \<Longrightarrow> f32_sum xs = F_NaN"
proof -
  assume "F_NaN \<in> set xs"
  then obtain ys zs where "xs = ys @ F_NaN # zs" by (meson split_list)
  then show ?thesis by (simp add: f32_sum_def)
qed

text \<open>Non-negative values (an infinity included) stay so under every operation used.\<close>

definition f32_nonneg :: "f32 \<Rightarrow> bool" where
  "f32_nonneg a \<longleftrightarrow> (case a of F_NaN \<Rightarrow> False | F_Inf s \<Rightarrow> \<not> s | F_Fin x \<Rightarrow> 0 \<le> x)"

lemma f32_nonneg_simps [simp]:
  "f32_nonneg (F_Fin x) \<longleftrightarrow> 0 \<le> x" "f32_nonneg (F_Inf s) \<longleftrightarrow> \<not> s" "\<not> f32_nonneg F_NaN"
  by (simp_all add: f32_nonneg_def)

lemma f32_round_nonneg [simp]: "0 \<le> x \<Longrightarrow> f32_nonneg (f32_round x)"
  by (auto simp: f32_round_def Let_def not_less less_imp_le round_even_nonneg)

lemma f32_add_nonneg: "f32_nonneg a \<Longrightarrow> f32_nonneg b \<Longrightarrow> f32_nonneg (f32_add a b)"
  by (cases a; cases b) auto

lemma f32_sum_nonneg: "\<forall>x \<in> set xs. f32_nonneg x \<Longrightarrow> f32_nonneg (f32_sum xs)"
proof -
  have "f32_nonneg a \<Longrightarrow> \<forall>x \<in> set xs. f32_nonneg x \<Longrightarrow> f32_nonneg (foldl f32_add a xs)" for a
    by (induction xs arbitrary: a) (auto simp: f32_add_nonneg)
  then show "\<forall>x \<in> set xs. f32_nonneg x \<Longrightarrow> f32_nonneg (f32_sum xs)"
    by (simp add: f32_sum_def)
qed

lemma f32_mul_pos_nonneg: "0 < q \<Longrightarrow> f32_nonneg a \<Longrightarrow> f32_nonneg (f32_mul a (F_Fin q))"
  by (cases a) auto

lemma f32_div_pos_nonneg: "0 < q \<Longrightarrow> f32_nonneg a \<Longrightarrow> f32_nonneg (f32_div a (F_Fin q))"
  by (cases a) auto

lemma f32_max_nonneg: "f32_nonneg a \<Longrightarrow> f32_nonneg (f32_max a b)"
  by (cases a; cases b) (auto simp: f32_max_def)

lemma f32_clamp_bounds:
  "x \<noteq> F_NaN \<Longrightarrow> lo \<le> hi \<Longrightarrow>
    \<exists>r. f32_clamp x (F_Fin lo) (F_Fin hi) = F_Fin r \<and> lo \<le> r \<and> r \<le> hi"
  by (cases x) (auto simp: f32_clamp_def)

text \<open>The float literals of the sources, evaluated: each is finite and positive.\<close>

named_theorems f32_lits \<open>values of the float literals\<close>

lemma f32_lit_19_20 [f32_lits]: "f32_round (19 / 20) = F_Fin (15938355 / 16777216)"
  by code_simp

lemma f32_lit_4_5 [f32_lits]: "f32_round (4 / 5) = F_Fin (13421773 / 16777216)"
  by code_simp

lemma f32_lit_7_10 [f32_lits]: "f32_round (7 / 10) = F_Fin (11744051 / 16777216)"
  by code_simp

lemma f32_lit_3_10 [f32_lits]: "f32_round (3 / 10) = F_Fin (5033165 / 16777216)"
  by code_simp

lemma f32_lit_9_10 [f32_lits]: "f32_round (9 / 10) = F_Fin (7549747 / 8388608)"
  by code_simp

lemma f32_lit_17_20 [f32_lits]: "f32_round (17 / 20) = F_Fin (7130317 / 8388608)"
  by code_simp

lemma f32_lit_3_5 [f32_lits]: "f32_round (3 / 5) = F_Fin (5033165 / 8388608)"
  by code_simp

lemma f32_lit_13_20 [f32_lits]: "f32_round (13 / 20) = F_Fin (5452595 / 8388608)"
  by code_simp

lemma f32_lit_2_5 [f32_lits]: "f32_round (2 / 5) = F_Fin (13421773 / 33554432)"
  by code_simp

lemma f32_lit_1_5 [f32_lits]: "f32_round (1 / 5) = F_Fin (13421773 / 67108864)"
  by code_simp

lemma f32_lit_1_10 [f32_lits]: "f32_round (1 / 10) = F_Fin (13421773 / 134217728)"
  by code_simp

lemma f32_lit_3_20 [f32_lits]: "f32_round (3 / 20) = F_Fin (5033165 / 33554432)"
  by code_simp

lemma f32_lit_7_20 [f32_lits]: "f32_round (7 / 20) = F_Fin (11744051 / 33554432)"
  by code_simp

lemma f32_lit_24_25 [f32_lits]: "f32_round (24 / 25) = F_Fin (16106127 / 16777216)"
  by code_simp

lemma f32_lit_49_50 [f32_lits]: "f32_round (49 / 50) = F_Fin (2055209 / 2097152)"
  by code_simp

lemma f32_is_finite_Fin [f32_lits]: "f32_is_finite (F_Fin x)"
  by (simp add: f32_is_finite_def)

end
