(* ===== verification/Events.thy ===== *)
theory Events
  imports Prelude Float32
begin

text \<open>
  The event and verdict model of \<^verbatim>\<open>crates/riggs-types\<close>: process contexts, the six kinds of
  event and their accessors and constructors, severities and threat levels with their derived
  orders, the verdicts of the detection stages and the merged verdict, and the error type.
\<close>

section \<open>Identifiers, severity, errors\<close>

datatype event_id = EventId uuid

datatype storyline_id = StorylineId uuid

datatype severity = Info | Low | Medium | High | Critical

datatype riggs_error =
    Platform string | Sensor string | Engine string | Store string | Comms string
  | Response string | Config string | Intel string | Io string | Json string | Other string

text \<open>\<^verbatim>\<open>Display\<close> of an error.\<close>

fun error_display :: "riggs_error \<Rightarrow> string" where
  "error_display (Platform s) = ''platform error: '' @ s"
| "error_display (Sensor s) = ''sensor error: '' @ s"
| "error_display (Engine s) = ''engine error: '' @ s"
| "error_display (Store s) = ''store error: '' @ s"
| "error_display (Comms s) = ''comms error: '' @ s"
| "error_display (Response s) = ''response error: '' @ s"
| "error_display (Config s) = ''config error: '' @ s"
| "error_display (Intel s) = ''intel error: '' @ s"
| "error_display (Io s) = ''io error: '' @ s"
| "error_display (Json s) = ''json error: '' @ s"
| "error_display (Other s) = s"

text \<open>\<^verbatim>\<open>#[derive(PartialOrd, Ord)]\<close> orders the variants by declaration.\<close>

fun severity_rank :: "severity \<Rightarrow> nat" where
  "severity_rank Info = 0"
| "severity_rank Low = 1"
| "severity_rank Medium = 2"
| "severity_rank High = 3"
| "severity_rank Critical = 4"

instantiation severity :: linorder
begin

definition less_eq_severity :: "severity \<Rightarrow> severity \<Rightarrow> bool" where
  "less_eq_severity a b \<longleftrightarrow> severity_rank a \<le> severity_rank b"

definition less_severity :: "severity \<Rightarrow> severity \<Rightarrow> bool" where
  "less_severity a b \<longleftrightarrow> severity_rank a < severity_rank b"

instance
proof
  fix x y :: severity
  assume "x \<le> y" and "y \<le> x"
  then show "x = y" by (cases x; cases y) (simp_all add: less_eq_severity_def)
qed (auto simp: less_eq_severity_def less_severity_def)

end

fun severity_display :: "severity \<Rightarrow> string" where
  "severity_display Info = ''INFO''"
| "severity_display Low = ''LOW''"
| "severity_display Medium = ''MEDIUM''"
| "severity_display High = ''HIGH''"
| "severity_display Critical = ''CRITICAL''"

section \<open>Process context\<close>

record process_context =
  pc_pid :: u32
  pc_ppid :: u32
  pc_name :: string
  pc_path :: string
  pc_cmdline :: string
  pc_user :: string
  pc_storyline_id :: storyline_id

definition process_context_new ::
  "u32 \<Rightarrow> u32 \<Rightarrow> string \<Rightarrow> string \<Rightarrow> string \<Rightarrow> string \<Rightarrow> storyline_id \<Rightarrow> process_context" where
  "process_context_new p pp nm pth cl u sid =
     \<lparr>pc_pid = p, pc_ppid = pp, pc_name = nm, pc_path = pth, pc_cmdline = cl, pc_user = u,
      pc_storyline_id = sid\<rparr>"

section \<open>The six kinds of event\<close>

datatype process_action = Exec | Fork | Exit

record process_event =
  pe_event_id :: event_id
  pe_timestamp :: timestamp
  pe_context :: process_context
  pe_action :: process_action
  pe_parent :: "process_context option"

datatype file_action = Create | Modify | Delete | Rename | Open | Close | Scan

record file_event =
  fe_event_id :: event_id
  fe_timestamp :: timestamp
  fe_context :: process_context
  fe_action :: file_action
  fe_path :: string
  fe_hash :: "string option"
  fe_fd :: "u32 option"

datatype network_direction = Inbound | Outbound

record network_event =
  ne_event_id :: event_id
  ne_timestamp :: timestamp
  ne_context :: process_context
  ne_direction :: network_direction
  ne_src_addr :: string
  ne_dst_addr :: string
  ne_src_port :: u16
  ne_dst_port :: u16
  ne_protocol :: string

record dns_event =
  de_event_id :: event_id
  de_timestamp :: timestamp
  de_context :: process_context
  de_query :: string
  de_response :: string
  de_query_type :: string

datatype auth_action = Login | Logout | Escalation | Failed

record auth_event =
  ae_event_id :: event_id
  ae_timestamp :: timestamp
  ae_context :: process_context
  ae_action :: auth_action
  ae_user :: string
  ae_method :: string

datatype kernel_action = ModuleLoad | SyscallFilter | MemoryExec

record kernel_event =
  ke_event_id :: event_id
  ke_timestamp :: timestamp
  ke_context :: process_context
  ke_action :: kernel_action
  ke_detail :: string

datatype riggs_event =
    Process process_event
  | File file_event
  | Network network_event
  | Dns dns_event
  | Auth auth_event
  | Kernel kernel_event

fun event_id_of :: "riggs_event \<Rightarrow> event_id" where
  "event_id_of (Process e) = pe_event_id e"
| "event_id_of (File e) = fe_event_id e"
| "event_id_of (Network e) = ne_event_id e"
| "event_id_of (Dns e) = de_event_id e"
| "event_id_of (Auth e) = ae_event_id e"
| "event_id_of (Kernel e) = ke_event_id e"

fun timestamp_of :: "riggs_event \<Rightarrow> timestamp" where
  "timestamp_of (Process e) = pe_timestamp e"
| "timestamp_of (File e) = fe_timestamp e"
| "timestamp_of (Network e) = ne_timestamp e"
| "timestamp_of (Dns e) = de_timestamp e"
| "timestamp_of (Auth e) = ae_timestamp e"
| "timestamp_of (Kernel e) = ke_timestamp e"

fun process_context_of :: "riggs_event \<Rightarrow> process_context" where
  "process_context_of (Process e) = pe_context e"
| "process_context_of (File e) = fe_context e"
| "process_context_of (Network e) = ne_context e"
| "process_context_of (Dns e) = de_context e"
| "process_context_of (Auth e) = ae_context e"
| "process_context_of (Kernel e) = ke_context e"

text \<open>\<^verbatim>\<open>process_context_mut\<close>: the write through the returned reference is the function \<open>f\<close>.\<close>

fun map_process_context :: "(process_context \<Rightarrow> process_context) \<Rightarrow> riggs_event \<Rightarrow> riggs_event" where
  "map_process_context f (Process e) = Process (e\<lparr>pe_context := f (pe_context e)\<rparr>)"
| "map_process_context f (File e) = File (e\<lparr>fe_context := f (fe_context e)\<rparr>)"
| "map_process_context f (Network e) = Network (e\<lparr>ne_context := f (ne_context e)\<rparr>)"
| "map_process_context f (Dns e) = Dns (e\<lparr>de_context := f (de_context e)\<rparr>)"
| "map_process_context f (Auth e) = Auth (e\<lparr>ae_context := f (ae_context e)\<rparr>)"
| "map_process_context f (Kernel e) = Kernel (e\<lparr>ke_context := f (ke_context e)\<rparr>)"

definition storyline_id_of :: "riggs_event \<Rightarrow> storyline_id" where
  "storyline_id_of e = pc_storyline_id (process_context_of e)"

fun event_severity :: "riggs_event \<Rightarrow> severity" where
  "event_severity (Process e) =
     (case pe_action e of Exec \<Rightarrow> Info | Fork \<Rightarrow> Info | Exit \<Rightarrow> Info)"
| "event_severity (File e) =
     (case fe_action e of
        Open \<Rightarrow> Info | Close \<Rightarrow> Info | Scan \<Rightarrow> Info
      | Create \<Rightarrow> Low | Modify \<Rightarrow> Low | Rename \<Rightarrow> Low
      | Delete \<Rightarrow> Medium)"
| "event_severity (Network e) =
     (case ne_direction e of Outbound \<Rightarrow> Low | Inbound \<Rightarrow> Medium)"
| "event_severity (Dns e) = Info"
| "event_severity (Auth e) =
     (case ae_action e of Login \<Rightarrow> Info | Logout \<Rightarrow> Info | Failed \<Rightarrow> Medium | Escalation \<Rightarrow> High)"
| "event_severity (Kernel e) =
     (case ke_action e of ModuleLoad \<Rightarrow> High | SyscallFilter \<Rightarrow> Medium | MemoryExec \<Rightarrow> Critical)"

section \<open>Constructors and rendering\<close>

definition new_process ::
  "event_id \<Rightarrow> timestamp \<Rightarrow> process_action \<Rightarrow> process_context \<Rightarrow> process_context option \<Rightarrow> riggs_event"
where
  "new_process eid now act ctx parent =
     Process \<lparr>pe_event_id = eid, pe_timestamp = now, pe_context = ctx, pe_action = act,
              pe_parent = parent\<rparr>"

definition new_file ::
  "event_id \<Rightarrow> timestamp \<Rightarrow> file_action \<Rightarrow> process_context \<Rightarrow> string \<Rightarrow> string option \<Rightarrow> riggs_event"
where
  "new_file eid now act ctx pth h =
     File \<lparr>fe_event_id = eid, fe_timestamp = now, fe_context = ctx, fe_action = act,
           fe_path = pth, fe_hash = h, fe_fd = None\<rparr>"

definition new_file_with_fd ::
  "event_id \<Rightarrow> timestamp \<Rightarrow> file_action \<Rightarrow> process_context \<Rightarrow> string \<Rightarrow> string option \<Rightarrow> u32 \<Rightarrow> riggs_event"
where
  "new_file_with_fd eid now act ctx pth h d =
     File \<lparr>fe_event_id = eid, fe_timestamp = now, fe_context = ctx, fe_action = act,
           fe_path = pth, fe_hash = h, fe_fd = Some d\<rparr>"

definition new_network ::
  "event_id \<Rightarrow> timestamp \<Rightarrow> network_direction \<Rightarrow> process_context \<Rightarrow> string \<Rightarrow> string \<Rightarrow> u16 \<Rightarrow> u16 \<Rightarrow> string
   \<Rightarrow> riggs_event"
where
  "new_network eid now dir ctx src dst sp dp proto =
     Network \<lparr>ne_event_id = eid, ne_timestamp = now, ne_context = ctx, ne_direction = dir,
              ne_src_addr = src, ne_dst_addr = dst, ne_src_port = sp, ne_dst_port = dp,
              ne_protocol = proto\<rparr>"

definition new_dns ::
  "event_id \<Rightarrow> timestamp \<Rightarrow> process_context \<Rightarrow> string \<Rightarrow> string \<Rightarrow> string \<Rightarrow> riggs_event"
where
  "new_dns eid now ctx q r qt =
     Dns \<lparr>de_event_id = eid, de_timestamp = now, de_context = ctx, de_query = q,
          de_response = r, de_query_type = qt\<rparr>"

definition new_auth ::
  "event_id \<Rightarrow> timestamp \<Rightarrow> auth_action \<Rightarrow> process_context \<Rightarrow> string \<Rightarrow> string \<Rightarrow> riggs_event"
where
  "new_auth eid now act ctx u m =
     Auth \<lparr>ae_event_id = eid, ae_timestamp = now, ae_context = ctx, ae_action = act,
           ae_user = u, ae_method = m\<rparr>"

definition new_kernel ::
  "event_id \<Rightarrow> timestamp \<Rightarrow> kernel_action \<Rightarrow> process_context \<Rightarrow> string \<Rightarrow> riggs_event"
where
  "new_kernel eid now act ctx d =
     Kernel \<lparr>ke_event_id = eid, ke_timestamp = now, ke_context = ctx, ke_action = act,
             ke_detail = d\<rparr>"

fun event_display :: "riggs_event \<Rightarrow> string" where
  "event_display (Process e) =
     ''[PROCESS] pid='' @ show_nat (unat (pc_pid (pe_context e))) @ '' '' @
     (case pe_action e of Exec \<Rightarrow> ''exec'' | Fork \<Rightarrow> ''fork'' | Exit \<Rightarrow> ''exit'') @ '' '' @
     pc_path (pe_context e)"
| "event_display (File e) =
     ''[FILE] pid='' @ show_nat (unat (pc_pid (fe_context e))) @ '' '' @
     (case fe_action e of
        Create \<Rightarrow> ''create'' | Modify \<Rightarrow> ''modify'' | Delete \<Rightarrow> ''delete'' | Rename \<Rightarrow> ''rename''
      | Open \<Rightarrow> ''open'' | Close \<Rightarrow> ''close'' | Scan \<Rightarrow> ''scan'') @ '' '' @ fe_path e"
| "event_display (Network e) =
     ''[NETWORK] pid='' @ show_nat (unat (pc_pid (ne_context e))) @ '' '' @
     (case ne_direction e of Inbound \<Rightarrow> ''inbound'' | Outbound \<Rightarrow> ''outbound'') @ '' '' @
     ne_src_addr e @ '':'' @ show_nat (unat (ne_src_port e)) @ '' -> '' @
     ne_dst_addr e @ '':'' @ show_nat (unat (ne_dst_port e))"
| "event_display (Dns e) =
     ''[DNS] pid='' @ show_nat (unat (pc_pid (de_context e))) @ '' '' @
     de_query e @ '' -> '' @ de_response e"
| "event_display (Auth e) =
     ''[AUTH] pid='' @ show_nat (unat (pc_pid (ae_context e))) @ '' '' @
     (case ae_action e of
        Login \<Rightarrow> ''login'' | Logout \<Rightarrow> ''logout'' | Escalation \<Rightarrow> ''escalation''
      | Failed \<Rightarrow> ''failed'') @ '' user='' @ ae_user e"
| "event_display (Kernel e) =
     ''[KERNEL] pid='' @ show_nat (unat (pc_pid (ke_context e))) @ '' '' @
     (case ke_action e of
        ModuleLoad \<Rightarrow> ''module_load'' | SyscallFilter \<Rightarrow> ''syscall_filter''
      | MemoryExec \<Rightarrow> ''memory_exec'') @ '' '' @ ke_detail e"

lemma process_context_of_map [event_simps, simp]:
  "process_context_of (map_process_context f e) = f (process_context_of e)"
  by (cases e) auto

lemma event_id_of_map [event_simps, simp]: "event_id_of (map_process_context f e) = event_id_of e"
  by (cases e) auto

lemma timestamp_of_map [event_simps, simp]:
  "timestamp_of (map_process_context f e) = timestamp_of e"
  by (cases e) auto

section \<open>Verdicts\<close>

datatype threat_level = Clean | Suspicious | Malicious

fun threat_rank :: "threat_level \<Rightarrow> nat" where
  "threat_rank Clean = 0"
| "threat_rank Suspicious = 1"
| "threat_rank Malicious = 2"

instantiation threat_level :: linorder
begin

definition less_eq_threat_level :: "threat_level \<Rightarrow> threat_level \<Rightarrow> bool" where
  "less_eq_threat_level a b \<longleftrightarrow> threat_rank a \<le> threat_rank b"

definition less_threat_level :: "threat_level \<Rightarrow> threat_level \<Rightarrow> bool" where
  "less_threat_level a b \<longleftrightarrow> threat_rank a < threat_rank b"

instance
proof
  fix x y :: threat_level
  assume "x \<le> y" and "y \<le> x"
  then show "x = y" by (cases x; cases y) (simp_all add: less_eq_threat_level_def)
qed (auto simp: less_eq_threat_level_def less_threat_level_def)

end

lemma Clean_least [simp]: "Clean \<le> l"
  by (cases l) (simp_all add: less_eq_threat_level_def)

lemma Malicious_greatest [simp]: "l \<le> Malicious" "Malicious \<le> l \<longleftrightarrow> l = Malicious"
  by (cases l; simp add: less_eq_threat_level_def)+

lemma le_Clean_iff [simp]: "l \<le> Clean \<longleftrightarrow> l = Clean"
  by (cases l) (simp_all add: less_eq_threat_level_def)

lemma Clean_less_iff [simp]: "Clean < l \<longleftrightarrow> l \<noteq> Clean"
  by (cases l) (simp_all add: less_threat_level_def)

fun threat_level_display :: "threat_level \<Rightarrow> string" where
  "threat_level_display Clean = ''CLEAN''"
| "threat_level_display Suspicious = ''SUSPICIOUS''"
| "threat_level_display Malicious = ''MALICIOUS''"

datatype detection_source =
  StaticAI | BehavioralAI | YaraRule | IocMatch | CustomRule | ThreatIntel | Dlp

fun detection_source_display :: "detection_source \<Rightarrow> string" where
  "detection_source_display StaticAI = ''StaticAI''"
| "detection_source_display BehavioralAI = ''BehavioralAI''"
| "detection_source_display YaraRule = ''YaraRule''"
| "detection_source_display IocMatch = ''IocMatch''"
| "detection_source_display CustomRule = ''CustomRule''"
| "detection_source_display ThreatIntel = ''ThreatIntel''"
| "detection_source_display Dlp = ''DLP''"

record verdict =
  v_event_id :: event_id
  v_threat_level :: threat_level
  v_confidence :: f32
  v_source :: detection_source
  v_description :: string
  v_timestamp :: timestamp

definition verdict_new ::
  "timestamp \<Rightarrow> event_id \<Rightarrow> threat_level \<Rightarrow> f32 \<Rightarrow> detection_source \<Rightarrow> string \<Rightarrow> verdict" where
  "verdict_new now eid lvl conf src desc =
     \<lparr>v_event_id = eid, v_threat_level = lvl, v_confidence = conf, v_source = src,
      v_description = desc, v_timestamp = now\<rparr>"

record merged_verdict =
  mv_event_id :: event_id
  mv_final_threat_level :: threat_level
  mv_verdicts :: "verdict list"
  mv_storyline_id :: storyline_id

definition from_verdicts :: "event_id \<Rightarrow> storyline_id \<Rightarrow> verdict list \<Rightarrow> merged_verdict" where
  "from_verdicts eid sid vs =
     \<lparr>mv_event_id = eid,
      mv_final_threat_level =
        (case iter_max (map v_threat_level vs) of Some l \<Rightarrow> l | None \<Rightarrow> Clean),
      mv_verdicts = vs, mv_storyline_id = sid\<rparr>"

text \<open>A float literal of the source is the nearest binary32 value.\<close>

abbreviation f32_lit :: "rat \<Rightarrow> f32" where
  "f32_lit q \<equiv> f32_round q"

end
