(* ===== verification/Engine.thy ===== *)
theory Engine
  imports Events
begin

text \<open>
  \<^verbatim>\<open>crates/riggs-engine\<close>: which stages an event is routed to, the run of the routed stages with
  their time budget, and the weighted merge of their verdicts. The contract of a detection
  stage is the locale \<open>detection_stage\<close>; every stage modelled in this development interprets it.
\<close>

section \<open>Stages and routing\<close>

datatype stage_verdict =
    SV_Clean
  | SV_Suspicious verdict
  | SV_Malicious verdict
  | SV_Error string

type_synonym analysis = "riggs_error + stage_verdict"

definition THREAT_INTEL :: string where "THREAT_INTEL = ''threat-intel''"
definition STATIC_AI :: string where "STATIC_AI = ''static-ai''"
definition RULES :: string where "RULES = ''rules''"
definition BEHAVIORAL_AI :: string where "BEHAVIORAL_AI = ''behavioral-ai''"
definition DLP :: string where "DLP = ''dlp''"

fun stages_for_event :: "riggs_event \<Rightarrow> string list" where
  "stages_for_event (File _) = [THREAT_INTEL, STATIC_AI, RULES, BEHAVIORAL_AI, DLP]"
| "stages_for_event (Process _) = [RULES, BEHAVIORAL_AI]"
| "stages_for_event (Network _) = [THREAT_INTEL, RULES, BEHAVIORAL_AI, DLP]"
| "stages_for_event (Dns _) = [THREAT_INTEL, RULES, BEHAVIORAL_AI]"
| "stages_for_event (Auth _) = [RULES, BEHAVIORAL_AI]"
| "stages_for_event (Kernel _) = [RULES, BEHAVIORAL_AI]"

text \<open>
  \<^verbatim>\<open>tokio::time::timeout\<close> around a stage's \<^verbatim>\<open>analyze\<close> either completes with the stage's result or
  elapses. What happens, how long it takes and the clock afterwards are the environment's: the
  field \<open>ts_analyze\<close> of a registered stage is that environment, over the shared state \<open>'w\<close> the
  stages keep (their trackers, correlators and caches).
\<close>

datatype 'r timed = Completed 'r | Elapsed

record 'w tracked_stage =
  ts_name :: string
  ts_source :: detection_source
  ts_analyze :: "'w \<Rightarrow> riggs_event \<Rightarrow> 'w \<times> analysis timed \<times> nat \<times> timestamp"
  ts_total_duration_us :: u64
  ts_invocations :: u64

record 'w detection_pipeline =
  dp_stages :: "'w tracked_stage list"
  dp_events_processed :: u64
  dp_verdicts_issued :: u64
  dp_malicious_threshold :: f32
  dp_suspicious_threshold :: f32

definition pipeline_new :: "'w detection_pipeline" where
  "pipeline_new =
     \<lparr>dp_stages = [], dp_events_processed = 0, dp_verdicts_issued = 0,
      dp_malicious_threshold = f32_lit (7 / 10), dp_suspicious_threshold = f32_lit (3 / 10)\<rparr>"

definition with_merge_thresholds :: "f32 \<Rightarrow> f32 \<Rightarrow> 'w detection_pipeline \<Rightarrow> 'w detection_pipeline" where
  "with_merge_thresholds mal sus p =
     p\<lparr>dp_malicious_threshold := mal, dp_suspicious_threshold := sus\<rparr>"

definition add_stage ::
  "string \<Rightarrow> detection_source \<Rightarrow> ('w \<Rightarrow> riggs_event \<Rightarrow> 'w \<times> analysis timed \<times> nat \<times> timestamp)
   \<Rightarrow> 'w detection_pipeline \<Rightarrow> 'w detection_pipeline" where
  "add_stage nm src f p =
     p\<lparr>dp_stages := dp_stages p @
         [\<lparr>ts_name = nm, ts_source = src, ts_analyze = f, ts_total_duration_us = 0,
           ts_invocations = 0\<rparr>]\<rparr>"

section \<open>Merging verdicts\<close>

definition usable :: "verdict \<Rightarrow> bool" where
  "usable v \<longleftrightarrow> f32_is_finite (v_confidence v) \<and> f32_lt (F_Fin 0) (v_confidence v)"

fun threat_weight :: "threat_level \<Rightarrow> f32" where
  "threat_weight Clean = F_Fin 0"
| "threat_weight Suspicious = F_Fin (1 / 2)"
| "threat_weight Malicious = F_Fin 1"

definition merge_verdicts_weighted :: "verdict list \<Rightarrow> f32 \<Rightarrow> f32 \<Rightarrow> threat_level" where
  "merge_verdicts_weighted verdicts malicious_threshold suspicious_threshold =
     (let us = filter usable verdicts in
      if us = [] then Clean
      else
        let total_confidence = f32_sum (map v_confidence us);
            weighted_score =
              f32_sum (map (\<lambda>v. f32_mul (threat_weight (v_threat_level v)) (v_confidence v)) us);
            average = f32_div weighted_score total_confidence;
            weighted_level =
              (if f32_le malicious_threshold average then Malicious
               else if f32_le suspicious_threshold average then Suspicious
               else Clean);
            max_individual =
              (case iter_max (map v_threat_level us) of Some l \<Rightarrow> l | None \<Rightarrow> Clean)
        in max weighted_level max_individual)"

definition collect_verdict :: "analysis \<Rightarrow> verdict list \<Rightarrow> verdict list" where
  "collect_verdict result verdicts =
     (case result of
        Inr SV_Clean \<Rightarrow> verdicts
      | Inr (SV_Suspicious v) \<Rightarrow> verdicts @ [v]
      | Inr (SV_Malicious v) \<Rightarrow> verdicts @ [v]
      | Inr (SV_Error _) \<Rightarrow> verdicts
      | Inl _ \<Rightarrow> verdicts)"

section \<open>Running an event\<close>

definition timeout_verdict :: "timestamp \<Rightarrow> riggs_event \<Rightarrow> nat \<Rightarrow> 'w tracked_stage \<Rightarrow> verdict" where
  "timeout_verdict now ev timeout_ms st =
     verdict_new now (event_id_of ev) Suspicious (F_Fin (1 / 2)) (ts_source st)
       (ts_name st @ '' analysis timed out after '' @ show_nat timeout_ms @ '' ms'')"

fun is_file :: "riggs_event \<Rightarrow> bool" where
  "is_file (File _) = True"
| "is_file _ = False"

text \<open>The body of the loop over the stages, for one stage that is routed.\<close>

definition run_stage ::
  "riggs_event \<Rightarrow> nat \<Rightarrow> 'w \<Rightarrow> 'w tracked_stage \<Rightarrow> verdict list
   \<Rightarrow> 'w \<times> 'w tracked_stage \<times> verdict list" where
  "run_stage ev timeout_ms w st verdicts =
     (let (w', result, elapsed_us, now) = ts_analyze st w ev;
          st' = st\<lparr>ts_total_duration_us := ts_total_duration_us st + of_nat elapsed_us,
                   ts_invocations := ts_invocations st + 1\<rparr>
      in (w', st',
          case result of
            Completed r \<Rightarrow> collect_verdict r verdicts
          | Elapsed \<Rightarrow>
              if is_file ev then verdicts @ [timeout_verdict now ev timeout_ms st] else verdicts))"

fun run_stages ::
  "riggs_event \<Rightarrow> nat \<Rightarrow> 'w \<Rightarrow> 'w tracked_stage list \<Rightarrow> verdict list
   \<Rightarrow> 'w \<times> 'w tracked_stage list \<times> verdict list" where
  "run_stages ev timeout_ms w [] verdicts = (w, [], verdicts)"
| "run_stages ev timeout_ms w (st # sts) verdicts =
     (if ts_name st \<notin> set (stages_for_event ev)
      then let (w', sts', vs') = run_stages ev timeout_ms w sts verdicts in (w', st # sts', vs')
      else let (w1, st1, vs1) = run_stage ev timeout_ms w st verdicts;
               (w2, sts2, vs2) = run_stages ev timeout_ms w1 sts vs1
           in (w2, st1 # sts2, vs2))"

definition pipeline_run ::
  "riggs_event \<Rightarrow> nat \<Rightarrow> 'w \<Rightarrow> 'w detection_pipeline \<Rightarrow> 'w \<times> 'w detection_pipeline \<times> merged_verdict"
where
  "pipeline_run ev timeout_ms w p =
     (let (w', sts', verdicts) = run_stages ev timeout_ms w (dp_stages p) [];
          lvl = merge_verdicts_weighted verdicts (dp_malicious_threshold p) (dp_suspicious_threshold p)
      in (w',
          p\<lparr>dp_stages := sts',
            dp_events_processed := dp_events_processed p + 1,
            dp_verdicts_issued :=
              (if Clean < lvl then dp_verdicts_issued p + 1 else dp_verdicts_issued p)\<rparr>,
          \<lparr>mv_event_id = event_id_of ev, mv_final_threat_level = lvl, mv_verdicts = verdicts,
           mv_storyline_id = storyline_id_of ev\<rparr>))"

record pipeline_stats =
  st_events_processed :: u64
  st_verdicts_issued :: u64
  st_stage_timings :: "(string \<times> u64 \<times> u64) list"

definition pipeline_stats_of :: "'w detection_pipeline \<Rightarrow> pipeline_stats" where
  "pipeline_stats_of p =
     \<lparr>st_events_processed = dp_events_processed p, st_verdicts_issued = dp_verdicts_issued p,
      st_stage_timings =
        map (\<lambda>st. (ts_name st, ts_total_duration_us st, ts_invocations st)) (dp_stages p)\<rparr>"

section \<open>The contract of a detection stage\<close>

text \<open>
  What the merge relies on: a stage that reports Suspicious or Malicious hands over a verdict
  at that level, for the event it analysed, with a confidence the merge does not discard.
\<close>

definition reports :: "riggs_event \<Rightarrow> threat_level \<Rightarrow> verdict \<Rightarrow> bool" where
  "reports ev lvl v \<longleftrightarrow> v_threat_level v = lvl \<and> v_event_id v = event_id_of ev \<and> usable v"

definition well_reported :: "riggs_event \<Rightarrow> analysis \<Rightarrow> bool" where
  "well_reported ev r \<longleftrightarrow>
     (\<forall>v. r = Inr (SV_Suspicious v) \<longrightarrow> reports ev Suspicious v) \<and>
     (\<forall>v. r = Inr (SV_Malicious v) \<longrightarrow> reports ev Malicious v)"

fun level_of :: "analysis \<Rightarrow> threat_level" where
  "level_of (Inr (SV_Suspicious _)) = Suspicious"
| "level_of (Inr (SV_Malicious _)) = Malicious"
| "level_of _ = Clean"

lemma merge_no_usable:
  "filter usable vs = [] \<Longrightarrow> merge_verdicts_weighted vs m s = Clean"
  by (simp add: merge_verdicts_weighted_def)

lemma merge_filter_usable:
  "merge_verdicts_weighted (filter usable vs) m s = merge_verdicts_weighted vs m s"
  by (simp add: merge_verdicts_weighted_def filter_filter [symmetric] del: filter_filter)

lemma merge_at_least:
  assumes "v \<in> set vs" and "usable v"
  shows "v_threat_level v \<le> merge_verdicts_weighted vs m s"
proof -
  let ?us = "filter usable vs"
  have v: "v \<in> set ?us" and ne: "?us \<noteq> []" using assms by (auto simp: filter_empty_conv)
  then obtain l where l: "iter_max (map v_threat_level ?us) = Some l"
    by (cases "iter_max (map v_threat_level ?us)") auto
  with v have "v_threat_level v \<le> l" using iter_max_Some by fastforce
  with l ne show ?thesis
    by (simp add: merge_verdicts_weighted_def Let_def le_max_iff_disj del: filter_filter)
qed

lemma collect_verdict_mono: "set vs \<subseteq> set (collect_verdict r vs)"
  by (auto simp: collect_verdict_def split: sum.splits stage_verdict.splits)

lemma reported_merged:
  assumes "well_reported ev r"
  shows "level_of r \<le> merge_verdicts_weighted (collect_verdict r vs @ ws) mal sus"
proof (cases r)
  case (Inr sv)
  have "level_of (Inr sv) \<le> merge_verdicts_weighted (collect_verdict (Inr sv) vs @ ws) mal sus"
  proof (cases sv)
    case (SV_Suspicious v)
    with assms Inr have "usable v" "v_threat_level v = Suspicious"
      by (auto simp: well_reported_def reports_def)
    with SV_Suspicious show ?thesis
      using merge_at_least [of v "collect_verdict (Inr sv) vs @ ws"] by (simp add: collect_verdict_def)
  next
    case (SV_Malicious v)
    with assms Inr have "usable v" "v_threat_level v = Malicious"
      by (auto simp: well_reported_def reports_def)
    with SV_Malicious show ?thesis
      using merge_at_least [of v "collect_verdict (Inr sv) vs @ ws"] by (simp add: collect_verdict_def)
  qed auto
  with Inr show ?thesis by simp
qed auto

locale detection_stage =
  fixes analyze :: "'s \<Rightarrow> riggs_event \<Rightarrow> 's \<times> analysis"
  assumes reported: "well_reported ev (snd (analyze s ev))"
begin

text \<open>Whatever the other stages said, the merge is at least what this stage reported.\<close>

lemma merged_at_least:
  "level_of (snd (analyze s ev)) \<le>
     merge_verdicts_weighted (collect_verdict (snd (analyze s ev)) vs @ ws) mal sus"
  by (rule reported_merged [OF reported])

lemma reported_event_id:
  "set (collect_verdict (snd (analyze s ev)) []) \<subseteq> {v. v_event_id v = event_id_of ev}"
proof (cases "snd (analyze s ev)")
  case (Inr sv)
  with reported [of ev s] show ?thesis
    by (cases sv) (auto simp: collect_verdict_def well_reported_def reports_def)
qed (simp add: collect_verdict_def)

end

section \<open>Properties of the pipeline\<close>

lemma collect_verdict_append: "\<exists>ns. collect_verdict r vs = vs @ ns"
  by (auto simp: collect_verdict_def split: sum.splits stage_verdict.splits)

lemma run_stage_append:
  "run_stage ev t w st vs = (w', st', vs') \<Longrightarrow> \<exists>ns. vs' = vs @ ns"
  using collect_verdict_append
  by (auto simp: run_stage_def Let_def split: prod.splits timed.splits if_splits)

definition routed :: "riggs_event \<Rightarrow> 'w tracked_stage \<Rightarrow> bool" where
  "routed ev st \<longleftrightarrow> ts_name st \<in> set (stages_for_event ev)"

lemma run_stages_ConsE:
  assumes "run_stages ev t w (st # sts) vs = (w', sts', vs')"
  obtains (skip) sts2 where "\<not> routed ev st" "run_stages ev t w sts vs = (w', sts2, vs')"
      "sts' = st # sts2"
    | (run) w1 st1 vs1 sts2 where "routed ev st" "run_stage ev t w st vs = (w1, st1, vs1)"
      "run_stages ev t w1 sts vs1 = (w', sts2, vs')" "sts' = st1 # sts2"
  using assms by (cases "routed ev st") (auto simp: routed_def Let_def split: prod.splits)

lemma run_stages_append:
  "run_stages ev t w sts vs = (w', sts', vs') \<Longrightarrow> \<exists>ns. vs' = vs @ ns"
proof (induction sts arbitrary: w vs w' sts' vs')
  case (Cons st sts)
  from Cons.prems show ?case
    by (cases rule: run_stages_ConsE) (use Cons.IH run_stage_append in fastforce)+
qed simp

lemma run_stage_counts:
  "run_stage ev t w st vs = (w', st', vs') \<Longrightarrow>
     ts_name st' = ts_name st \<and> ts_source st' = ts_source st \<and> ts_analyze st' = ts_analyze st \<and>
     ts_invocations st' = ts_invocations st + 1"
  by (auto simp: run_stage_def Let_def split: prod.splits)

text \<open>How one run changes a registered stage.\<close>

definition stage_after :: "riggs_event \<Rightarrow> 'w tracked_stage \<Rightarrow> 'w tracked_stage \<Rightarrow> bool" where
  "stage_after ev st st' \<longleftrightarrow>
     ts_name st' = ts_name st \<and> ts_source st' = ts_source st \<and> ts_analyze st' = ts_analyze st \<and>
     ts_invocations st' = ts_invocations st + (if routed ev st then 1 else 0) \<and>
     (\<not> routed ev st \<longrightarrow> st' = st)"

lemma run_stages_after:
  "run_stages ev t w sts vs = (w', sts', vs') \<Longrightarrow> list_all2 (stage_after ev) sts sts'"
proof (induction sts arbitrary: w vs w' sts' vs')
  case (Cons st sts)
  from Cons.prems show ?case
  proof (cases rule: run_stages_ConsE)
    case (skip sts2)
    with Cons.IH show ?thesis by (simp add: stage_after_def)
  next
    case (run w1 st1 vs1 sts2)
    with Cons.IH run_stage_counts [OF run(2)] show ?thesis by (simp add: stage_after_def)
  qed
qed simp

text \<open>A part of the shared state that no routed stage touches is unchanged by the run.\<close>

lemma run_stages_frame:
  assumes "run_stages ev t w sts vs = (w', sts', vs')"
    and "\<And>st w. st \<in> set sts \<Longrightarrow> routed ev st \<Longrightarrow> f (fst (ts_analyze st w ev)) = f w"
  shows "f w' = f w"
  using assms
proof (induction sts arbitrary: w vs w' sts' vs')
  case (Cons st sts)
  from Cons.prems(1) show ?case
  proof (cases rule: run_stages_ConsE)
    case (skip sts2)
    with Cons show ?thesis by simp
  next
    case (run w1 st1 vs1 sts2)
    then have "w1 = fst (ts_analyze st w ev)"
      by (auto simp: run_stage_def Let_def split: prod.splits)
    with Cons.prems(2) run(1) have "f w1 = f w" by simp
    with Cons.IH [OF run(3)] Cons.prems(2) show ?thesis by simp
  qed
qed simp

lemma run_stages_timeout:
  assumes "run_stages ev t w sts vs = (w', sts', vs')" and "is_file ev"
    and "st \<in> set sts" and "routed ev st"
    and "\<And>w. fst (snd (ts_analyze st w ev)) = Elapsed"
  shows "\<exists>now. timeout_verdict now ev t st \<in> set vs'"
  using assms(1,3)
proof (induction sts arbitrary: w vs w' sts' vs')
  case (Cons st' sts)
  from Cons.prems(1) show ?case
  proof (cases rule: run_stages_ConsE)
    case (skip sts2)
    with Cons assms(4) show ?thesis by auto
  next
    case (run w1 st1 vs1 sts2)
    show ?thesis
    proof (cases "st = st'")
      case True
      with run(2) assms(2) assms(5) [of w] have "\<exists>now. timeout_verdict now ev t st \<in> set vs1"
        by (auto simp: run_stage_def Let_def split: prod.splits)
      with run_stages_append [OF run(3)] show ?thesis by auto
    next
      case False
      with Cons.IH [OF run(3)] Cons.prems(2) show ?thesis by simp
    qed
  qed
qed simp

lemma timeout_verdict_usable: "usable (timeout_verdict now ev t st)"
  by (simp add: usable_def timeout_verdict_def verdict_new_def f32_is_finite_def)

lemma pipeline_run_unfold:
  assumes "pipeline_run ev t w p = (w', p', mv)"
  obtains sts' where "run_stages ev t w (dp_stages p) [] = (w', sts', mv_verdicts mv)"
    and "dp_stages p' = sts'"
    and "mv_final_threat_level mv =
      merge_verdicts_weighted (mv_verdicts mv) (dp_malicious_threshold p) (dp_suspicious_threshold p)"
  using assms by (auto simp: pipeline_run_def Let_def split: prod.splits)

lemma weighted_level_antimono:
  assumes "f32_le m m'" and "f32_le s s'"
  shows "(if f32_le m' a then Malicious else if f32_le s' a then Suspicious else Clean)
    \<le> (if f32_le m a then Malicious else if f32_le s a then Suspicious else Clean)"
  using assms f32_le_trans by (auto simp: less_eq_threat_level_def)

text \<open>
  C1: the merged verdict is never diluted. For every list of stage verdicts and every pair of
  thresholds, the merged level is at least the level of each verdict whose confidence is a
  finite positive number, verdicts with another confidence (NaN, infinite, zero, negative) have
  no influence at all, and with no usable verdict the merge is Clean.
\<close>

theorem merge_never_dilutes:
  "merge_verdicts_weighted vs m s = merge_verdicts_weighted (filter usable vs) m s \<and>
   (\<forall>v \<in> set vs. usable v \<longrightarrow> v_threat_level v \<le> merge_verdicts_weighted vs m s) \<and>
   (filter usable vs = [] \<longrightarrow> merge_verdicts_weighted vs m s = Clean)"
  using merge_filter_usable merge_at_least merge_no_usable by auto

definition sample_verdict :: "threat_level \<Rightarrow> f32 \<Rightarrow> verdict" where
  "sample_verdict l c = verdict_new 0 (EventId 1) l c StaticAI ''sample''"

theorem merge_never_dilutes_witness:
  "usable (sample_verdict Malicious (F_Fin (9 / 10))) \<and>
   merge_verdicts_weighted
     [sample_verdict Malicious F_NaN, sample_verdict Malicious (F_Fin (9 / 10)),
      sample_verdict Suspicious (F_Fin (1 / 2))] (f32_lit (7 / 10)) (f32_lit (3 / 10)) = Malicious"
proof -
  let ?vs = "[sample_verdict Malicious F_NaN, sample_verdict Malicious (F_Fin (9 / 10)),
      sample_verdict Suspicious (F_Fin (1 / 2))]"
  have u: "usable (sample_verdict Malicious (F_Fin (9 / 10)))"
    by (simp add: usable_def sample_verdict_def verdict_new_def f32_is_finite_def)
  have "v_threat_level (sample_verdict Malicious (F_Fin (9 / 10)))
      \<le> merge_verdicts_weighted ?vs (f32_lit (7 / 10)) (f32_lit (3 / 10))"
    using merge_never_dilutes [of ?vs "f32_lit (7 / 10)" "f32_lit (3 / 10)"] u
    by (meson list.set_intros)
  with u show ?thesis by (simp add: sample_verdict_def verdict_new_def)
qed

text \<open>
  An operator who raises the merge thresholds can only make the merged level lower, never
  higher, and lowering them can only make it higher.
\<close>

theorem merge_threshold_antimono:
  assumes "f32_le m m'" and "f32_le s s'"
  shows "merge_verdicts_weighted vs m' s' \<le> merge_verdicts_weighted vs m s"
  using weighted_level_antimono [OF assms]
  by (simp add: merge_verdicts_weighted_def Let_def max.coboundedI1 del: filter_filter)

theorem merge_threshold_antimono_witness:
  "merge_verdicts_weighted [sample_verdict Suspicious (F_Fin (1 / 2))] (F_Fin 1) (F_Fin 1)
     \<le> merge_verdicts_weighted [sample_verdict Suspicious (F_Fin (1 / 2))] (F_Fin (1 / 2)) (F_Fin 0)"
  by (rule merge_threshold_antimono) simp_all

text \<open>
  Routing. One run of the pipeline keeps the registered stages and their order; a stage is
  invoked exactly once when its name is routed for the kind of the event and its invocation
  counter shows it, and a stage that is not routed is left exactly as it was.
\<close>

theorem pipeline_routing:
  assumes "pipeline_run ev t w p = (w', p', mv)"
  shows "list_all2 (stage_after ev) (dp_stages p) (dp_stages p') \<and>
    dp_events_processed p' = dp_events_processed p + 1 \<and>
    mv_event_id mv = event_id_of ev \<and> mv_storyline_id mv = storyline_id_of ev"
proof -
  have "list_all2 (stage_after ev) (dp_stages p) (dp_stages p')"
    using pipeline_run_unfold [OF assms] run_stages_after by metis
  then show ?thesis
    using assms by (auto simp: pipeline_run_def Let_def split: prod.splits)
qed

definition sample_context :: process_context where
  "sample_context = process_context_new 42 1 ''t'' ''/bin/t'' ''t'' ''root'' (StorylineId 7)"

definition stuck_stage :: "nat tracked_stage" where
  "stuck_stage =
     \<lparr>ts_name = BEHAVIORAL_AI, ts_source = BehavioralAI,
      ts_analyze = (\<lambda>w _. (w, Elapsed, 20000, 5)), ts_total_duration_us = 0, ts_invocations = 0\<rparr>"

definition stuck_pipeline :: "nat detection_pipeline" where
  "stuck_pipeline = pipeline_new\<lparr>dp_stages := [stuck_stage]\<rparr>"

definition sample_file :: riggs_event where
  "sample_file = new_file (EventId 3) 1 Create sample_context ''/tmp/crafted'' None"

lemmas sample_defs = sample_context_def stuck_stage_def stuck_pipeline_def sample_file_def
  new_file_def pipeline_new_def

theorem pipeline_routing_witness:
  "list_all2 (stage_after sample_file) (dp_stages stuck_pipeline)
     (dp_stages (fst (snd (pipeline_run sample_file 20 0 stuck_pipeline))))"
  using pipeline_routing [of sample_file 20 0 stuck_pipeline
      "fst (pipeline_run sample_file 20 0 stuck_pipeline)"
      "fst (snd (pipeline_run sample_file 20 0 stuck_pipeline))"
      "snd (snd (pipeline_run sample_file 20 0 stuck_pipeline))"] by simp

text \<open>
  C2: an unfinished analysis of a file never reads as Clean. If a stage routed for a file event
  runs out of its time budget, the merged verdict of that event is at least Suspicious, whatever
  the other stages report and whatever the thresholds are.
\<close>

theorem file_timeout_not_clean:
  assumes "pipeline_run ev t w p = (w', p', mv)" and "is_file ev"
    and "st \<in> set (dp_stages p)" and "routed ev st"
    and "\<And>w. fst (snd (ts_analyze st w ev)) = Elapsed"
  shows "Suspicious \<le> mv_final_threat_level mv"
proof -
  obtain sts' where r: "run_stages ev t w (dp_stages p) [] = (w', sts', mv_verdicts mv)"
    and l: "mv_final_threat_level mv =
      merge_verdicts_weighted (mv_verdicts mv) (dp_malicious_threshold p) (dp_suspicious_threshold p)"
    using pipeline_run_unfold [OF assms(1)] by metis
  obtain now where "timeout_verdict now ev t st \<in> set (mv_verdicts mv)"
    using run_stages_timeout [OF r assms(2-5)] by blast
  with l show ?thesis
    using merge_at_least [OF _ timeout_verdict_usable]
    by (fastforce simp: timeout_verdict_def verdict_new_def)
qed

theorem file_timeout_not_clean_witness:
  "Suspicious \<le> mv_final_threat_level (snd (snd (pipeline_run sample_file 20 0 stuck_pipeline)))"
  by (rule file_timeout_not_clean [of sample_file 20 0 stuck_pipeline
        "fst (pipeline_run sample_file 20 0 stuck_pipeline)"
        "fst (snd (pipeline_run sample_file 20 0 stuck_pipeline))" _ stuck_stage])
    (simp_all add: sample_defs routed_def)

end
