(* ===== verification/Configuration.thy ===== *)
theory Configuration
  imports Events
begin

text \<open>
  The configuration of \<^verbatim>\<open>crates/riggs-types/src/config.rs\<close>: one record per struct, in the
  order of its fields, and its \<^verbatim>\<open>Default\<close>. Counts of type \<^verbatim>\<open>usize\<close> are naturals. What the daemon
  serialises of it is in the theory \<open>Config_Json\<close>.
\<close>

section \<open>Egress\<close>

record egress_baseline =
  eb_dns :: bool
  eb_dhcp_ntp :: bool
  eb_loopback :: bool

definition egress_baseline_default :: egress_baseline where
  "egress_baseline_default = \<lparr>eb_dns = True, eb_dhcp_ntp = True, eb_loopback = True\<rparr>"

record egress_process_rule =
  epr_process :: string
  epr_allow_domains :: "string list"
  epr_allow_cidrs :: "string list"

record egress_config =
  ec_enabled :: bool
  ec_mode :: string
  ec_allow_domains :: "string list"
  ec_allow_cidrs :: "string list"
  ec_allow_ports :: "u16 list"
  ec_baseline :: egress_baseline
  ec_process_rules :: "egress_process_rule list"
  ec_resolve_interval_secs :: u64

definition egress_config_default :: egress_config where
  "egress_config_default =
     \<lparr>ec_enabled = False, ec_mode = ''monitor'', ec_allow_domains = [], ec_allow_cidrs = [],
      ec_allow_ports = [], ec_baseline = egress_baseline_default, ec_process_rules = [],
      ec_resolve_interval_secs = 60\<rparr>"

section \<open>Detection and engine\<close>

record detection_config =
  dc_exfil_outbound_threshold :: nat
  dc_rapid_encryption_file_threshold :: nat
  dc_rapid_encryption_window_secs :: int
  dc_threat_score_threshold :: f32
  dc_persistence_paths :: "string list"

definition detection_config_default :: detection_config where
  "detection_config_default =
     \<lparr>dc_exfil_outbound_threshold = 50,
      dc_rapid_encryption_file_threshold = 10,
      dc_rapid_encryption_window_secs = 5,
      dc_threat_score_threshold = F_Fin (1 / 2),
      dc_persistence_paths =
        [''/Library/LaunchDaemons'', ''/Library/LaunchAgents'', ''~/Library/LaunchAgents'',
         ''.config/autostart'', ''/etc/cron.d'', ''/etc/crontab'', ''/var/spool/cron'',
         ''/etc/systemd/system'', ''/usr/lib/systemd/system'', ''/etc/init.d'', ''/etc/rc.local'',
         ''/.ssh/authorized_keys'']\<rparr>"

record engine_config =
  en_static_ai_enabled :: bool
  en_behavioral_ai_enabled :: bool
  en_rules_enabled :: bool
  en_merge_malicious_threshold :: f32
  en_merge_suspicious_threshold :: f32
  en_static_ai_max_scan_mib :: u64
  en_stage_timeout_ms :: u64
  en_behavioral_max_events_per_storyline :: nat
  en_behavioral_max_storylines :: nat
  en_storyline_max_events :: nat
  en_storyline_idle_secs :: u64
  en_static_ai_model_path :: string
  en_storyline_prune_interval_secs :: u64
  en_health_check_secs :: u64
  en_retention_sweep_secs :: u64

definition engine_config_default :: engine_config where
  "engine_config_default =
     \<lparr>en_static_ai_enabled = True, en_behavioral_ai_enabled = True, en_rules_enabled = True,
      en_merge_malicious_threshold = f32_lit (7 / 10),
      en_merge_suspicious_threshold = f32_lit (3 / 10),
      en_static_ai_max_scan_mib = 64, en_stage_timeout_ms = 5000,
      en_behavioral_max_events_per_storyline = 512, en_behavioral_max_storylines = 4096,
      en_storyline_max_events = 1024, en_storyline_idle_secs = 3600,
      en_static_ai_model_path = ''/var/lib/riggs/models/static.onnx'',
      en_storyline_prune_interval_secs = 60, en_health_check_secs = 30,
      en_retention_sweep_secs = 6 * 60 * 60\<rparr>"

section \<open>Response\<close>

record response_config =
  rc_auto_respond :: bool
  rc_kill_on_critical :: bool
  rc_quarantine_on_malicious :: bool
  rc_quarantine_path :: string
  rc_pf_conf_path :: string
  rc_preemptive_snapshots :: bool
  rc_snapshot_path :: string
  rc_snapshot_max_file_mib :: u64
  rc_snapshot_retention_hours :: u64

definition response_config_default :: response_config where
  "response_config_default =
     \<lparr>rc_auto_respond = True, rc_kill_on_critical = True, rc_quarantine_on_malicious = True,
      rc_quarantine_path = ''/var/lib/riggs/quarantine'',
      rc_pf_conf_path = ''/var/lib/riggs/pf-containment.conf'',
      rc_preemptive_snapshots = True, rc_snapshot_path = ''/var/lib/riggs/snapshots'',
      rc_snapshot_max_file_mib = 64, rc_snapshot_retention_hours = 24\<rparr>"

section \<open>Data loss prevention\<close>

record watched_domain =
  wd_pattern :: string
  wd_category :: string

record dlp_file_types =
  ft_block :: "string list"
  ft_alert :: "string list"

record dlp_exclusions =
  dx_names :: "string list"

record dlp_config =
  dlpc_enabled :: bool
  dlpc_action :: string
  dlpc_correlation_window_secs :: u64
  dlpc_watched_domains :: "watched_domain list"
  dlpc_file_types :: dlp_file_types
  dlpc_excluded_processes :: dlp_exclusions

definition dlp_file_types_default :: dlp_file_types where
  "dlp_file_types_default =
     \<lparr>ft_block = [''pptx'', ''xlsx'', ''docx'', ''pdf'', ''ppt'', ''xls'', ''doc''],
      ft_alert = [''csv'', ''json'']\<rparr>"

definition dlp_exclusions_default :: dlp_exclusions where
  "dlp_exclusions_default = \<lparr>dx_names = [''softwareupdated'', ''nsurlsessiond'']\<rparr>"

definition dlp_config_default :: dlp_config where
  "dlp_config_default =
     \<lparr>dlpc_enabled = False, dlpc_action = ''block'', dlpc_correlation_window_secs = 30,
      dlpc_watched_domains =
        [\<lparr>wd_pattern = ''claude.ai'', wd_category = ''ai-assistant''\<rparr>,
         \<lparr>wd_pattern = ''*.anthropic.com'', wd_category = ''ai-assistant''\<rparr>,
         \<lparr>wd_pattern = ''chatgpt.com'', wd_category = ''ai-assistant''\<rparr>,
         \<lparr>wd_pattern = ''*.openai.com'', wd_category = ''ai-assistant''\<rparr>],
      dlpc_file_types = dlp_file_types_default,
      dlpc_excluded_processes = dlp_exclusions_default\<rparr>"

section \<open>Rules, sensor and store\<close>

record rules_config =
  rul_rules_dir :: string

definition rules_config_default :: rules_config where
  "rules_config_default = \<lparr>rul_rules_dir = ''/etc/riggs/rules''\<rparr>"

record sensor_config =
  sen_enabled_sources :: "string list"
  sen_poll_interval_ms :: u64

definition sensor_config_default :: sensor_config where
  "sensor_config_default =
     \<lparr>sen_enabled_sources = [''process'', ''file'', ''network'', ''dns'', ''auth''],
      sen_poll_interval_ms = 100\<rparr>"

record store_config =
  sto_db_path :: string
  sto_retention_days :: u32
  sto_compression_enabled :: bool
  sto_batch_max :: nat
  sto_batch_flush_ms :: u64

definition store_config_default :: store_config where
  "store_config_default =
     \<lparr>sto_db_path = ''/var/lib/riggs/riggs.db'', sto_retention_days = 90, sto_compression_enabled = True,
      sto_batch_max = 64, sto_batch_flush_ms = 250\<rparr>"

section \<open>Communication\<close>

record cloud_tls_config =
  tls_ca_cert_path :: "string option"
  tls_client_cert_path :: "string option"
  tls_client_key_path :: "string option"
  tls_domain_name :: "string option"

definition cloud_tls_config_default :: cloud_tls_config where
  "cloud_tls_config_default =
     \<lparr>tls_ca_cert_path = None, tls_client_cert_path = None, tls_client_key_path = None, tls_domain_name = None\<rparr>"

record comms_config =
  cm_socket_path :: string
  cm_filter_socket_path :: string
  cm_cloud_enabled :: bool
  cm_cloud_endpoint :: "string option"
  cm_enrollment_token :: "string option"
  cm_heartbeat_interval_secs :: u64
  cm_tls :: cloud_tls_config
  cm_require_tls :: bool
  cm_ipc_max_message_bytes :: nat
  cm_ipc_max_connections :: nat

definition comms_config_default :: comms_config where
  "comms_config_default =
     \<lparr>cm_socket_path = ''/var/run/riggs.sock'',
      cm_filter_socket_path =
        ''/private/var/root/Library/Group Containers/3KSC5YWCZ6.com.riggs/riggs-filter.sock'',
      cm_cloud_enabled = False, cm_cloud_endpoint = None, cm_enrollment_token = None,
      cm_heartbeat_interval_secs = 30, cm_tls = cloud_tls_config_default, cm_require_tls = True,
      cm_ipc_max_message_bytes = 8 * 1024 * 1024, cm_ipc_max_connections = 32\<rparr>"

section \<open>Threat intelligence\<close>

record vt_config =
  vt_enabled :: bool
  vt_api_key :: string

definition vt_config_default :: vt_config where
  "vt_config_default = \<lparr>vt_enabled = False, vt_api_key = []\<rparr>"

record abuseipdb_config =
  abi_enabled :: bool
  abi_api_key :: string

definition abuseipdb_config_default :: abuseipdb_config where
  "abuseipdb_config_default = \<lparr>abi_enabled = False, abi_api_key = []\<rparr>"

record feeds_config =
  fds_abusech_auth_key :: string
  fds_malwarebazaar_enabled :: bool
  fds_malwarebazaar_interval_hours :: u32
  fds_urlhaus_enabled :: bool
  fds_urlhaus_interval_hours :: u32
  fds_osv_enabled :: bool
  fds_osv_interval_hours :: u32

definition feeds_config_default :: feeds_config where
  "feeds_config_default =
     \<lparr>fds_abusech_auth_key = [],
      fds_malwarebazaar_enabled = True, fds_malwarebazaar_interval_hours = 24,
      fds_urlhaus_enabled = True, fds_urlhaus_interval_hours = 1,
      fds_osv_enabled = True, fds_osv_interval_hours = 24\<rparr>"

record intel_config =
  ic_enabled :: bool
  ic_cache_path :: string
  ic_cache_ttl_clean_hours :: u32
  ic_cache_ttl_malicious_hours :: u32
  ic_virustotal :: vt_config
  ic_abuseipdb :: abuseipdb_config
  ic_feeds :: feeds_config
  ic_bloom_capacity :: nat
  ic_bloom_false_positive_rate :: f64

definition intel_config_default :: intel_config where
  "intel_config_default =
     \<lparr>ic_enabled = True, ic_cache_path = ''/var/lib/riggs/intel_cache.db'',
      ic_cache_ttl_clean_hours = 24, ic_cache_ttl_malicious_hours = 168,
      ic_virustotal = vt_config_default, ic_abuseipdb = abuseipdb_config_default,
      ic_feeds = feeds_config_default, ic_bloom_capacity = 1000000,
      ic_bloom_false_positive_rate = D_Fin (f64_near (1 / 1000))\<rparr>"

section \<open>The whole configuration\<close>

record riggs_config =
  rg_sensor :: sensor_config
  rg_engine :: engine_config
  rg_store :: store_config
  rg_comms :: comms_config
  rg_response :: response_config
  rg_intel :: intel_config
  rg_dlp :: dlp_config
  rg_detection :: detection_config
  rg_egress :: egress_config
  rg_rules :: rules_config

definition riggs_config_default :: riggs_config where
  "riggs_config_default =
     \<lparr>rg_sensor = sensor_config_default, rg_engine = engine_config_default,
      rg_store = store_config_default, rg_comms = comms_config_default,
      rg_response = response_config_default, rg_intel = intel_config_default,
      rg_dlp = dlp_config_default, rg_detection = detection_config_default,
      rg_egress = egress_config_default, rg_rules = rules_config_default\<rparr>"

end
