(* ===== verification/Behavior.thy ===== *)
theory Behavior
  imports Engine Configuration
begin

text \<open>
  \<^verbatim>\<open>crates/riggs-behavioral-ai\<close>: the tracker keeps the recent events of each storyline and looks for
  eight behaviour patterns in them (\<^verbatim>\<open>tracker.rs\<close>, \<^verbatim>\<open>patterns.rs\<close>); the stage turns the worst
  pattern into a verdict (\<^verbatim>\<open>stage.rs\<close>). The argument \<open>lower\<close> is \<^verbatim>\<open>str::to_lowercase\<close>, the Unicode lower
  case of a string.
\<close>

section \<open>Patterns\<close>

datatype behavior_pattern =
    RapidFileEncryption
  | ProcessInjection
  | PrivilegeEscalation
  | LateralMovement
  | DataExfiltration u8
  | PersistenceMechanism
  | SuspiciousChildProcess
  | CryptoMining u8

fun pattern_severity :: "behavior_pattern \<Rightarrow> severity" where
  "pattern_severity RapidFileEncryption = Critical"
| "pattern_severity ProcessInjection = Critical"
| "pattern_severity PrivilegeEscalation = High"
| "pattern_severity LateralMovement = High"
| "pattern_severity (DataExfiltration signals) = (if 2 \<le> signals then High else Medium)"
| "pattern_severity (CryptoMining signals) = (if 2 \<le> signals then High else Medium)"
| "pattern_severity PersistenceMechanism = Medium"
| "pattern_severity SuspiciousChildProcess = Medium"

fun pattern_description :: "behavior_pattern \<Rightarrow> string" where
  "pattern_description RapidFileEncryption =
     ''Rapid sequential file encryption detected, consistent with ransomware behavior''"
| "pattern_description ProcessInjection =
     ''Process memory injection detected, code injected into remote process''"
| "pattern_description PrivilegeEscalation = ''Unexpected privilege escalation detected''"
| "pattern_description LateralMovement =
     ''Network-based lateral movement pattern detected across hosts''"
| "pattern_description (DataExfiltration _) =
     ''Archive staged then sent out of the host, possible data exfiltration''"
| "pattern_description PersistenceMechanism =
     ''Persistence mechanism installed (LaunchDaemon, crontab, systemd, SSH authorized_keys, or registry)''"
| "pattern_description SuspiciousChildProcess =
     ''Suspicious child process spawned from unexpected parent (e.g., shell from Office app)''"
| "pattern_description (CryptoMining _) =
     ''High CPU usage combined with mining pool network connections''"

fun mitre_technique :: "behavior_pattern \<Rightarrow> string" where
  "mitre_technique RapidFileEncryption = ''T1486''"
| "mitre_technique ProcessInjection = ''T1055''"
| "mitre_technique PrivilegeEscalation = ''T1548''"
| "mitre_technique LateralMovement = ''T1021''"
| "mitre_technique (DataExfiltration _) = ''T1041''"
| "mitre_technique PersistenceMechanism = ''T1543''"
| "mitre_technique SuspiciousChildProcess = ''T1059''"
| "mitre_technique (CryptoMining _) = ''T1496''"

section \<open>Tracker\<close>

record behavior_tracker =
  tr_storylines :: "(storyline_id, riggs_event list) hmap"
  tr_max_events_per_storyline :: nat
  tr_max_storylines :: nat
  tr_exfil_threshold :: nat
  tr_rapid_file_threshold :: nat
  tr_rapid_window_secs :: int
  tr_persistence_paths :: "string list"

definition tracker_new :: behavior_tracker where
  "tracker_new =
     \<lparr>tr_storylines = [], tr_max_events_per_storyline = 512, tr_max_storylines = 4096,
      tr_exfil_threshold = dc_exfil_outbound_threshold detection_config_default,
      tr_rapid_file_threshold = dc_rapid_encryption_file_threshold detection_config_default,
      tr_rapid_window_secs = dc_rapid_encryption_window_secs detection_config_default,
      tr_persistence_paths = dc_persistence_paths detection_config_default\<rparr>"

definition tracker_with_limits :: "nat \<Rightarrow> nat \<Rightarrow> behavior_tracker \<Rightarrow> behavior_tracker" where
  "tracker_with_limits max_events max_storylines t =
     t\<lparr>tr_max_events_per_storyline := max max_events 1, tr_max_storylines := max max_storylines 1\<rparr>"

definition tracker_with_detection :: "detection_config \<Rightarrow> behavior_tracker \<Rightarrow> behavior_tracker" where
  "tracker_with_detection cfg t =
     t\<lparr>tr_exfil_threshold := dc_exfil_outbound_threshold cfg,
       tr_rapid_file_threshold := dc_rapid_encryption_file_threshold cfg,
       tr_rapid_window_secs := dc_rapid_encryption_window_secs cfg,
       tr_persistence_paths := dc_persistence_paths cfg\<rparr>"

definition least_recently_active :: "behavior_tracker \<Rightarrow> storyline_id option" where
  "least_recently_active t =
     map_option fst (min_by_key snd
       (List.map_filter (\<lambda>(sid, events).
          if events = [] then None else Some (sid, timestamp_of (last events))) (tr_storylines t)))"

definition track :: "riggs_event \<Rightarrow> behavior_tracker \<Rightarrow> behavior_tracker" where
  "track ev t =
     (let sid = storyline_id_of ev;
          kept =
            (if hm_get (tr_storylines t) sid = None \<and> tr_max_storylines t \<le> length (tr_storylines t)
             then (case least_recently_active t of
                     Some oldest \<Rightarrow> hm_remove oldest (tr_storylines t)
                   | None \<Rightarrow> tr_storylines t)
             else tr_storylines t);
          events = (case hm_get kept sid of Some es \<Rightarrow> es | None \<Rightarrow> [])
      in t\<lparr>tr_storylines :=
             hm_insert sid (push_drain events ev (tr_max_events_per_storyline t)) kept\<rparr>)"

definition storyline_event_count :: "behavior_tracker \<Rightarrow> storyline_id \<Rightarrow> nat" where
  "storyline_event_count t sid =
     (case hm_get (tr_storylines t) sid of Some es \<Rightarrow> length es | None \<Rightarrow> 0)"

subsection \<open>Rapid file encryption\<close>

fun file_modify :: "riggs_event \<Rightarrow> (timestamp \<times> string) option" where
  "file_modify (File fe) = (if fe_action fe = Modify then Some (fe_timestamp fe, fe_path fe) else None)"
| "file_modify _ = None"

definition unique_paths :: "duration \<Rightarrow> timestamp \<Rightarrow> (timestamp \<times> string) list \<Rightarrow> string list" where
  "unique_paths window ts ms =
     remdups (map snd (takeWhile (\<lambda>(other_ts, _). \<not> window < other_ts - ts) ms))"

fun rapid_scan :: "nat \<Rightarrow> duration \<Rightarrow> (timestamp \<times> string) list \<Rightarrow> bool" where
  "rapid_scan threshold window [] = False"
| "rapid_scan threshold window ((ts, p) # ms) =
     (threshold \<le> length (unique_paths window ts ((ts, p) # ms)) \<or> rapid_scan threshold window ms)"

definition check_rapid_file_encryption :: "behavior_tracker \<Rightarrow> riggs_event list \<Rightarrow> behavior_pattern option" where
  "check_rapid_file_encryption t events =
     (let ms = List.map_filter file_modify events in
      if length ms < tr_rapid_file_threshold t then None
      else if rapid_scan (tr_rapid_file_threshold t) (seconds (tr_rapid_window_secs t)) ms
      then Some RapidFileEncryption
      else None)"

subsection \<open>Injection and escalation\<close>

fun memory_exec :: "riggs_event \<Rightarrow> bool" where
  "memory_exec (Kernel k) = (ke_action k = MemoryExec)"
| "memory_exec _ = False"

definition check_process_injection :: "riggs_event list \<Rightarrow> behavior_pattern option" where
  "check_process_injection events =
     (if list_ex memory_exec events then Some ProcessInjection else None)"

fun auth_of :: "riggs_event \<Rightarrow> auth_event option" where
  "auth_of (Auth ae) = Some ae"
| "auth_of _ = None"

fun exec_of :: "riggs_event \<Rightarrow> process_event option" where
  "exec_of (Process pe) = (if pe_action pe = Exec then Some pe else None)"
| "exec_of _ = None"

fun failed_then_login :: "auth_event list \<Rightarrow> bool" where
  "failed_then_login [] = False"
| "failed_then_login (a # as) =
     (ae_action a = Failed \<and>
        list_ex (\<lambda>b. ae_action b = Login \<and> ae_user a = ae_user b \<and>
                     ae_timestamp b - ae_timestamp a \<le> seconds 60) as \<or>
      failed_then_login as)"

definition ESCALATION_COMMANDS :: "string list" where
  "ESCALATION_COMMANDS = [''sudo'', ''su'', ''pkexec'', ''doas'', ''runuser'']"

definition basename :: "string \<Rightarrow> string" where
  "basename s = last (split_by (\<lambda>c. c = CHR ''/'') s)"

definition escalation_command :: "(string \<Rightarrow> string) \<Rightarrow> process_event \<Rightarrow> bool" where
  "escalation_command lower pe =
     (let tok = (case first_token (lower (pc_cmdline (pe_context pe))) of Some t \<Rightarrow> t | None \<Rightarrow> [])
      in basename tok \<in> set ESCALATION_COMMANDS)"

definition is_root_user :: "process_context \<Rightarrow> bool" where
  "is_root_user ctx = (pc_user ctx = ''root'' \<or> pc_user ctx = ''0'')"

definition root_from_user :: "process_event \<Rightarrow> bool" where
  "root_from_user pe =
     (case pe_parent pe of
        Some parent \<Rightarrow> is_root_user (pe_context pe) \<and> \<not> is_root_user parent
      | None \<Rightarrow> False)"

definition check_privilege_escalation ::
  "(string \<Rightarrow> string) \<Rightarrow> riggs_event list \<Rightarrow> behavior_pattern option" where
  "check_privilege_escalation lower events =
     (let auths = List.map_filter auth_of events; execs = List.map_filter exec_of events in
      if list_ex (\<lambda>a. ae_action a = Escalation) auths then Some PrivilegeEscalation
      else if 2 \<le> length auths \<and> failed_then_login auths then Some PrivilegeEscalation
      else if list_ex (escalation_command lower) execs then Some PrivilegeEscalation
      else if list_ex root_from_user execs then Some PrivilegeEscalation
      else None)"

subsection \<open>Lateral movement\<close>

definition is_internal_ip :: "string \<Rightarrow> bool" where
  "is_internal_ip addr =
     (let parts = split_by (\<lambda>c. c = CHR ''.'') addr in
      if length parts \<noteq> 4 then False
      else case map (parse_unsigned 256) parts of
        [Some a, Some b, Some _, Some _] \<Rightarrow>
          a = 10 \<or> a = 172 \<and> 16 \<le> b \<and> b \<le> 31 \<or> a = 192 \<and> b = 168 \<or> a = 127
      | _ \<Rightarrow> False)"

definition LATERAL_PORTS :: "u16 list" where
  "LATERAL_PORTS = [22, 135, 445, 3389, 5985, 5986]"

definition LATERAL_HOST_THRESHOLD :: nat where "LATERAL_HOST_THRESHOLD = 3"

fun outbound_of :: "riggs_event \<Rightarrow> network_event option" where
  "outbound_of (Network ne) = (if ne_direction ne = Outbound then Some ne else None)"
| "outbound_of _ = None"

fun dns_of :: "riggs_event \<Rightarrow> dns_event option" where
  "dns_of (Dns de) = Some de"
| "dns_of _ = None"

definition lateral_hosts :: "riggs_event list \<Rightarrow> string list" where
  "lateral_hosts events =
     remdups (map ne_dst_addr
       (filter (\<lambda>ne. ne_dst_port ne \<in> set LATERAL_PORTS \<and> is_internal_ip (ne_dst_addr ne) \<and>
                     \<not> starts_with (ne_dst_addr ne) ''127.'')
          (List.map_filter outbound_of events)))"

definition dns_then_connect :: "dns_event \<Rightarrow> network_event \<Rightarrow> bool" where
  "dns_then_connect de ne =
     (\<not> ne_timestamp ne < de_timestamp de \<and>
      \<not> seconds 30 < ne_timestamp ne - de_timestamp de \<and>
      (de_query de = ne_dst_addr ne \<or> trim_end_matches (CHR ''.'') (de_query de) = ne_dst_addr ne))"

definition auth_near_connect :: "auth_event \<Rightarrow> network_event \<Rightarrow> bool" where
  "auth_near_connect ae ne =
     ((ae_action ae = Failed \<or> ae_action ae = Login) \<and> pc_pid (ae_context ae) = pc_pid (ne_context ne) \<and>
      (if ae_timestamp ae < ne_timestamp ne then ne_timestamp ne - ae_timestamp ae
       else ae_timestamp ae - ne_timestamp ne) \<le> seconds 60)"

definition check_lateral_movement :: "riggs_event list \<Rightarrow> behavior_pattern option" where
  "check_lateral_movement events =
     (let outs = List.map_filter outbound_of events;
          internal = filter (\<lambda>ne. is_internal_ip (ne_dst_addr ne)) outs
      in if LATERAL_HOST_THRESHOLD \<le> length (lateral_hosts events) then Some LateralMovement
         else if list_ex (\<lambda>de. list_ex (dns_then_connect de) outs) (List.map_filter dns_of events)
         then Some LateralMovement
         else if list_ex (\<lambda>ae. list_ex (auth_near_connect ae) internal) (List.map_filter auth_of events)
         then Some LateralMovement
         else None)"

subsection \<open>Exfiltration and persistence\<close>

definition ARCHIVE_EXTENSIONS :: "string list" where
  "ARCHIVE_EXTENSIONS =
     [''zip'', ''tar'', ''gz'', ''tgz'', ''bz2'', ''xz'', ''zst'', ''7z'', ''rar'', ''gpg'', ''enc'']"

definition STANDARD_PORTS :: "u16 list" where
  "STANDARD_PORTS = [80, 443, 53, 25, 587, 993, 995, 5222]"

fun archive_staged :: "riggs_event \<Rightarrow> timestamp option" where
  "archive_staged (File fe) =
     (if (fe_action fe = Create \<or> fe_action fe = Modify) \<and> \<not> str_contains (fe_path fe) ''/Downloads/'' \<and>
         (case path_extension (fe_path fe) of
            Some x \<Rightarrow> to_ascii_lowercase x \<in> set ARCHIVE_EXTENSIONS
          | None \<Rightarrow> False)
      then Some (fe_timestamp fe) else None)"
| "archive_staged _ = None"

definition external_outbound :: "riggs_event list \<Rightarrow> network_event list" where
  "external_outbound events =
     filter (\<lambda>ne. \<not> is_internal_ip (ne_dst_addr ne)) (List.map_filter outbound_of events)"

definition check_data_exfiltration :: "behavior_tracker \<Rightarrow> riggs_event list \<Rightarrow> behavior_pattern option" where
  "check_data_exfiltration t events =
     (case iter_max (List.map_filter archive_staged events) of
        None \<Rightarrow> None
      | Some staged_at \<Rightarrow>
          if \<not> list_ex (\<lambda>ne. staged_at \<le> ne_timestamp ne) (external_outbound events) then None
          else Some (DataExfiltration
            (1 + (if tr_exfil_threshold t \<le> length (external_outbound events) then 1 else 0) +
             (if 5 \<le> length (filter (\<lambda>ne. ne_dst_port ne \<notin> set STANDARD_PORTS) (external_outbound events))
              then 1 else 0))))"

fun persists :: "(string \<Rightarrow> string) \<Rightarrow> string list \<Rightarrow> riggs_event \<Rightarrow> bool" where
  "persists lower paths (File fe) =
     ((fe_action fe = Create \<or> fe_action fe = Modify) \<and>
      list_ex (\<lambda>p. str_contains (lower (fe_path fe)) (lower p)) paths)"
| "persists lower paths _ = False"

definition check_persistence_mechanism ::
  "(string \<Rightarrow> string) \<Rightarrow> behavior_tracker \<Rightarrow> riggs_event list \<Rightarrow> behavior_pattern option" where
  "check_persistence_mechanism lower t events =
     (if list_ex (persists lower (tr_persistence_paths t)) events then Some PersistenceMechanism else None)"

subsection \<open>Suspicious children and mining\<close>

definition SUSPICIOUS_PARENTS :: "string list" where
  "SUSPICIOUS_PARENTS =
     [''office'', ''word'', ''winword'', ''excel'', ''powerpoint'', ''powerpnt'', ''outlook'', ''pdf'',
      ''acrobat'', ''acrord32'', ''preview'', ''evince'', ''libreoffice'', ''soffice'', ''pages'',
      ''numbers'', ''keynote'']"

definition SHELL_BINARIES :: "string list" where
  "SHELL_BINARIES =
     [''/bin/sh'', ''/bin/bash'', ''/bin/zsh'', ''/usr/bin/sh'', ''/usr/bin/bash'', ''/usr/bin/zsh'',
      ''/bin/dash'', ''python'', ''python3'', ''perl'', ''ruby'', ''powershell'', ''pwsh'', ''cmd.exe'']"

definition suspicious_child :: "(string \<Rightarrow> string) \<Rightarrow> process_event \<Rightarrow> bool" where
  "suspicious_child lower pe =
     (case pe_parent pe of
        None \<Rightarrow> False
      | Some parent \<Rightarrow>
          list_ex (\<lambda>token. token \<in> set SUSPICIOUS_PARENTS)
            (split_by (\<lambda>c. \<not> is_ascii_alphanumeric c) (lower (pc_name parent))) \<and>
          list_ex (\<lambda>s. str_contains (lower (pc_path (pe_context pe))) s \<or>
                       str_contains (lower (pc_name (pe_context pe))) s) SHELL_BINARIES)"

definition check_suspicious_child_process ::
  "(string \<Rightarrow> string) \<Rightarrow> riggs_event list \<Rightarrow> behavior_pattern option" where
  "check_suspicious_child_process lower events =
     (if list_ex (suspicious_child lower) (List.map_filter exec_of events)
      then Some SuspiciousChildProcess else None)"

definition MINING_PORTS :: "u16 list" where
  "MINING_PORTS = [3333, 4433, 4444, 5555, 6666, 7777, 8333, 8888, 9999, 14444, 14445, 45700, 55555]"

definition MINING_DOMAINS :: "string list" where
  "MINING_DOMAINS =
     [''f2pool.com'', ''nicehash.com'', ''pool.ethermine.org'', ''solo.ethermine.org'', ''ethermine.org'',
      ''2miners.com'', ''herominers.com'', ''miningpoolhub.com'', ''coinhive.com'', ''minexmr.com'',
      ''coinpot.co'', ''miningrigrentals.com'', ''poolin.com'', ''antpool.com'', ''pool.btc.com'',
      ''btc.com'', ''slushpool.com'', ''wafflepool.com'', ''hashvault.pro'', ''hashflare.io'',
      ''genuinevesta.com'', ''pool.bitcoin.com'', ''navpool.com'']"

definition MINER_NAMES :: "string list" where
  "MINER_NAMES =
     [''xmrig'', ''cpuminer'', ''minerd'', ''ethminer'', ''ethdcrminer'', ''ccminer'', ''bfgminer'',
      ''cgminer'', ''lolminers'', ''t-rex'', ''minergate'', ''cryptonight'', ''randomx'']"

definition CHILD_EXEC_THRESHOLD :: nat where "CHILD_EXEC_THRESHOLD = 10"
definition EXEC_WINDOW_SECS :: int where "EXEC_WINDOW_SECS = 60"

definition mining_port :: "riggs_event list \<Rightarrow> bool" where
  "mining_port events =
     list_ex (\<lambda>ne. ne_dst_port ne \<in> set MINING_PORTS) (List.map_filter outbound_of events)"

definition mining_domain :: "(string \<Rightarrow> string) \<Rightarrow> riggs_event list \<Rightarrow> bool" where
  "mining_domain lower events =
     list_ex (\<lambda>de. list_ex (\<lambda>domain. str_contains (lower (de_query de)) domain \<or>
                                    str_contains (lower (de_response de)) domain) MINING_DOMAINS)
       (List.map_filter dns_of events)"

fun miner_process :: "(string \<Rightarrow> string) \<Rightarrow> riggs_event \<Rightarrow> bool" where
  "miner_process lower (Process pe) =
     list_ex (\<lambda>miner. str_contains (lower (pc_name (pe_context pe))) miner \<or>
                      str_contains (lower (pc_path (pe_context pe))) miner \<or>
                      str_contains (lower (pc_cmdline (pe_context pe))) miner) MINER_NAMES"
| "miner_process lower _ = False"

fun exec_storm :: "timestamp list \<Rightarrow> bool" where
  "exec_storm [] = False"
| "exec_storm (t # ts) =
     (CHILD_EXEC_THRESHOLD \<le> length (takeWhile (\<lambda>u. num_seconds (u - t) \<le> EXEC_WINDOW_SECS) (t # ts)) \<or>
      exec_storm ts)"

definition check_crypto_mining :: "(string \<Rightarrow> string) \<Rightarrow> riggs_event list \<Rightarrow> behavior_pattern option" where
  "check_crypto_mining lower events =
     (let execs = map pe_timestamp (List.map_filter exec_of events);
          storm = (CHILD_EXEC_THRESHOLD \<le> length execs \<and> exec_storm execs);
          score = (if mining_port events then 1 else 0) + (if mining_domain lower events then 1 else 0) +
                  (if list_ex (miner_process lower) events then 1 else 0) + (if storm then 1 else 0) :: u8
      in if score = 0 then None
         else if score = 1 \<and> mining_port events then None
         else Some (CryptoMining score))"

definition check_patterns ::
  "(string \<Rightarrow> string) \<Rightarrow> behavior_tracker \<Rightarrow> storyline_id \<Rightarrow> behavior_pattern list" where
  "check_patterns lower t sid =
     (case hm_get (tr_storylines t) sid of
        None \<Rightarrow> []
      | Some events \<Rightarrow>
          List.map_filter id
            [check_rapid_file_encryption t events,
             check_process_injection events,
             check_privilege_escalation lower events,
             check_lateral_movement events,
             check_data_exfiltration t events,
             check_persistence_mechanism lower t events,
             check_suspicious_child_process lower events,
             check_crypto_mining lower events])"

section \<open>Stage\<close>

definition behavioral_configured :: "nat \<Rightarrow> nat \<Rightarrow> detection_config \<Rightarrow> behavior_tracker" where
  "behavioral_configured max_events max_storylines detection =
     tracker_with_detection detection (tracker_with_limits max_events max_storylines tracker_new)"

fun severity_verdict :: "severity \<Rightarrow> (threat_level \<times> f32) option" where
  "severity_verdict Critical = Some (Malicious, f32_lit (95 / 100))"
| "severity_verdict High = Some (Malicious, f32_lit (8 / 10))"
| "severity_verdict Medium = Some (Suspicious, f32_lit (6 / 10))"
| "severity_verdict Low = Some (Suspicious, f32_lit (4 / 10))"
| "severity_verdict Info = None"

definition behavioral_analyze ::
  "(string \<Rightarrow> string) \<Rightarrow> timestamp \<Rightarrow> behavior_tracker \<Rightarrow> riggs_event \<Rightarrow> behavior_tracker \<times> analysis" where
  "behavioral_analyze lower now t ev =
     (let t' = track ev t;
          patterns = check_patterns lower t' (storyline_id_of ev)
      in if patterns = [] then (t', Inr SV_Clean)
         else
           let worst = (case iter_max (map pattern_severity patterns) of Some s \<Rightarrow> s | None \<Rightarrow> Info);
               description = join ''; '' (map pattern_description patterns)
           in (case severity_verdict worst of
                 None \<Rightarrow> (t', Inr SV_Clean)
               | Some (lvl, conf) \<Rightarrow>
                   let v = \<lparr>v_event_id = event_id_of ev, v_threat_level = lvl, v_confidence = conf,
                            v_source = BehavioralAI, v_description = description, v_timestamp = now\<rparr>
                   in (t', case lvl of Malicious \<Rightarrow> Inr (SV_Malicious v)
                                     | Suspicious \<Rightarrow> Inr (SV_Suspicious v)
                                     | Clean \<Rightarrow> Inr SV_Clean)))"

section \<open>The tracker's invariant\<close>

definition tracker_inv :: "behavior_tracker \<Rightarrow> bool" where
  "tracker_inv t \<longleftrightarrow>
     0 < tr_max_events_per_storyline t \<and> 0 < tr_max_storylines t \<and> hm_wf (tr_storylines t) \<and>
     length (tr_storylines t) \<le> tr_max_storylines t \<and>
     (\<forall>sid es. hm_get (tr_storylines t) sid = Some es \<longrightarrow>
        es \<noteq> [] \<and> length es \<le> tr_max_events_per_storyline t \<and> (\<forall>e \<in> set es. storyline_id_of e = sid))"

text \<open>What a new storyline evicts when the tracker is full.\<close>

definition evicted :: "riggs_event \<Rightarrow> behavior_tracker \<Rightarrow> storyline_id option" where
  "evicted ev t =
     (if hm_get (tr_storylines t) (storyline_id_of ev) = None \<and> tr_max_storylines t \<le> length (tr_storylines t)
      then least_recently_active t else None)"

definition kept_storylines :: "riggs_event \<Rightarrow> behavior_tracker \<Rightarrow> (storyline_id, riggs_event list) hmap" where
  "kept_storylines ev t =
     (case evicted ev t of Some oldest \<Rightarrow> hm_remove oldest (tr_storylines t) | None \<Rightarrow> tr_storylines t)"

lemma track_eq:
  "track ev t = t\<lparr>tr_storylines :=
     hm_insert (storyline_id_of ev)
       (push_drain (case hm_get (kept_storylines ev t) (storyline_id_of ev) of Some es \<Rightarrow> es | None \<Rightarrow> [])
          ev (tr_max_events_per_storyline t)) (kept_storylines ev t)\<rparr>"
proof -
  have "kept_storylines ev t =
    (if hm_get (tr_storylines t) (storyline_id_of ev) = None \<and> tr_max_storylines t \<le> length (tr_storylines t)
     then (case least_recently_active t of
             Some oldest \<Rightarrow> hm_remove oldest (tr_storylines t) | None \<Rightarrow> tr_storylines t)
     else tr_storylines t)" by (simp add: kept_storylines_def evicted_def)
  then show ?thesis by (simp only: track_def Let_def)
qed

lemma least_recently_active_Some:
  assumes "hm_wf (tr_storylines t)" and "least_recently_active t = Some sid"
  shows "\<exists>es. hm_get (tr_storylines t) sid = Some es \<and> es \<noteq> [] \<and>
    (\<forall>sid' es'. hm_get (tr_storylines t) sid' = Some es' \<longrightarrow> es' \<noteq> [] \<longrightarrow>
       timestamp_of (last es) \<le> timestamp_of (last es'))"
proof -
  let ?f = "\<lambda>(sid, events). if events = [] then None else Some (sid, timestamp_of (last events))"
  obtain ts where m: "min_by_key snd (List.map_filter ?f (tr_storylines t)) = Some (sid, ts)"
    using assms(2) by (auto simp: least_recently_active_def)
  from min_by_key_Some [OF m] obtain es where es: "(sid, es) \<in> set (tr_storylines t)" "es \<noteq> []"
      "ts = timestamp_of (last es)"
    and le: "\<forall>x \<in> set (List.map_filter ?f (tr_storylines t)). ts \<le> snd x"
    by (auto simp: in_map_filter split: if_splits)
  have "timestamp_of (last es) \<le> timestamp_of (last es')"
    if "hm_get (tr_storylines t) sid' = Some es'" "es' \<noteq> []" for sid' es'
  proof -
    have "(sid', timestamp_of (last es')) \<in> set (List.map_filter ?f (tr_storylines t))"
      using hm_get_Some_in [OF that(1)] that(2) by (auto simp: in_map_filter intro!: bexI)
    with le es(3) show ?thesis by fastforce
  qed
  with es hm_get_Some_iff [OF assms(1)] show ?thesis by blast
qed

lemma least_recently_active_exists:
  assumes "tracker_inv t" and "tr_storylines t \<noteq> []"
  shows "least_recently_active t \<noteq> None"
proof -
  obtain sid es m where "tr_storylines t = (sid, es) # m" using assms(2) by (cases "tr_storylines t") auto
  moreover from this have "hm_get (tr_storylines t) sid = Some es" by (simp add: hm_get_def)
  with assms(1) have "es \<noteq> []" unfolding tracker_inv_def by blast
  ultimately show ?thesis by (simp add: least_recently_active_def List.map_filter_def)
qed

lemma kept_storylines_wf: "tracker_inv t \<Longrightarrow> hm_wf (kept_storylines ev t)"
  by (auto simp: kept_storylines_def tracker_inv_def hm_wf_remove split: option.split)

lemma kept_storylines_get:
  "hm_get (kept_storylines ev t) sid = (if evicted ev t = Some sid then None else hm_get (tr_storylines t) sid)"
  by (auto simp: kept_storylines_def hm_get_remove split: option.split)

lemma track_size:
  assumes "tracker_inv t"
  shows "length (tr_storylines (track ev t)) \<le> tr_max_storylines t"
proof -
  let ?sid = "storyline_id_of ev"
  define victim where "victim = the (least_recently_active t)"
  have inv: "hm_wf (tr_storylines t)" "length (tr_storylines t) \<le> tr_max_storylines t" "0 < tr_max_storylines t"
    using assms by (simp_all add: tracker_inv_def)
  have v: "hm_get (tr_storylines t) victim \<noteq> None \<and> least_recently_active t = Some victim"
    if "tr_max_storylines t \<le> length (tr_storylines t)"
  proof -
    have "least_recently_active t \<noteq> None"
      using least_recently_active_exists [OF assms] that inv(3) by (cases "tr_storylines t") auto
    then show ?thesis
      using least_recently_active_Some [OF inv(1)] unfolding victim_def by force
  qed
  have "kept_storylines ev t = (if hm_get (tr_storylines t) ?sid = None \<and>
      tr_max_storylines t \<le> length (tr_storylines t) then hm_remove victim (tr_storylines t) else tr_storylines t)"
    using v by (auto simp: kept_storylines_def evicted_def)
  then show ?thesis
    unfolding track_eq using hm.evict_then_insert_bounded [OF inv, of ?sid victim] v by simp
qed

lemma track_get:
  assumes "tracker_inv t"
  shows "hm_get (tr_storylines (track ev t)) sid =
    (if sid = storyline_id_of ev
     then Some (push_drain (case hm_get (tr_storylines t) sid of Some es \<Rightarrow> es | None \<Rightarrow> []) ev
            (tr_max_events_per_storyline t))
     else if evicted ev t = Some sid then None else hm_get (tr_storylines t) sid)"
proof -
  have "evicted ev t \<noteq> Some (storyline_id_of ev)"
    using assms least_recently_active_Some [of t "storyline_id_of ev"]
    by (auto simp: evicted_def tracker_inv_def)
  then show ?thesis
    by (auto simp: track_eq hm_get_insert kept_storylines_get)
qed

lemma track_config [simp]:
  "tr_max_events_per_storyline (track ev t) = tr_max_events_per_storyline t"
  "tr_max_storylines (track ev t) = tr_max_storylines t"
  "tr_rapid_file_threshold (track ev t) = tr_rapid_file_threshold t"
  "tr_rapid_window_secs (track ev t) = tr_rapid_window_secs t"
  by (simp_all add: track_eq)

lemma track_inv:
  assumes "tracker_inv t"
  shows "tracker_inv (track ev t)"
proof -
  have cap: "0 < tr_max_events_per_storyline t" using assms by (simp add: tracker_inv_def)
  have "es \<noteq> [] \<and> length es \<le> tr_max_events_per_storyline t \<and> (\<forall>e \<in> set es. storyline_id_of e = sid)"
    if "hm_get (tr_storylines (track ev t)) sid = Some es" for sid es
  proof (cases "sid = storyline_id_of ev")
    case False
    with that assms show ?thesis
      unfolding track_get [OF assms] by (auto simp: tracker_inv_def split: if_splits)
  next
    case True
    define old where "old = (case hm_get (tr_storylines t) sid of Some es \<Rightarrow> es | None \<Rightarrow> [])"
    have "length old \<le> tr_max_events_per_storyline t \<and> (\<forall>e \<in> set old. storyline_id_of e = sid)"
    proof (cases "hm_get (tr_storylines t) sid")
      case (Some es)
      with assms show ?thesis unfolding tracker_inv_def by (simp add: old_def)
    qed (simp add: old_def)
    moreover have "es = push_drain old ev (tr_max_events_per_storyline t)"
      using that True by (simp add: track_get [OF assms] old_def)
    ultimately show ?thesis
      using drain.push_bounded [OF cap] drain.push_last [OF cap] drain.push_set [OF cap] True by fastforce
  qed
  moreover have "hm_wf (tr_storylines (track ev t))"
    using kept_storylines_wf [OF assms] by (simp add: track_eq hm_wf_insert)
  ultimately show ?thesis
    using assms track_size [OF assms, of ev] by (simp add: tracker_inv_def)
qed

section \<open>The sliding window\<close>

text \<open>What the scan looks for: a modification that starts a window with enough distinct paths.\<close>

definition modified_in_window :: "(timestamp \<times> string) list \<Rightarrow> timestamp \<Rightarrow> duration \<Rightarrow> string set" where
  "modified_in_window ms ts window = {p. \<exists>u. (u, p) \<in> set ms \<and> ts \<le> u \<and> u - ts \<le> window}"

lemma takeWhile_sorted_set:
  fixes ms :: "(timestamp \<times> string) list"
  assumes "sorted (map fst ms)"
  shows "set (takeWhile (\<lambda>(u, _). \<not> window < u - ts) ms) = {m \<in> set ms. fst m - ts \<le> window}"
  using assms
proof (induction ms)
  case (Cons m ms)
  obtain u p where m: "m = (u, p)" by (cases m)
  show ?case
  proof (cases "window < u - ts")
    case True
    moreover have "\<forall>m' \<in> set ms. u \<le> fst m'" using Cons.prems m by auto
    then have "\<forall>m' \<in> set ms. window < fst m' - ts" using True by fastforce
    then have "{m' \<in> set ms. fst m' - ts \<le> window} = {}" by (auto simp: not_le)
    ultimately show ?thesis using m by auto
  next
    case False
    with Cons m show ?thesis by (auto simp: not_less)
  qed
qed simp

lemma length_unique_paths:
  assumes "sorted (map fst ms)" and "\<forall>m \<in> set ms. ts \<le> fst m"
  shows "length (unique_paths window ts ms) = card (modified_in_window ms ts window)"
proof -
  have "set (unique_paths window ts ms) = modified_in_window ms ts window"
    using assms(2) by (force simp: unique_paths_def modified_in_window_def takeWhile_sorted_set [OF assms(1)])
  then show ?thesis by (metis distinct_card distinct_remdups unique_paths_def)
qed

lemma rapid_scan_iff:
  "sorted (map fst ms) \<Longrightarrow>
     rapid_scan threshold window ms \<longleftrightarrow>
       (\<exists>(ts, p) \<in> set ms. threshold \<le> card (modified_in_window ms ts window))"
proof (induction ms)
  case (Cons m ms)
  obtain t0 p0 where m: "m = (t0, p0)" by (cases m)
  have le: "\<forall>m' \<in> set (m # ms). t0 \<le> fst m'" using Cons.prems m by auto
  have head: "length (unique_paths window t0 (m # ms)) = card (modified_in_window (m # ms) t0 window)"
    by (rule length_unique_paths [OF Cons.prems le])
  have tail: "modified_in_window (m # ms) ts window = modified_in_window ms ts window" if "t0 < ts" for ts
    using that m by (auto simp: modified_in_window_def)
  have sub: "modified_in_window ms ts window \<subseteq> modified_in_window (m # ms) ts window" for ts
    by (auto simp: modified_in_window_def)
  have fin: "finite (modified_in_window (m # ms) ts window)" for ts
    by (rule finite_subset [of _ "snd ` set (m # ms)"]) (force simp: modified_in_window_def)+
  have "(\<exists>(ts, p) \<in> set ms. threshold \<le> card (modified_in_window (m # ms) ts window)) \<Longrightarrow>
      threshold \<le> card (modified_in_window (m # ms) t0 window) \<or>
      (\<exists>(ts, p) \<in> set ms. threshold \<le> card (modified_in_window ms ts window))"
    using le tail by (metis (no_types, lifting) case_prodE case_prodI fst_conv linorder_le_less_linear
        list.set_intros(2) order_antisym)
  moreover have "card (modified_in_window ms ts window) \<le> card (modified_in_window (m # ms) ts window)" for ts
    using card_mono [OF fin sub] .
  then have "(\<exists>(ts, p) \<in> set ms. threshold \<le> card (modified_in_window ms ts window)) \<Longrightarrow>
      (\<exists>(ts, p) \<in> set ms. threshold \<le> card (modified_in_window (m # ms) ts window))"
    by (fast intro: order_trans)
  moreover have "rapid_scan threshold window (m # ms) \<longleftrightarrow>
      threshold \<le> card (modified_in_window (m # ms) t0 window) \<or>
      (\<exists>(ts, p) \<in> set ms. threshold \<le> card (modified_in_window ms ts window))"
    using Cons head m by simp
  moreover have "(\<exists>(ts, p) \<in> set (m # ms). threshold \<le> card (modified_in_window (m # ms) ts window)) \<longleftrightarrow>
      threshold \<le> card (modified_in_window (m # ms) t0 window) \<or>
      (\<exists>(ts, p) \<in> set ms. threshold \<le> card (modified_in_window (m # ms) ts window))"
    using m by simp
  ultimately show ?case by blast
qed simp

section \<open>The stage\<close>

lemma severity_verdict_usable:
  "severity_verdict s = Some (lvl, conf) \<Longrightarrow>
     f32_is_finite conf \<and> f32_lt (F_Fin 0) conf \<and> (lvl = Malicious \<or> lvl = Suspicious)"
  by (cases s) (auto simp: f32_lits)

lemma behavioral_analyze_reported: "well_reported ev (snd (behavioral_analyze lower now t ev))"
  by (auto simp: behavioral_analyze_def Let_def well_reported_def reports_def usable_def
      dest!: severity_verdict_usable split: option.splits prod.splits threat_level.splits if_splits)

interpretation behavioral_stage_contract: detection_stage "behavioral_analyze lower now"
  for lower :: "string \<Rightarrow> string" and now :: timestamp
  by unfold_locales (rule behavioral_analyze_reported)

lemma worst_severity:
  assumes "p \<in> set ps"
  shows "pattern_severity p \<le> (case iter_max (map pattern_severity ps) of Some s \<Rightarrow> s | None \<Rightarrow> Info)"
proof (cases "iter_max (map pattern_severity ps)")
  case None
  with assms show ?thesis by simp
next
  case (Some s)
  with iter_max_Some [OF Some] assms show ?thesis by auto
qed

lemma analyze_level:
  assumes "p \<in> set (check_patterns lower (track ev t) (storyline_id_of ev))" and "High \<le> pattern_severity p"
  shows "level_of (snd (behavioral_analyze lower now t ev)) = Malicious"
proof -
  let ?ps = "check_patterns lower (track ev t) (storyline_id_of ev)"
  define w where "w = (case iter_max (map pattern_severity ?ps) of Some s \<Rightarrow> s | None \<Rightarrow> Info)"
  have "High \<le> w" using worst_severity [OF assms(1)] assms(2) unfolding w_def by (rule order_trans [rotated])
  then have "w = High \<or> w = Critical" by (cases w) (simp_all add: less_eq_severity_def)
  moreover have "?ps \<noteq> []" using assms(1) by auto
  ultimately show ?thesis
    by (auto simp: behavioral_analyze_def Let_def w_def [symmetric])
qed

lemma tracked_last:
  assumes "tracker_inv t"
  obtains es where "hm_get (tr_storylines (track ev t)) (storyline_id_of ev) = Some es"
    and "es \<noteq> []" and "last es = ev"
proof -
  have "0 < tr_max_events_per_storyline t" using assms by (simp add: tracker_inv_def)
  from drain.push_last [OF this] that show ?thesis by (fastforce simp: track_get [OF assms])
qed

section \<open>Properties\<close>

text \<open>
  The tracker stays within its memory caps. Tracking any event keeps at most the configured
  number of storylines, each with at most the configured number of events, none empty and none
  holding an event of another storyline.
\<close>

theorem tracker_bounded:
  assumes "tracker_inv t"
  shows "tracker_inv (foldl (\<lambda>t ev. track ev t) t evs)"
  using assms by (induction evs arbitrary: t) (auto simp: track_inv)

theorem tracker_bounded_witness:
  "tracker_inv (foldl (\<lambda>t ev. track ev t) (tracker_with_limits 2 1 tracker_new) [sample_file, sample_file])"
  by (rule tracker_bounded) (simp add: tracker_inv_def tracker_with_limits_def tracker_new_def)

text \<open>
  Only the least recently active storyline is evicted. Tracking an event makes it the last
  of its storyline, and every other storyline keeps its events, except that a full tracker drops
  one storyline for a new one: a storyline whose last event is the oldest of all.
\<close>

theorem track_evicts_least_recent:
  assumes "tracker_inv t" and "hm_get (tr_storylines t) sid = Some es" and "sid \<noteq> storyline_id_of ev"
  shows "(\<exists>now. hm_get (tr_storylines (track ev t)) (storyline_id_of ev) = Some now \<and> now \<noteq> [] \<and> last now = ev) \<and>
    (hm_get (tr_storylines (track ev t)) sid = Some es \<or>
     hm_get (tr_storylines t) (storyline_id_of ev) = None \<and> length (tr_storylines t) = tr_max_storylines t \<and>
     (\<forall>sid' es'. hm_get (tr_storylines t) sid' = Some es' \<longrightarrow>
        timestamp_of (last es) \<le> timestamp_of (last es')))"
proof (rule conjI)
  show "\<exists>now. hm_get (tr_storylines (track ev t)) (storyline_id_of ev) = Some now \<and> now \<noteq> [] \<and> last now = ev"
    using tracked_last [OF assms(1)] by metis
  show "hm_get (tr_storylines (track ev t)) sid = Some es \<or>
     hm_get (tr_storylines t) (storyline_id_of ev) = None \<and> length (tr_storylines t) = tr_max_storylines t \<and>
     (\<forall>sid' es'. hm_get (tr_storylines t) sid' = Some es' \<longrightarrow>
        timestamp_of (last es) \<le> timestamp_of (last es'))"
  proof (cases "evicted ev t = Some sid")
    case False
    with assms show ?thesis by (simp add: track_get)
  next
    case True
    then have full: "hm_get (tr_storylines t) (storyline_id_of ev) = None"
        "tr_max_storylines t \<le> length (tr_storylines t)" "least_recently_active t = Some sid"
      by (auto simp: evicted_def split: if_splits)
    have inv: "hm_wf (tr_storylines t)" "length (tr_storylines t) \<le> tr_max_storylines t"
      "\<And>sid es. hm_get (tr_storylines t) sid = Some es \<Longrightarrow> es \<noteq> []"
      using assms(1) unfolding tracker_inv_def by blast+
    from least_recently_active_Some [OF inv(1) full(3)] assms(2) inv(3) full(1,2) inv(2) show ?thesis
      by (metis le_antisym option.inject)
  qed
qed

definition other_file :: riggs_event where
  "other_file = new_file (EventId 4) 2 Create (sample_context\<lparr>pc_storyline_id := StorylineId 8\<rparr>) ''/tmp/b'' None"

theorem track_evicts_least_recent_witness:
  "hm_get (tr_storylines (track other_file (track sample_file (tracker_with_limits 2 4 tracker_new)))) (StorylineId 7) =
     Some [sample_file]"
proof -
  let ?t = "track sample_file (tracker_with_limits 2 4 tracker_new)"
  have "tracker_inv ?t"
    by (rule track_inv) (simp add: tracker_inv_def tracker_with_limits_def tracker_new_def)
  moreover have "hm_get (tr_storylines ?t) (StorylineId 7) = Some [sample_file]" by code_simp
  moreover have "StorylineId 7 \<noteq> storyline_id_of other_file" by code_simp
  moreover have "length (tr_storylines ?t) \<noteq> tr_max_storylines ?t" by code_simp
  ultimately show ?thesis using track_evicts_least_recent [of ?t "StorylineId 7" "[sample_file]" other_file] by simp
qed

text \<open>
  C7: the ransomware scan is exact. On modifications in time order, the scan, which stops at the
  first event outside its window, reports rapid file encryption exactly when some modification
  starts a window with at least the threshold of distinct modified paths.
\<close>

theorem rapid_encryption_exact:
  assumes "sorted (map fst (List.map_filter file_modify events))" and "0 < tr_rapid_file_threshold t"
  shows "check_rapid_file_encryption t events = Some RapidFileEncryption \<longleftrightarrow>
    (\<exists>(ts, p) \<in> set (List.map_filter file_modify events).
       tr_rapid_file_threshold t \<le>
         card (modified_in_window (List.map_filter file_modify events) ts (seconds (tr_rapid_window_secs t))))"
proof -
  let ?ms = "List.map_filter file_modify events" and ?w = "seconds (tr_rapid_window_secs t)"
  have "card (modified_in_window ?ms ts ?w) \<le> length ?ms" for ts
  proof -
    have "modified_in_window ?ms ts ?w \<subseteq> snd ` set ?ms" by (force simp: modified_in_window_def)
    then have "card (modified_in_window ?ms ts ?w) \<le> card (snd ` set ?ms)" by (simp add: card_mono)
    also have "\<dots> \<le> length ?ms" by (meson card_image_le card_length finite_set order_trans)
    finally show ?thesis .
  qed
  then have "length ?ms < tr_rapid_file_threshold t \<Longrightarrow>
      \<not> (\<exists>(ts, p) \<in> set ?ms. tr_rapid_file_threshold t \<le> card (modified_in_window ?ms ts ?w))"
    by (metis (no_types, lifting) case_prodE leD order_trans)
  with rapid_scan_iff [OF assms(1), of "tr_rapid_file_threshold t" ?w] show ?thesis
    by (auto simp: check_rapid_file_encryption_def Let_def)
qed

definition modify_event :: "timestamp \<Rightarrow> string \<Rightarrow> riggs_event" where
  "modify_event now path = new_file (EventId 5) now Modify sample_context path None"

definition two_files :: behavior_tracker where
  "two_files = tracker_new\<lparr>tr_rapid_file_threshold := 2\<rparr>"

theorem rapid_encryption_exact_witness:
  "\<exists>(ts, p) \<in> set (List.map_filter file_modify [modify_event 0 ''/a'', modify_event 1 ''/b'']).
     tr_rapid_file_threshold two_files \<le>
       card (modified_in_window (List.map_filter file_modify [modify_event 0 ''/a'', modify_event 1 ''/b'']) ts
         (seconds (tr_rapid_window_secs two_files)))"
proof -
  have "sorted (map fst (List.map_filter file_modify [modify_event 0 ''/a'', modify_event 1 ''/b'']))" by code_simp
  moreover have "0 < tr_rapid_file_threshold two_files" by code_simp
  moreover have "check_rapid_file_encryption two_files [modify_event 0 ''/a'', modify_event 1 ''/b''] =
      Some RapidFileEncryption" by code_simp
  ultimately show ?thesis using rapid_encryption_exact by blast
qed

text \<open>
  Shellcode in memory is always malicious. An event that reports execution of code not mapped
  from a file yields a Malicious verdict, whatever the history of its storyline and however full
  the tracker, and the merged verdict of the event is Malicious.
\<close>

theorem memory_exec_malicious:
  assumes "tracker_inv t" and "memory_exec ev"
  shows "merge_verdicts_weighted
      (collect_verdict (snd (behavioral_analyze lower now t ev)) vs @ ws) mal sus = Malicious"
proof -
  obtain es where es: "hm_get (tr_storylines (track ev t)) (storyline_id_of ev) = Some es" "es \<noteq> []" "last es = ev"
    by (rule tracked_last [OF assms(1)])
  then have "list_ex memory_exec es" using assms(2) by (auto simp: list_ex_iff intro: last_in_set)
  then have "check_process_injection es = Some ProcessInjection"
    by (simp add: check_process_injection_def)
  with es(1) have "ProcessInjection \<in> set (check_patterns lower (track ev t) (storyline_id_of ev))"
    unfolding check_patterns_def by (simp only: option.case in_map_filter) simp
  then have "level_of (snd (behavioral_analyze lower now t ev)) = Malicious"
    by (rule analyze_level) (simp add: less_eq_severity_def)
  with behavioral_stage_contract.merged_at_least [of lower now t ev vs ws mal sus] show ?thesis by simp
qed

definition shellcode_event :: riggs_event where
  "shellcode_event = new_kernel (EventId 6) 1 MemoryExec sample_context ''rwx''"

theorem memory_exec_malicious_witness:
  "merge_verdicts_weighted (collect_verdict (snd (behavioral_analyze id 2 tracker_new shellcode_event)) [] @ [])
     (F_Fin 1) (F_Fin 1) = Malicious"
  by (rule memory_exec_malicious)
    (simp_all add: tracker_inv_def tracker_new_def shellcode_event_def new_kernel_def)

text \<open>
  A mining port alone is never reported, and the reported number of mining signals is between
  one and four. Without a pool domain, a miner process and ten executions in the window, no number
  of connections to mining ports is flagged.
\<close>

theorem mining_port_alone_clean:
  "(check_crypto_mining lower events = Some (CryptoMining n) \<longrightarrow> 1 \<le> n \<and> n \<le> 4) \<and>
   (\<not> mining_domain lower events \<and> \<not> list_ex (miner_process lower) events \<and>
      \<not> exec_storm (map pe_timestamp (List.map_filter exec_of events)) \<longrightarrow>
    check_crypto_mining lower events = None)"
  by (cases "mining_port events"; cases "mining_domain lower events"; cases "list_ex (miner_process lower) events")
    (auto simp: check_crypto_mining_def Let_def split: if_splits)

theorem mining_port_alone_clean_witness:
  "check_crypto_mining id [new_network (EventId 7) 1 Outbound sample_context ''10.0.0.1'' ''1.2.3.4'' 1000 3333 ''tcp''] = None"
proof -
  let ?evs = "[new_network (EventId 7) 1 Outbound sample_context ''10.0.0.1'' ''1.2.3.4'' 1000 3333 ''tcp'']"
  have "\<not> mining_domain id ?evs" "\<not> list_ex (miner_process id) ?evs"
    "\<not> exec_storm (map pe_timestamp (List.map_filter exec_of ?evs))" by code_simp+
  with mining_port_alone_clean [of id ?evs 1] show ?thesis by blast
qed

text \<open>
  A name lookup followed by a connection to that name is reported as lateral movement, for
  every host, internal or not: the query is compared with the destination only.
\<close>

theorem lookup_then_connect_is_lateral:
  assumes "Dns de \<in> set events" and "Network ne \<in> set events" and "ne_direction ne = Outbound"
    and "ne_dst_addr ne = de_query de" and "de_timestamp de \<le> ne_timestamp ne"
    and "ne_timestamp ne - de_timestamp de \<le> seconds 30"
  shows "check_lateral_movement events = Some LateralMovement"
proof -
  have "de \<in> set (List.map_filter dns_of events)" "ne \<in> set (List.map_filter outbound_of events)"
    using assms(1-3) by (force simp: in_map_filter)+
  moreover have "dns_then_connect de ne" using assms(4-6) by (simp add: dns_then_connect_def)
  ultimately show ?thesis by (auto simp: check_lateral_movement_def Let_def list_ex_iff)
qed

definition public_lookup :: dns_event where
  "public_lookup = \<lparr>de_event_id = EventId 1, de_timestamp = 1, de_context = sample_context,
     de_query = ''example.com'', de_response = ''93.184.216.34'', de_query_type = ''A''\<rparr>"

definition public_connection :: network_event where
  "public_connection = \<lparr>ne_event_id = EventId 2, ne_timestamp = 2, ne_context = sample_context,
     ne_direction = Outbound, ne_src_addr = ''10.0.0.1'', ne_dst_addr = ''example.com'', ne_src_port = 1,
     ne_dst_port = 443, ne_protocol = ''tcp''\<rparr>"

theorem lookup_then_connect_is_lateral_witness:
  "check_lateral_movement [Dns public_lookup, Network public_connection] = Some LateralMovement \<and>
   \<not> is_internal_ip ''example.com''"
proof (rule conjI)
  show "check_lateral_movement [Dns public_lookup, Network public_connection] = Some LateralMovement"
    by (rule lookup_then_connect_is_lateral [of public_lookup _ public_connection])
      (simp_all add: public_lookup_def public_connection_def seconds_def)
qed code_simp

end
