(* ===== verification/Reload.thy ===== *)
theory Reload
  imports Events
begin

text \<open>
  The policy watchers \<^verbatim>\<open>watch_policy\<close> of \<^verbatim>\<open>riggs-dlp/src/reload.rs\<close> and
  \<^verbatim>\<open>riggs-egress/src/reload.rs\<close>: both swap the live policy when the watched file changes and
  keep the current one when it no longer loads. The contract of the component that holds the
  live policy is a locale, and what a run of watcher events leaves as the live policy is
  proved once in it.
\<close>

datatype event_kind = EK_Create | EK_Modify | EK_Other

datatype watch_event = WE_Error string | WE_Event "string list" event_kind

text \<open>
  One iteration of the loop: the event the watcher delivered and what \<^verbatim>\<open>load_policy_file\<close>
  returns if it is called at that moment.
\<close>

definition reload_step ::
  "('s \<Rightarrow> 'p \<Rightarrow> 's) \<Rightarrow> ('c \<Rightarrow> 'p) \<Rightarrow> string \<Rightarrow> 's \<Rightarrow> watch_event \<times> (riggs_error + 'c) \<Rightarrow> 's" where
  "reload_step swap compile policy_path s ev =
     (case ev of
        (WE_Error _, _) \<Rightarrow> s
      | (WE_Event paths kind, loaded) \<Rightarrow>
          if \<not> list_ex (\<lambda>p. path_file_name p = path_file_name policy_path) paths then s
          else if kind \<noteq> EK_Create \<and> kind \<noteq> EK_Modify then s
          else (case loaded of Inr config \<Rightarrow> swap s (compile config) | Inl _ \<Rightarrow> s))"

definition watch_policy ::
  "('s \<Rightarrow> 'p \<Rightarrow> 's) \<Rightarrow> ('c \<Rightarrow> 'p) \<Rightarrow> string \<Rightarrow> 's \<Rightarrow> (watch_event \<times> (riggs_error + 'c)) list \<Rightarrow> 's" where
  "watch_policy swap compile policy_path s evs =
     foldl (reload_step swap compile policy_path) s evs"

text \<open>The configurations a run of watcher events loads successfully, in order.\<close>

fun loaded_config :: "string \<Rightarrow> watch_event \<times> (riggs_error + 'c) \<Rightarrow> 'c option" where
  "loaded_config policy_path (WE_Event paths kind, Inr config) =
     (if list_ex (\<lambda>p. path_file_name p = path_file_name policy_path) paths \<and>
         (kind = EK_Create \<or> kind = EK_Modify) then Some config else None)"
| "loaded_config policy_path _ = None"

definition loaded_configs :: "string \<Rightarrow> (watch_event \<times> (riggs_error + 'c)) list \<Rightarrow> 'c list" where
  "loaded_configs policy_path evs = List.map_filter (loaded_config policy_path) evs"

lemma reload_step_eq:
  "reload_step swap compile policy_path s ev =
     (case loaded_config policy_path ev of None \<Rightarrow> s | Some c \<Rightarrow> swap s (compile c))"
  by (cases "(policy_path, ev)" rule: loaded_config.cases)
    (auto simp: reload_step_def split: watch_event.splits)

locale policy_cell =
  fixes swap :: "'s \<Rightarrow> 'p \<Rightarrow> 's" and current :: "'s \<Rightarrow> 'p"
  assumes current_swap: "current (swap s p) = p"
begin

lemma watch_policy_current:
  "current (watch_policy swap compile policy_path s evs) =
     (case rev (loaded_configs policy_path evs) of [] \<Rightarrow> current s | c # _ \<Rightarrow> compile c)"
proof (induction evs rule: rev_induct)
  case Nil
  then show ?case by (simp add: watch_policy_def loaded_configs_def List.map_filter_def)
next
  case (snoc ev evs)
  have "watch_policy swap compile policy_path s (evs @ [ev]) =
      reload_step swap compile policy_path (watch_policy swap compile policy_path s evs) ev"
    by (simp add: watch_policy_def)
  with snoc show ?case
    by (cases "loaded_config policy_path ev")
      (simp_all add: reload_step_eq loaded_configs_def List.map_filter_def current_swap)
qed

lemma bad_file_keeps_policy:
  "(\<forall>ev \<in> set evs. loaded_config policy_path ev = None) \<Longrightarrow>
     current (watch_policy swap compile policy_path s evs) = current s"
  by (simp add: watch_policy_current loaded_configs_def List.map_filter_def)

end

end
