(* ===== verification/Dlp_Model.thy ===== *)
theory Dlp_Model
  imports Engine Configuration Reload
begin

text \<open>
  \<^verbatim>\<open>crates/riggs-dlp\<close>: detection of sensitive file types (\<^verbatim>\<open>magic.rs\<close>), the policy
  (\<^verbatim>\<open>policy.rs\<close>), the two-tier correlator of file accesses and network flows
  (\<^verbatim>\<open>correlator.rs\<close>) and the pipeline stage that feeds it (\<^verbatim>\<open>stage.rs\<close>). The locks
  around the policy and the concurrent maps are taken and released inside each operation, so
  one operation is one step on the state.
\<close>

section \<open>File types\<close>

datatype sensitive_file_type =
  Pptx | Xlsx | Docx | Ppt | Xls | Doc | Pdf | Csv | SourceCode | PrivateKey | DatabaseDump

fun file_type_display :: "sensitive_file_type \<Rightarrow> string" where
  "file_type_display Pptx = ''pptx''"
| "file_type_display Xlsx = ''xlsx''"
| "file_type_display Docx = ''docx''"
| "file_type_display Ppt = ''ppt''"
| "file_type_display Xls = ''xls''"
| "file_type_display Doc = ''doc''"
| "file_type_display Pdf = ''pdf''"
| "file_type_display Csv = ''csv''"
| "file_type_display SourceCode = ''source_code''"
| "file_type_display PrivateKey = ''private_key''"
| "file_type_display DatabaseDump = ''database_dump''"

definition from_extension :: "string \<Rightarrow> sensitive_file_type option" where
  "from_extension ext =
     (let e = to_ascii_lowercase ext in
      if e = ''pptx'' then Some Pptx
      else if e = ''xlsx'' then Some Xlsx
      else if e = ''docx'' then Some Docx
      else if e = ''ppt'' then Some Ppt
      else if e = ''xls'' then Some Xls
      else if e = ''doc'' then Some Doc
      else if e = ''pdf'' then Some Pdf
      else if e = ''csv'' then Some Csv
      else if e \<in> set [''rs'', ''py'', ''go'', ''js'', ''ts'', ''java'', ''c'', ''cpp'', ''h'', ''rb'',
                       ''ex'', ''exs''] then Some SourceCode
      else if e \<in> set [''pem'', ''key'', ''p12'', ''pfx''] then Some PrivateKey
      else if e \<in> set [''sql'', ''sqlite'', ''db'', ''sqlite3''] then Some DatabaseDump
      else None)"

text \<open>A file header is its first bytes.\<close>

definition OOXML_MAGIC :: string where "OOXML_MAGIC = map char_of [0x50, 0x4B, 0x03, 0x04 :: nat]"
definition OLE2_MAGIC :: string where "OLE2_MAGIC = map char_of [0xD0, 0xCF, 0x11, 0xE0 :: nat]"
definition PDF_MAGIC :: string where "PDF_MAGIC = ''%PDF''"
definition SQLITE_MAGIC :: string where "SQLITE_MAGIC = ''SQLite format 3'' @ [char_of (0 :: nat)]"
definition PEM_MAGIC :: string where "PEM_MAGIC = ''-----BEGIN''"

definition detect_from_magic :: "string \<Rightarrow> sensitive_file_type option" where
  "detect_from_magic header =
     (if length header < 4 then None
      else if starts_with header OOXML_MAGIC then Some Docx
      else if starts_with header OLE2_MAGIC then Some Doc
      else if starts_with header PDF_MAGIC then Some Pdf
      else if 16 \<le> length header \<and> starts_with header SQLITE_MAGIC then Some DatabaseDump
      else if starts_with header PEM_MAGIC then Some PrivateKey
      else None)"

definition detect_file_type :: "string \<Rightarrow> string option \<Rightarrow> sensitive_file_type option" where
  "detect_file_type path header =
     (case (case header of Some hdr \<Rightarrow> detect_from_magic hdr | None \<Rightarrow> None) of
        Some ft \<Rightarrow> Some ft
      | None \<Rightarrow> Option.bind (path_extension path) from_extension)"

section \<open>Policy\<close>

datatype dlp_action = Dlp_Block | Dlp_AlertOnly

record domain_pattern =
  dpat_pattern :: string
  dpat_category :: string

record dlp_policy =
  dp_watched_domains :: "domain_pattern list"
  dp_blocked_file_types :: "sensitive_file_type list"
  dp_alert_file_types :: "sensitive_file_type list"
  dp_excluded_processes :: "string list"
  dp_action :: dlp_action

definition dlp_from_config :: "dlp_config \<Rightarrow> dlp_policy" where
  "dlp_from_config config =
     \<lparr>dp_watched_domains =
        map (\<lambda>wd. \<lparr>dpat_pattern = wd_pattern wd, dpat_category = wd_category wd\<rparr>)
          (dlpc_watched_domains config),
      dp_blocked_file_types = List.map_filter from_extension (ft_block (dlpc_file_types config)),
      dp_alert_file_types = List.map_filter from_extension (ft_alert (dlpc_file_types config)),
      dp_excluded_processes = dx_names (dlpc_excluded_processes config),
      dp_action = (if dlpc_action config = ''alert'' then Dlp_AlertOnly else Dlp_Block)\<rparr>"

definition dlp_domain_matches :: "string \<Rightarrow> string \<Rightarrow> bool" where
  "dlp_domain_matches pattern hostname =
     (let pattern_lower = to_ascii_lowercase pattern in
      case strip_prefix pattern_lower ''*.'' of
        Some bare \<Rightarrow> ends_with hostname (drop 1 pattern_lower) \<or> hostname = bare
      | None \<Rightarrow> hostname = pattern_lower)"

definition is_watched_domain :: "dlp_policy \<Rightarrow> string \<Rightarrow> bool" where
  "is_watched_domain p hostname =
     (let h = to_ascii_lowercase hostname in
      list_ex (\<lambda>dp. dlp_domain_matches (dpat_pattern dp) h) (dp_watched_domains p))"

definition is_excluded_process :: "dlp_policy \<Rightarrow> string \<Rightarrow> bool" where
  "is_excluded_process p nm =
     list_ex (\<lambda>excluded. eq_ignore_ascii_case excluded nm) (dp_excluded_processes p)"

definition file_type_action :: "dlp_policy \<Rightarrow> sensitive_file_type \<Rightarrow> dlp_action option" where
  "file_type_action p ft =
     (if ft \<in> set (dp_blocked_file_types p) then Some (dp_action p)
      else if ft \<in> set (dp_alert_file_types p) then Some Dlp_AlertOnly
      else None)"

section \<open>Correlator\<close>

record sensitive_access =
  sa_path :: string
  sa_file_type :: sensitive_file_type
  sa_timestamp :: timestamp
  sa_process_name :: string

datatype flow_action = Flow_Allow | Flow_Block | Flow_Alert

record flow_verdict =
  fv_allow :: bool
  fv_action :: flow_action
  fv_reason :: "string option"
  fv_file_path :: "string option"
  fv_file_type :: "string option"

definition flow_allow :: flow_verdict where
  "flow_allow =
     \<lparr>fv_allow = True, fv_action = Flow_Allow, fv_reason = None, fv_file_path = None,
      fv_file_type = None\<rparr>"

definition flow_block :: "string \<Rightarrow> string \<Rightarrow> sensitive_file_type \<Rightarrow> flow_verdict" where
  "flow_block reason file_path file_type =
     \<lparr>fv_allow = False, fv_action = Flow_Block, fv_reason = Some reason,
      fv_file_path = Some file_path, fv_file_type = Some (file_type_display file_type)\<rparr>"

definition flow_alert :: "string \<Rightarrow> string \<Rightarrow> sensitive_file_type \<Rightarrow> flow_verdict" where
  "flow_alert reason file_path file_type =
     \<lparr>fv_allow = True, fv_action = Flow_Alert, fv_reason = Some reason,
      fv_file_path = Some file_path, fv_file_type = Some (file_type_display file_type)\<rparr>"

record dlp_correlator =
  dlp_open_fds :: "(u32 \<times> u32, sensitive_access) hmap"
  dlp_pid_accesses :: "(u32, sensitive_access list) hmap"
  dlp_policy_of :: dlp_policy
  dlp_fallback_window :: duration
  dlp_max_fd_age :: duration

definition dlp_new :: "dlp_policy \<Rightarrow> int \<Rightarrow> dlp_correlator" where
  "dlp_new p fallback_window_secs =
     \<lparr>dlp_open_fds = [], dlp_pid_accesses = [], dlp_policy_of = p,
      dlp_fallback_window = seconds fallback_window_secs, dlp_max_fd_age = seconds 3600\<rparr>"

definition dlp_replace_policy :: "dlp_correlator \<Rightarrow> dlp_policy \<Rightarrow> dlp_correlator" where
  "dlp_replace_policy c p = c\<lparr>dlp_policy_of := p\<rparr>"

definition record_file_access ::
  "dlp_correlator \<Rightarrow> u32 \<Rightarrow> u32 option \<Rightarrow> string \<Rightarrow> string \<Rightarrow> timestamp \<Rightarrow> string option \<Rightarrow> dlp_correlator"
where
  "record_file_access c pid fd path process_name ts header =
     (let policy = dlp_policy_of c in
      if is_excluded_process policy process_name then c
      else case detect_file_type path header of
        None \<Rightarrow> c
      | Some file_type \<Rightarrow>
          if file_type_action policy file_type = None then c
          else
            let access = \<lparr>sa_path = path, sa_file_type = file_type, sa_timestamp = ts,
                          sa_process_name = process_name\<rparr>;
                fds = (case fd of Some d \<Rightarrow> hm_insert (pid, d) access (dlp_open_fds c)
                                | None \<Rightarrow> dlp_open_fds c);
                q = (case hm_get (dlp_pid_accesses c) pid of Some q \<Rightarrow> q | None \<Rightarrow> [])
            in c\<lparr>dlp_open_fds := fds,
                 dlp_pid_accesses := hm_insert pid (q @ [access]) (dlp_pid_accesses c)\<rparr>)"

definition record_file_close :: "dlp_correlator \<Rightarrow> u32 \<Rightarrow> u32 \<Rightarrow> dlp_correlator" where
  "record_file_close c pid fd = c\<lparr>dlp_open_fds := hm_remove (pid, fd) (dlp_open_fds c)\<rparr>"

text \<open>The right arrow of the reason strings, in UTF-8.\<close>

definition arrow :: string where
  "arrow = map char_of [0xE2, 0x86, 0x92 :: nat]"

definition flow_reason :: "string \<Rightarrow> sensitive_access \<Rightarrow> u32 \<Rightarrow> string \<Rightarrow> string" where
  "flow_reason how access pid hostname =
     sa_path access @ '' ('' @ how @ '', '' @ file_type_display (sa_file_type access) @
     '') by PID '' @ show_nat (unat pid) @ '' '' @ arrow @ '' '' @ hostname"

definition flow_for :: "dlp_action \<Rightarrow> string \<Rightarrow> sensitive_access \<Rightarrow> flow_verdict" where
  "flow_for action reason access =
     (case action of
        Dlp_Block \<Rightarrow> flow_block reason (sa_path access) (sa_file_type access)
      | Dlp_AlertOnly \<Rightarrow> flow_alert reason (sa_path access) (sa_file_type access))"

definition check_open_fds :: "dlp_correlator \<Rightarrow> u32 \<Rightarrow> string \<Rightarrow> dlp_policy \<Rightarrow> flow_verdict option" where
  "check_open_fds c pid hostname policy =
     (case List.find (\<lambda>((p, _), a). p = pid \<and> file_type_action policy (sa_file_type a) \<noteq> None)
             (dlp_open_fds c) of
        None \<Rightarrow> None
      | Some (_, access) \<Rightarrow>
          (case file_type_action policy (sa_file_type access) of
             None \<Rightarrow> None
           | Some action \<Rightarrow>
               Some (flow_for action (flow_reason ''fd open'' access pid hostname) access)))"

definition check_pid_accesses ::
  "timestamp \<Rightarrow> dlp_correlator \<Rightarrow> u32 \<Rightarrow> string \<Rightarrow> dlp_policy \<Rightarrow> flow_verdict option" where
  "check_pid_accesses now c pid hostname policy =
     (let cutoff = now - dlp_fallback_window c in
      case hm_get (dlp_pid_accesses c) pid of
        None \<Rightarrow> None
      | Some accesses \<Rightarrow>
          (case List.find (\<lambda>a. cutoff \<le> sa_timestamp a \<and>
                              file_type_action policy (sa_file_type a) \<noteq> None) (rev accesses) of
             None \<Rightarrow> None
           | Some recent \<Rightarrow>
               (case file_type_action policy (sa_file_type recent) of
                  None \<Rightarrow> None
                | Some action \<Rightarrow>
                    Some (flow_for action (flow_reason ''recently closed'' recent pid hostname)
                            recent))))"

definition check_flow :: "timestamp \<Rightarrow> dlp_correlator \<Rightarrow> u32 \<Rightarrow> string \<Rightarrow> flow_verdict" where
  "check_flow now c pid hostname =
     (let policy = dlp_policy_of c in
      if \<not> is_watched_domain policy hostname then flow_allow
      else case check_open_fds c pid hostname policy of
        Some v \<Rightarrow> v
      | None \<Rightarrow>
          (case check_pid_accesses now c pid hostname policy of
             Some v \<Rightarrow> v
           | None \<Rightarrow> flow_allow))"

definition evict_stale :: "timestamp \<Rightarrow> dlp_correlator \<Rightarrow> dlp_correlator" where
  "evict_stale now c =
     (let fallback_cutoff = now - dlp_fallback_window c;
          fd_cutoff = now - dlp_max_fd_age c;
          trimmed = map (\<lambda>(pid, q). (pid, dropWhile (\<lambda>a. sa_timestamp a < fallback_cutoff) q))
                      (dlp_pid_accesses c)
      in c\<lparr>dlp_pid_accesses := filter (\<lambda>(pid, q). q \<noteq> []) trimmed,
           dlp_open_fds := hm_retain (\<lambda>_ a. fd_cutoff \<le> sa_timestamp a) (dlp_open_fds c)\<rparr>)"

definition record_process_exit :: "dlp_correlator \<Rightarrow> u32 \<Rightarrow> dlp_correlator" where
  "record_process_exit c pid =
     c\<lparr>dlp_open_fds := hm_retain (\<lambda>(p, _) _. p \<noteq> pid) (dlp_open_fds c),
       dlp_pid_accesses := hm_remove pid (dlp_pid_accesses c)\<rparr>"

definition active_pid_count :: "dlp_correlator \<Rightarrow> nat" where
  "active_pid_count c = length (dlp_pid_accesses c)"

definition open_fd_count :: "dlp_correlator \<Rightarrow> nat" where
  "open_fd_count c = length (dlp_open_fds c)"

definition total_tracked_accesses :: "dlp_correlator \<Rightarrow> nat" where
  "total_tracked_accesses c = sum_list (map (\<lambda>(_, q). length q) (dlp_pid_accesses c))"

section \<open>Stage\<close>

record dlp_detection =
  dd_action :: flow_action
  dd_pid :: u32
  dd_process_name :: string
  dd_file_path :: string
  dd_file_type :: string
  dd_domain :: string
  dd_username :: string

text \<open>
  The optional detection channel: what it holds and its capacity. \<^verbatim>\<open>try_send\<close> on a full
  channel drops the detection. The receiving reporter drains it elsewhere.
\<close>

record dlp_stage =
  ds_correlator :: dlp_correlator
  ds_detection_tx :: "(dlp_detection list \<times> nat) option"

definition dlp_stage_new :: "dlp_correlator \<Rightarrow> dlp_stage" where
  "dlp_stage_new c = \<lparr>ds_correlator = c, ds_detection_tx = None\<rparr>"

definition with_detection_channel :: "nat \<Rightarrow> dlp_stage \<Rightarrow> dlp_stage" where
  "with_detection_channel capacity s = s\<lparr>ds_detection_tx := Some ([], capacity)\<rparr>"

definition emit_detection :: "dlp_stage \<Rightarrow> dlp_detection \<Rightarrow> dlp_stage" where
  "emit_detection s d =
     (case ds_detection_tx s of
        None \<Rightarrow> s
      | Some (queue, capacity) \<Rightarrow>
          if length queue < capacity then s\<lparr>ds_detection_tx := Some (queue @ [d], capacity)\<rparr> else s)"

definition dlp_description :: "string \<Rightarrow> string \<Rightarrow> network_event \<Rightarrow> string" where
  "dlp_description prefix file_type ne =
     prefix @ file_type @ '' upload to '' @ ne_dst_addr ne @ '' by '' @ pc_name (ne_context ne) @
     '' (PID '' @ show_nat (unat (pc_pid (ne_context ne))) @ '')''"

definition dlp_report ::
  "flow_action \<Rightarrow> flow_verdict \<Rightarrow> network_event \<Rightarrow> dlp_detection" where
  "dlp_report act fv ne =
     \<lparr>dd_action = act, dd_pid = pc_pid (ne_context ne), dd_process_name = pc_name (ne_context ne),
      dd_file_path = (case fv_file_path fv of Some p \<Rightarrow> p | None \<Rightarrow> []),
      dd_file_type = (case fv_file_type fv of Some t \<Rightarrow> t | None \<Rightarrow> ''unknown''),
      dd_domain = ne_dst_addr ne, dd_username = pc_user (ne_context ne)\<rparr>"

text \<open>
  \<open>read_header path\<close> is what \<^verbatim>\<open>magic::read_file_header(path, 16)\<close> reads at that moment, \<open>now\<close> the
  clock.
\<close>

fun dlp_analyze ::
  "(string \<Rightarrow> string option) \<Rightarrow> timestamp \<Rightarrow> dlp_stage \<Rightarrow> riggs_event \<Rightarrow> dlp_stage \<times> analysis" where
  "dlp_analyze read_header now s (File fe) =
     (case fe_action fe of
        Open \<Rightarrow>
          (s\<lparr>ds_correlator :=
               record_file_access (ds_correlator s) (pc_pid (fe_context fe)) (fe_fd fe) (fe_path fe)
                 (pc_name (fe_context fe)) (fe_timestamp fe) (read_header (fe_path fe))\<rparr>,
           Inr SV_Clean)
      | Close \<Rightarrow>
          (case fe_fd fe of
             Some fd \<Rightarrow>
               (s\<lparr>ds_correlator := record_file_close (ds_correlator s) (pc_pid (fe_context fe)) fd\<rparr>,
                Inr SV_Clean)
           | None \<Rightarrow> (s, Inr SV_Clean))
      | _ \<Rightarrow> (s, Inr SV_Clean))"
| "dlp_analyze read_header now s (Process pe) =
     (if pe_action pe = Exit
      then (s\<lparr>ds_correlator := record_process_exit (ds_correlator s) (pc_pid (pe_context pe))\<rparr>,
            Inr SV_Clean)
      else (s, Inr SV_Clean))"
| "dlp_analyze read_header now s (Network ne) =
     (if ne_direction ne = Outbound
      then let fv = check_flow now (ds_correlator s) (pc_pid (ne_context ne)) (ne_dst_addr ne);
               file_type = (case fv_file_type fv of Some t \<Rightarrow> t | None \<Rightarrow> ''unknown'')
           in (case fv_action fv of
                 Flow_Block \<Rightarrow>
                   (emit_detection s (dlp_report Flow_Block fv ne),
                    Inr (SV_Malicious
                      \<lparr>v_event_id = ne_event_id ne, v_threat_level = Malicious,
                       v_confidence = f32_lit (95 / 100), v_source = Dlp,
                       v_description = dlp_description ''DLP block: '' file_type ne,
                       v_timestamp = now\<rparr>))
               | Flow_Alert \<Rightarrow>
                   (emit_detection s (dlp_report Flow_Alert fv ne),
                    Inr (SV_Suspicious
                      \<lparr>v_event_id = ne_event_id ne, v_threat_level = Suspicious,
                       v_confidence = f32_lit (8 / 10), v_source = Dlp,
                       v_description = dlp_description ''DLP alert: '' file_type ne,
                       v_timestamp = now\<rparr>))
               | Flow_Allow \<Rightarrow> (s, Inr SV_Clean))
      else (s, Inr SV_Clean))"
| "dlp_analyze read_header now s (Dns _) = (s, Inr SV_Clean)"
| "dlp_analyze read_header now s (Auth _) = (s, Inr SV_Clean)"
| "dlp_analyze read_header now s (Kernel _) = (s, Inr SV_Clean)"

section \<open>What the correlator tracks\<close>

definition dlp_inv :: "dlp_correlator \<Rightarrow> bool" where
  "dlp_inv c \<longleftrightarrow> hm_wf (dlp_open_fds c) \<and> hm_wf (dlp_pid_accesses c)"

text \<open>The steps that change a correlator, as data, and runs of them.\<close>

datatype dlp_op =
    Op_Access u32 "u32 option" string string timestamp "string option"
  | Op_Close u32 u32
  | Op_Exit u32
  | Op_Evict timestamp
  | Op_Replace dlp_policy

fun dlp_apply :: "dlp_correlator \<Rightarrow> dlp_op \<Rightarrow> dlp_correlator" where
  "dlp_apply c (Op_Access pid fd path nm ts hdr) = record_file_access c pid fd path nm ts hdr"
| "dlp_apply c (Op_Close pid fd) = record_file_close c pid fd"
| "dlp_apply c (Op_Exit pid) = record_process_exit c pid"
| "dlp_apply c (Op_Evict now) = evict_stale now c"
| "dlp_apply c (Op_Replace p) = dlp_replace_policy c p"

definition dlp_run :: "dlp_correlator \<Rightarrow> dlp_op list \<Rightarrow> dlp_correlator" where
  "dlp_run c ops = foldl dlp_apply c ops"

fun accesses_by :: "u32 \<Rightarrow> dlp_op \<Rightarrow> bool" where
  "accesses_by pid (Op_Access p _ _ _ _ _) = (p = pid)"
| "accesses_by pid _ = False"

definition untracked :: "dlp_correlator \<Rightarrow> u32 \<Rightarrow> bool" where
  "untracked c pid \<longleftrightarrow>
     (\<forall>fd a. ((pid, fd), a) \<notin> set (dlp_open_fds c)) \<and> hm_get (dlp_pid_accesses c) pid = None"

lemma hm_get_trimmed:
  assumes "hm_wf m"
  shows "hm_get (filter (\<lambda>(k, q). q \<noteq> []) (map (\<lambda>(k, q). (k, f q)) m)) k =
    (case hm_get m k of None \<Rightarrow> None | Some q \<Rightarrow> if f q = [] then None else Some (f q))"
  using assms
proof (induction m)
  case (Cons p m)
  obtain k' q where p: "p = (k', q)" by (cases p)
  have "hm_get m k' = None" using Cons.prems p by (auto simp: hm_get_None_iff hm_wf_def)
  with Cons p show ?case by (auto simp: hm_get_def hm_wf_def)
qed simp

lemma hm_wf_trimmed: "hm_wf m \<Longrightarrow> hm_wf (filter (\<lambda>(k, q). q \<noteq> []) (map (\<lambda>(k, q). (k, f q)) m))"
proof (induction m)
  case (Cons p m)
  then show ?case by (cases p) (force simp: hm_wf_def)
qed simp

lemma dlp_apply_inv: "dlp_inv c \<Longrightarrow> dlp_inv (dlp_apply c op)"
  by (cases op)
    (auto simp: dlp_inv_def record_file_access_def record_file_close_def record_process_exit_def
      evict_stale_def dlp_replace_policy_def Let_def hm_wf_insert hm_wf_remove hm_wf_retain
      hm_wf_trimmed split: option.splits)

lemma dlp_run_inv: "dlp_inv c \<Longrightarrow> dlp_inv (dlp_run c ops)"
  unfolding dlp_run_def by (induction ops arbitrary: c) (auto simp: dlp_apply_inv)

lemma untracked_new: "untracked (dlp_new p w) pid"
  by (simp add: untracked_def dlp_new_def)

lemma untracked_exit: "untracked (record_process_exit c pid) pid"
  by (auto simp: untracked_def record_process_exit_def hm_retain_def hm_get_remove)

lemma untracked_access:
  assumes "untracked c pid" and "p \<noteq> pid"
  shows "untracked (record_file_access c p fd path nm ts hdr) pid"
proof -
  have "((pid, d), a) \<in> set (hm_insert (p, e) b m) \<longleftrightarrow> ((pid, d), a) \<in> set m"
    for d e :: u32 and a b :: sensitive_access and m
    using assms(2) by (simp add: set_hm_insert_other)
  with assms show ?thesis
    by (simp add: untracked_def record_file_access_def Let_def hm_get_insert split: option.split)
qed

lemma untracked_evict:
  assumes "dlp_inv c" and "untracked c pid"
  shows "untracked (evict_stale now c) pid"
  using assms by (auto simp: untracked_def evict_stale_def Let_def hm_retain_def dlp_inv_def hm_get_trimmed)

lemma untracked_apply:
  assumes "dlp_inv c" and "untracked c pid" and "\<not> accesses_by pid op"
  shows "untracked (dlp_apply c op) pid"
proof (cases op)
  case (Op_Access p fd path nm ts hdr)
  with assms show ?thesis by (simp add: untracked_access)
next
  case (Op_Close p fd)
  with assms hm_remove_subset show ?thesis
    by (fastforce simp: untracked_def record_file_close_def)
next
  case (Op_Exit p)
  with assms show ?thesis
    by (auto simp: untracked_def record_process_exit_def hm_retain_def hm_get_remove)
next
  case (Op_Evict now)
  with assms show ?thesis by (simp add: untracked_evict)
next
  case (Op_Replace p)
  with assms show ?thesis by (simp add: untracked_def dlp_replace_policy_def)
qed

lemma untracked_run:
  "dlp_inv c \<Longrightarrow> untracked c pid \<Longrightarrow> \<forall>op \<in> set ops. \<not> accesses_by pid op \<Longrightarrow> untracked (dlp_run c ops) pid"
  unfolding dlp_run_def
  by (induction ops arbitrary: c) (auto simp: untracked_apply dlp_apply_inv)

lemma untracked_allows: "untracked c pid \<Longrightarrow> check_flow now c pid host = flow_allow"
  by (auto simp: check_flow_def check_open_fds_def check_pid_accesses_def untracked_def Let_def
      find_Some_iff split: option.splits) (metis nth_mem)

section \<open>When a flow is allowed\<close>

definition relevant :: "dlp_policy \<Rightarrow> sensitive_access \<Rightarrow> bool" where
  "relevant p a \<longleftrightarrow> file_type_action p (sa_file_type a) \<noteq> None"

definition open_relevant :: "dlp_correlator \<Rightarrow> u32 \<Rightarrow> bool" where
  "open_relevant c pid \<longleftrightarrow>
     (\<exists>fd a. ((pid, fd), a) \<in> set (dlp_open_fds c) \<and> relevant (dlp_policy_of c) a)"

definition recent_relevant :: "timestamp \<Rightarrow> dlp_correlator \<Rightarrow> u32 \<Rightarrow> bool" where
  "recent_relevant now c pid \<longleftrightarrow>
     (\<exists>q a. hm_get (dlp_pid_accesses c) pid = Some q \<and> a \<in> set q \<and>
        now - dlp_fallback_window c \<le> sa_timestamp a \<and> relevant (dlp_policy_of c) a)"

lemma flow_for_action:
  "fv_action (flow_for act r a) = (case act of Dlp_Block \<Rightarrow> Flow_Block | Dlp_AlertOnly \<Rightarrow> Flow_Alert)"
  "fv_allow (flow_for act r a) \<longleftrightarrow> act = Dlp_AlertOnly"
  by (cases act; simp add: flow_for_def flow_block_def flow_alert_def)+

lemma check_open_fds_None_iff:
  "check_open_fds c pid host (dlp_policy_of c) = None \<longleftrightarrow> \<not> open_relevant c pid"
proof -
  let ?P = "\<lambda>((p, _), a). p = pid \<and> file_type_action (dlp_policy_of c) (sa_file_type a) \<noteq> None"
  have "List.find ?P (dlp_open_fds c) = None \<longleftrightarrow> \<not> open_relevant c pid"
    by (force simp: find_None_iff open_relevant_def relevant_def)
  moreover have "\<exists>act. file_type_action (dlp_policy_of c) (sa_file_type a) = Some act"
    if "List.find ?P (dlp_open_fds c) = Some (k, a)" for k a
    using that by (auto simp: find_Some_iff)
  ultimately show ?thesis
    by (auto simp: check_open_fds_def split: option.splits)
qed

lemma check_pid_accesses_None_iff:
  "check_pid_accesses now c pid host (dlp_policy_of c) = None \<longleftrightarrow> \<not> recent_relevant now c pid"
proof (cases "hm_get (dlp_pid_accesses c) pid")
  case None
  then show ?thesis by (simp add: check_pid_accesses_def recent_relevant_def)
next
  case (Some q)
  let ?P = "\<lambda>a. now - dlp_fallback_window c \<le> sa_timestamp a \<and>
      file_type_action (dlp_policy_of c) (sa_file_type a) \<noteq> None"
  have "List.find ?P (rev q) = None \<longleftrightarrow> \<not> recent_relevant now c pid"
    using Some by (force simp: find_None_iff recent_relevant_def relevant_def)
  moreover have "\<exists>act. file_type_action (dlp_policy_of c) (sa_file_type a) = Some act"
    if "List.find ?P (rev q) = Some a" for a
    using that by (auto simp: find_Some_iff)
  ultimately show ?thesis
    using Some by (auto simp: check_pid_accesses_def split: option.splits)
qed

lemma check_open_fds_flagged:
  "check_open_fds c pid host p = Some v \<Longrightarrow> fv_action v \<noteq> Flow_Allow \<and> (fv_allow v \<longleftrightarrow> fv_action v = Flow_Alert)"
  by (auto simp: check_open_fds_def flow_for_action split: option.splits dlp_action.splits)

lemma check_pid_accesses_flagged:
  "check_pid_accesses now c pid host p = Some v \<Longrightarrow>
     fv_action v \<noteq> Flow_Allow \<and> (fv_allow v \<longleftrightarrow> fv_action v = Flow_Alert)"
  by (auto simp: check_pid_accesses_def Let_def flow_for_action split: option.splits dlp_action.splits)

lemma check_flow_Allow_iff:
  "fv_action (check_flow now c pid host) = Flow_Allow \<longleftrightarrow>
     \<not> is_watched_domain (dlp_policy_of c) host \<or> \<not> open_relevant c pid \<and> \<not> recent_relevant now c pid"
  using check_open_fds_None_iff [of c pid host] check_pid_accesses_None_iff [of now c pid host]
  by (auto simp: check_flow_def Let_def flow_allow_def split: option.splits
      dest: check_open_fds_flagged check_pid_accesses_flagged)

lemma check_flow_allow_field:
  "fv_allow (check_flow now c pid host) \<longleftrightarrow> fv_action (check_flow now c pid host) \<noteq> Flow_Block"
proof (cases "is_watched_domain (dlp_policy_of c) host")
  case True
  show ?thesis
  proof (cases "check_open_fds c pid host (dlp_policy_of c)")
    case None
    with True show ?thesis
      by (cases "check_pid_accesses now c pid host (dlp_policy_of c)")
        (auto simp: check_flow_def flow_allow_def dest: check_pid_accesses_flagged
          intro: flow_action.exhaust)
  next
    case (Some v)
    with True check_open_fds_flagged [OF Some] show ?thesis
      by (cases "fv_action v") (auto simp: check_flow_def)
  qed
qed (simp add: check_flow_def flow_allow_def)

section \<open>A tracked descriptor\<close>

text \<open>
  What keeps a tracked open descriptor in place: no close of it, no exit of its process, no
  eviction later than the maximal age, no new open on the same descriptor, the same policy.
\<close>

definition keeps_fd :: "duration \<Rightarrow> u32 \<Rightarrow> u32 \<Rightarrow> timestamp \<Rightarrow> dlp_op \<Rightarrow> bool" where
  "keeps_fd max_age pid fd ts op =
     (case op of
        Op_Access p fd' _ _ _ _ \<Rightarrow> \<not> (p = pid \<and> fd' = Some fd)
      | Op_Close p fd' \<Rightarrow> \<not> (p = pid \<and> fd' = fd)
      | Op_Exit p \<Rightarrow> p \<noteq> pid
      | Op_Evict now \<Rightarrow> now - max_age \<le> ts
      | Op_Replace _ \<Rightarrow> False)"

lemma dlp_apply_config:
  "dlp_max_fd_age (dlp_apply c op) = dlp_max_fd_age c"
  "dlp_fallback_window (dlp_apply c op) = dlp_fallback_window c"
  by (cases op; simp add: record_file_access_def record_file_close_def record_process_exit_def
      evict_stale_def dlp_replace_policy_def Let_def split: option.split)+

lemma record_file_access_policy [simp]:
  "dlp_policy_of (record_file_access c pid fd path nm ts hdr) = dlp_policy_of c"
  by (simp add: record_file_access_def Let_def split: option.split)

lemma keeps_fd_apply:
  assumes "((pid, fd), a) \<in> set (dlp_open_fds c)"
    and "keeps_fd (dlp_max_fd_age c) pid fd (sa_timestamp a) op"
  shows "((pid, fd), a) \<in> set (dlp_open_fds (dlp_apply c op)) \<and>
    dlp_policy_of (dlp_apply c op) = dlp_policy_of c"
proof (cases op)
  case (Op_Access p fd' path nm ts hdr)
  show ?thesis
  proof (cases fd')
    case (Some d)
    with assms(2) Op_Access have "(pid, fd) \<noteq> (p, d)" by (auto simp: keeps_fd_def)
    then have "((pid, fd), a) \<in> set (hm_insert (p, d) b (dlp_open_fds c))" for b
      using assms(1) by (rule set_hm_insert_other [THEN iffD2])
    with assms(1) Op_Access Some show ?thesis
      by (simp add: record_file_access_def Let_def split: option.split)
  qed (use assms(1) Op_Access in \<open>simp add: record_file_access_def Let_def split: option.split\<close>)
next
  case (Op_Close p d)
  with assms show ?thesis
    by (auto simp: keeps_fd_def record_file_close_def hm_remove_def AList.delete_eq)
next
  case (Op_Exit p)
  with assms show ?thesis by (auto simp: keeps_fd_def record_process_exit_def hm_retain_def)
next
  case (Op_Evict now)
  with assms show ?thesis by (auto simp: keeps_fd_def evict_stale_def hm_retain_def Let_def)
next
  case (Op_Replace p)
  with assms(2) show ?thesis by (simp add: keeps_fd_def)
qed

lemma keeps_fd_run:
  assumes "((pid, fd), a) \<in> set (dlp_open_fds c)"
    and "\<forall>op \<in> set ops. keeps_fd (dlp_max_fd_age c) pid fd (sa_timestamp a) op"
  shows "((pid, fd), a) \<in> set (dlp_open_fds (dlp_run c ops)) \<and>
    dlp_policy_of (dlp_run c ops) = dlp_policy_of c"
  using assms unfolding dlp_run_def
  by (induction ops arbitrary: c) (simp_all add: keeps_fd_apply dlp_apply_config)

lemma record_file_access_tracks:
  assumes "\<not> is_excluded_process (dlp_policy_of c) nm" and "detect_file_type path hdr = Some ft"
    and "file_type_action (dlp_policy_of c) ft \<noteq> None"
  shows "((pid, fd), \<lparr>sa_path = path, sa_file_type = ft, sa_timestamp = ts, sa_process_name = nm\<rparr>)
    \<in> set (dlp_open_fds (record_file_access c pid (Some fd) path nm ts hdr))"
  using assms by (auto simp: record_file_access_def Let_def hm_insert_self)

lemma open_relevant_not_allowed:
  "open_relevant c pid \<Longrightarrow> is_watched_domain (dlp_policy_of c) host \<Longrightarrow>
     fv_action (check_flow now c pid host) \<noteq> Flow_Allow"
  by (simp add: check_flow_Allow_iff)

section \<open>Eviction\<close>

lemma check_open_fds_evict:
  assumes "\<forall>((p, fd), a) \<in> set (dlp_open_fds c). p = pid \<longrightarrow> now - dlp_max_fd_age c \<le> sa_timestamp a"
  shows "check_open_fds (evict_stale now c) pid host p = check_open_fds c pid host p"
proof -
  have "List.find (\<lambda>((q, _), a). q = pid \<and> file_type_action p (sa_file_type a) \<noteq> None)
      (filter (\<lambda>(_, a). now - dlp_max_fd_age c \<le> sa_timestamp a) (dlp_open_fds c)) =
    List.find (\<lambda>((q, _), a). q = pid \<and> file_type_action p (sa_file_type a) \<noteq> None) (dlp_open_fds c)"
    using assms by (intro find_filter_irrelevant) auto
  then show ?thesis
    by (simp add: check_open_fds_def evict_stale_def hm_retain_def Let_def case_prod_beta)
qed

lemma check_pid_accesses_evict:
  assumes "hm_wf (dlp_pid_accesses c)" and "now \<le> later"
  shows "check_pid_accesses later (evict_stale now c) pid host p = check_pid_accesses later c pid host p"
proof (cases "hm_get (dlp_pid_accesses c) pid")
  case None
  with assms show ?thesis by (simp add: check_pid_accesses_def evict_stale_def Let_def hm_get_trimmed)
next
  case (Some q)
  let ?P = "\<lambda>a. later - dlp_fallback_window c \<le> sa_timestamp a \<and> (\<exists>y. file_type_action p (sa_file_type a) = Some y)"
  let ?Q = "\<lambda>a. sa_timestamp a < now - dlp_fallback_window c"
  have *: "List.find ?P (rev (dropWhile ?Q q)) = List.find ?P (rev q)"
    using assms(2) by (intro find_rev_dropWhile) auto
  show ?thesis
  proof (cases "dropWhile ?Q q = []")
    case True
    with * have "List.find ?P (rev q) = None" by simp
    with Some True assms(1) show ?thesis
      by (simp add: check_pid_accesses_def evict_stale_def Let_def hm_get_trimmed)
  next
    case False
    with Some assms(1) * show ?thesis
      by (auto simp: check_pid_accesses_def evict_stale_def Let_def hm_get_trimmed)
  qed
qed

section \<open>The stage and the live policy\<close>

lemma dlp_analyze_reported: "well_reported ev (snd (dlp_analyze read_header now s ev))"
proof (cases ev)
  case (Network ne)
  then show ?thesis
    by (simp add: well_reported_def reports_def usable_def f32_lits Let_def
        split: flow_action.split)
next
  case (File fe)
  then show ?thesis
    by (simp add: well_reported_def split: file_action.split option.split)
qed (simp_all add: well_reported_def)

interpretation dlp_stage_contract: detection_stage "dlp_analyze read_header now"
  for read_header :: "string \<Rightarrow> string option" and now :: timestamp
  by unfold_locales (rule dlp_analyze_reported)

interpretation dlp_cell: policy_cell dlp_replace_policy dlp_policy_of
  by unfold_locales (simp add: dlp_replace_policy_def)


text \<open>
  C8: no bypass through an open descriptor. After a process that is not excluded opens a file of
  a listed type, every flow it makes to a watched host is flagged, whatever other opens, closes,
  exits and evictions happen in between, as long as that descriptor is not closed or reused, the
  process does not exit, the policy is not replaced and the descriptor is younger than an hour
  at each eviction.
\<close>

theorem open_descriptor_flagged:
  assumes "\<not> is_excluded_process (dlp_policy_of c) nm" and "detect_file_type path hdr = Some ft"
    and "file_type_action (dlp_policy_of c) ft \<noteq> None"
    and "\<forall>op \<in> set ops. keeps_fd (dlp_max_fd_age c) pid fd ts op"
    and "is_watched_domain (dlp_policy_of c) host"
  shows "fv_action (check_flow now
      (dlp_run (record_file_access c pid (Some fd) path nm ts hdr) ops) pid host) \<noteq> Flow_Allow"
proof -
  let ?c = "record_file_access c pid (Some fd) path nm ts hdr"
  let ?a = "\<lparr>sa_path = path, sa_file_type = ft, sa_timestamp = ts, sa_process_name = nm\<rparr>"
  have "dlp_max_fd_age ?c = dlp_max_fd_age c"
    using dlp_apply_config(1) [of c "Op_Access pid (Some fd) path nm ts hdr"] by simp
  with assms(4) keeps_fd_run [OF record_file_access_tracks [OF assms(1-3), of pid fd ts], of ops]
  have "((pid, fd), ?a) \<in> set (dlp_open_fds (dlp_run ?c ops))"
    and p: "dlp_policy_of (dlp_run ?c ops) = dlp_policy_of c" by simp_all
  with assms(3) have "open_relevant (dlp_run ?c ops) pid"
    unfolding open_relevant_def relevant_def p by fastforce
  with assms(5) p show ?thesis by (simp add: open_relevant_not_allowed)
qed

definition sample_policy :: dlp_policy where
  "sample_policy =
     \<lparr>dp_watched_domains = [\<lparr>dpat_pattern = ''*.ai'', dpat_category = ''ai''\<rparr>],
      dp_blocked_file_types = [Pdf], dp_alert_file_types = [Csv], dp_excluded_processes = [],
      dp_action = Dlp_Block\<rparr>"

definition sample_ops :: "dlp_op list" where
  "sample_ops = [Op_Close 7 4, Op_Exit 8, Op_Evict (seconds 60)]"

theorem open_descriptor_flagged_witness:
  "fv_action (check_flow (seconds 100)
     (dlp_run (record_file_access (dlp_new sample_policy 30) 7 (Some 3) ''/tmp/a.pdf'' ''cat'' 5 None)
        sample_ops) 7 ''x.ai'') \<noteq> Flow_Allow"
proof (rule open_descriptor_flagged)
  show "\<not> is_excluded_process (dlp_policy_of (dlp_new sample_policy 30)) ''cat''" by code_simp
  show "detect_file_type ''/tmp/a.pdf'' None = Some Pdf" by code_simp
  show "file_type_action (dlp_policy_of (dlp_new sample_policy 30)) Pdf \<noteq> None" by code_simp
  show "\<forall>op \<in> set sample_ops. keeps_fd (dlp_max_fd_age (dlp_new sample_policy 30)) 7 3 5 op"
    by (simp add: sample_ops_def keeps_fd_def dlp_new_def seconds_def)
  show "is_watched_domain (dlp_policy_of (dlp_new sample_policy 30)) ''x.ai''" by code_simp
qed

text \<open>
  No false flags after an exit. Once a process exit is recorded, every flow of that process
  id passes silently until a new access is recorded for the id, whatever else happens in between
  (so a recycled process id does not inherit the old accesses).
\<close>

theorem exited_process_clean:
  assumes "dlp_inv c" and "\<forall>op \<in> set ops. \<not> accesses_by pid op"
  shows "check_flow now (dlp_run (record_process_exit c pid) ops) pid host = flow_allow"
proof -
  have "dlp_inv (record_process_exit c pid)"
    using dlp_apply_inv [OF assms(1), of "Op_Exit pid"] by simp
  with assms(2) show ?thesis by (simp add: untracked_allows untracked_run untracked_exit)
qed

theorem exited_process_clean_witness:
  "check_flow 9 (dlp_run (record_process_exit
      (record_file_access (dlp_new sample_policy 30) 7 (Some 3) ''/tmp/a.pdf'' ''cat'' 5 None) 7)
      [Op_Access 8 None ''/tmp/a.pdf'' ''cat'' 6 None]) 7 ''x.ai'' = flow_allow"
  by (rule exited_process_clean) (code_simp, simp)

text \<open>
  The periodic eviction never changes a verdict. A flow checked at or after the time of the
  eviction gets the verdict it would have got without it, as long as the process holds no
  tracked descriptor older than the maximal age.
\<close>

theorem eviction_transparent:
  assumes "dlp_inv c" and "now \<le> later"
    and "\<forall>((p, fd), a) \<in> set (dlp_open_fds c). p = pid \<longrightarrow> now - dlp_max_fd_age c \<le> sa_timestamp a"
  shows "check_flow later (evict_stale now c) pid host = check_flow later c pid host"
proof -
  have "dlp_policy_of (evict_stale now c) = dlp_policy_of c" by (simp add: evict_stale_def Let_def)
  with assms check_open_fds_evict [OF assms(3)] show ?thesis
    by (simp add: check_flow_def Let_def check_pid_accesses_evict dlp_inv_def split: option.split)
qed

theorem eviction_transparent_witness:
  "check_flow (seconds 40) (evict_stale (seconds 40)
      (record_file_access (dlp_new sample_policy 30) 7 (Some 3) ''/tmp/a.pdf'' ''cat'' 5 None)) 7 ''x.ai'' =
   check_flow (seconds 40)
      (record_file_access (dlp_new sample_policy 30) 7 (Some 3) ''/tmp/a.pdf'' ''cat'' 5 None) 7 ''x.ai''"
  by (rule eviction_transparent) (code_simp, simp, code_simp)

text \<open>
  A blocked upload is always reported as malicious. When the correlator blocks the flow of an
  outbound network event, the stage reports a Malicious verdict and the merge with any verdicts
  of the other stages stays Malicious, whatever the thresholds.
\<close>

theorem dlp_block_is_malicious:
  assumes "ne_direction ne = Outbound"
    and "fv_action (check_flow now (ds_correlator s) (pc_pid (ne_context ne)) (ne_dst_addr ne)) = Flow_Block"
  shows "merge_verdicts_weighted
      (collect_verdict (snd (dlp_analyze read_header now s (Network ne))) vs @ ws) mal sus = Malicious"
  using dlp_stage_contract.merged_at_least [of read_header now s "Network ne" vs ws mal sus] assms
  by (simp add: Let_def)

definition sample_flow :: network_event where
  "sample_flow =
     \<lparr>ne_event_id = EventId 1, ne_timestamp = 6,
      ne_context = process_context_new 7 1 ''cat'' ''/bin/cat'' '''' ''u'' (StorylineId 0),
      ne_direction = Outbound, ne_src_addr = ''10.0.0.1'', ne_dst_addr = ''x.ai'', ne_src_port = 1,
      ne_dst_port = 443, ne_protocol = ''tcp''\<rparr>"

definition sample_stage :: dlp_stage where
  "sample_stage = dlp_stage_new
     (record_file_access (dlp_new sample_policy 30) 7 (Some 3) ''/tmp/a.pdf'' ''cat'' 5 None)"

theorem dlp_block_is_malicious_witness:
  "merge_verdicts_weighted
      (collect_verdict (snd (dlp_analyze (\<lambda>_. None) 6 sample_stage (Network sample_flow))) [] @ [])
      (F_Fin 1) (F_Fin 1) = Malicious"
  by (rule dlp_block_is_malicious) (code_simp, code_simp)

text \<open>
  The verdict on a process with several tracked descriptors depends on the iteration order
  of the concurrent map: the same two entries, a blocked and an alert-only type, give a block in
  one order and let the flow pass in the other.
\<close>

theorem open_fd_order_decides:
  "let blocked = ((7, 3), \<lparr>sa_path = ''/a.pdf'', sa_file_type = Pdf, sa_timestamp = 5, sa_process_name = ''p''\<rparr>);
       alerted = ((7, 4), \<lparr>sa_path = ''/b.csv'', sa_file_type = Csv, sa_timestamp = 5, sa_process_name = ''p''\<rparr>);
       c = dlp_new sample_policy 30
   in \<not> fv_allow (check_flow 6 (c\<lparr>dlp_open_fds := [blocked, alerted]\<rparr>) 7 ''x.ai'') \<and>
      fv_allow (check_flow 6 (c\<lparr>dlp_open_fds := [alerted, blocked]\<rparr>) 7 ''x.ai'')"
  by code_simp

text \<open>
  With no tracked descriptor open, only the latest access inside the window counts. If the
  latest listed access of the process is to an alert-only type, the flow is let through with an
  alert, even when a blocked type was accessed just before, inside the same window.
\<close>

theorem later_alert_masks_block:
  assumes "is_watched_domain (dlp_policy_of c) host" and "\<not> open_relevant c pid"
    and "hm_get (dlp_pid_accesses c) pid = Some (q @ [a])"
    and "now - dlp_fallback_window c \<le> sa_timestamp a"
    and "file_type_action (dlp_policy_of c) (sa_file_type a) = Some Dlp_AlertOnly"
  shows "fv_allow (check_flow now c pid host) \<and> fv_action (check_flow now c pid host) = Flow_Alert"
proof -
  have "check_open_fds c pid host (dlp_policy_of c) = None"
    using assms(2) by (simp add: check_open_fds_None_iff)
  with assms show ?thesis
    by (simp add: check_flow_def check_pid_accesses_def Let_def flow_for_def flow_alert_def)
qed

definition masked_correlator :: dlp_correlator where
  "masked_correlator =
     record_file_access
       (record_file_access (dlp_new sample_policy 30) 7 None ''/a.pdf'' ''p'' (seconds 10) None)
       7 None ''/b.csv'' ''p'' (seconds 11) None"

theorem later_alert_masks_block_witness:
  "fv_allow (check_flow (seconds 12) masked_correlator 7 ''x.ai'') \<and>
   fv_action (check_flow (seconds 12) masked_correlator 7 ''x.ai'') = Flow_Alert"
proof (rule later_alert_masks_block)
  show "is_watched_domain (dlp_policy_of masked_correlator) ''x.ai''" by code_simp
  have "dlp_open_fds masked_correlator = []" by code_simp
  then show "\<not> open_relevant masked_correlator 7" by (simp add: open_relevant_def)
  show "hm_get (dlp_pid_accesses masked_correlator) 7 =
    Some ([\<lparr>sa_path = ''/a.pdf'', sa_file_type = Pdf, sa_timestamp = seconds 10, sa_process_name = ''p''\<rparr>] @
          [\<lparr>sa_path = ''/b.csv'', sa_file_type = Csv, sa_timestamp = seconds 11, sa_process_name = ''p''\<rparr>])"
    by code_simp
qed code_simp+

text \<open>
  Every Office Open XML file is taken for a Word document. When the header shows the zip
  magic and the policy lists no Word documents, the access is not recorded at all, whatever the
  extension: a policy that blocks only spreadsheets or presentations never sees one.
\<close>

theorem ooxml_counts_as_docx:
  assumes "starts_with hdr OOXML_MAGIC" and "file_type_action (dlp_policy_of c) Docx = None"
  shows "record_file_access c pid fd path nm ts (Some hdr) = c"
proof -
  have "4 \<le> length hdr" using assms(1) by (auto simp: starts_with_iff OOXML_MAGIC_def)
  with assms(1) have "detect_file_type path (Some hdr) = Some Docx"
    by (simp add: detect_file_type_def detect_from_magic_def)
  with assms(2) show ?thesis by (simp add: record_file_access_def Let_def)
qed

definition pptx_policy :: dlp_policy where
  "pptx_policy = sample_policy\<lparr>dp_blocked_file_types := [Pptx]\<rparr>"

theorem ooxml_counts_as_docx_witness:
  "record_file_access (dlp_new pptx_policy 30) 7 (Some 3) ''/deck.pptx'' ''p'' 5 (Some OOXML_MAGIC) =
     dlp_new pptx_policy 30"
  by (rule ooxml_counts_as_docx) code_simp+

end
