(* ===== verification/Addresses.thy ===== *)
theory Addresses
  imports Prelude "HOL-Library.Product_Lexorder"
begin

text \<open>
  \<^verbatim>\<open>std::net::IpAddr\<close> as the crates use it: the two families, the loopback test, the order and the
  rendering of an address (the longest run of zero segments of an IPv6 address is compressed).
\<close>

section \<open>Addresses\<close>

datatype ip_addr = V4 u32 | V6 uuid

fun is_loopback :: "ip_addr \<Rightarrow> bool" where
  "is_loopback (V4 a) = (drop_bit 24 a = 127)"
| "is_loopback (V6 a) = (a = 1)"

fun is_ipv4 :: "ip_addr \<Rightarrow> bool" where
  "is_ipv4 (V4 _) = True"
| "is_ipv4 (V6 _) = False"

definition show_v4 :: "nat \<Rightarrow> string" where
  "show_v4 n =
     join ''.'' (map (\<lambda>i. show_nat (n div 256 ^ i mod 256)) [3, 2, 1, 0])"

definition segments :: "nat \<Rightarrow> nat list" where
  "segments n = map (\<lambda>i. n div 65536 ^ i mod 65536) [7, 6, 5, 4, 3, 2, 1, 0]"

text \<open>The first longest run of zero segments, as (start, length).\<close>

fun longest_zeros :: "nat \<Rightarrow> nat \<times> nat \<Rightarrow> nat \<times> nat \<Rightarrow> nat list \<Rightarrow> nat \<times> nat" where
  "longest_zeros i best cur [] = best"
| "longest_zeros i best cur (s # ss) =
     (if s = 0 then
        let cur' = (if snd cur = 0 then (i, 1) else (fst cur, snd cur + 1))
        in longest_zeros (i + 1) (if snd best < snd cur' then cur' else best) cur' ss
      else longest_zeros (i + 1) best (0, 0) ss)"

definition show_v6 :: "nat \<Rightarrow> string" where
  "show_v6 n =
     (if n div 2 ^ 32 = 0xFFFF then ''::ffff:'' @ show_v4 (n mod 2 ^ 32)
      else let segs = segments n; (start, len) = longest_zeros 0 (0, 0) (0, 0) segs in
        if 1 < len
        then join '':'' (map show_hex (take start segs)) @ ''::'' @
             join '':'' (map show_hex (drop (start + len) segs))
        else join '':'' (map show_hex segs))"

fun show_ip :: "ip_addr \<Rightarrow> string" where
  "show_ip (V4 a) = show_v4 (unat a)"
| "show_ip (V6 a) = show_v6 (unat a)"

text \<open>The derived order of \<^verbatim>\<open>IpAddr\<close>: IPv4 before IPv6, then by value.\<close>

fun ip_key :: "ip_addr \<Rightarrow> nat \<times> nat" where
  "ip_key (V4 a) = (0, unat a)"
| "ip_key (V6 a) = (1, unat a)"

lemma ip_key_inject: "ip_key x = ip_key y \<longleftrightarrow> x = y"
  by (cases x; cases y) (simp_all add: word_unat_eq_iff)

instantiation ip_addr :: linorder
begin

definition less_eq_ip_addr :: "ip_addr \<Rightarrow> ip_addr \<Rightarrow> bool" where
  "less_eq_ip_addr a b \<longleftrightarrow> ip_key a \<le> ip_key b"

definition less_ip_addr :: "ip_addr \<Rightarrow> ip_addr \<Rightarrow> bool" where
  "less_ip_addr a b \<longleftrightarrow> ip_key a < ip_key b"

instance
proof
  fix x y :: ip_addr
  show "x < y \<longleftrightarrow> x \<le> y \<and> \<not> y \<le> x"
    by (simp add: less_ip_addr_def less_eq_ip_addr_def less_le_not_le)
  show "x \<le> x" by (simp add: less_eq_ip_addr_def)
  show "x \<le> y \<or> y \<le> x" by (simp add: less_eq_ip_addr_def linear)
next
  fix x y z :: ip_addr assume "x \<le> y" and "y \<le> z"
  then show "x \<le> z" unfolding less_eq_ip_addr_def by (rule order_trans)
next
  fix x y :: ip_addr assume "x \<le> y" and "y \<le> x"
  then show "x = y" by (simp add: less_eq_ip_addr_def flip: ip_key_inject)
qed

end

end
