(* ===== verification/Egress.thy ===== *)
theory Egress
  imports Addresses Configuration Reload "HOL-Library.Char_ord" "HOL-Library.List_Lexorder"
begin

text \<open>
  \<^verbatim>\<open>crates/riggs-egress\<close>: the egress policy and the evaluation of a flow (\<^verbatim>\<open>policy.rs\<close>), the live
  policy (\<^verbatim>\<open>engine.rs\<close>), the nftables ruleset of a policy snapshot (\<^verbatim>\<open>nftables.rs\<close>) and the loop
  that keeps the kernel in step with the policy (\<^verbatim>\<open>nftables/linux.rs\<close>). The crate
  \<^verbatim>\<open>ipnetwork\<close> is a parameter: a type \<open>'net\<close> of networks with its parser \<open>net_parse\<close>, its
  membership test \<open>net_contains\<close>, its family test \<open>net_is_v4\<close> and its rendering \<open>net_show\<close>.
\<close>

section \<open>Policy\<close>

datatype egress_mode = Off | Monitor | Enforce

definition egress_mode_parse :: "string \<Rightarrow> bool \<Rightarrow> egress_mode" where
  "egress_mode_parse s enabled =
     (if \<not> enabled then Off
      else let m = to_ascii_lowercase (trim s) in
        if m = ''off'' then Off else if m = ''enforce'' then Enforce else Monitor)"

fun egress_mode_as_str :: "egress_mode \<Rightarrow> string" where
  "egress_mode_as_str Off = ''off''"
| "egress_mode_as_str Monitor = ''monitor''"
| "egress_mode_as_str Enforce = ''enforce''"

record egress_decision =
  ed_allow :: bool
  ed_would_block :: bool
  ed_reason :: string
  ed_mode :: egress_mode

record 'net process_rule =
  pr_process :: string
  pr_domains :: "string list"
  pr_cidrs :: "'net list"

record 'net policy_snapshot =
  sn_mode :: egress_mode
  sn_allow_cidrs :: "'net list"
  sn_allow_ports :: "u16 list"
  sn_allow_domains :: "string list"
  sn_baseline_dns :: bool
  sn_baseline_dhcp_ntp :: bool
  sn_baseline_loopback :: bool
  sn_resolve_interval :: duration

record 'net egress_policy =
  ep_mode :: egress_mode
  ep_allow_domains :: "string list"
  ep_allow_cidrs :: "'net list"
  ep_allow_ports :: "u16 list"
  ep_baseline_dns :: bool
  ep_baseline_dhcp_ntp :: bool
  ep_baseline_loopback :: bool
  ep_process_rules :: "'net process_rule list"
  ep_resolve_interval :: duration

definition parse_cidrs :: "(string \<Rightarrow> 'net option) \<Rightarrow> string list \<Rightarrow> 'net list" where
  "parse_cidrs net_parse raw = List.map_filter net_parse raw"

definition compile_rule :: "(string \<Rightarrow> 'net option) \<Rightarrow> egress_process_rule \<Rightarrow> 'net process_rule" where
  "compile_rule net_parse rule =
     \<lparr>pr_process = to_ascii_lowercase (epr_process rule),
      pr_domains = map to_ascii_lowercase (epr_allow_domains rule),
      pr_cidrs = parse_cidrs net_parse (epr_allow_cidrs rule)\<rparr>"

definition egress_from_config :: "(string \<Rightarrow> 'net option) \<Rightarrow> egress_config \<Rightarrow> 'net egress_policy" where
  "egress_from_config net_parse config =
     \<lparr>ep_mode = egress_mode_parse (ec_mode config) (ec_enabled config),
      ep_allow_domains = map to_ascii_lowercase (ec_allow_domains config),
      ep_allow_cidrs = parse_cidrs net_parse (ec_allow_cidrs config),
      ep_allow_ports = ec_allow_ports config,
      ep_baseline_dns = eb_dns (ec_baseline config),
      ep_baseline_dhcp_ntp = eb_dhcp_ntp (ec_baseline config),
      ep_baseline_loopback = eb_loopback (ec_baseline config),
      ep_process_rules = map (compile_rule net_parse) (ec_process_rules config),
      ep_resolve_interval = seconds (uint (ec_resolve_interval_secs config))\<rparr>"

definition domain_count :: "'net egress_policy \<Rightarrow> nat" where
  "domain_count p = length (ep_allow_domains p)"

definition process_rule_count :: "'net egress_policy \<Rightarrow> nat" where
  "process_rule_count p = length (ep_process_rules p)"

definition snapshot :: "'net egress_policy \<Rightarrow> 'net policy_snapshot" where
  "snapshot p =
     (let allow_domains = foldl (\<lambda>acc r. acc @ pr_domains r) (ep_allow_domains p) (ep_process_rules p);
          allow_cidrs = foldl (\<lambda>acc r. acc @ pr_cidrs r) (ep_allow_cidrs p) (ep_process_rules p)
      in \<lparr>sn_mode = ep_mode p, sn_allow_cidrs = allow_cidrs, sn_allow_ports = ep_allow_ports p,
          sn_allow_domains = remdups_adj (sort allow_domains),
          sn_baseline_dns = ep_baseline_dns p, sn_baseline_dhcp_ntp = ep_baseline_dhcp_ntp p,
          sn_baseline_loopback = ep_baseline_loopback p,
          sn_resolve_interval = ep_resolve_interval p\<rparr>)"

definition domain_matches :: "string \<Rightarrow> string \<Rightarrow> bool" where
  "domain_matches pattern host =
     (case strip_prefix pattern ''*.'' of
        Some bare \<Rightarrow> host = bare \<or> ends_with host (''.'' @ bare)
      | None \<Rightarrow> host = pattern)"

definition dest_matches ::
  "('net \<Rightarrow> ip_addr \<Rightarrow> bool) \<Rightarrow> string list \<Rightarrow> 'net list \<Rightarrow> string option \<Rightarrow> ip_addr option \<Rightarrow> bool" where
  "dest_matches net_contains domains cidrs hostname ip =
     ((case hostname of
         Some host \<Rightarrow> list_ex (\<lambda>p. domain_matches p (to_ascii_lowercase host)) domains
       | None \<Rightarrow> False) \<or>
      (case ip of Some a \<Rightarrow> list_ex (\<lambda>net. net_contains net a) cidrs | None \<Rightarrow> False))"

definition describe_dest :: "string option \<Rightarrow> ip_addr option \<Rightarrow> u16 \<Rightarrow> string" where
  "describe_dest hostname ip port =
     (case (hostname, ip) of
        (Some h, _) \<Rightarrow> h @ '':'' @ show_nat (unat port)
      | (None, Some a) \<Rightarrow> show_ip a @ '':'' @ show_nat (unat port)
      | (None, None) \<Rightarrow> ''<unknown>:'' @ show_nat (unat port))"

definition decide ::
  "('net \<Rightarrow> ip_addr \<Rightarrow> bool) \<Rightarrow> 'net egress_policy \<Rightarrow> string option \<Rightarrow> string option \<Rightarrow> ip_addr option
   \<Rightarrow> u16 \<Rightarrow> bool \<times> string" where
  "decide net_contains pol proc hostname ip port =
     (if ep_baseline_loopback pol \<and> (case ip of Some a \<Rightarrow> is_loopback a | None \<Rightarrow> False)
      then (True, ''baseline: loopback'')
      else if ep_baseline_dns pol \<and> port = 53 then (True, ''baseline: dns'')
      else if ep_baseline_dhcp_ntp pol \<and> port \<in> set [67, 68, 123, 546, 547]
      then (True, ''baseline: dhcp/ntp'')
      else
        let dest = describe_dest hostname ip port;
            global =
              (if ep_allow_ports pol \<noteq> [] \<and> port \<notin> set (ep_allow_ports pol)
               then (False, ''port '' @ show_nat (unat port) @ '' not in allow_ports'')
               else if dest_matches net_contains (ep_allow_domains pol) (ep_allow_cidrs pol) hostname ip
               then (True, ''allowlisted: '' @ dest)
               else (False, dest @ '' not in egress allowlist''))
        in (case proc of
              None \<Rightarrow> global
            | Some pr \<Rightarrow>
                (case List.find (\<lambda>r. str_contains (to_ascii_lowercase pr) (pr_process r))
                        (ep_process_rules pol) of
                   None \<Rightarrow> global
                 | Some rule \<Rightarrow>
                     if dest_matches net_contains (pr_domains rule) (pr_cidrs rule) hostname ip
                     then (True, ''process rule '' @ [CHR 0x27] @ pr_process rule @ [CHR 0x27] @
                                 '' allows '' @ dest)
                     else (False, ''process '' @ [CHR 0x27] @ pr @ [CHR 0x27] @ '' restricted; '' @
                                  dest @ '' not in its allowlist''))))"

definition egress_evaluate ::
  "('net \<Rightarrow> ip_addr \<Rightarrow> bool) \<Rightarrow> 'net egress_policy \<Rightarrow> string option \<Rightarrow> string option \<Rightarrow> ip_addr option
   \<Rightarrow> u16 \<Rightarrow> egress_decision" where
  "egress_evaluate net_contains pol proc hostname ip port =
     (if ep_mode pol = Off
      then \<lparr>ed_allow = True, ed_would_block = False, ed_reason = ''egress control off'',
            ed_mode = ep_mode pol\<rparr>
      else let (policy_allow, reason) = decide net_contains pol proc hostname ip port
        in \<lparr>ed_allow = (ep_mode pol \<noteq> Enforce \<or> policy_allow), ed_would_block = (\<not> policy_allow),
            ed_reason = reason, ed_mode = ep_mode pol\<rparr>)"

section \<open>The live policy\<close>

text \<open>The watch channel: the value a reader borrows, and how often it was replaced.\<close>

record 'net egress_engine =
  ee_policy :: "'net egress_policy"
  ee_version :: nat

definition egress_new :: "'net egress_policy \<Rightarrow> 'net egress_engine" where
  "egress_new p = \<lparr>ee_policy = p, ee_version = 0\<rparr>"

definition egress_replace_policy :: "'net egress_engine \<Rightarrow> 'net egress_policy \<Rightarrow> 'net egress_engine" where
  "egress_replace_policy e p = \<lparr>ee_policy = p, ee_version = ee_version e + 1\<rparr>"

definition egress_status :: "'net egress_engine \<Rightarrow> egress_mode \<times> nat \<times> nat" where
  "egress_status e = (ep_mode (ee_policy e), domain_count (ee_policy e), process_rule_count (ee_policy e))"

interpretation egress_cell: policy_cell egress_replace_policy ee_policy
  by unfold_locales (simp add: egress_replace_policy_def)

section \<open>The nftables ruleset\<close>

definition TABLE :: string where "TABLE = ''riggs_egress''"

definition writeln :: "string \<Rightarrow> string" where
  "writeln l = l @ [CHR 0x0A]"

definition daddr_rule :: "bool \<Rightarrow> string \<Rightarrow> string \<Rightarrow> string list" where
  "daddr_rule ports_set fam st =
     (if ports_set
      then [''    '' @ fam @ '' daddr @'' @ st @ '' tcp dport @allowports accept'',
            ''    '' @ fam @ '' daddr @'' @ st @ '' udp dport @allowports accept'']
      else [''    '' @ fam @ '' daddr @'' @ st @ '' accept''])"

definition render_ruleset ::
  "('net \<Rightarrow> bool) \<Rightarrow> ('net \<Rightarrow> string) \<Rightarrow> 'net policy_snapshot \<Rightarrow> ip_addr list \<Rightarrow> ip_addr list
   \<Rightarrow> string option" where
  "render_ruleset net_is_v4 net_show snap resolved console =
     (if sn_mode snap \<noteq> Enforce then None
      else
        let v4 = map net_show (filter net_is_v4 (sn_allow_cidrs snap)) @
                 map show_ip (filter is_ipv4 resolved);
            v6 = map net_show (filter (\<lambda>n. \<not> net_is_v4 n) (sn_allow_cidrs snap)) @
                 map show_ip (filter (\<lambda>a. \<not> is_ipv4 a) resolved);
            ports_set = (sn_allow_ports snap \<noteq> []);
            rules =
              [''table inet '' @ TABLE @ '' {''] @
              (if v4 \<noteq> [] then
                 [''  set allow4 { type ipv4_addr; flags interval; auto-merge; elements = { '' @
                  join '', '' v4 @ '' } }''] else []) @
              (if v6 \<noteq> [] then
                 [''  set allow6 { type ipv6_addr; flags interval; auto-merge; elements = { '' @
                  join '', '' v6 @ '' } }''] else []) @
              (if ports_set then
                 [''  set allowports { type inet_service; elements = { '' @
                  join '', '' (map (\<lambda>p. show_nat (unat p)) (sn_allow_ports snap)) @ '' } }''] else []) @
              [''  chain output {'',
               ''    type filter hook output priority 0; policy drop;'',
               ''    ct direction reply accept'',
               ''    ct state related accept'',
               ''    icmpv6 type { nd-router-solicit, nd-neighbor-solicit, nd-neighbor-advert, mld2-listener-report } accept''] @
              (if sn_baseline_loopback snap
               then [''    oif '' @ [CHR 0x22] @ ''lo'' @ [CHR 0x22] @ '' accept''] else []) @
              (if sn_baseline_dns snap
               then [''    udp dport 53 accept'', ''    tcp dport 53 accept''] else []) @
              (if sn_baseline_dhcp_ntp snap
               then [''    udp dport { 67, 68, 123 } accept'', ''    udp dport { 546, 547 } accept'']
               else []) @
              map (\<lambda>ip. ''    '' @ (if is_ipv4 ip then ''ip'' else ''ip6'') @ '' daddr '' @ show_ip ip @
                        '' accept'') console @
              (if v4 \<noteq> [] then daddr_rule ports_set ''ip'' ''allow4'' else []) @
              (if v6 \<noteq> [] then daddr_rule ports_set ''ip6'' ''allow6'' else []) @
              [''    meta l4proto tcp reject with tcp reset'',
               ''    reject with icmpx type admin-prohibited'',
               ''  }'', ''}'']
        in Some (concat (map writeln rules)))"

text \<open>
  \<^verbatim>\<open>console_host\<close>; \<^verbatim>\<open>split_once("://")\<close> splits at the first occurrence of the three bytes.
\<close>

fun after_scheme :: "string \<Rightarrow> string option" where
  "after_scheme [] = None"
| "after_scheme (c # s) =
     (case strip_prefix (c # s) ''://'' of Some rest \<Rightarrow> Some rest | None \<Rightarrow> after_scheme s)"

definition console_host :: "string \<Rightarrow> string option" where
  "console_host endpoint =
     (let authority0 = (case after_scheme endpoint of Some rest \<Rightarrow> rest | None \<Rightarrow> endpoint);
          authority = hd (split_by (\<lambda>c. c \<in> set ''/?#'') authority0);
          host = (case strip_prefix authority ''['' of
                    Some v6 \<Rightarrow> hd (split_by (\<lambda>c. c = CHR '']'') v6)
                  | None \<Rightarrow> hd (split_by (\<lambda>c. c = CHR '':'') authority))
      in if host \<noteq> [] then Some host else None)"

text \<open>
  What the rendered text says, as data: the rules of the chain in order, one constructor per
  kind of line, and the packets each accepts. Rules are tried in order, the first that decides
  is final, and the policy of the chain is drop.
\<close>

datatype l4proto = Tcp | Udp | OtherProto

record packet =
  pk_reply :: bool
  pk_related :: bool
  pk_neighbor :: bool
  pk_oif_lo :: bool
  pk_proto :: l4proto
  pk_dport :: u16
  pk_daddr :: ip_addr

datatype 'net nft_rule =
    CtReply
  | CtRelated
  | NeighborDiscovery
  | OifLo
  | Dport l4proto "u16 list"
  | Daddr ip_addr
  | DaddrIn bool "'net list" "ip_addr list" "(l4proto \<times> u16 list) option"
  | RejectTcp
  | RejectAll

fun rule_verdict :: "('net \<Rightarrow> ip_addr \<Rightarrow> bool) \<Rightarrow> packet \<Rightarrow> 'net nft_rule \<Rightarrow> bool option" where
  "rule_verdict contains pk CtReply = (if pk_reply pk then Some True else None)"
| "rule_verdict contains pk CtRelated = (if pk_related pk then Some True else None)"
| "rule_verdict contains pk NeighborDiscovery = (if pk_neighbor pk then Some True else None)"
| "rule_verdict contains pk OifLo = (if pk_oif_lo pk then Some True else None)"
| "rule_verdict contains pk (Dport pr ps) =
     (if pk_proto pk = pr \<and> pk_dport pk \<in> set ps then Some True else None)"
| "rule_verdict contains pk (Daddr a) = (if pk_daddr pk = a then Some True else None)"
| "rule_verdict contains pk (DaddrIn v4 nets ips ports) =
     (if is_ipv4 (pk_daddr pk) = v4 \<and>
         (list_ex (\<lambda>n. contains n (pk_daddr pk)) nets \<or> pk_daddr pk \<in> set ips) \<and>
         (case ports of None \<Rightarrow> True | Some (pr, ps) \<Rightarrow> pk_proto pk = pr \<and> pk_dport pk \<in> set ps)
      then Some True else None)"
| "rule_verdict contains pk RejectTcp = (if pk_proto pk = Tcp then Some False else None)"
| "rule_verdict contains pk RejectAll = Some False"

fun chain_accepts :: "('net \<Rightarrow> ip_addr \<Rightarrow> bool) \<Rightarrow> packet \<Rightarrow> 'net nft_rule list \<Rightarrow> bool" where
  "chain_accepts contains pk [] = False"
| "chain_accepts contains pk (r # rs) =
     (case rule_verdict contains pk r of Some b \<Rightarrow> b | None \<Rightarrow> chain_accepts contains pk rs)"

definition daddr_rules :: "u16 list \<Rightarrow> bool \<Rightarrow> 'net list \<Rightarrow> ip_addr list \<Rightarrow> 'net nft_rule list" where
  "daddr_rules ports v4 nets ips =
     (if nets = [] \<and> ips = [] then []
      else if ports = [] then [DaddrIn v4 nets ips None]
      else [DaddrIn v4 nets ips (Some (Tcp, ports)), DaddrIn v4 nets ips (Some (Udp, ports))])"

definition egress_chain ::
  "('net \<Rightarrow> bool) \<Rightarrow> 'net policy_snapshot \<Rightarrow> ip_addr list \<Rightarrow> ip_addr list \<Rightarrow> 'net nft_rule list" where
  "egress_chain net_is_v4 snap resolved console =
     [CtReply, CtRelated, NeighborDiscovery] @
     (if sn_baseline_loopback snap then [OifLo] else []) @
     (if sn_baseline_dns snap then [Dport Udp [53], Dport Tcp [53]] else []) @
     (if sn_baseline_dhcp_ntp snap then [Dport Udp [67, 68, 123], Dport Udp [546, 547]] else []) @
     map Daddr console @
     daddr_rules (sn_allow_ports snap) True (filter net_is_v4 (sn_allow_cidrs snap))
       (filter is_ipv4 resolved) @
     daddr_rules (sn_allow_ports snap) False (filter (\<lambda>n. \<not> net_is_v4 n) (sn_allow_cidrs snap))
       (filter (\<lambda>a. \<not> is_ipv4 a) resolved) @
     [RejectTcp, RejectAll]"

text \<open>How the lines of the text print the rules and the named sets.\<close>

fun proto_name :: "l4proto \<Rightarrow> string" where
  "proto_name Tcp = ''tcp''" | "proto_name Udp = ''udp''" | "proto_name OtherProto = ''other''"

definition fam_name :: "bool \<Rightarrow> string" where
  "fam_name v4 = (if v4 then ''ip'' else ''ip6'')"

fun print_ports :: "u16 list \<Rightarrow> string" where
  "print_ports [p] = show_nat (unat p)"
| "print_ports ps = ''{ '' @ join '', '' (map (\<lambda>p. show_nat (unat p)) ps) @ '' }''"

fun print_rule :: "'net nft_rule \<Rightarrow> string" where
  "print_rule CtReply = ''    ct direction reply accept''"
| "print_rule CtRelated = ''    ct state related accept''"
| "print_rule NeighborDiscovery =
     ''    icmpv6 type { nd-router-solicit, nd-neighbor-solicit, nd-neighbor-advert, mld2-listener-report } accept''"
| "print_rule OifLo = ''    oif '' @ [CHR 0x22] @ ''lo'' @ [CHR 0x22] @ '' accept''"
| "print_rule (Dport pr ps) = ''    '' @ proto_name pr @ '' dport '' @ print_ports ps @ '' accept''"
| "print_rule (Daddr a) = ''    '' @ fam_name (is_ipv4 a) @ '' daddr '' @ show_ip a @ '' accept''"
| "print_rule (DaddrIn v4 nets ips ports) =
     ''    '' @ fam_name v4 @ '' daddr @allow'' @ (if v4 then ''4'' else ''6'') @
     (case ports of None \<Rightarrow> '''' | Some (pr, _) \<Rightarrow> '' '' @ proto_name pr @ '' dport @allowports'') @
     '' accept''"
| "print_rule RejectTcp = ''    meta l4proto tcp reject with tcp reset''"
| "print_rule RejectAll = ''    reject with icmpx type admin-prohibited''"

definition print_set :: "('net \<Rightarrow> string) \<Rightarrow> bool \<Rightarrow> 'net list \<Rightarrow> ip_addr list \<Rightarrow> string list" where
  "print_set net_show v4 nets ips =
     (if nets = [] \<and> ips = [] then []
      else [''  set allow'' @ (if v4 then ''4 { type ipv4_addr'' else ''6 { type ipv6_addr'') @
            ''; flags interval; auto-merge; elements = { '' @
            join '', '' (map net_show nets @ map show_ip ips) @ '' } }''])"

section \<open>The enforcement loop\<close>

definition CLEAR :: string where
  "CLEAR = writeln (''table inet riggs_egress {}'') @ writeln (''delete table inet riggs_egress'')"

definition ANSWER_RETENTION :: duration where "ANSWER_RETENTION = seconds 3600"

text \<open>
  The kernel as \<^verbatim>\<open>nft -f -\<close> leaves it: the last script it accepted (one script is one
  transaction, so a script that fails changes nothing), and the flag \<^verbatim>\<open>STOPPED\<close>.
\<close>

datatype nft_outcome = Nft_Ok | Nft_NotFound | Nft_Failed

record nft_state =
  nf_stopped :: bool
  nf_script :: "string option"

definition nft :: "string \<Rightarrow> bool \<Rightarrow> nft_outcome \<Rightarrow> nft_state \<Rightarrow> nft_state \<times> nft_outcome" where
  "nft script last_run outcome k =
     (if nf_stopped k then (k, Nft_Ok)
      else let k' = k\<lparr>nf_stopped := last_run\<rparr> in
        (if outcome = Nft_Ok then k'\<lparr>nf_script := Some script\<rparr> else k', outcome))"

record enforcer =
  ef_answers :: "((string \<times> ip_addr) \<times> timestamp) list"
  ef_unenforceable :: "string list"
  ef_applied :: string

definition enforcer_new :: enforcer where
  "enforcer_new = \<lparr>ef_answers = [], ef_unenforceable = [], ef_applied = ''''\<rparr>"

text \<open>
  The enforce branch up to the script. \<open>lookup_all hosts\<close> is what the resolver answers for the
  spawned lookups, in the order they complete; \<^verbatim>\<open>None\<close> is a failed lookup.
\<close>

definition current_hosts :: "string option \<Rightarrow> 'net policy_snapshot \<Rightarrow> string list" where
  "current_hosts console snap =
     filter (\<lambda>d. \<not> starts_with d ''*.'') (sn_allow_domains snap) @
     (case console of Some h \<Rightarrow> [h] | None \<Rightarrow> [])"

definition refresh_answers ::
  "timestamp \<Rightarrow> string list \<Rightarrow> (string \<times> ip_addr list option) list
   \<Rightarrow> ((string \<times> ip_addr) \<times> timestamp) list \<Rightarrow> ((string \<times> ip_addr) \<times> timestamp) list" where
  "refresh_answers now hosts joined answers =
     (let kept = filter (\<lambda>((host, _), seen). host \<in> set hosts \<and> max 0 (now - seen) < ANSWER_RETENTION)
                   answers
      in foldl (\<lambda>m (host, found).
           case found of
             Some ips \<Rightarrow> foldl (\<lambda>m ip. bt_insert (host, ip) now m) m ips
           | None \<Rightarrow> m) kept joined)"

definition pinned_addresses :: "string option \<Rightarrow> ((string \<times> ip_addr) \<times> timestamp) list \<Rightarrow> ip_addr list" where
  "pinned_addresses console answers =
     map (\<lambda>((_, ip), _). ip) (filter (\<lambda>((host, _), _). Some host = console) answers)"

definition resolved_addresses :: "string option \<Rightarrow> ((string \<times> ip_addr) \<times> timestamp) list \<Rightarrow> ip_addr list" where
  "resolved_addresses console answers =
     map (\<lambda>((_, ip), _). ip) (filter (\<lambda>((host, _), _). Some host \<noteq> console) answers)"

text \<open>
  One iteration of \<^verbatim>\<open>enforce\<close>. The last component of the result says whether the following
  wait also ends on the resolve interval; the wait itself is the environment's. The
  \<^verbatim>\<open>expect\<close> on the ruleset is the value None of the result.
\<close>

definition enforce_step ::
  "('net \<Rightarrow> bool) \<Rightarrow> ('net \<Rightarrow> string) \<Rightarrow> string option \<Rightarrow> 'net policy_snapshot \<Rightarrow> timestamp
   \<Rightarrow> (string list \<Rightarrow> (string \<times> ip_addr list option) list) \<Rightarrow> nft_outcome
   \<Rightarrow> enforcer \<times> nft_state \<Rightarrow> (enforcer \<times> nft_state \<times> bool) option" where
  "enforce_step net_is_v4 net_show console snap now lookup_all outcome s =
     (let (e, k) = s;
          enforcing = (sn_mode snap = Enforce);
          hosts = current_hosts console snap;
          e1 = (if enforcing
                then e\<lparr>ef_unenforceable := filter (\<lambda>d. starts_with d ''*.'') (sn_allow_domains snap),
                       ef_answers := refresh_answers now hosts (lookup_all hosts) (ef_answers e)\<rparr>
                else e);
          script =
            (if enforcing
             then map_option (\<lambda>ruleset. CLEAR @ ruleset)
                    (render_ruleset net_is_v4 net_show snap
                       (resolved_addresses console (ef_answers e1))
                       (pinned_addresses console (ef_answers e1)))
             else Some CLEAR)
      in case script of
           None \<Rightarrow> None
         | Some sc \<Rightarrow>
             let (k', res) = nft sc False outcome k;
                 e2 = (if res = Nft_Ok \<and> sc \<noteq> ef_applied e1 then e1\<lparr>ef_applied := sc\<rparr> else e1);
                 failed = (res \<noteq> Nft_Ok \<and> \<not> (\<not> enforcing \<and> res = Nft_NotFound))
             in Some (e2, k', enforcing \<or> failed))"

definition nft_shutdown :: "nft_outcome \<Rightarrow> nft_state \<Rightarrow> nft_state" where
  "nft_shutdown outcome k = fst (nft CLEAR True outcome k)"

text \<open>The steps of the enforcement: iterations of the loop and the daemon's shutdown.\<close>

datatype 'net enforce_event =
    Iterate "'net policy_snapshot" timestamp "string list \<Rightarrow> (string \<times> ip_addr list option) list" nft_outcome
  | Shutdown nft_outcome

inductive enforce_run ::
  "('net \<Rightarrow> bool) \<Rightarrow> ('net \<Rightarrow> string) \<Rightarrow> string option \<Rightarrow> enforcer \<times> nft_state
   \<Rightarrow> 'net enforce_event list \<Rightarrow> enforcer \<times> nft_state \<Rightarrow> bool"
  for net_is_v4 net_show console where
  run_nil: "enforce_run net_is_v4 net_show console s [] s"
| run_iterate:
    "enforce_run net_is_v4 net_show console s evs s' \<Longrightarrow>
     enforce_step net_is_v4 net_show console snap now lookup_all outcome s' = Some (e, k, wait) \<Longrightarrow>
     enforce_run net_is_v4 net_show console s (evs @ [Iterate snap now lookup_all outcome]) (e, k)"
| run_shutdown:
    "enforce_run net_is_v4 net_show console s evs (e, k) \<Longrightarrow>
     enforce_run net_is_v4 net_show console s (evs @ [Shutdown outcome]) (e, nft_shutdown outcome k)"

section \<open>What a decision is\<close>

definition baseline_allows :: "'net egress_policy \<Rightarrow> ip_addr option \<Rightarrow> u16 \<Rightarrow> bool" where
  "baseline_allows pol ip port \<longleftrightarrow>
     ep_baseline_loopback pol \<and> (\<exists>a. ip = Some a \<and> is_loopback a) \<or>
     ep_baseline_dns pol \<and> port = 53 \<or>
     ep_baseline_dhcp_ntp pol \<and> port \<in> {67, 68, 123, 546, 547}"

definition rule_for :: "'net egress_policy \<Rightarrow> string option \<Rightarrow> 'net process_rule option" where
  "rule_for pol proc =
     Option.bind proc (\<lambda>pr. List.find (\<lambda>r. str_contains (to_ascii_lowercase pr) (pr_process r))
       (ep_process_rules pol))"

lemma decide_iff:
  "fst (decide net_contains pol proc hostname ip port) \<longleftrightarrow>
     baseline_allows pol ip port \<or>
     (case rule_for pol proc of
        Some rule \<Rightarrow> dest_matches net_contains (pr_domains rule) (pr_cidrs rule) hostname ip
      | None \<Rightarrow> (ep_allow_ports pol = [] \<or> port \<in> set (ep_allow_ports pol)) \<and>
          dest_matches net_contains (ep_allow_domains pol) (ep_allow_cidrs pol) hostname ip)"
  by (cases proc; cases ip)
    (auto simp: decide_def baseline_allows_def rule_for_def Let_def split: option.splits)

lemma decide_mode [simp]:
  "decide net_contains (pol\<lparr>ep_mode := m\<rparr>) proc hostname ip port =
     decide net_contains pol proc hostname ip port"
  by (cases pol) (simp only: decide_def egress_policy.simps)

lemma egress_evaluate_simps:
  "ed_allow (egress_evaluate nc pol proc hostname ip port) \<longleftrightarrow>
     ep_mode pol \<noteq> Enforce \<or> fst (decide nc pol proc hostname ip port)"
  "ed_would_block (egress_evaluate nc pol proc hostname ip port) \<longleftrightarrow>
     ep_mode pol \<noteq> Off \<and> \<not> fst (decide nc pol proc hostname ip port)"
  by (auto simp: egress_evaluate_def split: prod.splits)

lemma set_foldl_append: "set (foldl (\<lambda>acc r. acc @ f r) xs rs) = set xs \<union> (\<Union>r \<in> set rs. set (f r))"
  by (induction rs arbitrary: xs) auto

lemma snapshot_lists:
  "set (sn_allow_domains (snapshot pol)) =
     set (ep_allow_domains pol) \<union> (\<Union>r \<in> set (ep_process_rules pol). set (pr_domains r))"
  "set (sn_allow_cidrs (snapshot pol)) =
     set (ep_allow_cidrs pol) \<union> (\<Union>r \<in> set (ep_process_rules pol). set (pr_cidrs r))"
  by (simp_all add: snapshot_def Let_def set_foldl_append)

lemma dest_matches_mono:
  "dest_matches nc ds cs hostname ip \<Longrightarrow> set ds \<subseteq> set ds' \<Longrightarrow> set cs \<subseteq> set cs' \<Longrightarrow>
     dest_matches nc ds' cs' hostname ip"
  by (auto simp: dest_matches_def list_ex_iff split: option.splits)

lemma rule_for_in: "rule_for pol proc = Some r \<Longrightarrow> r \<in> set (ep_process_rules pol)"
  by (auto simp: rule_for_def find_Some_iff split: bind_splits)

section \<open>What the chain accepts\<close>

lemma chain_accepts_append:
  "(\<And>r. r \<in> set rs \<Longrightarrow> rule_verdict c pk r \<noteq> Some False) \<Longrightarrow>
     chain_accepts c pk (rs @ ss) \<longleftrightarrow> (\<exists>r \<in> set rs. rule_verdict c pk r = Some True) \<or> chain_accepts c pk ss"
proof (induction rs)
  case (Cons r rs)
  have "rule_verdict c pk r \<noteq> Some False" using Cons.prems by simp
  with Cons show ?case by (cases "rule_verdict c pk r") auto
qed simp

lemma chain_accepts_console: "chain_accepts c pk (map Daddr ips @ rs) \<longleftrightarrow> pk_daddr pk \<in> set ips \<or> chain_accepts c pk rs"
  by (subst chain_accepts_append) (auto split: if_splits)

lemma chain_accepts_daddr_rules:
  "chain_accepts c pk (daddr_rules ports v4 nets ips @ rs) \<longleftrightarrow>
     is_ipv4 (pk_daddr pk) = v4 \<and> (list_ex (\<lambda>n. c n (pk_daddr pk)) nets \<or> pk_daddr pk \<in> set ips) \<and>
     (ports = [] \<or> pk_proto pk \<noteq> OtherProto \<and> pk_dport pk \<in> set ports) \<or> chain_accepts c pk rs"
  by (cases "pk_proto pk") (auto simp: daddr_rules_def)

text \<open>A new flow: not a reply, not related to a tracked one, not neighbour discovery.\<close>

definition new_flow :: "packet \<Rightarrow> bool" where
  "new_flow pk \<longleftrightarrow> \<not> pk_reply pk \<and> \<not> pk_related pk \<and> \<not> pk_neighbor pk"

lemma print_daddr_rules:
  "map print_rule (daddr_rules ports v4 nets ips) =
     (if nets = [] \<and> ips = [] then []
      else daddr_rule (ports \<noteq> []) (fam_name v4) (''allow'' @ (if v4 then ''4'' else ''6'')))"
  by (simp add: daddr_rules_def daddr_rule_def)

lemma print_small_ports:
  "print_ports [53] = ''53''" "print_ports [67, 68, 123] = ''{ 67, 68, 123 }''"
  "print_ports [546, 547] = ''{ 546, 547 }''"
  by code_simp+

section \<open>Fresh answers\<close>

lemma foldl_bt_insert_mem:
  assumes "((h, ip), t) \<in> set (foldl (\<lambda>m ip. bt_insert (host, ip) now m) m ips)" and "bt_wf m"
  shows "((h, ip), t) \<in> set m \<or> h = host \<and> ip \<in> set ips \<and> t = now"
  using assms
proof (induction ips arbitrary: m)
  case (Cons a ips)
  have "((h, ip), t) \<in> set (bt_insert (host, a) now m) \<or> h = host \<and> ip \<in> set ips \<and> t = now"
    using Cons by (simp add: bt_wf_insert)
  with Cons.prems(2) show ?case by (auto simp: set_bt_insert)
qed simp

lemma foldl_bt_insert_wf: "bt_wf m \<Longrightarrow> bt_wf (foldl (\<lambda>m ip. bt_insert (host, ip) now m) m ips)"
  by (induction ips arbitrary: m) (auto simp: bt_wf_insert)

lemma refresh_answers_mem:
  assumes "((h, ip), t) \<in> set (refresh_answers now hosts joined answers)" and "bt_wf answers"
  shows "((h, ip), t) \<in> set answers \<and> h \<in> set hosts \<and> now - t < ANSWER_RETENTION \<or>
    t = now \<and> (\<exists>ips. (h, Some ips) \<in> set joined \<and> ip \<in> set ips)"
proof -
  let ?ins = "\<lambda>m (host, found). case found of
      Some ips \<Rightarrow> foldl (\<lambda>m ip. bt_insert (host, ip) now m) m ips | None \<Rightarrow> m"
  have "((h, ip), t) \<in> set m \<or> t = now \<and> (\<exists>ips. (h, Some ips) \<in> set js \<and> ip \<in> set ips)"
    if "((h, ip), t) \<in> set (foldl ?ins m js)" and "bt_wf m" for m js
    using that
  proof (induction js arbitrary: m)
    case (Cons j js)
    obtain host found where j: "j = (host, found)" by (cases j)
    show ?case
    proof (cases found)
      case None
      with Cons j show ?thesis by auto
    next
      case (Some ips)
      with Cons j foldl_bt_insert_wf [OF Cons.prems(2), of host now ips]
      have "((h, ip), t) \<in> set (foldl (\<lambda>m ip. bt_insert (host, ip) now m) m ips) \<or>
          t = now \<and> (\<exists>ips. (h, Some ips) \<in> set js \<and> ip \<in> set ips)" by simp
      with foldl_bt_insert_mem [OF _ Cons.prems(2)] j Some show ?thesis by fastforce
    qed
  qed simp
  from this [OF assms(1) [unfolded refresh_answers_def Let_def]] assms(2) show ?thesis
    by (auto simp: bt_wf_filter)
qed

lemma refresh_answers_wf: "bt_wf answers \<Longrightarrow> bt_wf (refresh_answers now hosts joined answers)"
proof -
  assume "bt_wf answers"
  then have "bt_wf (filter (\<lambda>((host, _), seen). host \<in> set hosts \<and> max 0 (now - seen) < ANSWER_RETENTION) answers)"
    by (rule bt_wf_filter)
  then show ?thesis
    unfolding refresh_answers_def Let_def
    by (induction joined rule: rev_induct) (auto simp: foldl_bt_insert_wf split: option.splits)
qed

lemma render_ruleset_None_iff:
  "render_ruleset net_is_v4 net_show snap resolved console = None \<longleftrightarrow> sn_mode snap \<noteq> Enforce"
  by (simp add: render_ruleset_def Let_def)

lemma enforce_step_result:
  assumes "enforce_step net_is_v4 net_show console snap now lookup_all outcome (e, k) = Some (e', k', wait)"
  obtains (clear) "sn_mode snap \<noteq> Enforce" "k' = fst (nft CLEAR False outcome k)"
      "ef_answers e' = ef_answers e"
    | (install) ruleset where "sn_mode snap = Enforce"
      "ef_answers e' = refresh_answers now (current_hosts console snap)
         (lookup_all (current_hosts console snap)) (ef_answers e)"
      "render_ruleset net_is_v4 net_show snap (resolved_addresses console (ef_answers e'))
         (pinned_addresses console (ef_answers e')) = Some ruleset"
      "k' = fst (nft (CLEAR @ ruleset) False outcome k)"
proof (cases "sn_mode snap = Enforce")
  case True
  let ?ans = "refresh_answers now (current_hosts console snap) (lookup_all (current_hosts console snap)) (ef_answers e)"
  have "render_ruleset net_is_v4 net_show snap (resolved_addresses console ?ans)
      (pinned_addresses console ?ans) \<noteq> None" using True by (simp add: render_ruleset_None_iff)
  then obtain ruleset where "render_ruleset net_is_v4 net_show snap (resolved_addresses console ?ans)
      (pinned_addresses console ?ans) = Some ruleset" by blast
  with True assms install show ?thesis
    by (auto simp: enforce_step_def Let_def split: prod.splits if_splits)
next
  case False
  with assms clear show ?thesis
    by (auto simp: enforce_step_def Let_def split: prod.splits if_splits)
qed

lemma enforce_step_total:
  "enforce_step net_is_v4 net_show console snap now lookup_all outcome (e, k) \<noteq> None"
  by (auto simp: enforce_step_def Let_def render_ruleset_None_iff split: prod.split option.split)

lemma nft_stopped: "nf_stopped k \<Longrightarrow> nft script l outcome k = (k, Nft_Ok)"
  by (simp add: nft_def)

lemma enforce_step_stopped:
  assumes "enforce_step net_is_v4 net_show console snap now lookup_all outcome (e, k) = Some (e', k', wait)"
    and "nf_stopped k"
  shows "k' = k"
  using assms(1) by (cases rule: enforce_step_result) (simp_all add: assms(2) nft_stopped)

lemma enforce_run_stopped:
  "enforce_run net_is_v4 net_show console s evs s' \<Longrightarrow> nf_stopped (snd s) \<Longrightarrow> snd s' = snd s"
proof (induction rule: enforce_run.induct)
  case (run_iterate s evs s' snap now lookup_all outcome e k wait)
  then show ?case by (cases s') (auto dest: enforce_step_stopped)
qed (auto simp: nft_shutdown_def nft_stopped)

section \<open>Properties\<close>

text \<open>
  Monitor mode is a faithful dry run. Off and monitor let every flow pass, off never reports
  a would-block, and what monitor reports as a would-block is exactly what enforce denies, with
  the same reason.
\<close>

theorem monitor_predicts_enforce:
  "ed_allow (egress_evaluate nc (pol\<lparr>ep_mode := Off\<rparr>) proc hostname ip port) \<and>
   \<not> ed_would_block (egress_evaluate nc (pol\<lparr>ep_mode := Off\<rparr>) proc hostname ip port) \<and>
   ed_allow (egress_evaluate nc (pol\<lparr>ep_mode := Monitor\<rparr>) proc hostname ip port) \<and>
   (ed_would_block (egress_evaluate nc (pol\<lparr>ep_mode := Monitor\<rparr>) proc hostname ip port) \<longleftrightarrow>
      \<not> ed_allow (egress_evaluate nc (pol\<lparr>ep_mode := Enforce\<rparr>) proc hostname ip port)) \<and>
   ed_reason (egress_evaluate nc (pol\<lparr>ep_mode := Monitor\<rparr>) proc hostname ip port) =
     ed_reason (egress_evaluate nc (pol\<lparr>ep_mode := Enforce\<rparr>) proc hostname ip port)"
  by (simp add: egress_evaluate_simps) (simp add: egress_evaluate_def split: prod.split)

text \<open>
  C12: default deny. In enforce mode a flow passes exactly when the baseline keeps it, or the
  first process rule whose pattern occurs in the process name lists its destination, or, with no
  such rule, its port and destination are on the global lists: a process with a rule cannot use
  the global list.
\<close>

theorem enforce_default_deny:
  assumes "ep_mode pol = Enforce"
  shows "ed_allow (egress_evaluate nc pol proc hostname ip port) \<longleftrightarrow>
     baseline_allows pol ip port \<or>
     (case rule_for pol proc of
        Some rule \<Rightarrow> dest_matches nc (pr_domains rule) (pr_cidrs rule) hostname ip
      | None \<Rightarrow> (ep_allow_ports pol = [] \<or> port \<in> set (ep_allow_ports pol)) \<and>
          dest_matches nc (ep_allow_domains pol) (ep_allow_cidrs pol) hostname ip)"
  using assms by (simp add: egress_evaluate_simps decide_iff)

text \<open>
  The samples use networks that are an address and a mask over the IPv4 addresses.
\<close>

definition mask_contains :: "u32 \<times> u32 \<Rightarrow> ip_addr \<Rightarrow> bool" where
  "mask_contains net a = (case a of V4 x \<Rightarrow> and x (snd net) = fst net | V6 _ \<Rightarrow> False)"

definition sample_egress :: "(u32 \<times> u32) egress_policy" where
  "sample_egress =
     \<lparr>ep_mode = Enforce, ep_allow_domains = [''*.example.com''],
      ep_allow_cidrs = [(0x0A000000, 0xFF000000)], ep_allow_ports = [443],
      ep_baseline_dns = True, ep_baseline_dhcp_ntp = True, ep_baseline_loopback = True,
      ep_process_rules =
        [\<lparr>pr_process = ''npm'', pr_domains = [''registry.npmjs.org''], pr_cidrs = []\<rparr>],
      ep_resolve_interval = seconds 60\<rparr>"

theorem enforce_default_deny_witness:
  "\<not> ed_allow (egress_evaluate mask_contains sample_egress (Some ''NPM'') (Some ''a.example.com'') None 443) \<and>
   ed_allow (egress_evaluate mask_contains sample_egress None (Some ''a.example.com'') None 443)"
proof -
  have m: "ep_mode sample_egress = Enforce" by (simp add: sample_egress_def)
  have r: "rule_for sample_egress (Some ''NPM'') =
      Some \<lparr>pr_process = ''npm'', pr_domains = [''registry.npmjs.org''], pr_cidrs = []\<rparr>"
    "rule_for sample_egress None = None" by code_simp+
  have b: "\<not> baseline_allows sample_egress None 443"
    by (simp add: baseline_allows_def)
  have d: "\<not> dest_matches mask_contains [''registry.npmjs.org''] [] (Some ''a.example.com'') None"
    "dest_matches mask_contains [''*.example.com''] [(0x0A000000, 0xFF000000)] (Some ''a.example.com'') None"
    by code_simp+
  show ?thesis
    using enforce_default_deny [OF m, of mask_contains "Some ''NPM''" "Some ''a.example.com''" None 443]
      enforce_default_deny [OF m, of mask_contains None "Some ''a.example.com''" None 443] r b d
    by (simp add: sample_egress_def)
qed

text \<open>
  C13: the host-wide snapshot never loses a destination. Whatever destination the policy allows a
  process beyond the baseline, by a process rule or by the global list, is on the snapshot's lists.
\<close>

theorem snapshot_covers_policy:
  assumes "fst (decide nc pol proc hostname ip port)" and "\<not> baseline_allows pol ip port"
  shows "dest_matches nc (sn_allow_domains (snapshot pol)) (sn_allow_cidrs (snapshot pol)) hostname ip"
proof (cases "rule_for pol proc")
  case None
  with assms show ?thesis
    by (auto simp: decide_iff snapshot_lists elim!: dest_matches_mono)
next
  case (Some rule)
  with assms rule_for_in [OF Some] show ?thesis
    by (auto simp: decide_iff snapshot_lists elim!: dest_matches_mono)
qed

theorem snapshot_covers_policy_witness:
  "dest_matches mask_contains (sn_allow_domains (snapshot sample_egress))
     (sn_allow_cidrs (snapshot sample_egress)) (Some ''registry.npmjs.org'') None"
  by (rule snapshot_covers_policy [where proc = "Some ''npm install''" and port = 443])
    (code_simp, simp add: baseline_allows_def)


text \<open>
  What the chain lets out. A new flow of the host is accepted exactly when the baseline
  covers it, it goes to the console, or its address is allowed and its port is, the ports being
  checked on TCP and UDP; everything else is refused. The only law of the network type that is
  used is that a network contains addresses of its own family only.
\<close>

theorem chain_default_deny:
  assumes "new_flow pk" and "\<And>n a. contains n a \<Longrightarrow> net_is_v4 n = is_ipv4 a"
  shows "chain_accepts contains pk (egress_chain net_is_v4 snap resolved console) \<longleftrightarrow>
     sn_baseline_loopback snap \<and> pk_oif_lo pk \<or>
     sn_baseline_dns snap \<and> pk_proto pk \<in> {Tcp, Udp} \<and> pk_dport pk = 53 \<or>
     sn_baseline_dhcp_ntp snap \<and> pk_proto pk = Udp \<and> pk_dport pk \<in> {67, 68, 123, 546, 547} \<or>
     pk_daddr pk \<in> set console \<or>
     ((\<exists>n \<in> set (sn_allow_cidrs snap). contains n (pk_daddr pk)) \<or> pk_daddr pk \<in> set resolved) \<and>
     (sn_allow_ports snap = [] \<or> pk_proto pk \<in> {Tcp, Udp} \<and> pk_dport pk \<in> set (sn_allow_ports snap))"
proof -
  have "chain_accepts contains pk [RejectTcp, RejectAll] \<longleftrightarrow> False" by simp
  moreover have "pk_proto pk \<noteq> OtherProto \<longleftrightarrow> pk_proto pk \<in> {Tcp, Udp}"
    by (cases "pk_proto pk") simp_all
  ultimately have tail: "chain_accepts contains pk
      (map Daddr console @ daddr_rules (sn_allow_ports snap) True (filter net_is_v4 (sn_allow_cidrs snap))
         (filter is_ipv4 resolved) @
       daddr_rules (sn_allow_ports snap) False (filter (\<lambda>n. \<not> net_is_v4 n) (sn_allow_cidrs snap))
         (filter (\<lambda>a. \<not> is_ipv4 a) resolved) @ [RejectTcp, RejectAll]) \<longleftrightarrow>
     pk_daddr pk \<in> set console \<or>
     ((\<exists>n \<in> set (sn_allow_cidrs snap). contains n (pk_daddr pk)) \<or> pk_daddr pk \<in> set resolved) \<and>
     (sn_allow_ports snap = [] \<or> pk_proto pk \<in> {Tcp, Udp} \<and> pk_dport pk \<in> set (sn_allow_ports snap))"
    unfolding chain_accepts_console chain_accepts_daddr_rules
    using assms(2) by (auto simp: list_ex_iff)
  show ?thesis
    using assms(1) unfolding egress_chain_def new_flow_def
    by (cases "sn_baseline_loopback snap"; cases "sn_baseline_dns snap"; cases "sn_baseline_dhcp_ntp snap";
        cases "pk_proto pk") (simp_all add: tail)
qed

definition sample_packet :: packet where
  "sample_packet =
     \<lparr>pk_reply = False, pk_related = False, pk_neighbor = False, pk_oif_lo = False, pk_proto = Tcp,
      pk_dport = 80, pk_daddr = V4 0x0A000001\<rparr>"

theorem chain_default_deny_witness:
  "\<not> chain_accepts mask_contains sample_packet (egress_chain (\<lambda>_. True) (snapshot sample_egress) [] [])"
proof -
  have "new_flow sample_packet" by (simp add: new_flow_def sample_packet_def)
  moreover have "mask_contains n a \<Longrightarrow> True = is_ipv4 a" for n a
    by (cases a) (simp_all add: mask_contains_def)
  ultimately show ?thesis
    using chain_default_deny [of sample_packet mask_contains "\<lambda>_. True" "snapshot sample_egress" "[]" "[]"]
    by (simp add: sample_packet_def sample_egress_def snapshot_def Let_def)
qed

lemma enforce_run_answers:
  assumes "enforce_run net_is_v4 net_show console s evs s'" and "s = (enforcer_new, k0)"
  shows "bt_wf (ef_answers (fst s')) \<and>
    (\<forall>h ip t. ((h, ip), t) \<in> set (ef_answers (fst s')) \<longrightarrow>
      (\<exists>snap lookup_all outcome ips. Iterate snap t lookup_all outcome \<in> set evs \<and>
         sn_mode snap = Enforce \<and> (h, Some ips) \<in> set (lookup_all (current_hosts console snap)) \<and>
         ip \<in> set ips))"
  using assms
proof (induction rule: enforce_run.induct)
  case (run_nil s)
  then show ?case by (simp add: enforcer_new_def bt_wf_def)
next
  case (run_iterate s evs s' snap now lookup_all outcome e k wait)
  obtain e0 k1 where s': "s' = (e0, k1)" by (cases s')
  note IH = run_iterate.IH [OF run_iterate.prems, unfolded s' fst_conv]
  from run_iterate.hyps(2) [unfolded s'] show ?case
  proof (cases rule: enforce_step_result)
    case clear
    with IH show ?thesis by (simp, meson)
  next
    case (install ruleset)
    have "\<exists>snap' lookup' outcome' ips. Iterate snap' t lookup' outcome' \<in> set (evs @ [Iterate snap now lookup_all outcome]) \<and>
         sn_mode snap' = Enforce \<and> (h, Some ips) \<in> set (lookup' (current_hosts console snap')) \<and>
         ip \<in> set ips" if "((h, ip), t) \<in> set (ef_answers e)" for h ip t
    proof -
      from refresh_answers_mem [OF that [unfolded install(2)]] IH
      consider "((h, ip), t) \<in> set (ef_answers e0)"
        | ips where "t = now" "(h, Some ips) \<in> set (lookup_all (current_hosts console snap))" "ip \<in> set ips"
        by blast
      then show ?thesis
      proof cases
        case 1
        with IH show ?thesis by (metis UnI1 set_append)
      next
        case (2 ips)
        with install(1) show ?thesis
          by (metis in_set_conv_decomp)
      qed
    qed
    with install(2) IH show ?thesis by (simp add: refresh_answers_wf)
  qed
next
  case (run_shutdown s evs e k outcome)
  then show ?case by simp
qed

text \<open>
  Only fresh answers are enforced. After any history of iterations, an enforcing iteration
  leaves only addresses of hosts that the current policy (or the console) names, each returned by
  a lookup of an earlier or this iteration that is less than an hour old.
\<close>

theorem enforced_addresses_fresh:
  assumes "enforce_run net_is_v4 net_show console (enforcer_new, k0) evs s"
    and "enforce_step net_is_v4 net_show console snap now lookup_all outcome s = Some (e, k, wait)"
    and "sn_mode snap = Enforce" and "((h, ip), t) \<in> set (ef_answers e)"
    and "\<And>hosts. fst ` set (lookup_all hosts) \<subseteq> set hosts"
  shows "h \<in> set (current_hosts console snap) \<and> now - t < ANSWER_RETENTION \<and>
    (\<exists>snap' lookup' outcome' ips.
       Iterate snap' t lookup' outcome' \<in> set (evs @ [Iterate snap now lookup_all outcome]) \<and>
       (h, Some ips) \<in> set (lookup' (current_hosts console snap')) \<and> ip \<in> set ips)"
proof -
  obtain e0 k1 where s: "s = (e0, k1)" by (cases s)
  have wf: "bt_wf (ef_answers e0)" using enforce_run_answers [OF assms(1) refl] s by simp
  from assms(2) [unfolded s] assms(3)
  have "ef_answers e = refresh_answers now (current_hosts console snap)
      (lookup_all (current_hosts console snap)) (ef_answers e0)"
    by (cases rule: enforce_step_result) auto
  from refresh_answers_mem [OF assms(4) [unfolded this] wf] assms(5)
  have "h \<in> set (current_hosts console snap) \<and> now - t < ANSWER_RETENTION"
    by (force simp: ANSWER_RETENTION_def seconds_def)
  moreover have "enforce_run net_is_v4 net_show console (enforcer_new, k0)
      (evs @ [Iterate snap now lookup_all outcome]) (e, k)"
    using run_iterate [OF assms(1,2)] .
  from enforce_run_answers [OF this refl] assms(4)
  have "\<exists>snap' lookup' outcome' ips.
       Iterate snap' t lookup' outcome' \<in> set (evs @ [Iterate snap now lookup_all outcome]) \<and>
       (h, Some ips) \<in> set (lookup' (current_hosts console snap')) \<and> ip \<in> set ips"
    by (metis fst_conv)
  ultimately show ?thesis by blast
qed

definition sample_enforced :: "(u32 \<times> u32) policy_snapshot" where
  "sample_enforced = (snapshot sample_egress)\<lparr>sn_allow_domains := [''a.example.com'']\<rparr>"

definition sample_lookup :: "string list \<Rightarrow> (string \<times> ip_addr list option) list" where
  "sample_lookup hosts = map (\<lambda>h. (h, Some [V4 1])) hosts"

definition sample_nft :: nft_state where
  "sample_nft = \<lparr>nf_stopped = False, nf_script = None\<rparr>"

theorem enforced_addresses_fresh_witness:
  "''a.example.com'' \<in> set (current_hosts None sample_enforced) \<and> (5 :: int) - 5 < ANSWER_RETENTION"
proof -
  define r where "r = enforce_step (\<lambda>_. True) (\<lambda>_. ''n'') None sample_enforced 5 sample_lookup Nft_Ok
      (enforcer_new, sample_nft)"
  obtain e k wait where step: "r = Some (e, k, wait)"
    using enforce_step_total [of "\<lambda>_. True" "\<lambda>_. ''n''" None sample_enforced 5 sample_lookup Nft_Ok
        enforcer_new sample_nft] unfolding r_def by (metis not_None_eq prod_cases3)
  have mode: "sn_mode sample_enforced = Enforce"
    by (simp add: sample_enforced_def snapshot_def Let_def sample_egress_def)
  from step [unfolded r_def] mode have "ef_answers e =
      refresh_answers 5 (current_hosts None sample_enforced)
        (sample_lookup (current_hosts None sample_enforced)) (ef_answers enforcer_new)"
    by (cases rule: enforce_step_result) auto
  also have "\<dots> = [((''a.example.com'', V4 1), 5)]" by code_simp
  finally have "((''a.example.com'', V4 1), 5) \<in> set (ef_answers e)" by simp
  with enforced_addresses_fresh [OF run_nil step [unfolded r_def] mode, of "''a.example.com''" "V4 1" 5]
  show ?thesis by (simp add: sample_lookup_def image_image)
qed

text \<open>
  After a clean stop the host stays open. Once the shutdown removed the table, no iteration
  still in flight and no later shutdown changes what the kernel holds, in any mode and for any
  policy.
\<close>

theorem shutdown_is_final:
  assumes "\<not> nf_stopped k"
    and "enforce_run net_is_v4 net_show console (e, nft_shutdown Nft_Ok k) evs (e', k')"
  shows "nf_script k' = Some CLEAR \<and> nf_stopped k'"
proof -
  have stopped: "nf_stopped (nft_shutdown Nft_Ok k)" "nf_script (nft_shutdown Nft_Ok k) = Some CLEAR"
    using assms(1) by (simp_all add: nft_shutdown_def nft_def)
  with enforce_run_stopped [OF assms(2)] show ?thesis by simp
qed

theorem shutdown_is_final_witness:
  "nf_script (nft_shutdown Nft_Ok sample_nft) = Some CLEAR \<and> nf_stopped (nft_shutdown Nft_Ok sample_nft)"
  by (rule shutdown_is_final [OF _ run_nil]) (simp add: sample_nft_def)

text \<open>
  The ports constrain the process rules in the kernel. A destination that the evaluation
  grants a process by its rule, on any port, is refused by the chain when the port is not on the
  global list, even with the address resolved: the snapshot can restrict a process.
\<close>

theorem chain_restricts_process_rule:
  "ed_allow (egress_evaluate mask_contains sample_egress (Some ''npm'') (Some ''registry.npmjs.org'')
      (Some (V4 0x68100123)) 80) \<and>
   \<not> chain_accepts mask_contains (sample_packet\<lparr>pk_daddr := V4 0x68100123\<rparr>)
      (egress_chain (\<lambda>_. True) (snapshot sample_egress) [V4 0x68100123] [])"
  by code_simp

end
