(* ===== verification/Storyline.thy ===== *)
theory Storyline
  imports Engine Configuration
begin

text \<open>
  \<^verbatim>\<open>crates/riggs-storyline/src/correlator.rs\<close>: events are grouped into storylines along the process
  tree. Each reading of the clock is an argument, as is the id that \<^verbatim>\<open>StorylineId::new()\<close> draws;
  \<open>ln_1p\<close> is the library's \<^verbatim>\<open>f32::ln_1p\<close>. Timestamps are unbounded, so the range of
  \<^verbatim>\<open>DateTime\<close> (about 262000 years) is not modelled.
\<close>

section \<open>State\<close>

definition DEFAULT_THREAT_SCORE_THRESHOLD :: f32 where "DEFAULT_THREAT_SCORE_THRESHOLD = F_Fin (1 / 2)"
definition DEFAULT_MAX_EVENTS_PER_STORYLINE :: nat where "DEFAULT_MAX_EVENTS_PER_STORYLINE = 1024"
definition DEFAULT_PRUNE_INTERVAL_SECS :: int where "DEFAULT_PRUNE_INTERVAL_SECS = 60"
definition DEFAULT_STORYLINE_MAX_AGE :: duration where "DEFAULT_STORYLINE_MAX_AGE = seconds (60 * 60)"

record storyline =
  sl_id :: storyline_id
  sl_root_process :: process_context
  sl_events :: "event_id list"
  sl_verdicts :: "verdict list"
  sl_created_at :: timestamp
  sl_updated_at :: timestamp
  sl_threat_score :: f32
  sl_process_tree :: "process_context list"

record storyline_correlator =
  sc_storylines :: "(storyline_id, storyline) hmap"
  sc_pid_to_storyline :: "(u32, storyline_id) hmap"
  sc_last_prune :: timestamp
  sc_max_events_per_storyline :: nat
  sc_max_age :: duration
  sc_prune_interval_secs :: int
  sc_threat_score_threshold :: f32

definition storyline_new :: "timestamp \<Rightarrow> storyline_correlator" where
  "storyline_new now =
     \<lparr>sc_storylines = [], sc_pid_to_storyline = [], sc_last_prune = now,
      sc_max_events_per_storyline = DEFAULT_MAX_EVENTS_PER_STORYLINE,
      sc_max_age = DEFAULT_STORYLINE_MAX_AGE,
      sc_prune_interval_secs = DEFAULT_PRUNE_INTERVAL_SECS,
      sc_threat_score_threshold = DEFAULT_THREAT_SCORE_THRESHOLD\<rparr>"

definition with_threat_threshold :: "f32 \<Rightarrow> storyline_correlator \<Rightarrow> storyline_correlator" where
  "with_threat_threshold t sc = sc\<lparr>sc_threat_score_threshold := t\<rparr>"

text \<open>The prune interval is converted from \<^verbatim>\<open>u64\<close> to \<^verbatim>\<open>i64\<close> by \<^verbatim>\<open>as\<close>, which wraps.\<close>

definition with_limits :: "nat \<Rightarrow> u64 \<Rightarrow> u64 \<Rightarrow> storyline_correlator \<Rightarrow> storyline_correlator" where
  "with_limits max_events idle_secs prune_interval_secs sc =
     sc\<lparr>sc_max_events_per_storyline := max max_events 1,
        sc_max_age := seconds (uint idle_secs),
        sc_prune_interval_secs := sint (max prune_interval_secs 1)\<rparr>"

section \<open>Operations\<close>

definition push_capped :: "event_id list \<Rightarrow> event_id \<Rightarrow> nat \<Rightarrow> event_id list" where
  "push_capped events eid mx =
     (let es = events @ [eid] in if mx < length es then drop (length es - mx) es else es)"

definition recalculate_threat_score :: "(f32 \<Rightarrow> f32) \<Rightarrow> verdict list \<Rightarrow> f32" where
  "recalculate_threat_score ln_1p verdicts =
     (if verdicts = [] then F_Fin 0
      else
        let total_confidence = f32_sum (map v_confidence verdicts);
            max_confidence = foldl f32_max (F_Fin 0) (map v_confidence verdicts);
            avg = f32_div total_confidence (f32_of_nat (length verdicts));
            count_factor = f32_div (ln_1p (f32_of_nat (length verdicts))) (F_Fin 3)
        in f32_clamp
             (f32_add (f32_add (f32_mul avg (f32_lit (4 / 10))) (f32_mul max_confidence (f32_lit (6 / 10))))
                (f32_mul count_factor (f32_lit (1 / 10))))
             (F_Fin 0) (F_Fin 1))"

text \<open>
  \<^verbatim>\<open>chrono::Duration::from_std\<close> fails above the largest representable duration and is then replaced
  by it.
\<close>

definition CHRONO_MAX :: duration where "CHRONO_MAX = (2 ^ 63 - 1) * 1000000"

definition remove_storyline :: "storyline_correlator \<Rightarrow> storyline_id \<Rightarrow> storyline_correlator" where
  "remove_storyline sc sid =
     (case hm_get (sc_storylines sc) sid of
        None \<Rightarrow> sc
      | Some s \<Rightarrow>
          sc\<lparr>sc_storylines := hm_remove sid (sc_storylines sc),
             sc_pid_to_storyline :=
               foldl (\<lambda>m ctx. hm_remove (pc_pid ctx) m) (sc_pid_to_storyline sc) (sl_process_tree s)\<rparr>)"

definition prune_inactive :: "timestamp \<Rightarrow> duration \<Rightarrow> storyline_correlator \<Rightarrow> storyline_correlator" where
  "prune_inactive now max_age sc =
     (let cutoff = now - min max_age CHRONO_MAX;
          stale_ids = map fst (filter (\<lambda>(_, s). sl_updated_at s < cutoff) (sc_storylines sc))
      in foldl remove_storyline sc stale_ids)"

definition touch_storyline :: "nat \<Rightarrow> event_id \<Rightarrow> timestamp \<Rightarrow> storyline \<Rightarrow> storyline" where
  "touch_storyline cap eid now s =
     s\<lparr>sl_events := push_capped (sl_events s) eid cap, sl_updated_at := now\<rparr>"

definition new_storyline :: "storyline_id \<Rightarrow> process_context \<Rightarrow> event_id \<Rightarrow> timestamp \<Rightarrow> storyline" where
  "new_storyline fresh ctx eid now =
     \<lparr>sl_id = fresh, sl_root_process = ctx, sl_events = [eid], sl_verdicts = [],
      sl_created_at = now, sl_updated_at = now, sl_threat_score = F_Fin 0,
      sl_process_tree = [ctx]\<rparr>"

text \<open>The storyline a pid is associated with, when both maps know it.\<close>

definition storyline_of_pid :: "storyline_correlator \<Rightarrow> u32 \<Rightarrow> (storyline_id \<times> storyline) option" where
  "storyline_of_pid sc pid =
     Option.bind (hm_get (sc_pid_to_storyline sc) pid)
       (\<lambda>sid. map_option (\<lambda>s. (sid, s)) (hm_get (sc_storylines sc) sid))"

definition assign ::
  "storyline_id \<Rightarrow> process_context \<Rightarrow> event_id \<Rightarrow> timestamp \<Rightarrow> storyline_correlator
   \<Rightarrow> storyline_correlator \<times> storyline_id" where
  "assign fresh ctx eid now sc =
     (case storyline_of_pid sc (pc_pid ctx) of
        Some (sid, s) \<Rightarrow>
          (sc\<lparr>sc_storylines :=
                hm_insert sid (touch_storyline (sc_max_events_per_storyline sc) eid now s)
                  (sc_storylines sc)\<rparr>, sid)
      | None \<Rightarrow>
          (case storyline_of_pid sc (pc_ppid ctx) of
             Some (sid, s) \<Rightarrow>
               let s1 = touch_storyline (sc_max_events_per_storyline sc) eid now s;
                   already_tracked = list_ex (\<lambda>p. pc_pid p = pc_pid ctx) (sl_process_tree s1);
                   s2 = (if already_tracked then s1
                         else s1\<lparr>sl_process_tree := sl_process_tree s1 @ [ctx]\<rparr>)
               in (sc\<lparr>sc_storylines := hm_insert sid s2 (sc_storylines sc),
                      sc_pid_to_storyline := hm_insert (pc_pid ctx) sid (sc_pid_to_storyline sc)\<rparr>, sid)
           | None \<Rightarrow>
               (sc\<lparr>sc_storylines :=
                     hm_insert fresh (new_storyline fresh ctx eid now) (sc_storylines sc),
                   sc_pid_to_storyline := hm_insert (pc_pid ctx) fresh (sc_pid_to_storyline sc)\<rparr>, fresh)))"

fun is_exit :: "riggs_event \<Rightarrow> bool" where
  "is_exit (Process pe) = (pe_action pe = Exit)"
| "is_exit _ = False"

text \<open>
  \<^verbatim>\<open>correlate\<close>: \<open>now\<close> is its own clock reading, \<open>now_prune\<close> the one inside \<^verbatim>\<open>prune_inactive\<close>, \<open>fresh\<close>
  the id drawn if one is.
\<close>

definition maybe_prune :: "timestamp \<Rightarrow> timestamp \<Rightarrow> storyline_correlator \<Rightarrow> storyline_correlator" where
  "maybe_prune now now_prune sc =
     (if sc_prune_interval_secs sc \<le> num_seconds (now - sc_last_prune sc)
      then (prune_inactive now_prune (sc_max_age sc) sc)\<lparr>sc_last_prune := now\<rparr>
      else sc)"

definition correlate ::
  "storyline_id \<Rightarrow> timestamp \<Rightarrow> timestamp \<Rightarrow> riggs_event \<Rightarrow> storyline_correlator
   \<Rightarrow> storyline_correlator \<times> storyline_id" where
  "correlate fresh now now_prune ev sc =
     (let ctx = process_context_of ev;
          eid = event_id_of ev;
          sc1 = maybe_prune now now_prune sc
      in if pc_pid ctx = 0 then (sc1, fresh)
         else let (sc2, sid) = assign fresh ctx eid now sc1
           in (if is_exit ev
               then sc2\<lparr>sc_pid_to_storyline := hm_remove (pc_pid ctx) (sc_pid_to_storyline sc2)\<rparr>
               else sc2, sid))"

definition add_verdict ::
  "(f32 \<Rightarrow> f32) \<Rightarrow> timestamp \<Rightarrow> storyline_id \<Rightarrow> verdict \<Rightarrow> storyline_correlator \<Rightarrow> storyline_correlator" where
  "add_verdict ln_1p now sid v sc =
     (case hm_get (sc_storylines sc) sid of
        None \<Rightarrow> sc
      | Some s \<Rightarrow>
          let vs = sl_verdicts s @ [v] in
          sc\<lparr>sc_storylines :=
               hm_insert sid
                 (s\<lparr>sl_verdicts := vs, sl_threat_score := recalculate_threat_score ln_1p vs,
                    sl_updated_at := now\<rparr>)
                 (sc_storylines sc)\<rparr>)"

definition get_storyline :: "storyline_correlator \<Rightarrow> storyline_id \<Rightarrow> storyline option" where
  "get_storyline sc sid = hm_get (sc_storylines sc) sid"

definition active_storylines :: "timestamp \<Rightarrow> storyline_correlator \<Rightarrow> storyline list" where
  "active_storylines now sc =
     filter (\<lambda>s. now - seconds (5 * 60) < sl_updated_at s) (map snd (sc_storylines sc))"

definition is_threat :: "storyline_correlator \<Rightarrow> storyline_id \<Rightarrow> bool" where
  "is_threat sc sid =
     (case hm_get (sc_storylines sc) sid of
        None \<Rightarrow> False
      | Some s \<Rightarrow> f32_lt (sc_threat_score_threshold sc) (sl_threat_score s))"

definition threat_storylines :: "storyline_correlator \<Rightarrow> storyline list" where
  "threat_storylines sc =
     filter (\<lambda>s. f32_lt (sc_threat_score_threshold sc) (sl_threat_score s)) (map snd (sc_storylines sc))"

definition get_storyline_tree :: "storyline_correlator \<Rightarrow> storyline_id \<Rightarrow> process_context list" where
  "get_storyline_tree sc sid =
     (case hm_get (sc_storylines sc) sid of None \<Rightarrow> [] | Some s \<Rightarrow> sl_process_tree s)"

text \<open>
  \<^verbatim>\<open>merge_storylines\<close>: the loop over the donor's process tree updates the pid map and the target's
  tree together.
\<close>

definition adopt ::
  "storyline_id \<Rightarrow> (u32, storyline_id) hmap \<times> process_context list \<Rightarrow> process_context
   \<Rightarrow> (u32, storyline_id) hmap \<times> process_context list" where
  "adopt a st ctx =
     (hm_insert (pc_pid ctx) a (fst st),
      if list_ex (\<lambda>p. pc_pid p = pc_pid ctx) (snd st) then snd st else snd st @ [ctx])"

definition merge_storylines ::
  "(f32 \<Rightarrow> f32) \<Rightarrow> timestamp \<Rightarrow> storyline_id \<Rightarrow> storyline_id \<Rightarrow> storyline_correlator \<Rightarrow> storyline_correlator" where
  "merge_storylines ln_1p now a b sc =
     (case hm_get (sc_storylines sc) b of
        None \<Rightarrow> sc
      | Some donor \<Rightarrow>
          let rest = hm_remove b (sc_storylines sc) in
          (case hm_get rest a of
             None \<Rightarrow> sc\<lparr>sc_storylines := hm_insert (sl_id donor) donor rest\<rparr>
           | Some target \<Rightarrow>
               let vs = sl_verdicts target @ sl_verdicts donor;
                   (pids, tree) =
                     foldl (adopt a) (sc_pid_to_storyline sc, sl_process_tree target)
                       (sl_process_tree donor);
                   target' =
                     target\<lparr>sl_events := sl_events target @ sl_events donor, sl_verdicts := vs,
                            sl_threat_score := recalculate_threat_score ln_1p vs,
                            sl_process_tree := tree,
                            sl_created_at := min (sl_created_at donor) (sl_created_at target),
                            sl_updated_at := now\<rparr>
               in sc\<lparr>sc_storylines := hm_insert a target' rest, sc_pid_to_storyline := pids\<rparr>))"

definition show_int :: "int \<Rightarrow> string" where
  "show_int n = (if n < 0 then ''-'' @ show_nat (nat (- n)) else show_nat (nat n))"

text \<open>\<open>show_id\<close> renders a uuid and \<open>show_score\<close> a float with two decimals, as the libraries do.\<close>

definition storyline_summary ::
  "(storyline_id \<Rightarrow> string) \<Rightarrow> (f32 \<Rightarrow> string) \<Rightarrow> timestamp \<Rightarrow> storyline_correlator \<Rightarrow> storyline_id
   \<Rightarrow> string option" where
  "storyline_summary show_id show_score now sc sid =
     map_option (\<lambda>s.
       ''Storyline '' @ show_id (sl_id s) @ '' | root: '' @ pc_name (sl_root_process s) @
       '' (pid '' @ show_nat (unat (pc_pid (sl_root_process s))) @ '') | '' @
       show_nat (length (sl_events s)) @ '' events | '' @
       show_nat (length (sl_verdicts s)) @ '' verdicts | threat: '' @
       show_score (sl_threat_score s) @ '' | processes: ['' @
       join '', '' (map pc_name (sl_process_tree s)) @ ''] | age: '' @
       show_int (num_seconds (now - sl_created_at s)) @ ''s'')
     (hm_get (sc_storylines sc) sid)"

section \<open>Invariant\<close>

interpretation capped: bounded_history push_capped
  by unfold_locales (auto simp: push_capped_def Let_def intro: exI [of _ 0])

definition tree_pids :: "storyline \<Rightarrow> u32 set" where
  "tree_pids s = pc_pid ` set (sl_process_tree s)"

text \<open>
  The two maps are linked: a storyline is filed under its own id, and a pid that is associated
  is a real process of a storyline that exists and whose process tree contains it.
\<close>

definition linked :: "storyline_correlator \<Rightarrow> bool" where
  "linked sc \<longleftrightarrow>
     hm_wf (sc_storylines sc) \<and> hm_wf (sc_pid_to_storyline sc) \<and>
     (\<forall>sid s. hm_get (sc_storylines sc) sid = Some s \<longrightarrow> sl_id s = sid) \<and>
     (\<forall>pid sid. hm_get (sc_pid_to_storyline sc) pid = Some sid \<longrightarrow>
        pid \<noteq> 0 \<and> (\<exists>s. hm_get (sc_storylines sc) sid = Some s \<and> pid \<in> tree_pids s))"

definition within_cap :: "storyline_correlator \<Rightarrow> bool" where
  "within_cap sc \<longleftrightarrow>
     0 < sc_max_events_per_storyline sc \<and>
     (\<forall>sid s. hm_get (sc_storylines sc) sid = Some s \<longrightarrow>
        length (sl_events s) \<le> sc_max_events_per_storyline sc)"

lemma linkedD:
  assumes "linked sc"
  shows "hm_wf (sc_storylines sc)" "hm_wf (sc_pid_to_storyline sc)"
    "hm_get (sc_storylines sc) sid = Some s \<Longrightarrow> sl_id s = sid"
    "hm_get (sc_pid_to_storyline sc) pid = Some sid \<Longrightarrow> pid \<noteq> 0"
    "hm_get (sc_pid_to_storyline sc) pid = Some sid \<Longrightarrow>
       \<exists>s. hm_get (sc_storylines sc) sid = Some s \<and> pid \<in> tree_pids s"
  using assms unfolding linked_def by blast+

lemma get_foldl_remove:
  "hm_get (foldl (\<lambda>m ctx. hm_remove (pc_pid ctx) m) m cs) p = (if p \<in> pc_pid ` set cs then None else hm_get m p)"
  by (induction cs arbitrary: m) (auto simp: hm_get_remove)

lemma wf_foldl_remove: "hm_wf m \<Longrightarrow> hm_wf (foldl (\<lambda>m ctx. hm_remove (pc_pid ctx) m) m cs)"
  by (induction cs arbitrary: m) (auto simp: hm_wf_remove)

lemma remove_storyline_linked: "linked sc \<Longrightarrow> linked (remove_storyline sc sid)"
proof (cases "hm_get (sc_storylines sc) sid")
  case (Some s)
  assume "linked sc"
  note l = linkedD [OF this]
  have "\<exists>t. hm_get (hm_remove sid (sc_storylines sc)) sid' = Some t \<and> p \<in> tree_pids t"
    if "hm_get (sc_pid_to_storyline sc) p = Some sid'" "p \<notin> pc_pid ` set (sl_process_tree s)" for p sid'
    using l(5) [OF that(1)] that(2) Some by (auto simp: hm_get_remove tree_pids_def)
  with Some l show ?thesis
    by (auto simp: linked_def remove_storyline_def get_foldl_remove hm_get_remove hm_wf_remove wf_foldl_remove)
qed (simp add: remove_storyline_def)

lemma remove_storyline_get:
  "hm_get (sc_storylines (remove_storyline sc sid)) sid' =
     (if sid' = sid then None else hm_get (sc_storylines sc) sid')"
  by (auto simp: remove_storyline_def hm_get_remove split: option.split)

lemma remove_storyline_config [simp]:
  "sc_max_events_per_storyline (remove_storyline sc sid) = sc_max_events_per_storyline sc"
  "sc_max_age (remove_storyline sc sid) = sc_max_age sc"
  "sc_threat_score_threshold (remove_storyline sc sid) = sc_threat_score_threshold sc"
  by (simp_all add: remove_storyline_def split: option.split)

lemma foldl_remove_storyline:
  "linked sc \<Longrightarrow> linked (foldl remove_storyline sc ids)"
  "hm_get (sc_storylines (foldl remove_storyline sc ids)) sid =
     (if sid \<in> set ids then None else hm_get (sc_storylines sc) sid)"
  "sc_max_events_per_storyline (foldl remove_storyline sc ids) = sc_max_events_per_storyline sc"
  by (induction ids arbitrary: sc) (auto simp: remove_storyline_linked remove_storyline_get)

lemma prune_inactive_linked: "linked sc \<Longrightarrow> linked (prune_inactive now age sc)"
  by (simp add: prune_inactive_def Let_def foldl_remove_storyline)

lemma prune_inactive_get:
  assumes "hm_wf (sc_storylines sc)"
  shows "hm_get (sc_storylines (prune_inactive now age sc)) sid =
    (case hm_get (sc_storylines sc) sid of
       None \<Rightarrow> None
     | Some s \<Rightarrow> if sl_updated_at s < now - min age CHRONO_MAX then None else Some s)"
proof -
  have "sid \<in> fst ` set (filter (\<lambda>(_, s). sl_updated_at s < now - min age CHRONO_MAX) (sc_storylines sc)) \<longleftrightarrow>
      (\<exists>s. hm_get (sc_storylines sc) sid = Some s \<and> sl_updated_at s < now - min age CHRONO_MAX)"
    using hm_get_Some_iff [OF assms] by force
  then show ?thesis
    by (auto simp: prune_inactive_def Let_def foldl_remove_storyline split: option.split)
qed

lemma maybe_prune_linked: "linked sc \<Longrightarrow> linked (maybe_prune now now_prune sc)"
  using prune_inactive_linked [of sc] by (simp add: maybe_prune_def linked_def)

lemma maybe_prune_cap: "sc_max_events_per_storyline (maybe_prune now now_prune sc) = sc_max_events_per_storyline sc"
  by (simp add: maybe_prune_def prune_inactive_def Let_def foldl_remove_storyline)

lemma maybe_prune_get:
  "hm_get (sc_storylines (maybe_prune now now_prune sc)) sid = Some s \<Longrightarrow> hm_get (sc_storylines sc) sid = Some s"
  by (auto simp: maybe_prune_def prune_inactive_def Let_def foldl_remove_storyline split: if_splits)

lemma storyline_of_pid_Some:
  "storyline_of_pid sc pid = Some (sid, s) \<longleftrightarrow>
     hm_get (sc_pid_to_storyline sc) pid = Some sid \<and> hm_get (sc_storylines sc) sid = Some s"
  by (auto simp: storyline_of_pid_def split: bind_splits)

lemma storyline_of_pid_None:
  "linked sc \<Longrightarrow> storyline_of_pid sc pid = None \<longleftrightarrow> hm_get (sc_pid_to_storyline sc) pid = None"
  by (auto simp: storyline_of_pid_def dest: linkedD(5) split: bind_splits)

lemma linked_update:
  assumes "linked sc" and "hm_get (sc_storylines sc) sid = Some s"
    and "sl_id s' = sid" and "tree_pids s \<subseteq> tree_pids s'"
  shows "linked (sc\<lparr>sc_storylines := hm_insert sid s' (sc_storylines sc)\<rparr>)"
proof -
  have "\<exists>t. hm_get (hm_insert sid s' (sc_storylines sc)) sid' = Some t \<and> p \<in> tree_pids t"
    if "hm_get (sc_pid_to_storyline sc) p = Some sid'" for p sid'
    using linkedD(5) [OF assms(1) that] assms(2,4) by (auto simp: hm_get_insert)
  with linkedD [OF assms(1)] assms(3) show ?thesis
    by (auto simp: linked_def hm_get_insert hm_wf_insert)
qed

lemma linked_associate:
  assumes "linked sc" and "hm_get (sc_storylines sc) sid = Some s" and "pid \<in> tree_pids s" and "pid \<noteq> 0"
  shows "linked (sc\<lparr>sc_pid_to_storyline := hm_insert pid sid (sc_pid_to_storyline sc)\<rparr>)"
  using assms linkedD [OF assms(1)] by (auto simp: linked_def hm_get_insert hm_wf_insert)

lemma assign_linked:
  assumes "linked sc" and "hm_get (sc_storylines sc) fresh = None" and "pc_pid ctx \<noteq> 0"
  shows "linked (fst (assign fresh ctx eid now sc))"
proof -
  consider (own) sid s where "storyline_of_pid sc (pc_pid ctx) = Some (sid, s)"
    | (parent) sid s where "storyline_of_pid sc (pc_pid ctx) = None" "storyline_of_pid sc (pc_ppid ctx) = Some (sid, s)"
    | (none) "storyline_of_pid sc (pc_pid ctx) = None" "storyline_of_pid sc (pc_ppid ctx) = None"
    by (metis option.exhaust surj_pair)
  then show ?thesis
  proof cases
    case own
    then have "hm_get (sc_storylines sc) sid = Some s" by (simp add: storyline_of_pid_Some)
    from linked_update [OF assms(1) this] linkedD(3) [OF assms(1) this] own show ?thesis
      by (simp add: assign_def touch_storyline_def tree_pids_def)
  next
    case parent
    let ?s1 = "touch_storyline (sc_max_events_per_storyline sc) eid now s"
    let ?s2 = "if list_ex (\<lambda>p. pc_pid p = pc_pid ctx) (sl_process_tree ?s1) then ?s1
        else ?s1\<lparr>sl_process_tree := sl_process_tree ?s1 @ [ctx]\<rparr>"
    have s: "hm_get (sc_storylines sc) sid = Some s" using parent by (simp add: storyline_of_pid_Some)
    have t: "sl_id ?s2 = sid" "tree_pids s \<subseteq> tree_pids ?s2" "pc_pid ctx \<in> tree_pids ?s2"
      using linkedD(3) [OF assms(1) s] by (auto simp: touch_storyline_def tree_pids_def list_ex_iff intro: rev_image_eqI)
    from linked_associate [OF linked_update [OF assms(1) s t(1,2)], of sid ?s2 "pc_pid ctx"] t(3) assms(3) parent
    show ?thesis by (simp add: assign_def Let_def hm_get_insert)
  next
    case none
    let ?new = "new_storyline fresh ctx eid now"
    have "linked (sc\<lparr>sc_storylines := hm_insert fresh ?new (sc_storylines sc)\<rparr>)"
      using linkedD [OF assms(1)] assms(2)
      by (fastforce simp: linked_def hm_get_insert hm_wf_insert new_storyline_def)
    from linked_associate [OF this, of fresh ?new "pc_pid ctx"] assms(3) none show ?thesis
      by (simp add: assign_def hm_get_insert new_storyline_def tree_pids_def)
  qed
qed

lemma dissociate_linked:
  "linked sc \<Longrightarrow> linked (sc\<lparr>sc_pid_to_storyline := hm_remove pid (sc_pid_to_storyline sc)\<rparr>)"
  by (auto simp: linked_def hm_get_remove hm_wf_remove)

lemma correlate_linked:
  assumes "linked sc" and "hm_get (sc_storylines sc) fresh = None"
  shows "linked (fst (correlate fresh now now_prune ev sc))"
proof -
  have "hm_get (sc_storylines (maybe_prune now now_prune sc)) fresh = None"
    using assms(2) maybe_prune_get by (metis not_None_eq)
  from assign_linked [OF maybe_prune_linked [OF assms(1)] this] maybe_prune_linked [OF assms(1)]
  show ?thesis
    by (simp add: correlate_def Let_def dissociate_linked split: prod.splits)
      (metis dissociate_linked fst_conv)
qed

lemma add_verdict_linked: "linked sc \<Longrightarrow> linked (add_verdict ln_1p now sid v sc)"
  by (auto simp: add_verdict_def Let_def tree_pids_def linkedD(3) intro!: linked_update split: option.split)

lemma adopt_tree:
  obtains tree' where "adopt a (m, tree) c = (hm_insert (pc_pid c) a m, tree')"
    and "pc_pid ` set tree' = insert (pc_pid c) (pc_pid ` set tree)"
proof -
  have "pc_pid c \<in> pc_pid ` set tree" if "list_ex (\<lambda>p. pc_pid p = pc_pid c) tree"
    using that by (auto simp: list_ex_iff intro: rev_image_eqI)
  then have "pc_pid ` set (snd (adopt a (m, tree) c)) = insert (pc_pid c) (pc_pid ` set tree)"
    by (auto simp: adopt_def)
  then show ?thesis using that [of "snd (adopt a (m, tree) c)"] by (simp add: adopt_def)
qed

lemma foldl_adopt:
  "hm_get (fst (foldl (adopt a) (m, tree) cs)) p = (if p \<in> pc_pid ` set cs then Some a else hm_get m p)"
  "pc_pid ` set (snd (foldl (adopt a) (m, tree) cs)) = pc_pid ` set tree \<union> pc_pid ` set cs"
  "hm_wf m \<Longrightarrow> hm_wf (fst (foldl (adopt a) (m, tree) cs))"
proof (induction cs arbitrary: m tree)
  case (Cons c cs)
  {
    case 1
    obtain tree' where "adopt a (m, tree) c = (hm_insert (pc_pid c) a m, tree')" by (rule adopt_tree)
    then show ?case using Cons(1) [of "hm_insert (pc_pid c) a m" tree'] by (simp add: hm_get_insert)
  next
    case 2
    obtain tree' where "adopt a (m, tree) c = (hm_insert (pc_pid c) a m, tree')"
      and "pc_pid ` set tree' = insert (pc_pid c) (pc_pid ` set tree)" by (rule adopt_tree)
    then show ?case using Cons(2) [of "hm_insert (pc_pid c) a m" tree'] by simp
  next
    case 3
    obtain tree' where "adopt a (m, tree) c = (hm_insert (pc_pid c) a m, tree')" by (rule adopt_tree)
    then show ?case using 3 Cons(3) [of "hm_insert (pc_pid c) a m" tree'] by (simp add: hm_wf_insert)
  }
qed simp_all

lemma linked_merged:
  assumes "linked sc" and "hm_get (sc_storylines sc) b = Some donor" and "a \<noteq> b"
    and "hm_get (sc_storylines sc) a = Some target"
    and "sl_id t = a" and "tree_pids t = tree_pids target \<union> tree_pids donor"
    and "\<And>p. hm_get pids p = (if p \<in> tree_pids donor \<and> p \<noteq> 0 then Some a else hm_get (sc_pid_to_storyline sc) p)"
    and "hm_wf pids"
  shows "linked (sc\<lparr>sc_storylines := hm_insert a t (hm_remove b (sc_storylines sc)), sc_pid_to_storyline := pids\<rparr>)"
proof -
  note l = linkedD [OF assms(1)]
  have "p \<noteq> 0 \<and> (\<exists>s. hm_get (hm_insert a t (hm_remove b (sc_storylines sc))) sid = Some s \<and> p \<in> tree_pids s)"
    if "hm_get pids p = Some sid" for p sid
    using that l(4,5) assms(2-4,6,7)
    by (cases "p \<in> tree_pids donor \<and> p \<noteq> 0") (fastforce simp: hm_get_insert hm_get_remove)+
  with l assms(5,8) show ?thesis
    by (auto simp: linked_def hm_get_insert hm_get_remove hm_wf_insert hm_wf_remove)
qed

text \<open>Every process of a tree has a pid other than 0: the trees hold tracked processes only.\<close>

definition real_trees :: "storyline_correlator \<Rightarrow> bool" where
  "real_trees sc \<longleftrightarrow> (\<forall>sid s. hm_get (sc_storylines sc) sid = Some s \<longrightarrow> 0 \<notin> tree_pids s)"

lemma merge_storylines_linked:
  assumes "linked sc" and "real_trees sc"
  shows "linked (merge_storylines ln_1p now a b sc)"
proof (cases "hm_get (sc_storylines sc) b")
  case (Some donor)
  show ?thesis
  proof (cases "hm_get (hm_remove b (sc_storylines sc)) a")
    case None
    have "sl_id donor = b" using linkedD(3) [OF assms(1) Some] .
    have "hm_get (hm_insert b donor (hm_remove b (sc_storylines sc))) = hm_get (sc_storylines sc)"
      using Some by (auto simp: fun_eq_iff hm_get_insert hm_get_remove)
    with assms(1) have "linked (sc\<lparr>sc_storylines := hm_insert b donor (hm_remove b (sc_storylines sc))\<rparr>)"
      by (simp add: linked_def hm_wf_insert hm_wf_remove)
    with Some None \<open>sl_id donor = b\<close> show ?thesis by (simp add: merge_storylines_def)
  next
    case target: (Some target)
    then have ab: "a \<noteq> b" "hm_get (sc_storylines sc) a = Some target"
      by (auto simp: hm_get_remove split: if_splits)
    obtain pids tree where f: "foldl (adopt a) (sc_pid_to_storyline sc, sl_process_tree target)
        (sl_process_tree donor) = (pids, tree)" by (cases "foldl (adopt a)
          (sc_pid_to_storyline sc, sl_process_tree target) (sl_process_tree donor)")
    have z: "0 \<notin> tree_pids donor" using assms(2) Some by (simp add: real_trees_def)
    note fa = foldl_adopt [where a = a and m = "sc_pid_to_storyline sc" and tree = "sl_process_tree target"
        and cs = "sl_process_tree donor", unfolded f fst_conv snd_conv]
    have "hm_get pids p = (if p \<in> tree_pids donor \<and> p \<noteq> 0 then Some a else hm_get (sc_pid_to_storyline sc) p)" for p
      using z by (auto simp: fa(1) tree_pids_def)
    note merged = linked_merged [OF assms(1) Some ab _ _ this fa(3) [OF linkedD(2) [OF assms(1)]]]
    show ?thesis
      unfolding merge_storylines_def Some option.case Let_def target f prod.case
      by (rule merged) (use linkedD(3) [OF assms(1) ab(2)] fa(2) in \<open>simp_all add: tree_pids_def\<close>)
  qed
qed (simp add: merge_storylines_def assms)

section \<open>Runs of the correlator\<close>

text \<open>
  A step is one public operation; the ids drawn by \<^verbatim>\<open>StorylineId::new()\<close> are not in use. The
  daemon only correlates and adds verdicts; \<^verbatim>\<open>merge_storylines\<close> is part of the public interface.
\<close>

inductive story_step :: "(f32 \<Rightarrow> f32) \<Rightarrow> storyline_correlator \<Rightarrow> storyline_correlator \<Rightarrow> bool" for ln_1p where
  step_correlate: "hm_get (sc_storylines sc) fresh = None \<Longrightarrow>
     story_step ln_1p sc (fst (correlate fresh now now_prune ev sc))"
| step_verdict: "story_step ln_1p sc (add_verdict ln_1p now sid v sc)"
| step_prune: "story_step ln_1p sc (prune_inactive now age sc)"
| step_merge: "story_step ln_1p sc (merge_storylines ln_1p now a b sc)"

inductive_cases story_stepE: "story_step ln_1p sc sc'"

inductive story_reach :: "(f32 \<Rightarrow> f32) \<Rightarrow> storyline_correlator \<Rightarrow> storyline_correlator \<Rightarrow> bool" for ln_1p sc0 where
  reach_refl: "story_reach ln_1p sc0 sc0"
| reach_step: "story_reach ln_1p sc0 sc \<Longrightarrow> story_step ln_1p sc sc' \<Longrightarrow> story_reach ln_1p sc0 sc'"

lemma real_treesD: "real_trees sc \<Longrightarrow> hm_get (sc_storylines sc) sid = Some s \<Longrightarrow> 0 \<notin> tree_pids s"
  by (simp add: real_trees_def)

lemma real_trees_insert:
  "real_trees sc \<Longrightarrow> 0 \<notin> tree_pids s \<Longrightarrow> real_trees (sc\<lparr>sc_storylines := hm_insert sid s (sc_storylines sc)\<rparr>)"
  by (auto simp: real_trees_def hm_get_insert)

lemma real_trees_pids [simp]: "real_trees (sc\<lparr>sc_pid_to_storyline := m\<rparr>) = real_trees sc"
  by (simp add: real_trees_def)

lemma maybe_prune_real: "real_trees sc \<Longrightarrow> real_trees (maybe_prune now now_prune sc)"
  using maybe_prune_get unfolding real_trees_def by blast

lemma assign_real:
  assumes "real_trees sc" and "pc_pid ctx \<noteq> 0"
  shows "real_trees (fst (assign fresh ctx eid now sc))"
proof -
  have *: "0 \<notin> tree_pids s" if "storyline_of_pid sc p = Some (sid, s)" for p sid s
    using that real_treesD [OF assms(1)] by (auto simp: storyline_of_pid_Some)
  show ?thesis
    using assms(2) *
    by (auto simp: assign_def Let_def touch_storyline_def new_storyline_def tree_pids_def
        intro!: real_trees_insert [OF assms(1)] split: option.split)
qed

lemma correlate_real: "real_trees sc \<Longrightarrow> real_trees (fst (correlate fresh now now_prune ev sc))"
  using assign_real [OF maybe_prune_real] maybe_prune_real [of sc]
  by (simp add: correlate_def Let_def split: prod.split) (metis fst_conv)

lemma add_verdict_real: "real_trees sc \<Longrightarrow> real_trees (add_verdict ln_1p now sid v sc)"
  by (auto simp: add_verdict_def Let_def tree_pids_def real_treesD
      intro!: real_trees_insert dest: real_treesD split: option.split)

lemma prune_inactive_real: "real_trees sc \<Longrightarrow> real_trees (prune_inactive now age sc)"
  by (auto simp: real_trees_def prune_inactive_def Let_def foldl_remove_storyline)

lemma merge_storylines_real:
  assumes "real_trees sc"
  shows "real_trees (merge_storylines ln_1p now a b sc)"
proof (cases "hm_get (sc_storylines sc) b")
  case (Some donor)
  have d: "0 \<notin> tree_pids donor" using real_treesD [OF assms Some] .
  have t: "0 \<notin> tree_pids target" if "hm_get (hm_remove b (sc_storylines sc)) a = Some target" for target
    using that real_treesD [OF assms] by (auto simp: hm_get_remove split: if_splits)
  have r: "real_trees (sc\<lparr>sc_storylines := hm_insert k s (hm_remove b (sc_storylines sc))\<rparr>)"
    if "0 \<notin> tree_pids s" for k s
    using that assms by (auto simp: real_trees_def hm_get_insert hm_get_remove)
  have f: "0 \<notin> pc_pid ` set tree"
    if "foldl (adopt a) (m, sl_process_tree target) (sl_process_tree donor) = (pids, tree)"
      and "hm_get (hm_remove b (sc_storylines sc)) a = Some target" for m pids tree target
    using foldl_adopt(2) [of a m "sl_process_tree target" "sl_process_tree donor"] that(1) d t [OF that(2)]
    by (simp add: tree_pids_def)
  show ?thesis
    using Some d f by (auto simp: merge_storylines_def Let_def tree_pids_def [of "_\<lparr>sl_events := _\<rparr>"] intro!: r
        split: option.split prod.split) (simp_all add: tree_pids_def)
qed (simp add: merge_storylines_def assms)

lemma story_step_inv: "story_step ln_1p sc sc' \<Longrightarrow> linked sc \<and> real_trees sc \<Longrightarrow> linked sc' \<and> real_trees sc'"
  by (erule story_stepE) (simp_all add: correlate_linked add_verdict_linked prune_inactive_linked
      merge_storylines_linked correlate_real add_verdict_real prune_inactive_real merge_storylines_real)

lemma story_reach_inv:
  "story_reach ln_1p sc0 sc \<Longrightarrow> linked sc0 \<and> real_trees sc0 \<Longrightarrow> linked sc \<and> real_trees sc"
  by (induction rule: story_reach.induct) (auto dest: story_step_inv)

lemma assign_within_cap:
  assumes "within_cap sc"
  shows "within_cap (fst (assign fresh ctx eid now sc))"
proof -
  have "length (push_capped (sl_events s) eid (sc_max_events_per_storyline sc)) \<le> sc_max_events_per_storyline sc"
    if "storyline_of_pid sc p = Some (sid, s)" for p sid s
    using that assms capped.push_bounded by (auto simp: within_cap_def storyline_of_pid_Some)
  with assms show ?thesis
    by (auto simp: within_cap_def assign_def Let_def hm_get_insert touch_storyline_def new_storyline_def
        split: option.splits if_splits)
qed

lemma maybe_prune_within_cap: "within_cap sc \<Longrightarrow> within_cap (maybe_prune now now_prune sc)"
  by (auto simp: within_cap_def maybe_prune_cap dest: maybe_prune_get)

lemma correlate_within_cap:
  assumes "within_cap sc"
  shows "within_cap (fst (correlate fresh now now_prune ev sc))"
  using assign_within_cap [OF maybe_prune_within_cap [OF assms]] maybe_prune_within_cap [OF assms]
  by (simp add: correlate_def Let_def within_cap_def split: prod.splits) (metis fst_conv)

lemma add_verdict_within_cap: "within_cap sc \<Longrightarrow> within_cap (add_verdict ln_1p now sid v sc)"
  by (auto simp: within_cap_def add_verdict_def Let_def hm_get_insert split: option.splits)

lemma prune_inactive_within_cap: "within_cap sc \<Longrightarrow> within_cap (prune_inactive now age sc)"
  by (auto simp: within_cap_def prune_inactive_def Let_def foldl_remove_storyline)

section \<open>Properties\<close>

lemma storyline_new_inv: "linked (storyline_new now) \<and> real_trees (storyline_new now)"
  by (simp add: linked_def real_trees_def storyline_new_def)

lemma assign_joins:
  assumes "storyline_of_pid sc (pc_pid ctx) = None" and "storyline_of_pid sc (pc_ppid ctx) = Some (sid, s)"
  shows "snd (assign fresh ctx eid now sc) = sid"
    "hm_get (sc_pid_to_storyline (fst (assign fresh ctx eid now sc))) (pc_pid ctx) = Some sid"
  using assms by (simp_all add: assign_def Let_def hm_get_insert)

text \<open>
  C15: a process that is associated with a storyline is really part of it. In every state that
  correlating, judging, pruning and merging can reach, an associated pid is not 0, its storyline
  exists, is filed under its own id, and has the pid in its process tree: no association dangles.
\<close>

theorem storylines_stay_linked:
  assumes "story_reach ln_1p (storyline_new now) sc"
  shows "linked sc \<and> real_trees sc"
  using story_reach_inv [OF assms storyline_new_inv] .

theorem storylines_stay_linked_witness:
  "linked (fst (correlate (StorylineId 9) 5 5 sample_file (storyline_new 0))) \<and>
   real_trees (fst (correlate (StorylineId 9) 5 5 sample_file (storyline_new 0)))"
  by (rule storylines_stay_linked [where ln_1p = id and now = 0])
    (rule reach_step [OF reach_refl step_correlate], simp add: storyline_new_def)

text \<open>
  The children of a process join its storyline. When the process of an event is not
  associated, has a pid, and its parent is associated with a storyline that this call does not
  prune, the event is assigned to the parent's storyline and, unless it is an exit, the process
  is associated with it.
\<close>

theorem child_joins_parent:
  assumes "linked sc" and "pc_pid (process_context_of ev) \<noteq> 0"
    and "hm_get (sc_pid_to_storyline (maybe_prune now now_prune sc)) (pc_pid (process_context_of ev)) = None"
    and "hm_get (sc_pid_to_storyline (maybe_prune now now_prune sc)) (pc_ppid (process_context_of ev)) = Some sid"
  shows "snd (correlate fresh now now_prune ev sc) = sid \<and>
    (\<not> is_exit ev \<longrightarrow>
      hm_get (sc_pid_to_storyline (fst (correlate fresh now now_prune ev sc)))
        (pc_pid (process_context_of ev)) = Some sid)"
proof -
  let ?sc = "maybe_prune now now_prune sc" and ?ctx = "process_context_of ev"
  note l = maybe_prune_linked [OF assms(1), of now now_prune]
  obtain s where "hm_get (sc_storylines ?sc) sid = Some s" using linkedD(5) [OF l assms(4)] by blast
  with assms(4) have "storyline_of_pid ?sc (pc_ppid ?ctx) = Some (sid, s)"
    by (simp add: storyline_of_pid_Some)
  moreover have "storyline_of_pid ?sc (pc_pid ?ctx) = None"
    using storyline_of_pid_None [OF l] assms(3) by simp
  ultimately show ?thesis
    using assign_joins [of ?sc ?ctx sid s fresh "event_id_of ev" now] assms(2)
    by (simp add: correlate_def Let_def case_prod_beta)
qed

definition parent_event :: riggs_event where
  "parent_event = new_process (EventId 1) 1 Exec (process_context_new 10 1 ''sh'' ''/bin/sh'' ''sh'' ''u'' (StorylineId 0)) None"

definition child_event :: riggs_event where
  "child_event = new_process (EventId 2) 2 Exec (process_context_new 11 10 ''ls'' ''/bin/ls'' ''ls'' ''u'' (StorylineId 0)) None"

definition parent_state :: storyline_correlator where
  "parent_state = fst (correlate (StorylineId 9) 1 1 parent_event (storyline_new 0))"

theorem child_joins_parent_witness:
  "snd (correlate (StorylineId 8) 2 2 child_event parent_state) = StorylineId 9"
proof -
  have "linked parent_state"
    unfolding parent_state_def using storyline_new_inv [of 0]
    by (intro correlate_linked) (auto simp: storyline_new_def)
  moreover have "pc_pid (process_context_of child_event) \<noteq> 0" by code_simp
  moreover have "hm_get (sc_pid_to_storyline (maybe_prune 2 2 parent_state)) (pc_pid (process_context_of child_event)) = None"
    by code_simp
  moreover have "hm_get (sc_pid_to_storyline (maybe_prune 2 2 parent_state)) (pc_ppid (process_context_of child_event)) =
      Some (StorylineId 9)" by code_simp
  ultimately show ?thesis using child_joins_parent [of parent_state child_event 2 2 "StorylineId 9" "StorylineId 8"]
    by simp
qed

text \<open>
  An exit ends the association. After an exit event no storyline is associated with the pid,
  so the next process that gets the pid starts afresh or joins its own parent.
\<close>

theorem exit_ends_association:
  assumes "linked sc" and "is_exit ev"
  shows "hm_get (sc_pid_to_storyline (fst (correlate fresh now now_prune ev sc)))
      (pc_pid (process_context_of ev)) = None"
proof (cases "pc_pid (process_context_of ev) = 0")
  case True
  have "linked (maybe_prune now now_prune sc)" using assms(1) by (rule maybe_prune_linked)
  with linkedD(4) [OF this] have "hm_get (sc_pid_to_storyline (maybe_prune now now_prune sc)) 0 = None"
    by (metis not_None_eq)
  with True show ?thesis by (simp add: correlate_def)
next
  case False
  with assms(2) show ?thesis
    by (simp add: correlate_def Let_def hm_get_remove split: prod.split)
qed

definition parent_exit :: riggs_event where
  "parent_exit = new_process (EventId 3) 3 Exit (process_context_new 10 1 ''sh'' ''/bin/sh'' ''sh'' ''u'' (StorylineId 0)) None"

theorem exit_ends_association_witness:
  "hm_get (sc_pid_to_storyline (fst (correlate (StorylineId 8) 2 2 parent_exit (storyline_new 0))))
      (pc_pid (process_context_of parent_exit)) = None"
  by (rule exit_ends_association) (use storyline_new_inv in simp, code_simp)

text \<open>
  The retained events stay bounded. Correlating an event, adding a verdict and pruning keep
  every storyline within the configured number of events.
\<close>

theorem storyline_events_bounded:
  assumes "within_cap sc"
  shows "within_cap (fst (correlate fresh now now_prune ev sc)) \<and>
    within_cap (add_verdict ln_1p now sid v sc) \<and> within_cap (prune_inactive now age sc)"
  using assms by (simp add: correlate_within_cap add_verdict_within_cap prune_inactive_within_cap)

theorem storyline_events_bounded_witness:
  "within_cap (fst (correlate (StorylineId 9) 1 1 parent_event (storyline_new 0)))"
  using storyline_events_bounded [of "storyline_new 0" "StorylineId 9" 1 1 parent_event]
  by (simp add: within_cap_def storyline_new_def DEFAULT_MAX_EVENTS_PER_STORYLINE_def)

lemma foldl_f32_max_nonneg: "f32_nonneg a \<Longrightarrow> f32_nonneg (foldl f32_max a xs)"
  by (induction xs arbitrary: a) (auto simp: f32_max_nonneg)

lemma f32_div_of_nat_nonneg:
  assumes "f32_nonneg a" and "a \<noteq> F_Inf False" and "0 < n"
  shows "f32_nonneg (f32_div a (f32_of_nat n))"
proof -
  obtain x where a: "a = F_Fin x" "0 \<le> x" using assms(1,2) by (cases a) auto
  have "1 \<le> (of_nat n :: rat)" using assms(3) by simp
  from f32_round_pos [OF this] consider "f32_of_nat n = F_Inf False" | q where "0 < q" "f32_of_nat n = F_Fin q"
    unfolding f32_of_nat_def by blast
  then show ?thesis by cases (simp_all add: a)
qed

text \<open>
  The threat score is a number between 0 and 1. For finite non-negative confidences whose sum
  does not overflow and a logarithm that is non-negative, the score of a storyline is a finite
  value in the unit interval, so it can be compared with the threshold.
\<close>

theorem threat_score_in_unit_interval:
  assumes "\<forall>v \<in> set vs. \<exists>c \<ge> 0. v_confidence v = F_Fin c"
    and "f32_sum (map v_confidence vs) \<noteq> F_Inf False"
    and "\<And>x. f32_nonneg x \<Longrightarrow> f32_nonneg (ln_1p x)"
  shows "\<exists>r. recalculate_threat_score ln_1p vs = F_Fin r \<and> 0 \<le> r \<and> r \<le> 1"
proof (cases "vs = []")
  case False
  let ?c = "map v_confidence vs" and ?n = "f32_of_nat (length vs)"
  have c: "\<forall>x \<in> set ?c. f32_nonneg x" using assms(1) by fastforce
  have "f32_nonneg (f32_div (f32_sum ?c) ?n)"
    using f32_div_of_nat_nonneg [OF f32_sum_nonneg [OF c] assms(2)] False by simp
  moreover have "f32_nonneg (foldl f32_max (F_Fin 0) ?c)" by (simp add: foldl_f32_max_nonneg)
  moreover have "f32_nonneg (f32_div (ln_1p ?n) (F_Fin 3))"
    by (rule f32_div_pos_nonneg) (simp_all add: assms(3) f32_of_nat_def)
  ultimately have "f32_nonneg (f32_add (f32_add (f32_mul (f32_div (f32_sum ?c) ?n) (f32_lit (4 / 10)))
        (f32_mul (foldl f32_max (F_Fin 0) ?c) (f32_lit (6 / 10))))
      (f32_mul (f32_div (ln_1p ?n) (F_Fin 3)) (f32_lit (1 / 10))))"
    by (simp add: f32_lits f32_add_nonneg f32_mul_pos_nonneg)
  then have "f32_add (f32_add (f32_mul (f32_div (f32_sum ?c) ?n) (f32_lit (4 / 10)))
        (f32_mul (foldl f32_max (F_Fin 0) ?c) (f32_lit (6 / 10))))
      (f32_mul (f32_div (ln_1p ?n) (F_Fin 3)) (f32_lit (1 / 10))) \<noteq> F_NaN" by auto
  from f32_clamp_bounds [OF this, of 0 1] False show ?thesis
    by (simp add: recalculate_threat_score_def Let_def)
qed (simp add: recalculate_threat_score_def)

theorem threat_score_in_unit_interval_witness:
  "\<exists>r. recalculate_threat_score id [sample_verdict Malicious (F_Fin (1 / 2))] = F_Fin r \<and> 0 \<le> r \<and> r \<le> 1"
proof (rule threat_score_in_unit_interval)
  show "f32_sum (map v_confidence [sample_verdict Malicious (F_Fin (1 / 2))]) \<noteq> F_Inf False" by code_simp
  show "\<forall>v \<in> set [sample_verdict Malicious (F_Fin (1 / 2))]. \<exists>c \<ge> 0. v_confidence v = F_Fin c"
    by (auto simp: sample_verdict_def verdict_new_def intro: exI [of _ "1 / 2"])
qed simp

text \<open>
  One verdict without a numeric confidence silences the storyline for good. As soon as a
  storyline holds a verdict with a NaN confidence, its score is NaN whatever else is added, and
  it is never a threat again under any threshold.
\<close>

theorem nan_verdict_silences_storyline:
  assumes "F_NaN \<in> v_confidence ` set vs"
    and "hm_get (sc_storylines sc) sid = Some (s\<lparr>sl_verdicts := vs\<rparr>)"
  shows "recalculate_threat_score ln_1p (vs @ ws) = F_NaN \<and> \<not> is_threat (add_verdict ln_1p now sid v sc) sid"
proof -
  have nan: "recalculate_threat_score ln_1p (vs @ us) = F_NaN" for us
  proof -
    have "f32_sum (map v_confidence (vs @ us)) = F_NaN"
      by (rule f32_sum_NaN) (use assms(1) in auto)
    then show ?thesis
      using assms(1) by (auto simp: recalculate_threat_score_def Let_def f32_clamp_def)
  qed
  with assms(2) show ?thesis
    by (simp add: is_threat_def add_verdict_def Let_def hm_get_insert)
qed

definition nan_state :: storyline_correlator where
  "nan_state = add_verdict id 2 (StorylineId 9) (sample_verdict Malicious F_NaN) parent_state"

theorem nan_verdict_silences_storyline_witness:
  "\<not> is_threat (add_verdict id 3 (StorylineId 9) (sample_verdict Malicious (F_Fin 1)) nan_state) (StorylineId 9)"
proof -
  have "F_NaN \<in> v_confidence ` set [sample_verdict Malicious F_NaN]"
    by (simp add: sample_verdict_def verdict_new_def)
  moreover have "hm_get (sc_storylines nan_state) (StorylineId 9) =
      Some ((the (hm_get (sc_storylines nan_state) (StorylineId 9)))
        \<lparr>sl_verdicts := [sample_verdict Malicious F_NaN]\<rparr>)" by code_simp
  ultimately show ?thesis using nan_verdict_silences_storyline [where ws = "[]" and ln_1p = id] by blast
qed

text \<open>
  Pruning can cut a live process off its storyline. A pid that an old storyline still lists
  in its tree, and that a new process now has in an active storyline, loses its association when
  the old storyline is pruned: its next event starts a new storyline.
\<close>

definition reused_pid_state :: storyline_correlator where
  "reused_pid_state =
     (let sc1 = fst (correlate (StorylineId 9) 1 1 parent_event (storyline_new 0));
          sc2 = fst (correlate (StorylineId 8) 2 2 parent_exit sc1)
      in fst (correlate (StorylineId 7) (seconds 50) (seconds 50) parent_event sc2))"

theorem prune_cuts_live_process:
  "hm_get (sc_pid_to_storyline reused_pid_state) 10 = Some (StorylineId 7) \<and>
   hm_get (sc_pid_to_storyline (prune_inactive (seconds 3605) (seconds 3600) reused_pid_state)) 10 = None \<and>
   hm_get (sc_storylines (prune_inactive (seconds 3605) (seconds 3600) reused_pid_state)) (StorylineId 7) \<noteq> None"
  by code_simp

end
