(* ===== verification/Response_Policy.thy ===== *)
theory Response_Policy
  imports Engine Addresses
begin

text \<open>
  \<^verbatim>\<open>crates/riggs-response/src/actions.rs\<close> and \<^verbatim>\<open>policy.rs\<close>: the response actions and the policy that
  selects them for a merged verdict. The TOML and UUID parsers are parameters, as is the parser
  of IP addresses; \<open>own_pid\<close> is \<^verbatim>\<open>std::process::id()\<close>.
\<close>

section \<open>Actions\<close>

datatype response_action =
    KillProcess u32
  | SuspendProcess u32
  | QuarantineFile string
  | DeleteFile string
  | NetworkContain "ip_addr list"
  | NetworkRelease
  | Rollback storyline_id

fun action_display :: "(storyline_id \<Rightarrow> string) \<Rightarrow> response_action \<Rightarrow> string" where
  "action_display show_id (KillProcess pid) = ''Kill process (PID '' @ show_nat (unat pid) @ '')''"
| "action_display show_id (SuspendProcess pid) = ''Suspend process (PID '' @ show_nat (unat pid) @ '')''"
| "action_display show_id (QuarantineFile path) = ''Quarantine file '' @ path"
| "action_display show_id (DeleteFile path) = ''Delete file '' @ path"
| "action_display show_id (NetworkContain ips) =
     ''Network containment (allow: '' @ join '', '' (map show_ip ips) @ '')''"
| "action_display show_id NetworkRelease = ''Release network containment''"
| "action_display show_id (Rollback sid) = ''Rollback storyline '' @ show_id sid"

record response_record =
  rr_id :: uuid
  rr_action :: response_action
  rr_event_id :: event_id
  rr_storyline_id :: "storyline_id option"
  rr_executed_at :: timestamp
  rr_success :: bool
  rr_detail :: string

section \<open>Policy\<close>

definition DETECTED_STORYLINE :: storyline_id where "DETECTED_STORYLINE = StorylineId 0"

record policy_rule =
  rule_min_threat_level :: threat_level
  rule_conditions :: "string list"
  rule_actions :: "response_action list"

type_synonym response_policy = "policy_rule list"

definition default_policy :: response_policy where
  "default_policy =
     [\<lparr>rule_min_threat_level = Malicious, rule_conditions = [''critical_confidence''],
       rule_actions = [KillProcess 0, QuarantineFile '''', Rollback DETECTED_STORYLINE]\<rparr>,
      \<lparr>rule_min_threat_level = Malicious, rule_conditions = [],
       rule_actions = [QuarantineFile '''', Rollback DETECTED_STORYLINE]\<rparr>,
      \<lparr>rule_min_threat_level = Suspicious, rule_conditions = [], rule_actions = []\<rparr>]"

record toml_action =
  ta_type :: string
  ta_pid :: "u32 option"
  ta_path :: "string option"
  ta_allowed_ips :: "string list option"
  ta_storyline_id :: "string option"

record toml_policy_rule =
  tr_min_threat_level :: string
  tr_conditions :: "string list"
  tr_actions :: "toml_action list"

definition parse_threat_level :: "string \<Rightarrow> riggs_error + threat_level" where
  "parse_threat_level s =
     (if s = ''Clean'' \<or> s = ''clean'' then Inr Clean
      else if s = ''Suspicious'' \<or> s = ''suspicious'' then Inr Suspicious
      else if s = ''Malicious'' \<or> s = ''malicious'' then Inr Malicious
      else Inl (Config (''unknown threat level: '' @ s)))"

text \<open>\<^verbatim>\<open>Iterator::collect\<close> into a \<^verbatim>\<open>Result\<close>: the first error, or all the values.\<close>

fun collect_results :: "('e + 'a) list \<Rightarrow> 'e + 'a list" where
  "collect_results [] = Inr []"
| "collect_results (Inl e # _) = Inl e"
| "collect_results (Inr x # rs) = (case collect_results rs of Inl e \<Rightarrow> Inl e | Inr xs \<Rightarrow> Inr (x # xs))"

definition or_default :: "'a \<Rightarrow> 'a option \<Rightarrow> 'a" where
  "or_default d v = (case v of Some x \<Rightarrow> x | None \<Rightarrow> d)"

definition parse_action ::
  "(string \<Rightarrow> string + ip_addr) \<Rightarrow> (string \<Rightarrow> string + uuid) \<Rightarrow> toml_action \<Rightarrow> riggs_error + response_action" where
  "parse_action parse_ip parse_uuid ta =
     (if ta_type ta = ''KillProcess'' then Inr (KillProcess (or_default 0 (ta_pid ta)))
      else if ta_type ta = ''SuspendProcess'' then Inr (SuspendProcess (or_default 0 (ta_pid ta)))
      else if ta_type ta = ''QuarantineFile'' then Inr (QuarantineFile (or_default '''' (ta_path ta)))
      else if ta_type ta = ''DeleteFile'' then Inr (DeleteFile (or_default '''' (ta_path ta)))
      else if ta_type ta = ''NetworkContain'' then
        (case collect_results
                (map (\<lambda>ip. case parse_ip ip of
                             Inl e \<Rightarrow> Inl (Config (''invalid IP '' @ ip @ '': '' @ e))
                           | Inr a \<Rightarrow> Inr a) (or_default [] (ta_allowed_ips ta))) of
           Inl e \<Rightarrow> Inl e
         | Inr ips \<Rightarrow> Inr (NetworkContain ips))
      else if ta_type ta = ''NetworkRelease'' then Inr NetworkRelease
      else if ta_type ta = ''Rollback'' then
        (case ta_storyline_id ta of
           None \<Rightarrow> Inr (Rollback DETECTED_STORYLINE)
         | Some raw \<Rightarrow>
             (case parse_uuid raw of
                Inl e \<Rightarrow> Inl (Config (''invalid storyline_id UUID: '' @ e))
              | Inr u \<Rightarrow> Inr (Rollback (StorylineId u))))
      else Inl (Config (''unknown action type: '' @ ta_type ta)))"

text \<open>\<^verbatim>\<open>load_from_toml\<close> after the file is read and parsed.\<close>

definition compile_policy_rule ::
  "(string \<Rightarrow> string + ip_addr) \<Rightarrow> (string \<Rightarrow> string + uuid) \<Rightarrow> toml_policy_rule \<Rightarrow> riggs_error + policy_rule" where
  "compile_policy_rule parse_ip parse_uuid tr =
     (case parse_threat_level (tr_min_threat_level tr) of
        Inl e \<Rightarrow> Inl e
      | Inr lvl \<Rightarrow>
          (case collect_results (map (parse_action parse_ip parse_uuid) (tr_actions tr)) of
             Inl e \<Rightarrow> Inl e
           | Inr as \<Rightarrow>
               Inr \<lparr>rule_min_threat_level = lvl, rule_conditions = tr_conditions tr, rule_actions = as\<rparr>))"

definition load_from_toml ::
  "(string \<Rightarrow> string + ip_addr) \<Rightarrow> (string \<Rightarrow> string + uuid) \<Rightarrow> (string \<Rightarrow> string + toml_policy_rule list)
   \<Rightarrow> string + string \<Rightarrow> riggs_error + response_policy" where
  "load_from_toml parse_ip parse_uuid parse_toml contents =
     (case contents of
        Inl e \<Rightarrow> Inl (Config (''failed to read policy file: '' @ e))
      | Inr text \<Rightarrow>
          (case parse_toml text of
             Inl e \<Rightarrow> Inl (Config (''failed to parse policy TOML: '' @ e))
           | Inr rules \<Rightarrow> collect_results (map (compile_policy_rule parse_ip parse_uuid) rules)))"

section \<open>Evaluation\<close>

definition distinct_sources :: "verdict list \<Rightarrow> nat" where
  "distinct_sources vs = length (remdups (map v_source vs))"

definition condition_met :: "merged_verdict \<Rightarrow> string \<Rightarrow> bool" where
  "condition_met mv c =
     (if c = ''critical_confidence'' then
        list_ex (\<lambda>v. f32_le (f32_lit (95 / 100)) (v_confidence v)) (mv_verdicts mv)
      else if c = ''multi_source'' then 2 \<le> distinct_sources (mv_verdicts mv)
      else if c = ''behavioral_match'' then list_ex (\<lambda>v. v_source v = BehavioralAI) (mv_verdicts mv)
      else if c = ''static_match'' then list_ex (\<lambda>v. v_source v = StaticAI) (mv_verdicts mv)
      else False)"

definition conditions_met :: "string list \<Rightarrow> merged_verdict \<Rightarrow> bool" where
  "conditions_met conditions mv = list_all (condition_met mv) conditions"

definition resolve_path :: "string \<Rightarrow> string option \<Rightarrow> string option" where
  "resolve_path configured target = (if configured = [] then target else Some configured)"

definition resolve_pid :: "u32 \<Rightarrow> u32 \<Rightarrow> u32 \<Rightarrow> u32 option" where
  "resolve_pid own_pid configured target_pid =
     (let pid = (if configured = 0 then target_pid else configured)
      in if 1 < pid \<and> pid \<noteq> own_pid then Some pid else None)"

fun concretize_action ::
  "u32 \<Rightarrow> response_action \<Rightarrow> u32 \<Rightarrow> string option \<Rightarrow> storyline_id \<Rightarrow> response_action option" where
  "concretize_action own_pid (Rollback sid) target_pid target_path storyline =
     Some (Rollback (if sid = DETECTED_STORYLINE then storyline else sid))"
| "concretize_action own_pid (KillProcess pid) target_pid target_path storyline =
     map_option KillProcess (resolve_pid own_pid pid target_pid)"
| "concretize_action own_pid (SuspendProcess pid) target_pid target_path storyline =
     map_option SuspendProcess (resolve_pid own_pid pid target_pid)"
| "concretize_action own_pid (QuarantineFile path) target_pid target_path storyline =
     map_option QuarantineFile (resolve_path path target_path)"
| "concretize_action own_pid (DeleteFile path) target_pid target_path storyline =
     map_option DeleteFile (resolve_path path target_path)"
| "concretize_action own_pid (NetworkContain ips) target_pid target_path storyline = Some (NetworkContain ips)"
| "concretize_action own_pid NetworkRelease target_pid target_path storyline = Some NetworkRelease"

definition rule_applies :: "merged_verdict \<Rightarrow> policy_rule \<Rightarrow> bool" where
  "rule_applies mv r \<longleftrightarrow>
     rule_min_threat_level r \<le> mv_final_threat_level mv \<and> conditions_met (rule_conditions r) mv"

definition response_evaluate ::
  "u32 \<Rightarrow> response_policy \<Rightarrow> merged_verdict \<Rightarrow> u32 \<Rightarrow> string option \<Rightarrow> storyline_id \<Rightarrow> response_action list" where
  "response_evaluate own_pid pol mv target_pid target_path storyline =
     (case List.find (rule_applies mv) pol of
        None \<Rightarrow> []
      | Some rule \<Rightarrow>
          List.map_filter (\<lambda>a. concretize_action own_pid a target_pid target_path storyline)
            (rule_actions rule))"

text \<open>What makes an action safe to run.\<close>

fun safe_action :: "u32 \<Rightarrow> response_action \<Rightarrow> bool" where
  "safe_action own_pid (KillProcess pid) = (1 < pid \<and> pid \<noteq> own_pid)"
| "safe_action own_pid (SuspendProcess pid) = (1 < pid \<and> pid \<noteq> own_pid)"
| "safe_action own_pid (QuarantineFile path) = (path \<noteq> [])"
| "safe_action own_pid (DeleteFile path) = (path \<noteq> [])"
| "safe_action own_pid (Rollback sid) = (sid \<noteq> DETECTED_STORYLINE)"
| "safe_action own_pid _ = True"

lemma concretize_safe:
  assumes "concretize_action own_pid a target_pid target_path storyline = Some b"
    and "target_path \<noteq> Some []" and "storyline \<noteq> DETECTED_STORYLINE"
  shows "safe_action own_pid b"
  using assms by (cases a) (auto simp: resolve_pid_def resolve_path_def Let_def split: if_splits)

lemma in_response_evaluate:
  "b \<in> set (response_evaluate own_pid pol mv target_pid target_path storyline) \<Longrightarrow>
     \<exists>rule \<in> set pol. rule_applies mv rule \<and> (\<exists>a \<in> set (rule_actions rule).
       concretize_action own_pid a target_pid target_path storyline = Some b)"
  by (cases "List.find (rule_applies mv) pol")
    (auto simp: response_evaluate_def in_map_filter dest!: find_Some_in)

text \<open>
  C16: no response turns against the host. Whatever policy an operator configures and whatever the
  verdict, no selected action kills or suspends pid 0, pid 1 or the daemon itself, none targets an
  empty path and no rollback is left without a storyline, given that the event has a storyline
  and, if it names a file, a non-empty path.
\<close>

theorem responses_are_safe:
  assumes "b \<in> set (response_evaluate own_pid pol mv target_pid target_path storyline)"
    and "target_path \<noteq> Some []" and "storyline \<noteq> DETECTED_STORYLINE"
  shows "safe_action own_pid b"
  using in_response_evaluate [OF assms(1)] concretize_safe [OF _ assms(2,3)] by blast

definition malicious_verdict :: merged_verdict where
  "malicious_verdict =
     \<lparr>mv_event_id = EventId 1, mv_final_threat_level = Malicious,
      mv_verdicts = [sample_verdict Malicious (F_Fin 1)], mv_storyline_id = StorylineId 7\<rparr>"

theorem responses_are_safe_witness:
  "safe_action 500 (KillProcess 42)"
  by (rule responses_are_safe [of _ 500 default_policy malicious_verdict 42 "Some ''/tmp/x''" "StorylineId 7"])
    code_simp+

text \<open>
  What the default policy does. A clean or suspicious verdict selects nothing; a malicious one
  quarantines the file of the event, if it has one, and rolls the storyline back; and the process
  is killed first when some verdict has a confidence of at least 0.95 and the process is neither
  unknown, init nor the daemon.
\<close>

theorem default_policy_responses:
  "response_evaluate own_pid default_policy mv target_pid target_path storyline =
     (if mv_final_threat_level mv \<noteq> Malicious then []
      else (if (\<exists>v \<in> set (mv_verdicts mv). f32_le (f32_lit (95 / 100)) (v_confidence v)) \<and>
               1 < target_pid \<and> target_pid \<noteq> own_pid then [KillProcess target_pid] else []) @
           (case target_path of Some p \<Rightarrow> [QuarantineFile p] | None \<Rightarrow> []) @ [Rollback storyline])"
  by (cases "mv_final_threat_level mv"; cases target_path)
    (auto simp: response_evaluate_def default_policy_def rule_applies_def conditions_met_def
      condition_met_def list_ex_iff resolve_pid_def resolve_path_def List.map_filter_def
      less_eq_threat_level_def)

end
