(* ===== verification/Filesystem.thy ===== *)
theory Filesystem
  imports Events
begin

text \<open>
  The part of \<^verbatim>\<open>std::fs\<close> that the response engine uses. A file system maps a path to a node; which
  calls fail, with what error text, and what a failed write leaves behind is the environment's,
  so that every error path of the code can be taken. Intermediate directories are not tracked:
  whether a call fails for the lack of one is the environment's too.
\<close>

datatype fs_node = FileNode string u32 | DirNode

type_synonym fs = "string \<Rightarrow> fs_node option"

datatype io_call =
    IO_CreateDir string
  | IO_Metadata string
  | IO_Read string
  | IO_Write string
  | IO_SetMode string
  | IO_Rename string string
  | IO_Copy string string
  | IO_Remove string

record io_env =
  io_fails :: "io_call \<Rightarrow> bool"
  io_error :: "io_call \<Rightarrow> string"
  io_partial :: "string \<Rightarrow> fs_node option"
  io_create_mode :: u32

definition create_dir_all :: "io_env \<Rightarrow> string \<Rightarrow> fs \<Rightarrow> fs \<times> bool" where
  "create_dir_all env p fs =
     (if io_fails env (IO_CreateDir p) then (fs, False)
      else case fs p of
        None \<Rightarrow> (fs(p \<mapsto> DirNode), True)
      | Some DirNode \<Rightarrow> (fs, True)
      | Some (FileNode _ _) \<Rightarrow> (fs, False))"

definition fs_read :: "io_env \<Rightarrow> string \<Rightarrow> fs \<Rightarrow> string option" where
  "fs_read env p fs =
     (case fs p of
        Some (FileNode d _) \<Rightarrow> if io_fails env (IO_Read p) then None else Some d
      | _ \<Rightarrow> None)"

definition fs_write :: "io_env \<Rightarrow> string \<Rightarrow> string \<Rightarrow> fs \<Rightarrow> fs \<times> bool" where
  "fs_write env p d fs =
     (case fs p of
        Some DirNode \<Rightarrow> (fs, False)
      | Some (FileNode _ m) \<Rightarrow>
          if io_fails env (IO_Write p) then (fs(p := io_partial env p), False)
          else (fs(p \<mapsto> FileNode d m), True)
      | None \<Rightarrow>
          if io_fails env (IO_Write p) then (fs(p := io_partial env p), False)
          else (fs(p \<mapsto> FileNode d (io_create_mode env)), True))"

definition fs_set_mode :: "io_env \<Rightarrow> string \<Rightarrow> u32 \<Rightarrow> fs \<Rightarrow> fs \<times> bool" where
  "fs_set_mode env p m fs =
     (case fs p of
        Some (FileNode d _) \<Rightarrow>
          if io_fails env (IO_SetMode p) then (fs, False) else (fs(p \<mapsto> FileNode d m), True)
      | _ \<Rightarrow> (fs, False))"

definition fs_rename :: "io_env \<Rightarrow> string \<Rightarrow> string \<Rightarrow> fs \<Rightarrow> fs \<times> bool" where
  "fs_rename env a b fs =
     (if io_fails env (IO_Rename a b) \<or> fs a = None \<or> fs b = Some DirNode then (fs, False)
      else if a = b then (fs, True)
      else ((fs(b := fs a))(a := None), True))"

definition fs_copy :: "io_env \<Rightarrow> string \<Rightarrow> string \<Rightarrow> fs \<Rightarrow> fs \<times> bool" where
  "fs_copy env a b fs =
     (case fs a of
        Some (FileNode d m) \<Rightarrow>
          if fs b = Some DirNode then (fs, False)
          else if io_fails env (IO_Copy a b) then (fs(b := io_partial env b), False)
          else (fs(b \<mapsto> FileNode d m), True)
      | _ \<Rightarrow> (fs, False))"

definition fs_remove :: "io_env \<Rightarrow> string \<Rightarrow> fs \<Rightarrow> fs \<times> bool" where
  "fs_remove env p fs =
     (case fs p of
        Some (FileNode _ _) \<Rightarrow> if io_fails env (IO_Remove p) then (fs, False) else (fs(p := None), True)
      | _ \<Rightarrow> (fs, False))"

text \<open>\<^verbatim>\<open>Path::join\<close>: an absolute second part replaces the first.\<close>

definition path_join :: "string \<Rightarrow> string \<Rightarrow> string" where
  "path_join d n =
     (if starts_with n ''/'' then n
      else if d = [] \<or> ends_with d ''/'' then d @ n
      else d @ ''/'' @ n)"

text \<open>
  \<^verbatim>\<open>Path::parent\<close> on a path without \<open>.\<close> components: the path without its last component; the root
  and the empty path have none.
  \<open>strip_slashes\<close> removes trailing separators, but not the root.
\<close>

definition strip_slashes :: "string \<Rightarrow> string" where
  "strip_slashes s =
     (let t = rev (dropWhile (\<lambda>c. c = CHR ''/'') (rev s)) in if t = [] \<and> s \<noteq> [] then ''/'' else t)"

definition path_parent :: "string \<Rightarrow> string option" where
  "path_parent s =
     (let t = strip_slashes s in
      if t = [] \<or> t = ''/'' then None
      else case rsplit_once (CHR ''/'') t of
        None \<Rightarrow> Some []
      | Some (before, _) \<Rightarrow> Some (if before = [] then ''/'' else strip_slashes before))"

text \<open>A call that no environment makes fail.\<close>

definition no_faults :: "io_env \<Rightarrow> bool" where
  "no_faults env \<longleftrightarrow> (\<forall>c. \<not> io_fails env c)"

definition calm :: io_env where
  "calm = \<lparr>io_fails = (\<lambda>_. False), io_error = (\<lambda>_. ''''), io_partial = (\<lambda>_. None), io_create_mode = 0x1A4\<rparr>"

lemma calm_no_faults: "no_faults calm"
  by (simp add: no_faults_def calm_def)

text \<open>Where an operation can change the file system.\<close>

lemma fs_write_other: "q \<noteq> p \<Longrightarrow> fst (fs_write env p d fs) q = fs q"
  by (simp add: fs_write_def split: option.split fs_node.split)

lemma create_dir_all_file: "fs q = Some (FileNode d m) \<Longrightarrow> fst (create_dir_all env p fs) q = fs q"
  by (auto simp: create_dir_all_def split: option.split fs_node.split)

lemma create_dir_all_other: "q \<noteq> p \<Longrightarrow> fst (create_dir_all env p fs) q = fs q"
  by (auto simp: create_dir_all_def split: option.split fs_node.split)

lemma fs_set_mode_other: "q \<noteq> p \<Longrightarrow> fst (fs_set_mode env p m fs) q = fs q"
  by (auto simp: fs_set_mode_def split: option.split fs_node.split)

lemma fs_rename_other: "q \<noteq> a \<Longrightarrow> q \<noteq> b \<Longrightarrow> fst (fs_rename env a b fs) q = fs q"
  by (simp add: fs_rename_def)

lemma fs_remove_other: "q \<noteq> p \<Longrightarrow> fst (fs_remove env p fs) q = fs q"
  by (auto simp: fs_remove_def split: option.split fs_node.split)

lemma fs_write_ok:
  assumes "no_faults env" and "fs p \<noteq> Some DirNode"
  obtains m where "fs_write env p d fs = (fs(p \<mapsto> FileNode d m), True)"
proof (cases "fs p")
  case None
  with assms that show ?thesis by (simp add: fs_write_def no_faults_def)
next
  case (Some node)
  with assms that show ?thesis by (cases node) (simp_all add: fs_write_def no_faults_def)
qed

lemma create_dir_all_ok:
  assumes "no_faults env" and "\<nexists>d m. fs p = Some (FileNode d m)"
  shows "create_dir_all env p fs = (if fs p = None then fs(p \<mapsto> DirNode) else fs, True)"
  using assms by (auto simp: create_dir_all_def no_faults_def split: option.splits fs_node.splits)

end
