(* ===== verification/Vault.thy ===== *)
theory Vault
  imports Filesystem
begin

text \<open>
  The quarantine vault of \<^verbatim>\<open>crates/riggs-response/src/executor.rs\<close>. What the vault calls of other
  crates is collected in a record of parameters: the SHA-256 digest as a hexadecimal string, the
  rendering of a uuid, and the JSON writer and reader of the manifest and of the list of released
  hashes.
\<close>

record quarantine_entry =
  qe_id :: uuid
  qe_original_path :: string
  qe_quarantined_at :: timestamp
  qe_file_size :: u64
  qe_sha256_hash :: "string option"

record vault_libs =
  vl_sha256 :: "string \<Rightarrow> string"
  vl_show_uuid :: "uuid \<Rightarrow> string"
  vl_write_manifest :: "quarantine_entry list \<Rightarrow> string + string"
  vl_read_manifest :: "string \<Rightarrow> string + quarantine_entry list"
  vl_write_released :: "string list \<Rightarrow> string + string"
  vl_read_released :: "string \<Rightarrow> string + string list"

definition manifest_path :: "string \<Rightarrow> string" where
  "manifest_path vault_dir = path_join vault_dir ''manifest.json''"

definition released_path :: "string \<Rightarrow> string" where
  "released_path vault_dir = path_join vault_dir ''released.json''"

definition vault_path :: "vault_libs \<Rightarrow> string \<Rightarrow> uuid \<Rightarrow> string" where
  "vault_path vl vault_dir i = path_join vault_dir (vl_show_uuid vl i)"

definition load_manifest ::
  "vault_libs \<Rightarrow> io_env \<Rightarrow> string \<Rightarrow> fs \<Rightarrow> riggs_error + quarantine_entry list" where
  "load_manifest vl env vault_dir fs =
     (let p = manifest_path vault_dir in
      if fs p = None then Inr []
      else case fs_read env p fs of
        None \<Rightarrow> Inl (Io (''failed to read manifest: '' @ io_error env (IO_Read p)))
      | Some data \<Rightarrow>
          (case vl_read_manifest vl data of
             Inl e \<Rightarrow> Inl (Io (''failed to parse manifest: '' @ e))
           | Inr entries \<Rightarrow> Inr entries))"

definition save_manifest ::
  "vault_libs \<Rightarrow> io_env \<Rightarrow> string \<Rightarrow> quarantine_entry list \<Rightarrow> fs \<Rightarrow> fs \<times> riggs_error option" where
  "save_manifest vl env vault_dir entries fs =
     (case vl_write_manifest vl entries of
        Inl e \<Rightarrow> (fs, Some (Io (''failed to serialize manifest: '' @ e)))
      | Inr data \<Rightarrow>
          let p = manifest_path vault_dir; (fs', ok) = fs_write env p data fs
          in (fs', if ok then None
                   else Some (Io (''failed to write manifest: '' @ io_error env (IO_Write p)))))"

definition load_released :: "vault_libs \<Rightarrow> io_env \<Rightarrow> string \<Rightarrow> fs \<Rightarrow> riggs_error + string list" where
  "load_released vl env vault_dir fs =
     (let p = released_path vault_dir in
      case fs_read env p fs of
        Some data \<Rightarrow>
          (case vl_read_released vl data of
             Inl e \<Rightarrow> Inl (Io (''failed to parse released list: '' @ e))
           | Inr hashes \<Rightarrow> Inr hashes)
      | None \<Rightarrow>
          if fs p = None then Inr []
          else Inl (Io (''failed to read released list: '' @ io_error env (IO_Read p))))"

definition release_hash ::
  "vault_libs \<Rightarrow> io_env \<Rightarrow> string \<Rightarrow> string \<Rightarrow> fs \<Rightarrow> fs \<times> riggs_error option" where
  "release_hash vl env vault_dir hash fs =
     (case load_released vl env vault_dir fs of
        Inl e \<Rightarrow> (fs, Some e)
      | Inr released \<Rightarrow>
          if hash \<in> set released then (fs, None)
          else case vl_write_released vl (released @ [hash]) of
            Inl e \<Rightarrow> (fs, Some (Io (''failed to serialize released list: '' @ e)))
          | Inr data \<Rightarrow>
              let p = released_path vault_dir; (fs', ok) = fs_write env p data fs
              in (fs', if ok then None
                       else Some (Io (''failed to write released list: '' @ io_error env (IO_Write p)))))"

text \<open>\<^verbatim>\<open>rename\<close>, or \<^verbatim>\<open>copy\<close> and \<^verbatim>\<open>remove_file\<close> when it fails; the result is the error, if any.\<close>

definition move_file :: "io_env \<Rightarrow> string \<Rightarrow> string \<Rightarrow> fs \<Rightarrow> fs \<times> string option" where
  "move_file env a b fs =
     (let (fs1, renamed) = fs_rename env a b fs in
      if renamed then (fs1, None)
      else let (fs2, copied) = fs_copy env a b fs1 in
        if \<not> copied then (fs2, Some (io_error env (IO_Copy a b)))
        else let (fs3, removed) = fs_remove env a fs2 in
          (fs3, if removed then None else Some (io_error env (IO_Remove a))))"

fun node_len :: "fs_node \<Rightarrow> u64" where
  "node_len (FileNode d _) = of_nat (length d)"
| "node_len DirNode = 0"

text \<open>The check against the released hashes; a file that cannot be hashed is not checked.\<close>

definition released_check ::
  "vault_libs \<Rightarrow> io_env \<Rightarrow> string \<Rightarrow> string \<Rightarrow> string option \<Rightarrow> fs \<Rightarrow> riggs_error option" where
  "released_check vl env vault_dir path hash fs =
     (case hash of
        None \<Rightarrow> None
      | Some h \<Rightarrow>
          (case load_released vl env vault_dir fs of
             Inl e \<Rightarrow> Some e
           | Inr released \<Rightarrow>
               if h \<in> set released
               then Some (Response (''not re-quarantining '' @ path @
                      '': an operator restored this file (sha256 '' @ h @ '')''))
               else None))"

definition quarantine ::
  "vault_libs \<Rightarrow> io_env \<Rightarrow> string \<Rightarrow> timestamp \<Rightarrow> uuid \<Rightarrow> string \<Rightarrow> fs
   \<Rightarrow> fs \<times> (riggs_error + quarantine_entry)" where
  "quarantine vl env vault_dir now fresh path fs =
     (let (fs1, created) = create_dir_all env vault_dir fs in
      if \<not> created
      then (fs1, Inl (Io (''failed to create vault dir: '' @ io_error env (IO_CreateDir vault_dir))))
      else case fs1 path of
        None \<Rightarrow> (fs1, Inl (Io (''file does not exist: '' @ path)))
      | Some node \<Rightarrow>
          if io_fails env (IO_Metadata path)
          then (fs1, Inl (Io (''failed to read metadata: '' @ io_error env (IO_Metadata path))))
          else
            let hash = map_option (vl_sha256 vl) (fs_read env path fs1) in
            (case released_check vl env vault_dir path hash fs1 of
               Some e \<Rightarrow> (fs1, Inl e)
             | None \<Rightarrow>
                 let (fs2, moved) = move_file env path (vault_path vl vault_dir fresh) fs1 in
                 (case moved of
                    Some e \<Rightarrow> (fs2, Inl (Io (''failed to quarantine file: '' @ e)))
                  | None \<Rightarrow>
                      let entry = \<lparr>qe_id = fresh, qe_original_path = path, qe_quarantined_at = now,
                                   qe_file_size = node_len node, qe_sha256_hash = hash\<rparr>
                      in (case load_manifest vl env vault_dir fs2 of
                            Inl e \<Rightarrow> (fs2, Inl e)
                          | Inr manifest \<Rightarrow>
                              let (fs3, saved) = save_manifest vl env vault_dir (manifest @ [entry]) fs2
                              in (fs3, case saved of Some e \<Rightarrow> Inl e | None \<Rightarrow> Inr entry)))))"

fun position :: "('a \<Rightarrow> bool) \<Rightarrow> 'a list \<Rightarrow> nat option" where
  "position p [] = None"
| "position p (x # xs) = (if p x then Some 0 else map_option Suc (position p xs))"

definition remove_at :: "nat \<Rightarrow> 'a list \<Rightarrow> 'a list" where
  "remove_at i xs = take i xs @ drop (Suc i) xs"

text \<open>The steps of \<^verbatim>\<open>restore\<close> from recording the release to moving the file back.\<close>

definition release_entry ::
  "vault_libs \<Rightarrow> io_env \<Rightarrow> string \<Rightarrow> quarantine_entry \<Rightarrow> fs \<Rightarrow> fs \<times> riggs_error option" where
  "release_entry vl env vault_dir entry fs =
     (case qe_sha256_hash entry of
        None \<Rightarrow> (fs, None)
      | Some h \<Rightarrow> release_hash vl env vault_dir h fs)"

definition recreate_parent :: "io_env \<Rightarrow> quarantine_entry \<Rightarrow> fs \<Rightarrow> fs \<times> riggs_error option" where
  "recreate_parent env entry fs =
     (case path_parent (qe_original_path entry) of
        None \<Rightarrow> (fs, None)
      | Some parent \<Rightarrow>
          let (fs', ok) = create_dir_all env parent fs
          in (fs', if ok then None
                   else Some (Io (''failed to recreate parent dir: '' @ io_error env (IO_CreateDir parent)))))"

definition restore ::
  "vault_libs \<Rightarrow> io_env \<Rightarrow> string \<Rightarrow> uuid \<Rightarrow> fs \<Rightarrow> fs \<times> riggs_error option" where
  "restore vl env vault_dir entry_id fs =
     (case load_manifest vl env vault_dir fs of
        Inl e \<Rightarrow> (fs, Some e)
      | Inr manifest \<Rightarrow>
          (case position (\<lambda>e. qe_id e = entry_id) manifest of
             None \<Rightarrow> (fs, Some (Response (''quarantine entry not found: '' @ vl_show_uuid vl entry_id)))
           | Some pos \<Rightarrow>
               let entry = manifest ! pos; vp = vault_path vl vault_dir entry_id in
               if fs vp = None
               then (fs, Some (Io (''quarantined file missing from vault: '' @ vl_show_uuid vl entry_id)))
               else
                 let (fs1, released) = release_entry vl env vault_dir entry fs in
                 (case released of
                    Some e \<Rightarrow> (fs1, Some e)
                  | None \<Rightarrow>
                      let (fs2, recreated) = recreate_parent env entry fs1 in
                      (case recreated of
                         Some e \<Rightarrow> (fs2, Some e)
                       | None \<Rightarrow>
                           let (fs3, moved) = move_file env vp (qe_original_path entry) fs2 in
                           (case moved of
                              Some e \<Rightarrow> (fs3, Some (Io (''failed to restore file: '' @ e)))
                            | None \<Rightarrow> save_manifest vl env vault_dir (remove_at pos manifest) fs3)))))"

section \<open>The vault's files\<close>

text \<open>The vault's own files and the file that is quarantined are different files.\<close>

definition apart :: "vault_libs \<Rightarrow> string \<Rightarrow> uuid \<Rightarrow> string \<Rightarrow> bool" where
  "apart vl vault_dir i path \<longleftrightarrow>
     distinct [vault_dir, manifest_path vault_dir, released_path vault_dir, vault_path vl vault_dir i, path]"

text \<open>The JSON reader inverts the writer on a list.\<close>

definition manifest_codec :: "vault_libs \<Rightarrow> quarantine_entry list \<Rightarrow> bool" where
  "manifest_codec vl es \<longleftrightarrow> (\<exists>d. vl_write_manifest vl es = Inr d \<and> vl_read_manifest vl d = Inr es)"

definition released_codec :: "vault_libs \<Rightarrow> string list \<Rightarrow> bool" where
  "released_codec vl hs \<longleftrightarrow> (\<exists>d. vl_write_released vl hs = Inr d \<and> vl_read_released vl d = Inr hs)"

lemma position_last:
  "list_all (\<lambda>x. \<not> p x) xs \<Longrightarrow> p y \<Longrightarrow> position p (xs @ [y]) = Some (length xs)"
  by (induction xs) auto

lemma save_manifest_ok:
  assumes "manifest_codec vl es" and "no_faults env" and "fs (manifest_path dir) \<noteq> Some DirNode"
  obtains d m where "save_manifest vl env dir es fs = (fs(manifest_path dir \<mapsto> FileNode d m), None)"
    and "vl_read_manifest vl d = Inr es"
proof -
  obtain d where "vl_write_manifest vl es = Inr d" "vl_read_manifest vl d = Inr es"
    using assms(1) unfolding manifest_codec_def by blast
  moreover obtain m where "fs_write env (manifest_path dir) d fs = (fs(manifest_path dir \<mapsto> FileNode d m), True)"
    using fs_write_ok [of env fs "manifest_path dir" d] assms(2,3) by metis
  ultimately show ?thesis using that by (simp add: save_manifest_def Let_def)
qed

lemma release_hash_ok:
  assumes "released_codec vl (hs @ [h])" and "no_faults env" and "load_released vl env dir fs = Inr hs"
    and "fs (released_path dir) \<noteq> Some DirNode"
  obtains fs' hs' where "release_hash vl env dir h fs = (fs', None)"
    and "load_released vl env dir fs' = Inr hs'" and "h \<in> set hs'" and "set hs \<subseteq> set hs'"
    and "\<And>q. q \<noteq> released_path dir \<Longrightarrow> fs' q = fs q" and "fs' (released_path dir) \<noteq> Some DirNode"
proof (cases "h \<in> set hs")
  case True
  with assms that [of fs hs] show ?thesis by (simp add: release_hash_def)
next
  case False
  obtain d where d: "vl_write_released vl (hs @ [h]) = Inr d" "vl_read_released vl d = Inr (hs @ [h])"
    using assms(1) unfolding released_codec_def by blast
  obtain m where w: "fs_write env (released_path dir) d fs = (fs(released_path dir \<mapsto> FileNode d m), True)"
    using fs_write_ok [of env fs "released_path dir" d] assms(2,4) by metis
  have l: "load_released vl env dir (fs(released_path dir \<mapsto> FileNode d m)) = Inr (hs @ [h])"
    using d assms(2) by (simp add: load_released_def fs_read_def no_faults_def)
  from False d w assms(3) have "release_hash vl env dir h fs = (fs(released_path dir \<mapsto> FileNode d m), None)"
    by (simp add: release_hash_def Let_def)
  then show ?thesis by (rule that) (use l in auto)
qed

lemma move_file_ok:
  assumes "no_faults env" and "fs a = Some (FileNode d m)" and "a \<noteq> b" and "fs b \<noteq> Some DirNode"
  shows "move_file env a b fs = ((fs(b \<mapsto> FileNode d m))(a := None), None)"
  using assms by (simp add: move_file_def fs_rename_def no_faults_def)

definition entry_of :: "vault_libs \<Rightarrow> timestamp \<Rightarrow> uuid \<Rightarrow> string \<Rightarrow> string \<Rightarrow> quarantine_entry" where
  "entry_of vl now i path d =
     \<lparr>qe_id = i, qe_original_path = path, qe_quarantined_at = now,
      qe_file_size = of_nat (length d), qe_sha256_hash = Some (vl_sha256 vl d)\<rparr>"

text \<open>
  The situation a quarantine starts from: a file outside the vault whose hash is not released, a
  vault whose lists can be read, and a drawn id that is not in use.
\<close>

definition quarantinable ::
  "vault_libs \<Rightarrow> io_env \<Rightarrow> string \<Rightarrow> timestamp \<Rightarrow> uuid \<Rightarrow> string \<Rightarrow> fs \<Rightarrow> string \<Rightarrow> u32 \<Rightarrow> quarantine_entry list
   \<Rightarrow> string list \<Rightarrow> bool"
where
  "quarantinable vl env dir now i path fs d m manifest released \<longleftrightarrow>
     manifest_codec vl manifest \<and> manifest_codec vl (manifest @ [entry_of vl now i path d]) \<and>
     released_codec vl (released @ [vl_sha256 vl d]) \<and> no_faults env \<and> apart vl dir i path \<and>
     fs path = Some (FileNode d m) \<and> fs (vault_path vl dir i) = None \<and>
     (\<nexists>d m. fs dir = Some (FileNode d m)) \<and>
     fs (manifest_path dir) \<noteq> Some DirNode \<and> fs (released_path dir) \<noteq> Some DirNode \<and>
     load_manifest vl env dir fs = Inr manifest \<and> load_released vl env dir fs = Inr released \<and>
     vl_sha256 vl d \<notin> set released \<and> list_all (\<lambda>e. qe_id e \<noteq> i) manifest"

lemma load_manifest_cong: "fs (manifest_path dir) = fs' (manifest_path dir) \<Longrightarrow> load_manifest vl env dir fs = load_manifest vl env dir fs'"
  by (simp add: load_manifest_def fs_read_def Let_def)

lemma load_released_cong: "fs (released_path dir) = fs' (released_path dir) \<Longrightarrow> load_released vl env dir fs = load_released vl env dir fs'"
  by (simp add: load_released_def fs_read_def Let_def)

lemma quarantine_ok:
  assumes "quarantinable vl env dir now i path fs d m manifest released"
  obtains fs' where "quarantine vl env dir now i path fs = (fs', Inr (entry_of vl now i path d))"
    and "fs' path = None" and "fs' (vault_path vl dir i) = Some (FileNode d m)"
    and "load_manifest vl env dir fs' = Inr (manifest @ [entry_of vl now i path d])"
    and "load_released vl env dir fs' = Inr released"
    and "fs' (manifest_path dir) \<noteq> Some DirNode" and "fs' (released_path dir) \<noteq> Some DirNode"
    and "\<And>p d m. p \<notin> {manifest_path dir, vault_path vl dir i} \<Longrightarrow> fs' p = Some (FileNode d m) \<Longrightarrow>
      fs p = Some (FileNode d m)"
proof -
  note q = assms [unfolded quarantinable_def]
  have ap: "distinct [dir, manifest_path dir, released_path dir, vault_path vl dir i, path]"
    using q by (simp add: apart_def)
  define fs1 where "fs1 = (if fs dir = None then fs(dir \<mapsto> DirNode) else fs)"
  have c: "create_dir_all env dir fs = (fs1, True)"
    using create_dir_all_ok [of env fs dir] q by (simp add: fs1_def)
  have same: "fs1 (manifest_path dir) = fs (manifest_path dir)" "fs1 (released_path dir) = fs (released_path dir)"
    "fs1 (vault_path vl dir i) = fs (vault_path vl dir i)" "fs1 path = fs path"
    using ap by (auto simp: fs1_def)
  define fs2 where "fs2 = (fs1(vault_path vl dir i \<mapsto> FileNode d m))(path := None)"
  have mv: "move_file env path (vault_path vl dir i) fs1 = (fs2, None)"
    unfolding fs2_def using q ap same by (intro move_file_ok) auto
  have kept: "fs2 (manifest_path dir) = fs (manifest_path dir)"
    "fs2 (released_path dir) = fs (released_path dir)" "fs1 (released_path dir) = fs (released_path dir)"
    using ap same by (simp_all add: fs2_def)
  have man: "load_manifest vl env dir fs2 = Inr manifest"
    using load_manifest_cong [of fs2 dir fs vl env, OF kept(1)] q by simp
  have rel: "load_released vl env dir fs1 = Inr released" "load_released vl env dir fs2 = Inr released"
    using load_released_cong [of fs1 dir fs vl env, OF kept(3)]
      load_released_cong [of fs2 dir fs vl env, OF kept(2)] q by simp_all
  have "fs2 (manifest_path dir) \<noteq> Some DirNode" using q ap same by (simp add: fs2_def)
  then obtain dd mm where s: "save_manifest vl env dir (manifest @ [entry_of vl now i path d]) fs2 =
      (fs2(manifest_path dir \<mapsto> FileNode dd mm), None)"
    and r: "vl_read_manifest vl dd = Inr (manifest @ [entry_of vl now i path d])"
    using save_manifest_ok q by metis
  let ?fs = "fs2(manifest_path dir \<mapsto> FileNode dd mm)"
  have "fs_read env path fs1 = Some d" using q ap same by (simp add: fs_read_def no_faults_def)
  moreover have "fs1 path = Some (FileNode d m)" "\<not> io_fails env (IO_Metadata path)"
    using q ap same by (simp_all add: no_faults_def)
  ultimately have "quarantine vl env dir now i path fs = (?fs, Inr (entry_of vl now i path d))"
    using c mv man rel(1) s q unfolding quarantine_def
    by (simp add: released_check_def entry_of_def)
  moreover have "?fs path = None" "?fs (vault_path vl dir i) = Some (FileNode d m)"
    using ap by (auto simp: fs2_def)
  moreover have "load_manifest vl env dir ?fs = Inr (manifest @ [entry_of vl now i path d])"
    using r q by (simp add: load_manifest_def fs_read_def no_faults_def Let_def)
  moreover have "load_released vl env dir ?fs = Inr released" "?fs (released_path dir) \<noteq> Some DirNode"
    using rel(2) kept(2) q ap load_released_cong [of ?fs dir fs2 vl env] by auto
  moreover have "fs p = Some (FileNode d' m')"
    if "p \<notin> {manifest_path dir, vault_path vl dir i}" "?fs p = Some (FileNode d' m')" for p d' m'
    using that by (auto simp: fs2_def fs1_def split: if_splits)
  ultimately show ?thesis using that by simp
qed

lemma restore_ok:
  assumes "manifest_codec vl manifest \<and> released_codec vl (released @ [vl_sha256 vl d])"
    and "no_faults env" and "apart vl dir i path"
    and "load_manifest vl env dir fs = Inr (manifest @ [entry_of vl now i path d])"
    and "list_all (\<lambda>e. qe_id e \<noteq> i) manifest"
    and "load_released vl env dir fs = Inr released"
    and "fs (vault_path vl dir i) = Some (FileNode d m)" and "fs path = None"
    and "fs (manifest_path dir) \<noteq> Some DirNode" and "fs (released_path dir) \<noteq> Some DirNode"
    and "\<And>parent. path_parent path = Some parent \<Longrightarrow>
      (\<nexists>d m. fs parent = Some (FileNode d m)) \<and>
      parent \<notin> {manifest_path dir, released_path dir, vault_path vl dir i, path}"
  obtains fs' released' where "restore vl env dir i fs = (fs', None)"
    and "fs' path = Some (FileNode d m)" and "load_manifest vl env dir fs' = Inr manifest"
    and "load_released vl env dir fs' = Inr released'" and "vl_sha256 vl d \<in> set released'"
proof -
  let ?e = "entry_of vl now i path d" and ?vp = "vault_path vl dir i"
  have ap: "distinct [dir, manifest_path dir, released_path dir, ?vp, path]"
    using assms(3) by (simp add: apart_def)
  obtain fs1 hs' where rel: "release_hash vl env dir (vl_sha256 vl d) fs = (fs1, None)"
      "load_released vl env dir fs1 = Inr hs'" "vl_sha256 vl d \<in> set hs'"
    and same1: "\<And>q. q \<noteq> released_path dir \<Longrightarrow> fs1 q = fs q"
    and nd: "fs1 (released_path dir) \<noteq> Some DirNode"
    using release_hash_ok [OF assms(1) [THEN conjunct2] assms(2,6,10)] by metis
  have s1: "fs1 (manifest_path dir) = fs (manifest_path dir)" "fs1 ?vp = Some (FileNode d m)" "fs1 path = None"
    using ap assms(7,8) by (auto intro!: same1 [THEN trans])
  obtain fs2 where par: "recreate_parent env ?e fs1 = (fs2, None)"
    and same2: "fs2 (manifest_path dir) = fs1 (manifest_path dir)" "fs2 (released_path dir) = fs1 (released_path dir)"
      "fs2 ?vp = fs1 ?vp" "fs2 path = fs1 path"
  proof (cases "path_parent path")
    case None
    then show ?thesis using that [of fs1] by (simp add: recreate_parent_def entry_of_def)
  next
    case (Some parent)
    note pp = assms(11) [OF Some]
    then have "fs1 parent = fs parent" by (intro same1) auto
    with pp have "create_dir_all env parent fs1 = (if fs1 parent = None then fs1(parent \<mapsto> DirNode) else fs1, True)"
      by (intro create_dir_all_ok [OF assms(2)]) simp
    with Some pp show ?thesis
      using that [of "if fs1 parent = None then fs1(parent \<mapsto> DirNode) else fs1"]
      by (auto simp: recreate_parent_def entry_of_def split: if_splits)
  qed
  define fs3 where "fs3 = (fs2(path \<mapsto> FileNode d m))(?vp := None)"
  have mv: "move_file env ?vp path fs2 = (fs3, None)"
    unfolding fs3_def using same2 s1 ap by (intro move_file_ok [OF assms(2)]) auto
  have s3: "fs3 (manifest_path dir) = fs (manifest_path dir)" "fs3 (released_path dir) = fs1 (released_path dir)"
    "fs3 path = Some (FileNode d m)"
    using same2 s1 ap by (auto simp: fs3_def)
  then obtain dd mm where s: "save_manifest vl env dir manifest fs3 = (fs3(manifest_path dir \<mapsto> FileNode dd mm), None)"
    and r: "vl_read_manifest vl dd = Inr manifest"
    using save_manifest_ok [OF assms(1) [THEN conjunct1] assms(2), of fs3 dir] assms(9) by metis
  let ?fs = "fs3(manifest_path dir \<mapsto> FileNode dd mm)"
  have pos: "position (\<lambda>e. qe_id e = i) (manifest @ [?e]) = Some (length manifest)"
    using assms(5) by (intro position_last) (simp_all add: entry_of_def)
  have rel': "release_entry vl env dir ?e fs = (fs1, None)"
    using rel(1) by (simp add: release_entry_def entry_of_def)
  have "restore vl env dir i fs = (?fs, None)"
    using assms(4,7) pos rel' par mv s
    by (simp add: restore_def Let_def remove_at_def entry_of_def)
  moreover have "?fs path = Some (FileNode d m)" using s3 ap by auto
  moreover have "load_manifest vl env dir ?fs = Inr manifest"
    using r assms(2) by (simp add: load_manifest_def fs_read_def no_faults_def Let_def)
  moreover have "load_released vl env dir ?fs = Inr hs'"
    using load_released_cong [of ?fs dir fs1 vl env] s3(2) rel(2) ap by auto
  ultimately show ?thesis using that rel(3) by blast
qed

section \<open>Properties\<close>


definition sample_libs :: vault_libs where
  "sample_libs =
     \<lparr>vl_sha256 = (\<lambda>d. ''h'' @ d), vl_show_uuid = (\<lambda>_. ''uuid''),
      vl_write_manifest = (\<lambda>es. Inr (if es = [] then ''[]'' else ''[e]'')),
      vl_read_manifest = (\<lambda>d. if d = ''[]'' then Inr []
        else Inr [\<lparr>qe_id = 5, qe_original_path = ''/x'', qe_quarantined_at = 9, qe_file_size = 2,
                   qe_sha256_hash = Some ''hab''\<rparr>]),
      vl_write_released = (\<lambda>hs. Inr (concat hs)), vl_read_released = (\<lambda>d. Inr [d])\<rparr>"

definition sample_fs :: fs where
  "sample_fs = [''/x'' \<mapsto> FileNode ''ab'' 0x1ED]"


text \<open>
  A damaged manifest strands a quarantined file. When the manifest does not parse, the file is
  already moved into the vault when the error is returned, so it is neither where it was nor
  listed, and a restore cannot reach it.
\<close>

definition damaged_libs :: vault_libs where
  "damaged_libs = sample_libs\<lparr>vl_read_manifest := (\<lambda>_. Inl ''eof'')\<rparr>"

theorem damaged_manifest_strands_file:
  "let fs = sample_fs(manifest_path ''/v'' \<mapsto> FileNode ''{'' 0x1A4);
       (fs1, result) = quarantine damaged_libs calm ''/v'' 9 5 ''/x'' fs
   in result = Inl (Io ''failed to parse manifest: eof'') \<and> fs1 ''/x'' = None \<and>
      fs1 (vault_path damaged_libs ''/v'' 5) = Some (FileNode ''ab'' 0x1ED) \<and>
      restore damaged_libs calm ''/v'' 5 fs1 = (fs1, Some (Io ''failed to parse manifest: eof''))"
proof -
  let ?fs = "sample_fs(manifest_path ''/v'' \<mapsto> FileNode ''{'' 0x1A4)"
  have "snd (quarantine damaged_libs calm ''/v'' 9 5 ''/x'' ?fs) = Inl (Io ''failed to parse manifest: eof'')"
    "fst (quarantine damaged_libs calm ''/v'' 9 5 ''/x'' ?fs) ''/x'' = None"
    "fst (quarantine damaged_libs calm ''/v'' 9 5 ''/x'' ?fs) (vault_path damaged_libs ''/v'' 5) = Some (FileNode ''ab'' 0x1ED)"
    "load_manifest damaged_libs calm ''/v'' (fst (quarantine damaged_libs calm ''/v'' 9 5 ''/x'' ?fs)) =
       Inl (Io ''failed to parse manifest: eof'')"
    by code_simp+
  then show ?thesis by (simp add: restore_def case_prod_beta)
qed

end
