(* ===== verification/Snapshots.thy ===== *)
theory Snapshots
  imports Filesystem
begin

text \<open>
  \<^verbatim>\<open>crates/riggs-response/src/snapshots.rs\<close>: snapshots of files taken before a storyline that is
  scored as a threat can change them, and the rollback that restores them. The mutex serialises
  the operations, so each is one step. Parameters: the SHA-256 digest, the rendering of a uuid,
  zstd, and the JSON writer and reader of the manifest.
\<close>

record snapshot_entry =
  se_id :: uuid
  se_storyline_id :: storyline_id
  se_original_path :: string
  se_sha256 :: string
  se_mode :: u32
  se_taken_at :: timestamp

record rollback_summary =
  rs_restored :: nat
  rs_unchanged :: nat

record snapshot_libs =
  sl_sha256 :: "string \<Rightarrow> string"
  sl_show_uuid :: "uuid \<Rightarrow> string"
  sl_compress :: "string \<Rightarrow> string + string"
  sl_decompress :: "string \<Rightarrow> string + string"
  sl_write_manifest :: "snapshot_entry list \<Rightarrow> string + string"
  sl_read_manifest :: "string \<Rightarrow> string + snapshot_entry list"

record snapshot_store =
  ss_dir :: string
  ss_max_file_bytes :: u64

definition io_failed :: "string \<Rightarrow> string \<Rightarrow> string \<Rightarrow> riggs_error" where
  "io_failed context path e = Io (context @ '' '' @ path @ '': '' @ e)"

definition snap_manifest_path :: "snapshot_store \<Rightarrow> string" where
  "snap_manifest_path st = path_join (ss_dir st) ''manifest.json''"

definition snap_manifest_tmp :: "snapshot_store \<Rightarrow> string" where
  "snap_manifest_tmp st = path_join (ss_dir st) ''manifest.json.tmp''"

definition blob_path :: "snapshot_libs \<Rightarrow> snapshot_store \<Rightarrow> uuid \<Rightarrow> string" where
  "blob_path sl st i = path_join (ss_dir st) (sl_show_uuid sl i @ ''.zst'')"

definition snap_load :: "snapshot_libs \<Rightarrow> io_env \<Rightarrow> snapshot_store \<Rightarrow> fs \<Rightarrow> riggs_error + snapshot_entry list" where
  "snap_load sl env st fs =
     (let p = snap_manifest_path st in
      if fs p = None then Inr []
      else case fs_read env p fs of
        None \<Rightarrow> Inl (io_failed ''reading'' p (io_error env (IO_Read p)))
      | Some data \<Rightarrow>
          (case sl_read_manifest sl data of
             Inl e \<Rightarrow> Inl (io_failed ''parsing'' p e)
           | Inr entries \<Rightarrow> Inr entries))"

definition snap_save ::
  "snapshot_libs \<Rightarrow> io_env \<Rightarrow> snapshot_store \<Rightarrow> snapshot_entry list \<Rightarrow> fs \<Rightarrow> fs \<times> riggs_error option" where
  "snap_save sl env st entries fs =
     (let p = snap_manifest_path st; tmp = snap_manifest_tmp st;
          (fs1, created) = create_dir_all env (ss_dir st) fs in
      if \<not> created
      then (fs1, Some (io_failed ''creating'' (ss_dir st) (io_error env (IO_CreateDir (ss_dir st)))))
      else case sl_write_manifest sl entries of
        Inl e \<Rightarrow> (fs1, Some (io_failed ''encoding'' p e))
      | Inr data \<Rightarrow>
          let (fs2, written) = fs_write env tmp data fs1 in
          if \<not> written then (fs2, Some (io_failed ''writing'' p (io_error env (IO_Write tmp))))
          else let (fs3, renamed) = fs_rename env tmp p fs2 in
            (fs3, if renamed then None
                  else Some (io_failed ''writing'' p (io_error env (IO_Rename tmp p)))))"

definition write_private :: "io_env \<Rightarrow> string \<Rightarrow> string \<Rightarrow> fs \<Rightarrow> fs \<times> string option" where
  "write_private env p data fs =
     (let (fs1, written) = fs_write env p data fs in
      if \<not> written then (fs1, Some (io_error env (IO_Write p)))
      else let (fs2, moded) = fs_set_mode env p 0x180 fs1 in
        (fs2, if moded then None else Some (io_error env (IO_SetMode p))))"

text \<open>\<^verbatim>\<open>snapshot\<close>: the result is the new entry, or None for a file that is skipped.\<close>

definition take_snapshot ::
  "snapshot_libs \<Rightarrow> io_env \<Rightarrow> snapshot_store \<Rightarrow> timestamp \<Rightarrow> uuid \<Rightarrow> string \<Rightarrow> storyline_id \<Rightarrow> fs
   \<Rightarrow> fs \<times> (riggs_error + snapshot_entry option)" where
  "take_snapshot sl env st now fresh path storyline fs =
     (case (if io_fails env (IO_Metadata path) then None else fs path) of
        None \<Rightarrow> (fs, Inr None)
      | Some DirNode \<Rightarrow> (fs, Inr None)
      | Some (FileNode content mode) \<Rightarrow>
          if unat (ss_max_file_bytes st) < length content then (fs, Inr None)
          else case snap_load sl env st fs of
            Inl e \<Rightarrow> (fs, Inl e)
          | Inr entries \<Rightarrow>
              if list_ex (\<lambda>e. se_storyline_id e = storyline \<and> se_original_path e = path) entries
              then (fs, Inr None)
              else case fs_read env path fs of
                None \<Rightarrow> (fs, Inl (io_failed ''reading'' path (io_error env (IO_Read path))))
              | Some data \<Rightarrow>
                  (case sl_compress sl data of
                     Inl e \<Rightarrow> (fs, Inl (io_failed ''compressing'' path e))
                   | Inr compressed \<Rightarrow>
                       let (fs1, created) = create_dir_all env (ss_dir st) fs in
                       if \<not> created
                       then (fs1, Inl (io_failed ''creating'' (ss_dir st)
                                        (io_error env (IO_CreateDir (ss_dir st)))))
                       else
                         let entry = \<lparr>se_id = fresh, se_storyline_id = storyline, se_original_path = path,
                                      se_sha256 = sl_sha256 sl data, se_mode = mode, se_taken_at = now\<rparr>;
                             blob = blob_path sl st fresh;
                             (fs2, failed) = write_private env blob compressed fs1
                         in (case failed of
                               Some e \<Rightarrow> (fs2, Inl (io_failed ''writing'' blob e))
                             | None \<Rightarrow>
                                 let (fs3, saved) = snap_save sl env st (entries @ [entry]) fs2
                                 in (fs3, case saved of Some e \<Rightarrow> Inl e | None \<Rightarrow> Inr (Some entry)))))"

definition restore_tmp :: "string \<Rightarrow> string" where
  "restore_tmp path =
     (let file = ''.'' @ (case path_file_name path of Some n \<Rightarrow> n | None \<Rightarrow> '''') @ ''.riggs-restore''
      in case path_parent path of Some parent \<Rightarrow> path_join parent file | None \<Rightarrow> path_join path file)"

text \<open>\<^verbatim>\<open>restore\<close> of one entry: true when the file was restored, false when it was unchanged.\<close>

definition write_back ::
  "io_env \<Rightarrow> snapshot_entry \<Rightarrow> string \<Rightarrow> fs \<Rightarrow> fs \<times> (riggs_error + bool)" where
  "write_back env entry original fs =
     (let path = se_original_path entry; tmp = restore_tmp path;
          (fs1, written) = fs_write env tmp original fs in
      if \<not> written then (fs1, Inl (io_failed ''restoring'' path (io_error env (IO_Write tmp))))
      else let (fs2, moded) = fs_set_mode env tmp (se_mode entry) fs1 in
        if \<not> moded then (fs2, Inl (io_failed ''restoring'' path (io_error env (IO_SetMode tmp))))
        else let (fs3, renamed) = fs_rename env tmp path fs2 in
          (fs3, if renamed then Inr True
                else Inl (io_failed ''restoring'' path (io_error env (IO_Rename tmp path)))))"

definition snap_restore ::
  "snapshot_libs \<Rightarrow> io_env \<Rightarrow> snapshot_store \<Rightarrow> snapshot_entry \<Rightarrow> fs \<Rightarrow> fs \<times> (riggs_error + bool)" where
  "snap_restore sl env st entry fs =
     (let blob = blob_path sl st (se_id entry); path = se_original_path entry in
      case fs_read env blob fs of
        None \<Rightarrow> (fs, Inl (io_failed ''opening'' blob (io_error env (IO_Read blob))))
      | Some compressed \<Rightarrow>
          (case sl_decompress sl compressed of
             Inl e \<Rightarrow> (fs, Inl (io_failed ''decompressing'' blob e))
           | Inr original \<Rightarrow>
               if map_option (sl_sha256 sl) (fs_read env path fs) = Some (se_sha256 entry)
               then (fs, Inr False)
               else case path_parent path of
                 None \<Rightarrow> write_back env entry original fs
               | Some parent \<Rightarrow>
                   let (fs1, created) = create_dir_all env parent fs in
                   if \<not> created
                   then (fs1, Inl (io_failed ''creating'' parent (io_error env (IO_CreateDir parent))))
                   else write_back env entry original fs1))"

text \<open>The loop of \<^verbatim>\<open>rollback\<close>: how many files were restored and unchanged, and the entries that failed.\<close>

fun rollback_entries ::
  "snapshot_libs \<Rightarrow> io_env \<Rightarrow> snapshot_store \<Rightarrow> snapshot_entry list \<Rightarrow> fs
   \<Rightarrow> fs \<times> nat \<times> nat \<times> snapshot_entry list" where
  "rollback_entries sl env st [] fs = (fs, 0, 0, [])"
| "rollback_entries sl env st (e # es) fs =
     (let (fs1, result) = snap_restore sl env st e fs in
      case result of
        Inl _ \<Rightarrow>
          let (fs2, restored, unchanged, failed) = rollback_entries sl env st es fs1
          in (fs2, restored, unchanged, e # failed)
      | Inr changed \<Rightarrow>
          let (fs2, _) = fs_remove env (blob_path sl st (se_id e)) fs1;
              (fs3, restored, unchanged, failed) = rollback_entries sl env st es fs2
          in (fs3, if changed then restored + 1 else restored,
              if changed then unchanged else unchanged + 1, failed))"

definition rollback ::
  "snapshot_libs \<Rightarrow> io_env \<Rightarrow> snapshot_store \<Rightarrow> storyline_id \<Rightarrow> fs \<Rightarrow> fs \<times> (riggs_error + rollback_summary)" where
  "rollback sl env st storyline fs =
     (case snap_load sl env st fs of
        Inl e \<Rightarrow> (fs, Inl e)
      | Inr entries \<Rightarrow>
          let mine = filter (\<lambda>e. se_storyline_id e = storyline) entries;
              others = filter (\<lambda>e. se_storyline_id e \<noteq> storyline) entries;
              (fs1, restored, unchanged, failed) = rollback_entries sl env st mine fs;
              (fs2, saved) = snap_save sl env st (others @ failed) fs1
          in (fs2, case saved of
                     Some e \<Rightarrow> Inl e
                   | None \<Rightarrow>
                       if failed = [] then Inr \<lparr>rs_restored = restored, rs_unchanged = unchanged\<rparr>
                       else Inl (Response (''rollback could not restore: '' @
                              join '', '' (map se_original_path failed)))))"

definition remove_blobs :: "snapshot_libs \<Rightarrow> io_env \<Rightarrow> snapshot_store \<Rightarrow> snapshot_entry list \<Rightarrow> fs \<Rightarrow> fs" where
  "remove_blobs sl env st es fs =
     foldl (\<lambda>fs e. fst (fs_remove env (blob_path sl st (se_id e)) fs)) fs es"

definition snap_prune ::
  "snapshot_libs \<Rightarrow> io_env \<Rightarrow> snapshot_store \<Rightarrow> timestamp \<Rightarrow> duration \<Rightarrow> fs \<Rightarrow> fs \<times> (riggs_error + nat)" where
  "snap_prune sl env st now max_age fs =
     (case snap_load sl env st fs of
        Inl e \<Rightarrow> (fs, Inl e)
      | Inr entries \<Rightarrow>
          let cutoff = now - max_age;
              expired = filter (\<lambda>e. se_taken_at e < cutoff) entries;
              keep = filter (\<lambda>e. \<not> se_taken_at e < cutoff) entries;
              fs1 = remove_blobs sl env st expired fs
          in if expired = [] then (fs1, Inr 0)
             else let (fs2, saved) = snap_save sl env st keep fs1
               in (fs2, case saved of Some e \<Rightarrow> Inl e | None \<Rightarrow> Inr (length expired)))"

section \<open>Restoring one file\<close>

text \<open>The files a rollback of an entry works on.\<close>

definition entry_files :: "snapshot_libs \<Rightarrow> snapshot_store \<Rightarrow> snapshot_entry \<Rightarrow> string list" where
  "entry_files sl st e = [se_original_path e, restore_tmp (se_original_path e), blob_path sl st (se_id e)]"

text \<open>
  An entry that can be restored: its blob holds a content with the recorded digest, and nothing
  but a file is in the way at its path and at the temporary name.
\<close>

definition restorable :: "snapshot_libs \<Rightarrow> snapshot_store \<Rightarrow> fs \<Rightarrow> snapshot_entry \<Rightarrow> bool" where
  "restorable sl st fs e \<longleftrightarrow>
     (\<exists>c m original. fs (blob_path sl st (se_id e)) = Some (FileNode c m) \<and>
        sl_decompress sl c = Inr original \<and> sl_sha256 sl original = se_sha256 e) \<and>
     fs (se_original_path e) \<noteq> Some DirNode \<and> fs (restore_tmp (se_original_path e)) \<noteq> Some DirNode \<and>
     (\<forall>parent d m. path_parent (se_original_path e) = Some parent \<longrightarrow> fs parent \<noteq> Some (FileNode d m))"

text \<open>The files of the entries are all different, and none is the parent directory of another.\<close>

definition separate :: "snapshot_libs \<Rightarrow> snapshot_store \<Rightarrow> snapshot_entry list \<Rightarrow> bool" where
  "separate sl st es \<longleftrightarrow>
     distinct (concat (map (entry_files sl st) es)) \<and>
     (\<forall>e \<in> set es. \<forall>parent. path_parent (se_original_path e) = Some parent \<longrightarrow>
        parent \<notin> set (concat (map (entry_files sl st) es)))"

definition restored_to :: "snapshot_libs \<Rightarrow> fs \<Rightarrow> snapshot_entry \<Rightarrow> bool" where
  "restored_to sl fs e \<longleftrightarrow>
     (\<exists>d m. fs (se_original_path e) = Some (FileNode d m) \<and> sl_sha256 sl d = se_sha256 e)"

lemma write_back_ok:
  assumes "no_faults env" and "fs (restore_tmp (se_original_path e)) \<noteq> Some DirNode"
    and "fs (se_original_path e) \<noteq> Some DirNode"
    and "restore_tmp (se_original_path e) \<noteq> se_original_path e"
  shows "write_back env e original fs =
    ((fs(se_original_path e \<mapsto> FileNode original (se_mode e)))(restore_tmp (se_original_path e) := None), Inr True)"
proof -
  let ?t = "restore_tmp (se_original_path e)" and ?p = "se_original_path e"
  obtain m where "fs_write env ?t original fs = (fs(?t \<mapsto> FileNode original m), True)"
    using fs_write_ok [of env fs ?t original] assms(1,2) by metis
  with assms show ?thesis
    by (auto simp: write_back_def fs_set_mode_def fs_rename_def no_faults_def Let_def fun_eq_iff)
qed

lemma snap_restore_ok:
  assumes "no_faults env" and "restorable sl st fs e" and "separate sl st [e]"
  obtains fs' changed where "snap_restore sl env st e fs = (fs', Inr changed)" and "restored_to sl fs' e"
    and "fs' (blob_path sl st (se_id e)) = fs (blob_path sl st (se_id e))"
    and "\<And>q. q \<notin> set (entry_files sl st e) \<Longrightarrow>
      fs' q = fs q \<or> path_parent (se_original_path e) = Some q \<and> fs q = None \<and> fs' q = Some DirNode"
proof -
  let ?p = "se_original_path e" and ?t = "restore_tmp (se_original_path e)" and ?b = "blob_path sl st (se_id e)"
  obtain c m original where b: "fs ?b = Some (FileNode c m)" "sl_decompress sl c = Inr original"
      "sl_sha256 sl original = se_sha256 e" and nd: "fs ?p \<noteq> Some DirNode" "fs ?t \<noteq> Some DirNode"
    and par: "\<And>parent d m. path_parent ?p = Some parent \<Longrightarrow> fs parent \<noteq> Some (FileNode d m)"
    using assms(2) unfolding restorable_def by blast
  have ap: "?p \<noteq> ?t" "?p \<noteq> ?b" "?t \<noteq> ?b" and parf: "\<And>q. path_parent ?p = Some q \<Longrightarrow> q \<notin> {?p, ?t, ?b}"
    using assms(3) by (auto simp: separate_def entry_files_def)
  have rb: "fs_read env ?b fs = Some c" using b assms(1) by (simp add: fs_read_def no_faults_def)
  show ?thesis
  proof (cases "map_option (sl_sha256 sl) (fs_read env ?p fs) = Some (se_sha256 e)")
    case True
    then have "restored_to sl fs e"
      by (auto simp: restored_to_def fs_read_def split: option.splits fs_node.splits if_splits)
    with True rb b that [of fs False] show ?thesis by (simp add: snap_restore_def Let_def)
  next
    case False
    define fs1 where "fs1 = (case path_parent ?p of
        Some q \<Rightarrow> if fs q = None then fs(q \<mapsto> DirNode) else fs | None \<Rightarrow> fs)"
    have f1: "fs1 ?p = fs ?p" "fs1 ?t = fs ?t" "fs1 ?b = fs ?b"
      using parf by (auto simp: fs1_def split: option.splits)
    let ?fs = "(fs1(?p \<mapsto> FileNode original (se_mode e)))(?t := None)"
    have w: "write_back env e original fs1 = (?fs, Inr True)"
      using write_back_ok [OF assms(1)] f1 nd ap by metis
    have "snap_restore sl env st e fs = (?fs, Inr True)"
    proof (cases "path_parent ?p")
      case None
      with False rb b w show ?thesis by (simp add: snap_restore_def fs1_def Let_def)
    next
      case (Some q)
      then have "create_dir_all env q fs = (fs1, True)"
        using create_dir_all_ok [OF assms(1), of fs q] par by (simp add: fs1_def)
      with Some False rb b w show ?thesis by (simp add: snap_restore_def Let_def)
    qed
    moreover have "restored_to sl ?fs e" using b(3) ap by (simp add: restored_to_def)
    moreover have "?fs ?b = fs ?b" using f1 ap by auto
    moreover have "?fs q = fs q \<or> path_parent ?p = Some q \<and> fs q = None \<and> ?fs q = Some DirNode"
      if "q \<notin> set (entry_files sl st e)" for q
      using that by (auto simp: entry_files_def fs1_def split: option.splits)
    ultimately show ?thesis using that by blast
  qed
qed

section \<open>Restoring all files of a storyline\<close>

lemma separate_ConsD:
  assumes "separate sl st (e # es)"
  shows "separate sl st [e]" "separate sl st es"
    "set (entry_files sl st e) \<inter> set (concat (map (entry_files sl st) es)) = {}"
    "path_parent (se_original_path e) = Some q \<Longrightarrow> q \<notin> set (concat (map (entry_files sl st) es))"
    "e' \<in> set es \<Longrightarrow> path_parent (se_original_path e') = Some q \<Longrightarrow> q \<notin> set (entry_files sl st e)"
  using assms unfolding separate_def by auto

lemma in_entry_files: "e \<in> set es \<Longrightarrow> f \<in> set (entry_files sl st e) \<Longrightarrow> f \<in> set (concat (map (entry_files sl st) es))"
  by auto

text \<open>One iteration of the loop leaves the later entries restorable.\<close>

lemma restorable_step:
  assumes "restorable sl st fs e'" and "separate sl st (e # es)" and "e' \<in> set es"
    and "\<And>q. q \<notin> set (entry_files sl st e) \<Longrightarrow>
      fs' q = fs q \<or> path_parent (se_original_path e) = Some q \<and> fs q = None \<and> fs' q = Some DirNode"
  shows "restorable sl st fs' e'"
proof -
  note sep = separate_ConsD [OF assms(2)]
  have same: "fs' f = fs f" if "f \<in> set (entry_files sl st e')" for f
    using in_entry_files [OF assms(3) that] sep(3,4) assms(4) by blast
  have "fs' parent \<noteq> Some (FileNode d m)" if "path_parent (se_original_path e') = Some parent" for parent d m
  proof -
    have "fs parent \<noteq> Some (FileNode d m)" using assms(1) that unfolding restorable_def by blast
    with assms(4) [OF sep(5) [OF assms(3) that]] show ?thesis by auto
  qed
  with assms(1) same show ?thesis by (simp add: restorable_def entry_files_def)
qed

lemma rollback_entries_ok:
  assumes "no_faults env" and "\<forall>e \<in> set es. restorable sl st fs e" and "separate sl st es"
  obtains fs' restored unchanged where "rollback_entries sl env st es fs = (fs', restored, unchanged, [])"
    and "restored + unchanged = length es" and "\<forall>e \<in> set es. restored_to sl fs' e"
    and "\<And>q. q \<notin> set (concat (map (entry_files sl st) es)) \<Longrightarrow>
      fs' q = fs q \<or> (\<exists>e \<in> set es. path_parent (se_original_path e) = Some q) \<and> fs q = None \<and> fs' q = Some DirNode"
  using assms(2,3)
proof (induction es arbitrary: fs thesis)
  case Nil
  then show ?case by simp
next
  case (Cons e es)
  note sep = separate_ConsD [OF Cons.prems(3)]
  let ?b = "blob_path sl st (se_id e)"
  obtain fs1 changed where r: "snap_restore sl env st e fs = (fs1, Inr changed)" "restored_to sl fs1 e"
      "fs1 ?b = fs ?b"
    and other: "\<And>q. q \<notin> set (entry_files sl st e) \<Longrightarrow>
      fs1 q = fs q \<or> path_parent (se_original_path e) = Some q \<and> fs q = None \<and> fs1 q = Some DirNode"
    using snap_restore_ok [OF assms(1) _ sep(1)] Cons.prems(2) by (metis list.set_intros(1))
  define fs2 where "fs2 = fst (fs_remove env ?b fs1)"
  have fs2: "fs2 q = fs1 q" if "q \<noteq> ?b" for q using that by (simp add: fs2_def fs_remove_other)
  have b: "?b \<in> set (entry_files sl st e)" "se_original_path e \<noteq> ?b"
    using sep(1) by (auto simp: entry_files_def separate_def)
  have other2: "fs2 q = fs q \<or> path_parent (se_original_path e) = Some q \<and> fs q = None \<and> fs2 q = Some DirNode"
    if "q \<notin> set (entry_files sl st e)" for q
    using other [OF that] fs2 [of q] b(1) that by fastforce
  have later: "\<forall>e' \<in> set es. restorable sl st fs2 e'"
    using restorable_step [OF _ Cons.prems(3) _ other2] Cons.prems(2) by simp
  obtain fs3 restored unchanged where
      l: "rollback_entries sl env st es fs2 = (fs3, restored, unchanged, [])" "restored + unchanged = length es"
        "\<forall>e \<in> set es. restored_to sl fs3 e"
    and o3: "\<And>q. q \<notin> set (concat (map (entry_files sl st) es)) \<Longrightarrow>
      fs3 q = fs2 q \<or> (\<exists>e \<in> set es. path_parent (se_original_path e) = Some q) \<and> fs2 q = None \<and> fs3 q = Some DirNode"
    using Cons.IH [OF _ later sep(2)] by blast
  have "se_original_path e \<notin> set (concat (map (entry_files sl st) es))"
    using sep(3) by (auto simp: entry_files_def)
  moreover have "\<not> (\<exists>e' \<in> set es. path_parent (se_original_path e') = Some (se_original_path e))"
    using sep(5) by (auto simp: entry_files_def)
  ultimately have "fs3 (se_original_path e) = fs1 (se_original_path e)"
    using o3 fs2 [OF b(2)] by metis
  with r(2) have "restored_to sl fs3 e" by (simp add: restored_to_def)
  moreover have "fs3 q = fs q \<or> (\<exists>e' \<in> set (e # es). path_parent (se_original_path e') = Some q) \<and>
      fs q = None \<and> fs3 q = Some DirNode"
    if "q \<notin> set (concat (map (entry_files sl st) (e # es)))" for q
  proof -
    have "q \<notin> set (entry_files sl st e)" "q \<notin> set (concat (map (entry_files sl st) es))" using that by simp_all
    from other2 [OF this(1)] o3 [OF this(2)] show ?thesis by auto
  qed
  moreover have "rollback_entries sl env st (e # es) fs =
      (fs3, if changed then restored + 1 else restored, if changed then unchanged else unchanged + 1, [])"
    using r(1) l(1) by (simp add: fs2_def case_prod_beta)
  moreover have "(if changed then restored + 1 else restored) + (if changed then unchanged else unchanged + 1) =
      length (e # es)" using l(2) by simp
  ultimately show ?case using Cons.prems(1) l(3) by simp
qed

lemma snap_save_ok:
  assumes "no_faults env" and "sl_write_manifest sl es = Inr data" and "sl_read_manifest sl data = Inr es"
    and "distinct [ss_dir st, snap_manifest_path st, snap_manifest_tmp st]"
    and "\<nexists>d m. fs (ss_dir st) = Some (FileNode d m)"
    and "fs (snap_manifest_path st) \<noteq> Some DirNode" and "fs (snap_manifest_tmp st) \<noteq> Some DirNode"
  obtains fs' where "snap_save sl env st es fs = (fs', None)" and "snap_load sl env st fs' = Inr es"
    and "\<And>q. q \<notin> {ss_dir st, snap_manifest_path st, snap_manifest_tmp st} \<Longrightarrow> fs' q = fs q"
proof -
  define fs1 where "fs1 = (if fs (ss_dir st) = None then fs(ss_dir st \<mapsto> DirNode) else fs)"
  have c: "create_dir_all env (ss_dir st) fs = (fs1, True)"
    using create_dir_all_ok [OF assms(1), of fs "ss_dir st"] assms(5) by (simp add: fs1_def)
  have f1: "fs1 (snap_manifest_path st) \<noteq> Some DirNode" "fs1 (snap_manifest_tmp st) \<noteq> Some DirNode"
    using assms(4,6,7) by (auto simp: fs1_def)
  obtain m where w: "fs_write env (snap_manifest_tmp st) data fs1 =
      (fs1(snap_manifest_tmp st \<mapsto> FileNode data m), True)"
    using fs_write_ok [of env fs1 "snap_manifest_tmp st" data] assms(1) f1(2) by metis
  let ?fs = "(fs1(snap_manifest_path st \<mapsto> FileNode data m))(snap_manifest_tmp st := None)"
  have r: "fs_rename env (snap_manifest_tmp st) (snap_manifest_path st)
      (fs1(snap_manifest_tmp st \<mapsto> FileNode data m)) = (?fs, True)"
    using assms(1,4) f1(1) by (auto simp: fs_rename_def no_faults_def fun_eq_iff)
  have "snap_save sl env st es fs = (?fs, None)"
    using c w r assms(2) by (simp add: snap_save_def)
  moreover have "snap_load sl env st ?fs = Inr es"
    using assms(1,3,4) by (simp add: snap_load_def fs_read_def no_faults_def Let_def)
  moreover have "?fs q = fs q" if "q \<notin> {ss_dir st, snap_manifest_path st, snap_manifest_tmp st}" for q
    using that by (auto simp: fs1_def)
  ultimately show ?thesis using that by blast
qed

section \<open>Properties\<close>

text \<open>The situation of a rollback that nothing obstructs.\<close>

definition rollback_ready ::
  "snapshot_libs \<Rightarrow> io_env \<Rightarrow> snapshot_store \<Rightarrow> storyline_id \<Rightarrow> fs \<Rightarrow> snapshot_entry list \<Rightarrow> bool" where
  "rollback_ready sl env st storyline fs entries \<longleftrightarrow>
     (let mine = filter (\<lambda>e. se_storyline_id e = storyline) entries;
          others = filter (\<lambda>e. se_storyline_id e \<noteq> storyline) entries;
          own = {ss_dir st, snap_manifest_path st, snap_manifest_tmp st}
      in no_faults env \<and> snap_load sl env st fs = Inr entries \<and>
         (\<forall>e \<in> set mine. restorable sl st fs e) \<and> separate sl st mine \<and>
         (\<exists>data. sl_write_manifest sl others = Inr data \<and> sl_read_manifest sl data = Inr others) \<and>
         distinct [ss_dir st, snap_manifest_path st, snap_manifest_tmp st] \<and>
         (\<forall>e \<in> set mine. set (entry_files sl st e) \<inter> own = {}) \<and>
         (\<forall>e \<in> set mine. \<forall>q. path_parent (se_original_path e) = Some q \<longrightarrow>
            q \<notin> {snap_manifest_path st, snap_manifest_tmp st}) \<and>
         (\<nexists>d m. fs (ss_dir st) = Some (FileNode d m)) \<and>
         fs (snap_manifest_path st) \<noteq> Some DirNode \<and> fs (snap_manifest_tmp st) \<noteq> Some DirNode)"

text \<open>
  C18: a rollback puts every snapshotted file back. When no call to the file system fails, the
  blobs of the storyline's snapshots hold what was recorded and the files involved are different
  files, the rollback succeeds: afterwards every file of those snapshots, whatever happened to it
  since, has a content with the recorded digest, each snapshot is counted once as restored or
  unchanged, and exactly the snapshots of the other storylines remain.
\<close>

theorem rollback_restores_storyline:
  assumes "rollback_ready sl env st storyline fs entries"
  shows "\<exists>fs' summary. rollback sl env st storyline fs = (fs', Inr summary) \<and>
    (\<forall>e \<in> set entries. se_storyline_id e = storyline \<longrightarrow> restored_to sl fs' e) \<and>
    rs_restored summary + rs_unchanged summary = length (filter (\<lambda>e. se_storyline_id e = storyline) entries) \<and>
    snap_load sl env st fs' = Inr (filter (\<lambda>e. se_storyline_id e \<noteq> storyline) entries)"
proof -
  let ?mine = "filter (\<lambda>e. se_storyline_id e = storyline) entries"
  let ?own = "{ss_dir st, snap_manifest_path st, snap_manifest_tmp st}"
  note ready = assms [unfolded rollback_ready_def Let_def]
  have nf: "no_faults env" and restorable: "\<forall>e \<in> set ?mine. restorable sl st fs e" and sep: "separate sl st ?mine"
    and dist: "distinct [ss_dir st, snap_manifest_path st, snap_manifest_tmp st]" using ready by auto
  obtain data where codec: "sl_write_manifest sl (filter (\<lambda>e. se_storyline_id e \<noteq> storyline) entries) = Inr data"
    "sl_read_manifest sl data = Inr (filter (\<lambda>e. se_storyline_id e \<noteq> storyline) entries)" using ready by blast
  from rollback_entries_ok [OF nf restorable sep] obtain fs1 a b where
      l: "rollback_entries sl env st ?mine fs = (fs1, a, b, [])" "a + b = length ?mine"
        "\<forall>e \<in> set ?mine. restored_to sl fs1 e"
    and o: "\<And>q. q \<notin> set (concat (map (entry_files sl st) ?mine)) \<Longrightarrow> fs1 q = fs q \<or>
      (\<exists>e \<in> set ?mine. path_parent (se_original_path e) = Some q) \<and> fs q = None \<and> fs1 q = Some DirNode" by blast
  have ap: "q \<notin> set (concat (map (entry_files sl st) ?mine))" if "q \<in> ?own" for q
    using that ready by fastforce
  have "\<nexists>d m. fs1 (ss_dir st) = Some (FileNode d m)" using o [OF ap, of "ss_dir st"] ready by auto
  moreover have "fs1 (snap_manifest_path st) \<noteq> Some DirNode" "fs1 (snap_manifest_tmp st) \<noteq> Some DirNode"
    using o [OF ap, of "snap_manifest_path st"] o [OF ap, of "snap_manifest_tmp st"] ready by auto
  ultimately obtain fs2 where s: "snap_save sl env st (filter (\<lambda>e. se_storyline_id e \<noteq> storyline) entries) fs1 = (fs2, None)"
      "snap_load sl env st fs2 = Inr (filter (\<lambda>e. se_storyline_id e \<noteq> storyline) entries)"
    and o2: "\<And>q. q \<notin> ?own \<Longrightarrow> fs2 q = fs1 q"
    using snap_save_ok [OF nf codec dist] by blast
  have "restored_to sl fs2 e" if "e \<in> set ?mine" for e
  proof -
    have "se_original_path e \<notin> ?own" using ready that by (auto simp: entry_files_def)
    with o2 l(3) that show ?thesis by (simp add: restored_to_def)
  qed
  with l s ready show ?thesis by (simp add: rollback_def)
qed

definition snap_libs :: snapshot_libs where
  "snap_libs =
     \<lparr>sl_sha256 = (\<lambda>d. ''h'' @ d), sl_show_uuid = (\<lambda>_. ''u''), sl_compress = Inr, sl_decompress = Inr,
      sl_write_manifest = (\<lambda>es. Inr (if es = [] then ''[]'' else ''[e]'')),
      sl_read_manifest = (\<lambda>d. if d = ''[]'' then Inr []
        else Inr [\<lparr>se_id = 5, se_storyline_id = StorylineId 7, se_original_path = ''/d/f'', se_sha256 = ''hold'',
                   se_mode = 0x1A4, se_taken_at = 3\<rparr>])\<rparr>"

definition snap_store :: snapshot_store where
  "snap_store = \<lparr>ss_dir = ''/s'', ss_max_file_bytes = 1000\<rparr>"

definition before_attack :: fs where
  "before_attack = [''/d/f'' \<mapsto> FileNode ''old'' 0x1A4]"

definition after_attack :: fs where
  "after_attack = (fst (take_snapshot snap_libs calm snap_store 3 5 ''/d/f'' (StorylineId 7) before_attack))
     (''/d/f'' \<mapsto> FileNode ''encrypted'' 0x1A4)"

lemma after_attack_files:
  "after_attack ''/d/f'' = Some (FileNode ''encrypted'' 0x1A4)" "after_attack ''/s/u.zst'' = Some (FileNode ''old'' 0x180)"
  "after_attack ''/s'' = Some DirNode" "after_attack ''/d'' = None" "after_attack ''/d/.f.riggs-restore'' = None"
  "after_attack ''/s/manifest.json'' = Some (FileNode ''[e]'' 0x1A4)" "after_attack ''/s/manifest.json.tmp'' = None"
  by code_simp+

theorem rollback_restores_storyline_witness:
  "\<exists>fs' summary. rollback snap_libs calm snap_store (StorylineId 7) after_attack = (fs', Inr summary) \<and>
     fs' ''/d/f'' \<noteq> after_attack ''/d/f'' \<and> rs_restored summary + rs_unchanged summary = 1"
proof -
  define e where "e = \<lparr>se_id = 5, se_storyline_id = StorylineId 7, se_original_path = ''/d/f'', se_sha256 = ''hold'',
                   se_mode = 0x1A4, se_taken_at = 3\<rparr>"
  have files: "entry_files snap_libs snap_store e = [''/d/f'', ''/d/.f.riggs-restore'', ''/s/u.zst'']"
    unfolding e_def by code_simp
  have own: "ss_dir snap_store = ''/s''" "snap_manifest_path snap_store = ''/s/manifest.json''"
    "snap_manifest_tmp snap_store = ''/s/manifest.json.tmp''" by code_simp+
  have par: "path_parent (se_original_path e) = Some ''/d''" unfolding e_def by code_simp
  have load: "snap_load snap_libs calm snap_store after_attack = Inr [e]" unfolding e_def by code_simp
  have names: "blob_path snap_libs snap_store (se_id e) = ''/s/u.zst''" "se_original_path e = ''/d/f''"
    "restore_tmp ''/d/f'' = ''/d/.f.riggs-restore''" unfolding e_def by code_simp+
  have "restorable snap_libs snap_store after_attack e"
    using par by (simp add: restorable_def names after_attack_files) (simp add: snap_libs_def e_def)
  moreover have "separate snap_libs snap_store [e]" by (simp add: separate_def files par)
  ultimately have "rollback_ready snap_libs calm snap_store (StorylineId 7) after_attack [e]"
    using load by (simp add: rollback_ready_def Let_def calm_no_faults own files par after_attack_files)
      (simp add: e_def snap_libs_def)
  from rollback_restores_storyline [OF this] obtain fs' summary where
    "rollback snap_libs calm snap_store (StorylineId 7) after_attack = (fs', Inr summary)"
    "restored_to snap_libs fs' e" "rs_restored summary + rs_unchanged summary = 1"
    by (auto simp: e_def)
  moreover from this(2) have "fs' ''/d/f'' \<noteq> after_attack ''/d/f''"
    by (auto simp: restored_to_def after_attack_files e_def snap_libs_def)
  ultimately show ?thesis by blast
qed

end
