(* ===== verification/Executor.thy ===== *)
theory Executor
  imports Response_Policy Vault Snapshots
begin

text \<open>
  \<^verbatim>\<open>ResponseExecutor\<close> of \<^verbatim>\<open>crates/riggs-response/src/executor.rs\<close>. The traits
  \<^verbatim>\<open>ProcessControl\<close> and \<^verbatim>\<open>NetworkContainment\<close> are the platform's: a record of operations over a
  platform state \<open>'w\<close>. The ids and clock readings of each call are given by a numbered supply.
\<close>

type_synonym 'w platform_call = "'w \<Rightarrow> 'w \<times> (riggs_error + unit)"

record 'w platform_control =
  pl_kill_process :: "u32 \<Rightarrow> 'w platform_call"
  pl_suspend_process :: "u32 \<Rightarrow> 'w platform_call"
  pl_contain :: "ip_addr list \<Rightarrow> 'w platform_call"
  pl_release :: "'w platform_call"

record 'w response_executor =
  re_platform :: "'w platform_control"
  re_vault_libs :: vault_libs
  re_vault_dir :: string
  re_snapshot_libs :: snapshot_libs
  re_snapshots :: "snapshot_store option"

record 'w response_world =
  rw_platform :: 'w
  rw_fs :: fs

record action_supply =
  as_env :: io_env
  as_record_id :: uuid
  as_event_id :: event_id
  as_quarantine_id :: uuid
  as_now :: timestamp

definition on_platform :: "'w platform_call \<Rightarrow> 'w response_world \<Rightarrow> 'w response_world \<times> (riggs_error + unit)" where
  "on_platform call w = (let (p, r) = call (rw_platform w) in (w\<lparr>rw_platform := p\<rparr>, r))"

definition on_fs ::
  "(fs \<Rightarrow> fs \<times> (riggs_error + 'r)) \<Rightarrow> 'w response_world \<Rightarrow> 'w response_world \<times> (riggs_error + unit)" where
  "on_fs call w =
     (let (fs, r) = call (rw_fs w)
      in (w\<lparr>rw_fs := fs\<rparr>, case r of Inl e \<Rightarrow> Inl e | Inr _ \<Rightarrow> Inr ()))"

definition delete_file :: "io_env \<Rightarrow> string \<Rightarrow> fs \<Rightarrow> fs \<times> (riggs_error + unit)" where
  "delete_file env path fs =
     (let (fs', ok) = fs_remove env path fs
      in (fs', if ok then Inr () else Inl (Io (''failed to delete file: '' @ io_error env (IO_Remove path)))))"

fun perform ::
  "'w response_executor \<Rightarrow> action_supply \<Rightarrow> response_action \<Rightarrow> 'w response_world
   \<Rightarrow> 'w response_world \<times> (riggs_error + unit)" where
  "perform ex s (KillProcess pid) w = on_platform (pl_kill_process (re_platform ex) pid) w"
| "perform ex s (SuspendProcess pid) w = on_platform (pl_suspend_process (re_platform ex) pid) w"
| "perform ex s (QuarantineFile path) w =
     on_fs (quarantine (re_vault_libs ex) (as_env s) (re_vault_dir ex) (as_now s) (as_quarantine_id s) path) w"
| "perform ex s (DeleteFile path) w = on_fs (delete_file (as_env s) path) w"
| "perform ex s (NetworkContain ips) w = on_platform (pl_contain (re_platform ex) ips) w"
| "perform ex s NetworkRelease w = on_platform (pl_release (re_platform ex)) w"
| "perform ex s (Rollback sid) w =
     (case re_snapshots ex of
        Some store \<Rightarrow> on_fs (rollback (re_snapshot_libs ex) (as_env s) store sid) w
      | None \<Rightarrow> (w, Inl (Response ''rollback needs [response] preemptive_snapshots = true'')))"

definition execute ::
  "'w response_executor \<Rightarrow> action_supply \<Rightarrow> response_action \<Rightarrow> 'w response_world
   \<Rightarrow> 'w response_world \<times> response_record" where
  "execute ex s action w =
     (let (w', result) = perform ex s action w
      in (w',
          \<lparr>rr_id = as_record_id s, rr_action = action, rr_event_id = as_event_id s,
           rr_storyline_id = None, rr_executed_at = as_now s,
           rr_success = (case result of Inr _ \<Rightarrow> True | Inl _ \<Rightarrow> False),
           rr_detail = (case result of Inr _ \<Rightarrow> ''ok'' | Inl e \<Rightarrow> error_display e)\<rparr>))"

fun execute_all ::
  "'w response_executor \<Rightarrow> (nat \<Rightarrow> action_supply) \<Rightarrow> response_action list \<Rightarrow> 'w response_world
   \<Rightarrow> 'w response_world \<times> response_record list" where
  "execute_all ex feed [] w = (w, [])"
| "execute_all ex feed (a # as) w =
     (let (w1, r) = execute ex (feed 0) a w;
          (w2, rs) = execute_all ex (\<lambda>n. feed (Suc n)) as w1
      in (w2, r # rs))"

text \<open>The results of the actions, each performed in the world the one before it left.\<close>

fun perform_all ::
  "'w response_executor \<Rightarrow> (nat \<Rightarrow> action_supply) \<Rightarrow> response_action list \<Rightarrow> 'w response_world
   \<Rightarrow> 'w response_world \<times> (riggs_error + unit) list" where
  "perform_all ex feed [] w = (w, [])"
| "perform_all ex feed (a # as) w =
     (let (w1, r) = perform ex (feed 0) a w;
          (w2, rs) = perform_all ex (\<lambda>n. feed (Suc n)) as w1
      in (w2, r # rs))"

text \<open>
  What a platform promises the executor: its calls keep a property of its state, e.g. that no signal
  went where none may go. The executor then keeps it, whatever it is told to do.
\<close>

locale guarded_platform =
  fixes pl :: "'w platform_control" and ok :: "'w \<Rightarrow> bool"
  assumes kill_ok: "ok p \<Longrightarrow> ok (fst (pl_kill_process pl pid p))"
    and suspend_ok: "ok p \<Longrightarrow> ok (fst (pl_suspend_process pl pid p))"
    and contain_ok: "ok p \<Longrightarrow> ok (fst (pl_contain pl ips p))"
    and release_ok: "ok p \<Longrightarrow> ok (fst (pl_release pl p))"
begin

lemma perform_ok:
  assumes "re_platform ex = pl" and "ok (rw_platform w)"
  shows "ok (rw_platform (fst (perform ex s a w)))"
  using assms kill_ok suspend_ok contain_ok release_ok
  by (cases a) (auto simp: on_platform_def on_fs_def case_prod_beta Let_def split: option.split)

lemma execute_all_ok:
  assumes "re_platform ex = pl" and "ok (rw_platform w)"
  shows "ok (rw_platform (fst (execute_all ex feed acts w)))"
  using assms(2)
proof (induction acts arbitrary: feed w)
  case (Cons a acts)
  then show ?case
    using perform_ok [OF assms(1), of w "feed 0" a] by (simp add: execute_def case_prod_beta Let_def)
qed simp

end

text \<open>
  Every action is performed and accounted for. Whatever fails on the way, the executor performs
  all the selected actions in their order, each in the state the previous one left, and returns one
  record per action that names it and tells its success and, for a failure, its error.
\<close>

theorem every_action_recorded:
  "fst (execute_all ex feed acts w) = fst (perform_all ex feed acts w) \<and>
   map rr_action (snd (execute_all ex feed acts w)) = acts \<and>
   map (\<lambda>r. (rr_success r, rr_detail r)) (snd (execute_all ex feed acts w)) =
     map (\<lambda>res. case res of Inr _ \<Rightarrow> (True, ''ok'') | Inl e \<Rightarrow> (False, error_display e))
       (snd (perform_all ex feed acts w))"
proof (induction acts arbitrary: feed w)
  case (Cons a acts)
  obtain w1 r where "perform ex (feed 0) a w = (w1, r)" by (cases "perform ex (feed 0) a w")
  with Cons [of "\<lambda>n. feed (Suc n)" w1] show ?case
    by (cases r) (simp_all add: execute_def case_prod_beta)
qed simp

end
