(* ===== verification/Daemon.thy ===== *)
theory Daemon
  imports Storyline Egress Response_Policy
begin

text \<open>
  \<^verbatim>\<open>crates/riggs-daemon\<close>: the event loop of \<^verbatim>\<open>daemon.rs\<close> that composes the correlator, the pipeline,
  the egress check, the snapshots, the response policy and the store queue; the batched store
  writer; and the supervisor of \<^verbatim>\<open>supervisor.rs\<close>. Tasks that the loop spawns and does not wait for
  (taking a snapshot, executing responses) are recorded as requests in the order of spawning.
\<close>

section \<open>The event loop\<close>

text \<open>\<^verbatim>\<open>egress_process_name\<close>.\<close>

definition egress_process_name :: "string \<Rightarrow> string option" where
  "egress_process_name path =
     (if path = [] then None
      else Some (case path_file_name path of Some n \<Rightarrow> n | None \<Rightarrow> path))"

text \<open>The bounded channel to the store writer.\<close>

record store_queue =
  sq_items :: "(riggs_event \<times> merged_verdict) list"
  sq_capacity :: nat
  sq_closed :: bool

datatype send_result = Sent | Full | Closed

definition try_send :: "riggs_event \<times> merged_verdict \<Rightarrow> store_queue \<Rightarrow> store_queue \<times> send_result" where
  "try_send item q =
     (if sq_closed q then (q, Closed)
      else if sq_capacity q \<le> length (sq_items q) then (q, Full)
      else (q\<lparr>sq_items := sq_items q @ [item]\<rparr>, Sent))"

record ('w, 'net) daemon =
  dm_correlator :: storyline_correlator
  dm_pipeline :: "'w detection_pipeline"
  dm_stages :: 'w
  dm_egress :: "'net egress_engine"
  dm_egress_warned :: "(string \<times> string) list"
  dm_events_processed :: u64
  dm_threats_detected :: u64
  dm_snapshot_requests :: "(string \<times> storyline_id) list"
  dm_response_requests :: "response_action list list"
  dm_store_queue :: store_queue

record daemon_config =
  dg_auto_respond :: bool
  dg_snapshots :: bool
  dg_stage_timeout_ms :: nat
  dg_policy :: response_policy
  dg_own_pid :: u32

text \<open>
  What the environment contributes to one iteration: clock readings, the drawn storyline id,
  and, when the detection task panics, the position of the stage that panicked in the pipeline
  with what its unfinished analysis made of the shared state.
\<close>

record 'w tick =
  tk_fresh :: storyline_id
  tk_now :: timestamp
  tk_now_prune :: timestamp
  tk_now_verdict :: timestamp
  tk_panic :: "(nat \<times> ('w \<Rightarrow> 'w)) option"

definition note_egress ::
  "('net \<Rightarrow> ip_addr \<Rightarrow> bool) \<Rightarrow> (string \<Rightarrow> ip_addr option) \<Rightarrow> 'net egress_engine \<Rightarrow> riggs_event
   \<Rightarrow> (string \<times> string) list \<Rightarrow> (string \<times> string) list" where
  "note_egress net_contains parse_ip eng ev warned =
     (case ev of
        Network ne \<Rightarrow>
          let proc = (case egress_process_name (pc_path (ne_context ne)) of
                        Some n \<Rightarrow> n | None \<Rightarrow> pc_name (ne_context ne));
              decision = egress_evaluate net_contains (ee_policy eng) (Some proc) None
                           (parse_ip (ne_dst_addr ne)) (ne_dst_port ne);
              dest = ne_dst_addr ne @ '':'' @ show_nat (unat (ne_dst_port ne))
          in if ne_direction ne = Outbound \<and> ed_would_block decision \<and> (proc, dest) \<notin> set warned
             then let w = warned @ [(proc, dest)] in if 10000 \<le> length w then [] else w
             else warned
      | _ \<Rightarrow> warned)"

definition add_verdicts ::
  "(f32 \<Rightarrow> f32) \<Rightarrow> timestamp \<Rightarrow> storyline_id \<Rightarrow> verdict list \<Rightarrow> storyline_correlator \<Rightarrow> storyline_correlator" where
  "add_verdicts ln_1p now sid vs sc = foldl (\<lambda>sc v. add_verdict ln_1p now sid v sc) sc vs"

fun snapshot_target :: "riggs_event \<Rightarrow> string option" where
  "snapshot_target (File fe) = (if fe_action fe = Open then Some (fe_path fe) else None)"
| "snapshot_target _ = None"

fun event_path :: "riggs_event \<Rightarrow> string option" where
  "event_path (File fe) = Some (fe_path fe)"
| "event_path _ = None"

text \<open>The part of an iteration after detection.\<close>

definition react ::
  "(f32 \<Rightarrow> f32) \<Rightarrow> daemon_config \<Rightarrow> 'w tick \<Rightarrow> riggs_event \<Rightarrow> storyline_id \<Rightarrow> merged_verdict
   \<Rightarrow> ('w, 'net) daemon \<Rightarrow> ('w, 'net) daemon \<times> bool" where
  "react ln_1p cfg tk ev sid merged d =
     (let sc = add_verdicts ln_1p (tk_now_verdict tk) sid (mv_verdicts merged) (dm_correlator d);
          snaps =
            (case snapshot_target ev of
               Some path \<Rightarrow> if dg_snapshots cfg \<and> is_threat sc sid then [(path, sid)] else []
             | None \<Rightarrow> []);
          threat = (Clean < mv_final_threat_level merged);
          actions =
            (if threat \<and> dg_auto_respond cfg
             then response_evaluate (dg_own_pid cfg) (dg_policy cfg) merged
                    (pc_pid (process_context_of ev)) (event_path ev) sid
             else []);
          (q, sent) = try_send (ev, merged) (dm_store_queue d)
      in (d\<lparr>dm_correlator := sc,
            dm_snapshot_requests := dm_snapshot_requests d @ snaps,
            dm_threats_detected := dm_threats_detected d + (if threat then 1 else 0),
            dm_response_requests := dm_response_requests d @ (if actions = [] then [] else [actions]),
            dm_store_queue := q\<rparr>,
          sent \<noteq> Closed))"

text \<open>
  A run of the pipeline that a panic cuts short: the stages before the panicking one ran and
  counted, nothing after them did, and there is no verdict.
\<close>

definition panicked_run ::
  "riggs_event \<Rightarrow> nat \<Rightarrow> nat \<Rightarrow> ('w \<Rightarrow> 'w) \<Rightarrow> 'w \<Rightarrow> 'w detection_pipeline \<Rightarrow> 'w \<times> 'w detection_pipeline" where
  "panicked_run ev timeout_ms k unfinished w p =
     (let (w', sts', _) = run_stages ev timeout_ms w (take k (dp_stages p)) []
      in (unfinished w', p\<lparr>dp_stages := sts' @ drop k (dp_stages p)\<rparr>))"

text \<open>
  One iteration of the loop over \<^verbatim>\<open>event_rx\<close>; the boolean is false when the loop breaks.
\<close>

definition handle_event ::
  "('net \<Rightarrow> ip_addr \<Rightarrow> bool) \<Rightarrow> (string \<Rightarrow> ip_addr option) \<Rightarrow> (f32 \<Rightarrow> f32) \<Rightarrow> daemon_config
   \<Rightarrow> 'w tick \<Rightarrow> riggs_event \<Rightarrow> ('w, 'net) daemon \<Rightarrow> ('w, 'net) daemon \<times> bool" where
  "handle_event net_contains parse_ip ln_1p cfg tk ev0 d =
     (let (sc, sid) = correlate (tk_fresh tk) (tk_now tk) (tk_now_prune tk) ev0 (dm_correlator d);
          ev = map_process_context (\<lambda>ctx. ctx\<lparr>pc_storyline_id := sid\<rparr>) ev0;
          d1 = d\<lparr>dm_events_processed := dm_events_processed d + 1,
                 dm_correlator := sc,
                 dm_egress_warned :=
                   note_egress net_contains parse_ip (dm_egress d) ev (dm_egress_warned d)\<rparr>
      in case tk_panic tk of
           Some (k, unfinished) \<Rightarrow>
             let (w, p) = panicked_run ev (dg_stage_timeout_ms cfg) k unfinished (dm_stages d1) (dm_pipeline d1)
             in (d1\<lparr>dm_stages := w, dm_pipeline := p\<rparr>, True)
         | None \<Rightarrow>
             let (w, p, merged) = pipeline_run ev (dg_stage_timeout_ms cfg) (dm_stages d1) (dm_pipeline d1)
             in react ln_1p cfg tk ev sid merged (d1\<lparr>dm_stages := w, dm_pipeline := p\<rparr>))"

section \<open>The batched writer\<close>

datatype 'a writer_event = Received 'a | Ticked

record 'a writer =
  wr_buf :: "'a list"
  wr_batches :: "'a list list"

text \<open>\<open>wr_batches\<close> are the batches handed to \<^verbatim>\<open>store_batch\<close>, in order, whether or not it succeeds.\<close>

definition flush :: "'a writer \<Rightarrow> 'a writer" where
  "flush w = (if wr_buf w = [] then w else \<lparr>wr_buf = [], wr_batches = wr_batches w @ [wr_buf w]\<rparr>)"

fun writer_step :: "nat \<Rightarrow> 'a writer \<Rightarrow> 'a writer_event \<Rightarrow> 'a writer" where
  "writer_step batch_max w (Received x) =
     (let w1 = w\<lparr>wr_buf := wr_buf w @ [x]\<rparr>
      in if batch_max \<le> length (wr_buf w1) then flush w1 else w1)"
| "writer_step batch_max w Ticked = flush w"

definition run_writer :: "nat \<Rightarrow> 'a writer_event list \<Rightarrow> 'a writer" where
  "run_writer batch_max evs = foldl (writer_step (max batch_max 1)) \<lparr>wr_buf = [], wr_batches = []\<rparr> evs"

text \<open>The channel closes: the rest of the buffer is flushed.\<close>

definition close_writer :: "'a writer \<Rightarrow> 'a writer" where
  "close_writer w = flush w"

fun received :: "'a writer_event \<Rightarrow> 'a list" where
  "received (Received x) = [x]"
| "received Ticked = []"

section \<open>The supervisor\<close>

text \<open>A task is its handle, which the runtime reports finished or not, and its restart counters.\<close>

record task_entry =
  te_handle :: nat
  te_restart_count :: u32
  te_max_restarts :: u32

record supervisor =
  sv_tasks :: "(string, task_entry) hmap"
  sv_next_handle :: nat
  sv_aborted :: "nat list"

definition supervisor_new :: supervisor where
  "supervisor_new = \<lparr>sv_tasks = [], sv_next_handle = 0, sv_aborted = []\<rparr>"

definition supervisor_spawn :: "string \<Rightarrow> supervisor \<Rightarrow> supervisor" where
  "supervisor_spawn name s =
     s\<lparr>sv_tasks := hm_insert name
          \<lparr>te_handle = sv_next_handle s, te_restart_count = 0, te_max_restarts = 5\<rparr> (sv_tasks s),
       sv_next_handle := sv_next_handle s + 1\<rparr>"

definition restart_task :: "supervisor \<Rightarrow> string \<Rightarrow> supervisor" where
  "restart_task s name =
     (case hm_get (sv_tasks s) name of
        None \<Rightarrow> s
      | Some e \<Rightarrow>
          s\<lparr>sv_tasks := hm_insert name
               (e\<lparr>te_restart_count := te_restart_count e + 1, te_handle := sv_next_handle s\<rparr>) (sv_tasks s),
            sv_next_handle := sv_next_handle s + 1\<rparr>)"

definition check_health :: "(nat \<Rightarrow> bool) \<Rightarrow> supervisor \<Rightarrow> supervisor" where
  "check_health finished s =
     (let to_restart =
        map fst (filter (\<lambda>(_, e). finished (te_handle e) \<and> te_restart_count e < te_max_restarts e) (sv_tasks s))
      in foldl restart_task s to_restart)"

definition shutdown_all :: "supervisor \<Rightarrow> supervisor" where
  "shutdown_all s =
     s\<lparr>sv_tasks := [], sv_aborted := sv_aborted s @ map (\<lambda>(_, e). te_handle e) (sv_tasks s)\<rparr>"

section \<open>What an iteration does\<close>

definition queue_ok :: "store_queue \<Rightarrow> bool" where
  "queue_ok q \<longleftrightarrow> length (sq_items q) \<le> sq_capacity q"

lemma try_send_queue:
  "try_send item q = (q', r) \<Longrightarrow> queue_ok q \<Longrightarrow>
     queue_ok q' \<and> sq_capacity q' = sq_capacity q \<and> sq_closed q' = sq_closed q \<and>
     sq_items q' = sq_items q @ (if r = Sent then [item] else []) \<and> (r = Closed \<longleftrightarrow> sq_closed q)"
  by (auto simp: try_send_def queue_ok_def split: if_splits)

text \<open>An iteration whose detection does not panic, taken apart.\<close>

lemma handle_eventE:
  assumes "handle_event nc pip ln_1p cfg tk ev0 d = (d', go)" and "tk_panic tk = None"
  obtains sc sid ev w p mv d1 where
    "correlate (tk_fresh tk) (tk_now tk) (tk_now_prune tk) ev0 (dm_correlator d) = (sc, sid)"
    "ev = map_process_context (\<lambda>ctx. ctx\<lparr>pc_storyline_id := sid\<rparr>) ev0"
    "pipeline_run ev (dg_stage_timeout_ms cfg) (dm_stages d) (dm_pipeline d) = (w, p, mv)"
    "react ln_1p cfg tk ev sid mv d1 = (d', go)"
    "dm_response_requests d1 = dm_response_requests d" "dm_store_queue d1 = dm_store_queue d"
    "dm_stages d1 = w" "dm_correlator d1 = sc" "dm_events_processed d1 = dm_events_processed d + 1"
  using assms by (auto simp: handle_event_def Let_def split: prod.splits)

lemma handle_event_panicked:
  assumes "handle_event nc pip ln_1p cfg tk ev0 d = (d', go)" and "tk_panic tk \<noteq> None"
  shows "go" "dm_store_queue d' = dm_store_queue d" "dm_response_requests d' = dm_response_requests d"
    "dm_events_processed d' = dm_events_processed d + 1"
  using assms by (auto simp: handle_event_def Let_def split: prod.splits)

text \<open>The storyline of the event of an iteration, and the verdict of its detection.\<close>

definition iteration_storyline :: "'w tick \<Rightarrow> riggs_event \<Rightarrow> ('w, 'net) daemon \<Rightarrow> storyline_id" where
  "iteration_storyline tk ev0 d =
     snd (correlate (tk_fresh tk) (tk_now tk) (tk_now_prune tk) ev0 (dm_correlator d))"

definition iteration_verdict :: "daemon_config \<Rightarrow> 'w tick \<Rightarrow> riggs_event \<Rightarrow> ('w, 'net) daemon \<Rightarrow> merged_verdict" where
  "iteration_verdict cfg tk ev0 d =
     snd (snd (pipeline_run
       (map_process_context (\<lambda>ctx. ctx\<lparr>pc_storyline_id := iteration_storyline tk ev0 d\<rparr>) ev0)
       (dg_stage_timeout_ms cfg) (dm_stages d) (dm_pipeline d)))"

lemma react_simps:
  assumes "react ln_1p cfg tk ev sid mv d1 = (d', go)"
  shows "dm_stages d' = dm_stages d1" "dm_events_processed d' = dm_events_processed d1"
    "dm_correlator d' = add_verdicts ln_1p (tk_now_verdict tk) sid (mv_verdicts mv) (dm_correlator d1)"
    "\<exists>r. try_send (ev, mv) (dm_store_queue d1) = (dm_store_queue d', r) \<and> (go \<longleftrightarrow> r \<noteq> Closed)"
    "dm_response_requests d' = dm_response_requests d1 @
      (if Clean < mv_final_threat_level mv \<and> dg_auto_respond cfg
         \<and> response_evaluate (dg_own_pid cfg) (dg_policy cfg) mv
              (pc_pid (process_context_of ev)) (event_path ev) sid \<noteq> []
       then [response_evaluate (dg_own_pid cfg) (dg_policy cfg) mv
              (pc_pid (process_context_of ev)) (event_path ev) sid] else [])"
  using assms by (auto simp: react_def Let_def split: prod.splits if_splits)

lemma event_path_map: "event_path (map_process_context f ev) = event_path ev"
  by (cases ev) auto

section \<open>Properties\<close>

text \<open>
  C4: sensing never stalls and never loses what it kept. Every iteration returns and counts its
  event. It keeps the older entries of the store queue, within its capacity, and appends the pair
  of the event, stamped with its storyline, and its merged verdict, except when detection
  panicked, the queue is full or the writer is gone; the loop ends only in the last case, and not
  on a panic.
\<close>

theorem loop_keeps_going:
  assumes "handle_event nc pip ln_1p cfg tk ev0 d = (d', go)" and "queue_ok (dm_store_queue d)"
  shows "dm_events_processed d' = dm_events_processed d + 1 \<and> queue_ok (dm_store_queue d') \<and>
    (go \<longleftrightarrow> tk_panic tk \<noteq> None \<or> \<not> sq_closed (dm_store_queue d)) \<and>
    sq_items (dm_store_queue d') = sq_items (dm_store_queue d) @
      (if tk_panic tk \<noteq> None \<or> sq_closed (dm_store_queue d) \<or>
          sq_capacity (dm_store_queue d) \<le> length (sq_items (dm_store_queue d)) then []
       else [(map_process_context (\<lambda>ctx. ctx\<lparr>pc_storyline_id := iteration_storyline tk ev0 d\<rparr>) ev0,
              iteration_verdict cfg tk ev0 d)])"
proof (cases "tk_panic tk")
  case None
  with assms(1) obtain sc sid ev w p mv d1 where
    c: "correlate (tk_fresh tk) (tk_now tk) (tk_now_prune tk) ev0 (dm_correlator d) = (sc, sid)"
    and ev: "ev = map_process_context (\<lambda>ctx. ctx\<lparr>pc_storyline_id := sid\<rparr>) ev0"
    and run: "pipeline_run ev (dg_stage_timeout_ms cfg) (dm_stages d) (dm_pipeline d) = (w, p, mv)"
    and r: "react ln_1p cfg tk ev sid mv d1 = (d', go)"
    and d1: "dm_store_queue d1 = dm_store_queue d" "dm_events_processed d1 = dm_events_processed d + 1"
    by (rule handle_eventE)
  obtain res where t: "try_send (ev, mv) (dm_store_queue d) = (dm_store_queue d', res)" "go \<longleftrightarrow> res \<noteq> Closed"
    using react_simps(4) [OF r] d1(1) by auto
  have "iteration_storyline tk ev0 d = sid" by (simp add: iteration_storyline_def c)
  then have pair: "map_process_context (\<lambda>ctx. ctx\<lparr>pc_storyline_id := iteration_storyline tk ev0 d\<rparr>) ev0 = ev"
    "iteration_verdict cfg tk ev0 d = mv" by (simp_all add: ev iteration_verdict_def run [unfolded ev])
  have "res = Sent \<longleftrightarrow> \<not> (sq_closed (dm_store_queue d) \<or>
      sq_capacity (dm_store_queue d) \<le> length (sq_items (dm_store_queue d)))"
    using t(1) by (auto simp: try_send_def split: if_splits)
  with try_send_queue [OF t(1) assms(2)] t(2) react_simps(2) [OF r] d1(2) None show ?thesis
    unfolding pair by auto
next
  case (Some k)
  then have "tk_panic tk \<noteq> None" by simp
  from handle_event_panicked [OF assms(1) this] this assms(2) show ?thesis by simp
qed


section \<open>The writer and the supervisor\<close>

lemma flush_simps:
  "concat (wr_batches (flush w)) = concat (wr_batches w) @ wr_buf w" "wr_buf (flush w) = []"
  by (auto simp: flush_def)

definition writer_inv :: "nat \<Rightarrow> 'a writer \<Rightarrow> bool" where
  "writer_inv n w \<longleftrightarrow> length (wr_buf w) < n \<and> (\<forall>b \<in> set (wr_batches w). b \<noteq> [] \<and> length b \<le> n)"

lemma writer_step_inv: "writer_inv n w \<Longrightarrow> 0 < n \<Longrightarrow> writer_inv n (writer_step n w e)"
  by (cases e) (auto simp: writer_inv_def flush_def Let_def)

lemma writer_step_stores:
  "concat (wr_batches (writer_step n w e)) @ wr_buf (writer_step n w e) =
     concat (wr_batches w) @ wr_buf w @ received e"
  by (cases e) (auto simp: flush_simps Let_def)

lemma run_writer_steps:
  assumes "0 < n"
  shows "writer_inv n w \<Longrightarrow> writer_inv n (foldl (writer_step n) w evs)"
    "concat (wr_batches (foldl (writer_step n) w evs)) @ wr_buf (foldl (writer_step n) w evs) =
       concat (wr_batches w) @ wr_buf w @ concat (map received evs)"
  by (induction evs arbitrary: w) (simp_all add: assms writer_step_inv writer_step_stores)

text \<open>
  The writer stores everything once, in order. Whatever the interleaving of received pairs and
  timer ticks, after the final flush the batches handed to the store contain exactly the received
  pairs in their order; no batch is empty or larger than the configured size, and the buffer never
  holds a full batch.
\<close>

theorem writer_stores_in_order:
  "concat (wr_batches (close_writer (run_writer batch_max evs))) = concat (map received evs) \<and>
   list_all (\<lambda>b. b \<noteq> [] \<and> length b \<le> max batch_max 1) (wr_batches (run_writer batch_max evs)) \<and>
   length (wr_buf (run_writer batch_max evs)) < max batch_max 1 \<and>
   wr_buf (close_writer (run_writer batch_max evs)) = []"
proof -
  let ?n = "max batch_max 1" and ?w0 = "\<lparr>wr_buf = [], wr_batches = []\<rparr> :: 'a writer"
  have "writer_inv ?n (run_writer batch_max evs)"
    unfolding run_writer_def by (rule run_writer_steps(1)) (simp_all add: writer_inv_def)
  moreover have "concat (wr_batches (run_writer batch_max evs)) @ wr_buf (run_writer batch_max evs) =
      concat (map received evs)"
    unfolding run_writer_def using run_writer_steps(2) [of ?n ?w0 evs] by simp
  ultimately show ?thesis
    by (simp add: close_writer_def flush_simps writer_inv_def list_all_iff)
qed

definition supervisor_inv :: "supervisor \<Rightarrow> bool" where
  "supervisor_inv s \<longleftrightarrow> hm_wf (sv_tasks s) \<and>
     (\<forall>name e. hm_get (sv_tasks s) name = Some e \<longrightarrow> te_restart_count e \<le> te_max_restarts e \<and> te_max_restarts e = 5)"

lemma restart_task_get:
  "hm_get (sv_tasks (restart_task s name)) n =
     (if n = name then map_option (\<lambda>e. e\<lparr>te_restart_count := te_restart_count e + 1, te_handle := sv_next_handle s\<rparr>)
        (hm_get (sv_tasks s) name) else hm_get (sv_tasks s) n)"
  by (auto simp: restart_task_def hm_get_insert split: option.split)

lemma foldl_restart_get:
  assumes "distinct names"
  shows "map_option te_restart_count (hm_get (sv_tasks (foldl restart_task s names)) n) =
      map_option (\<lambda>e. te_restart_count e + (if n \<in> set names then 1 else 0)) (hm_get (sv_tasks s) n)"
    "map_option te_max_restarts (hm_get (sv_tasks (foldl restart_task s names)) n) =
      map_option te_max_restarts (hm_get (sv_tasks s) n)"
    "hm_wf (sv_tasks s) \<Longrightarrow> hm_wf (sv_tasks (foldl restart_task s names))"
  using assms
proof (induction names arbitrary: s)
  case (Cons name names)
  {
    case 1
    with Cons(1) [of "restart_task s name"] show ?case
      by (auto simp: restart_task_get option.map_comp comp_def)
  next
    case 2
    with Cons(2) [of "restart_task s name"] show ?case
      by (auto simp: restart_task_get option.map_comp comp_def)
  next
    case 3
    then have "hm_wf (sv_tasks (restart_task s name))"
      by (simp add: restart_task_def hm_wf_insert split: option.split)
    with 3 Cons(3) [of "restart_task s name"] show ?case by simp
  }
qed simp_all

text \<open>
  A task is restarted exactly when it died and has restarts left, and never more than five
  times. A health check raises the restart count of a task by one exactly when its handle is
  finished and its count is below the limit, and leaves the others; so the counts stay at five
  at most over any number of checks.
\<close>

theorem supervisor_restarts_bounded:
  assumes "supervisor_inv s"
  shows "supervisor_inv (check_health finished s) \<and>
    (\<forall>name e. hm_get (sv_tasks s) name = Some e \<longrightarrow>
       (\<exists>e'. hm_get (sv_tasks (check_health finished s)) name = Some e' \<and>
          te_restart_count e' = te_restart_count e +
            (if finished (te_handle e) \<and> te_restart_count e < te_max_restarts e then 1 else 0)))"
proof -
  let ?names = "map fst (filter (\<lambda>(_, e). finished (te_handle e) \<and> te_restart_count e < te_max_restarts e) (sv_tasks s))"
  have wf: "hm_wf (sv_tasks s)" using assms by (simp add: supervisor_inv_def)
  have dist: "distinct ?names" using wf by (simp add: hm_wf_def distinct_map_filter)
  have mem: "name \<in> set ?names \<longleftrightarrow> finished (te_handle e) \<and> te_restart_count e < te_max_restarts e"
    if "hm_get (sv_tasks s) name = Some e" for name e
  proof -
    have "(name, e') \<in> set (sv_tasks s) \<longleftrightarrow> e' = e" for e'
      using hm_get_Some_iff [OF wf, of name e'] that by auto
    then show ?thesis by (auto simp: image_iff)
  qed
  have h: "check_health finished s = foldl restart_task s ?names" by (simp add: check_health_def)
  have get: "\<exists>e'. hm_get (sv_tasks (check_health finished s)) name = Some e' \<and>
      te_restart_count e' = te_restart_count e +
        (if finished (te_handle e) \<and> te_restart_count e < te_max_restarts e then 1 else 0) \<and>
      te_max_restarts e' = te_max_restarts e"
    if "hm_get (sv_tasks s) name = Some e" for name e
    using foldl_restart_get(1,2) [OF dist, of s name] that mem [OF that] unfolding h by (auto split: if_splits)
  have "te_restart_count e' \<le> te_max_restarts e' \<and> te_max_restarts e' = 5"
    if g: "hm_get (sv_tasks (check_health finished s)) name = Some e'" for name e'
  proof -
    obtain e where e: "hm_get (sv_tasks s) name = Some e"
      using foldl_restart_get(2) [OF dist, of s name] g unfolding h
      by (cases "hm_get (sv_tasks s) name") auto
    have b: "te_restart_count e \<le> 5" "te_max_restarts e = 5" using assms e unfolding supervisor_inv_def by metis+
    have "te_restart_count e + 1 \<le> 5" if "te_restart_count e < 5"
      using that by (simp add: inc_le)
    with get [OF e] b g show ?thesis by auto
  qed
  with get foldl_restart_get(3) [OF dist wf] show ?thesis
    unfolding supervisor_inv_def h by blast
qed

theorem supervisor_restarts_bounded_witness:
  "supervisor_inv (check_health (\<lambda>_. True) (supervisor_spawn ''feeds'' supervisor_new))"
proof -
  have "supervisor_inv (supervisor_spawn ''feeds'' supervisor_new)"
    by (auto simp: supervisor_inv_def supervisor_spawn_def supervisor_new_def hm_wf_insert hm_get_insert
        split: if_splits)
  from supervisor_restarts_bounded [OF this] show ?thesis by blast
qed

section \<open>Witnesses\<close>

definition sample_daemon :: "(nat, u32 \<times> u32) daemon" where
  "sample_daemon =
     \<lparr>dm_correlator = storyline_new 0, dm_pipeline = stuck_pipeline, dm_stages = 0,
      dm_egress = egress_new sample_egress, dm_egress_warned = [], dm_events_processed = 0,
      dm_threats_detected = 0, dm_snapshot_requests = [], dm_response_requests = [],
      dm_store_queue = \<lparr>sq_items = [], sq_capacity = 1, sq_closed = False\<rparr>\<rparr>"

definition sample_tick :: "nat tick" where
  "sample_tick = \<lparr>tk_fresh = StorylineId 9, tk_now = 5, tk_now_prune = 5, tk_now_verdict = 6, tk_panic = None\<rparr>"

definition sample_config :: daemon_config where
  "sample_config =
     \<lparr>dg_auto_respond = True, dg_snapshots = True, dg_stage_timeout_ms = 20,
      dg_policy = default_policy, dg_own_pid = 500\<rparr>"

abbreviation sample_iteration :: "(nat, u32 \<times> u32) daemon \<times> bool" where
  "sample_iteration \<equiv> handle_event mask_contains (\<lambda>_. None) id sample_config sample_tick sample_file sample_daemon"

theorem loop_keeps_going_witness:
  "dm_events_processed (fst sample_iteration) = 1 \<and> snd sample_iteration \<and>
   length (sq_items (dm_store_queue (fst sample_iteration))) = 1"
proof -
  have "tk_panic sample_tick = None" "queue_ok (dm_store_queue sample_daemon)"
    "dm_events_processed sample_daemon = 0" "\<not> sq_closed (dm_store_queue sample_daemon)"
    "sq_items (dm_store_queue sample_daemon) = []" "sq_capacity (dm_store_queue sample_daemon) = 1"
    by (simp_all add: sample_tick_def queue_ok_def sample_daemon_def)
  then show ?thesis
    using loop_keeps_going [of mask_contains "\<lambda>_. None" id sample_config sample_tick sample_file sample_daemon
        "fst sample_iteration" "snd sample_iteration", OF prod.collapse [symmetric]] by simp
qed


end
