(* ===== verification/Custom_Rules.thy ===== *)
theory Custom_Rules
  imports Engine "HOL-Library.Sublist"
begin

text \<open>
  \<^verbatim>\<open>riggs-rules/src/custom.rs\<close>: the operator's custom rules. A rule lists conditions on one event,
  or holds sequences whose steps must happen in order within one storyline; how far a sequence
  got is kept per rule and storyline. The poisoned-lock recovery has no counterpart, since the
  states are passed explicitly; \<^verbatim>\<open>Utc::now\<close> is the argument \<open>now\<close>.
\<close>

section \<open>Rules and their evaluation\<close>

datatype rule_condition =
    ProcessName string
  | CmdlineContains string
  | FilePath string
  | NetworkDest string
  | Sequence "rule_condition list"

record custom_rule =
  cr_name :: string
  cr_description :: string
  cr_conditions :: "rule_condition list"
  cr_action :: string

record sequence_state =
  ss_current_step :: nat
  ss_started_at :: timestamp

record custom_rule_engine =
  ce_rules :: "custom_rule list"
  ce_sequence_state :: "(string \<times> storyline_id, sequence_state) hmap"
  ce_sequence_timeout :: duration

definition custom_new :: custom_rule_engine where
  "custom_new = \<lparr>ce_rules = [], ce_sequence_state = [], ce_sequence_timeout = seconds 60\<rparr>"

definition add_rule :: "custom_rule \<Rightarrow> custom_rule_engine \<Rightarrow> custom_rule_engine" where
  "add_rule r eng = eng\<lparr>ce_rules := ce_rules eng @ [r]\<rparr>"

text \<open>
  \<^verbatim>\<open>load_dir\<close> on what reading and parsing each rule file gave, in the order of the files: a file
  that fails is skipped.
\<close>

definition custom_load_dir :: "(riggs_error + custom_rule list) list \<Rightarrow> custom_rule_engine" where
  "custom_load_dir files =
     foldl (\<lambda>eng f. case f of Inr rs \<Rightarrow> foldl (\<lambda>eng r. add_rule r eng) eng rs | Inl _ \<Rightarrow> eng) custom_new files"

fun condition_matches :: "rule_condition \<Rightarrow> riggs_event \<Rightarrow> bool" where
  "condition_matches (ProcessName name) ev = (pc_name (process_context_of ev) = name)"
| "condition_matches (CmdlineContains needle) ev = str_contains (pc_cmdline (process_context_of ev)) needle"
| "condition_matches (FilePath path) ev = (case ev of File fe \<Rightarrow> fe_path fe = path | _ \<Rightarrow> False)"
| "condition_matches (NetworkDest addr) ev = (case ev of Network ne \<Rightarrow> ne_dst_addr ne = addr | _ \<Rightarrow> False)"
| "condition_matches (Sequence _) ev = False"

text \<open>What one event does to the state of one sequence, and whether it completes it.\<close>

definition sequence_step ::
  "timestamp \<Rightarrow> duration \<Rightarrow> riggs_event \<Rightarrow> rule_condition list \<Rightarrow> sequence_state \<Rightarrow> sequence_state \<times> bool" where
  "sequence_step now timeout ev steps st0 =
     (let st = (if timeout < now - ss_started_at st0 then \<lparr>ss_current_step = 0, ss_started_at = now\<rparr> else st0);
          k = ss_current_step st
      in if k < length steps \<and> condition_matches (steps ! k) ev
         then let started = (if k = 0 then now else ss_started_at st)
           in if length steps \<le> k + 1 then (\<lparr>ss_current_step = 0, ss_started_at = started\<rparr>, True)
              else (\<lparr>ss_current_step = k + 1, ss_started_at = started\<rparr>, False)
         else (st, False))"

definition eval_sequence ::
  "timestamp \<Rightarrow> duration \<Rightarrow> riggs_event \<Rightarrow> string
   \<Rightarrow> (string \<times> storyline_id, sequence_state) hmap \<times> string list \<Rightarrow> rule_condition
   \<Rightarrow> (string \<times> storyline_id, sequence_state) hmap \<times> string list" where
  "eval_sequence now timeout ev name acc cond =
     (case cond of
        Sequence steps \<Rightarrow>
          let (states, matched) = acc;
              key = (name, storyline_id_of ev);
              st = (case hm_get states key of
                      Some st \<Rightarrow> st | None \<Rightarrow> \<lparr>ss_current_step = 0, ss_started_at = now\<rparr>);
              (st', hit) = sequence_step now timeout ev steps st
          in (hm_insert key st' states, if hit then matched @ [name] else matched)
      | _ \<Rightarrow> acc)"

fun is_sequence :: "rule_condition \<Rightarrow> bool" where
  "is_sequence (Sequence _) = True"
| "is_sequence _ = False"

definition eval_rule ::
  "timestamp \<Rightarrow> duration \<Rightarrow> riggs_event
   \<Rightarrow> (string \<times> storyline_id, sequence_state) hmap \<times> string list \<Rightarrow> custom_rule
   \<Rightarrow> (string \<times> storyline_id, sequence_state) hmap \<times> string list" where
  "eval_rule now timeout ev acc r =
     (if list_ex is_sequence (cr_conditions r)
      then foldl (eval_sequence now timeout ev (cr_name r)) acc (cr_conditions r)
      else if list_all (\<lambda>c. condition_matches c ev) (cr_conditions r)
      then (fst acc, snd acc @ [cr_name r])
      else acc)"

definition custom_evaluate :: "timestamp \<Rightarrow> riggs_event \<Rightarrow> custom_rule_engine \<Rightarrow> custom_rule_engine \<times> string list" where
  "custom_evaluate now ev eng =
     (let timeout = ce_sequence_timeout eng;
          (states, matched) = foldl (eval_rule now timeout ev) (ce_sequence_state eng, []) (ce_rules eng)
      in (eng\<lparr>ce_sequence_state :=
                hm_retain (\<lambda>_ st. now - ss_started_at st \<le> timeout * 2) states\<rparr>, matched))"

section \<open>What an evaluation does to one rule\<close>

lemma eval_sequence_other:
  assumes "eval_sequence now timeout ev name (s, m) c = (s', m')"
  shows "key \<noteq> (name, storyline_id_of ev) \<Longrightarrow> hm_get s' key = hm_get s key"
    and "n \<noteq> name \<Longrightarrow> n \<in> set m' \<longleftrightarrow> n \<in> set m"
  using assms
  by (auto simp: eval_sequence_def Let_def hm_get_insert split: rule_condition.splits prod.splits if_splits)

lemma foldl_eval_sequence_other:
  assumes "foldl (eval_sequence now timeout ev name) (s, m) cs = (s', m')"
  shows "(key \<noteq> (name, storyline_id_of ev) \<longrightarrow> hm_get s' key = hm_get s key) \<and>
    (n \<noteq> name \<longrightarrow> (n \<in> set m' \<longleftrightarrow> n \<in> set m))"
  using assms
proof (induction cs arbitrary: s m)
  case (Cons c cs)
  obtain s1 m1 where "eval_sequence now timeout ev name (s, m) c = (s1, m1)" by fastforce
  with Cons eval_sequence_other [OF this] show ?case by auto
qed simp

lemma eval_rule_other:
  assumes "eval_rule now timeout ev (s, m) r = (s', m')"
  shows "key \<noteq> (cr_name r, storyline_id_of ev) \<Longrightarrow> hm_get s' key = hm_get s key"
    and "n \<noteq> cr_name r \<Longrightarrow> n \<in> set m' \<longleftrightarrow> n \<in> set m"
  using assms foldl_eval_sequence_other [of now timeout ev "cr_name r" s m "cr_conditions r" s' m' key n]
  by (auto simp: eval_rule_def split: if_splits)

lemma foldl_eval_rule_other:
  assumes "foldl (eval_rule now timeout ev) (s, m) rs = (s', m')"
  shows "(snd key \<noteq> storyline_id_of ev \<or> fst key \<notin> cr_name ` set rs \<longrightarrow> hm_get s' key = hm_get s key) \<and>
    (n \<notin> cr_name ` set rs \<longrightarrow> (n \<in> set m' \<longleftrightarrow> n \<in> set m))"
  using assms
proof (induction rs arbitrary: s m)
  case (Cons r rs)
  obtain s1 m1 where step: "eval_rule now timeout ev (s, m) r = (s1, m1)" by fastforce
  have "snd key \<noteq> storyline_id_of ev \<or> fst key \<noteq> cr_name r \<Longrightarrow> key \<noteq> (cr_name r, storyline_id_of ev)" by auto
  with Cons step eval_rule_other [OF step] show ?case by auto
qed simp

text \<open>A rule with one sequence and a name of its own, in a list of rules.\<close>

definition sequence_rule :: "custom_rule list \<Rightarrow> string \<Rightarrow> rule_condition list \<Rightarrow> bool" where
  "sequence_rule rules name steps \<longleftrightarrow>
     (\<exists>rs r rs'. rules = rs @ r # rs' \<and> cr_name r = name \<and> cr_conditions r = [Sequence steps] \<and>
        name \<notin> cr_name ` (set rs \<union> set rs'))"

lemma foldl_eval_rule_sequence:
  assumes "foldl (eval_rule now timeout ev) (s, []) rules = (s', m')" and "sequence_rule rules name steps"
  shows "(hm_get s' (name, storyline_id_of ev), name \<in> set m') =
    apfst Some (sequence_step now timeout ev steps
      (case hm_get s (name, storyline_id_of ev) of
         Some st \<Rightarrow> st | None \<Rightarrow> \<lparr>ss_current_step = 0, ss_started_at = now\<rparr>))"
proof -
  from assms(2) obtain rs r rs' where r: "rules = rs @ r # rs'" "cr_name r = name"
    "cr_conditions r = [Sequence steps]" "name \<notin> cr_name ` set rs" "name \<notin> cr_name ` set rs'"
    by (auto simp: sequence_rule_def)
  obtain s1 m1 where f1: "foldl (eval_rule now timeout ev) (s, []) rs = (s1, m1)" by fastforce
  obtain s2 m2 where f2: "eval_rule now timeout ev (s1, m1) r = (s2, m2)" by fastforce
  have f3: "foldl (eval_rule now timeout ev) (s2, m2) rs' = (s', m')" using assms(1) f1 f2 r(1) by simp
  have "hm_get s1 (name, storyline_id_of ev) = hm_get s (name, storyline_id_of ev)" "name \<notin> set m1"
    using foldl_eval_rule_other [OF f1, of "(name, storyline_id_of ev)" name] r(4) by auto
  moreover have "hm_get s' (name, storyline_id_of ev) = hm_get s2 (name, storyline_id_of ev)"
    "name \<in> set m' \<longleftrightarrow> name \<in> set m2"
    using foldl_eval_rule_other [OF f3, of "(name, storyline_id_of ev)" name] r(5) by auto
  ultimately show ?thesis
    using f2 r(2,3)
    by (auto simp: eval_rule_def eval_sequence_def Let_def hm_get_insert split: prod.splits if_splits)
qed

section \<open>Runs of the engine\<close>

text \<open>The events given to the engine, with the clock at each evaluation, in order.\<close>

type_synonym history = "(timestamp \<times> riggs_event) list"

definition custom_run :: "custom_rule_engine \<Rightarrow> history \<Rightarrow> custom_rule_engine" where
  "custom_run eng h = foldl (\<lambda>eng (now, ev). fst (custom_evaluate now ev eng)) eng h"

definition of_storyline :: "storyline_id \<Rightarrow> history \<Rightarrow> history" where
  "of_storyline sid h = filter (\<lambda>(_, ev). storyline_id_of ev = sid) h"

text \<open>Events that match the conditions one by one.\<close>

definition fits :: "rule_condition list \<Rightarrow> history \<Rightarrow> bool" where
  "fits conds es \<longleftrightarrow> list_all2 (\<lambda>c (_, ev). condition_matches c ev) conds es"

text \<open>
  The state of a sequence is backed by events of its storyline: the steps behind it were matched,
  in order, by a subsequence of them that begins when the sequence started.
\<close>

definition backed :: "rule_condition list \<Rightarrow> history \<Rightarrow> sequence_state \<Rightarrow> bool" where
  "backed steps h st \<longleftrightarrow>
     ss_current_step st = 0 \<or>
     (\<exists>es. subseq es h \<and> es \<noteq> [] \<and> fst (hd es) = ss_started_at st \<and>
        ss_current_step st < length steps \<and> fits (take (ss_current_step st) steps) es)"

definition sequences_backed :: "string \<Rightarrow> rule_condition list \<Rightarrow> custom_rule_engine \<Rightarrow> history \<Rightarrow> bool" where
  "sequences_backed name steps eng h \<longleftrightarrow>
     hm_wf (ce_sequence_state eng) \<and>
     (\<forall>sid st. hm_get (ce_sequence_state eng) (name, sid) = Some st \<longrightarrow> backed steps (of_storyline sid h) st)"

lemma fits_snoc:
  "k < length steps \<Longrightarrow> fits (take k steps) es \<Longrightarrow> condition_matches (steps ! k) ev \<Longrightarrow>
     fits (take (Suc k) steps) (es @ [(now, ev)])"
  by (simp add: fits_def take_Suc_conv_app_nth list_all2_appendI)

lemma subseq_snoc: "subseq es h \<Longrightarrow> subseq (es @ [x]) (h @ [x])"
  by (simp add: list_emb_append_mono)

lemma backed_snoc: "backed steps h st \<Longrightarrow> backed steps (h @ [x]) st"
  unfolding backed_def using list_emb_append2 [of "(=)" _ h "[x]"] by (metis append_Nil2 list_emb_append_mono list_emb_Nil)

lemma sequence_step_backed:
  assumes "sequence_step now timeout ev steps st = (st', hit)" and "backed steps h st" and "0 \<le> timeout"
  shows "backed steps (h @ [(now, ev)]) st'"
    and "hit \<Longrightarrow> \<exists>es. subseq es (h @ [(now, ev)]) \<and> es \<noteq> [] \<and> last es = (now, ev) \<and> fits steps es \<and>
           now - fst (hd es) \<le> timeout"
proof -
  define st1 where "st1 = (if timeout < now - ss_started_at st then \<lparr>ss_current_step = 0, ss_started_at = now\<rparr> else st)"
  define k where "k = ss_current_step st1"
  have b1: "backed steps h st1" using assms(2) by (simp add: st1_def backed_def)
  have live: "k \<noteq> 0 \<Longrightarrow> now - ss_started_at st1 \<le> timeout" by (auto simp: st1_def k_def split: if_splits)
  note step = assms(1) [unfolded sequence_step_def Let_def, folded st1_def, folded k_def]
  have "\<exists>es. subseq es (h @ [(now, ev)]) \<and> es \<noteq> [] \<and> last es = (now, ev) \<and> fits (take (Suc k) steps) es \<and>
      fst (hd es) = (if k = 0 then now else ss_started_at st1)"
    if m: "k < length steps" "condition_matches (steps ! k) ev"
  proof (cases "k = 0")
    case True
    have "fits (take (Suc k) steps) [(now, ev)]" using fits_snoc [of k steps "[]"] m True by (simp add: fits_def)
    moreover have "subseq [(now, ev)] (h @ [(now, ev)])" using subseq_snoc [of "[]"] by simp
    ultimately show ?thesis using True by (intro exI [of _ "[(now, ev)]"]) simp
  next
    case False
    with b1 obtain es where es: "subseq es h" "es \<noteq> []" "fst (hd es) = ss_started_at st1" "fits (take k steps) es"
      by (auto simp: backed_def k_def)
    with fits_snoc [OF m(1) es(4) m(2)] False show ?thesis
      by (intro exI [of _ "es @ [(now, ev)]"]) (simp add: subseq_snoc)
  qed
  note found = this
  show "backed steps (h @ [(now, ev)]) st'"
    using step found backed_snoc [OF b1] by (auto simp: backed_def split: if_splits)
  assume hit
  then have m: "k < length steps" "condition_matches (steps ! k) ev" "length steps \<le> Suc k"
    using step by (auto split: if_splits)
  from found [OF m(1,2)] m(3) live assms(3)
  show "\<exists>es. subseq es (h @ [(now, ev)]) \<and> es \<noteq> [] \<and> last es = (now, ev) \<and> fits steps es \<and> now - fst (hd es) \<le> timeout"
    by auto
qed

lemma eval_sequence_wf:
  "hm_wf (fst acc) \<Longrightarrow> hm_wf (fst (eval_sequence now timeout ev name acc c))"
  by (auto simp: eval_sequence_def Let_def hm_wf_insert split: rule_condition.splits prod.splits)

lemma foldl_eval_rule_wf: "hm_wf (fst acc) \<Longrightarrow> hm_wf (fst (foldl (eval_rule now timeout ev) acc rs))"
proof (induction rs arbitrary: acc)
  case (Cons r rs)
  have "hm_wf (fst (foldl (eval_sequence now timeout ev (cr_name r)) acc cs))" for cs
    using Cons.prems by (induction cs arbitrary: acc) (simp_all add: eval_sequence_wf)
  then have "hm_wf (fst (eval_rule now timeout ev acc r))" using Cons.prems by (simp add: eval_rule_def)
  then show ?case using Cons.IH by simp
qed simp

lemma custom_evaluate_config:
  "ce_rules (fst (custom_evaluate now ev eng)) = ce_rules eng"
  "ce_sequence_timeout (fst (custom_evaluate now ev eng)) = ce_sequence_timeout eng"
  by (simp_all add: custom_evaluate_def Let_def split: prod.split)

lemma custom_run_config:
  "ce_rules (custom_run eng h) = ce_rules eng"
  "ce_sequence_timeout (custom_run eng h) = ce_sequence_timeout eng"
  unfolding custom_run_def by (induction h rule: rev_induct) (auto simp: custom_evaluate_config split: prod.splits)

lemma custom_run_snoc: "custom_run eng (h @ [(now, ev)]) = fst (custom_evaluate now ev (custom_run eng h))"
  by (simp add: custom_run_def)

lemma custom_evaluate_backed:
  assumes "sequences_backed name steps eng h" and "sequence_rule (ce_rules eng) name steps"
    and "0 \<le> ce_sequence_timeout eng"
  shows "sequences_backed name steps (fst (custom_evaluate now ev eng)) (h @ [(now, ev)])"
    and "name \<in> set (snd (custom_evaluate now ev eng)) \<Longrightarrow>
      \<exists>es. subseq es (of_storyline (storyline_id_of ev) (h @ [(now, ev)])) \<and> es \<noteq> [] \<and> last es = (now, ev) \<and>
        fits steps es \<and> now - fst (hd es) \<le> ce_sequence_timeout eng"
proof -
  let ?sid = "storyline_id_of ev" and ?t = "ce_sequence_timeout eng"
  obtain s m where f: "foldl (eval_rule now ?t ev) (ce_sequence_state eng, []) (ce_rules eng) = (s, m)" by fastforce
  have ce: "custom_evaluate now ev eng =
      (eng\<lparr>ce_sequence_state := hm_retain (\<lambda>_ st. now - ss_started_at st \<le> ?t * 2) s\<rparr>, m)"
    by (simp add: custom_evaluate_def f)
  have wf: "hm_wf s" using foldl_eval_rule_wf [of "(ce_sequence_state eng, [])" now ?t ev "ce_rules eng"] f assms(1)
    by (simp add: sequences_backed_def)
  define st where "st = (case hm_get (ce_sequence_state eng) (name, ?sid) of
      Some st \<Rightarrow> st | None \<Rightarrow> \<lparr>ss_current_step = 0, ss_started_at = now\<rparr>)"
  obtain st' hit where step: "sequence_step now ?t ev steps st = (st', hit)" by fastforce
  have here: "hm_get s (name, ?sid) = Some st'" "name \<in> set m \<longleftrightarrow> hit"
    using foldl_eval_rule_sequence [OF f assms(2)] step by (simp_all add: st_def)
  have "backed steps (of_storyline ?sid h) st"
    using assms(1) by (auto simp: st_def sequences_backed_def backed_def split: option.splits)
  note ok = sequence_step_backed [OF step this assms(3)]
  have snoc: "of_storyline ?sid (h @ [(now, ev)]) = of_storyline ?sid h @ [(now, ev)]"
    "sid \<noteq> ?sid \<Longrightarrow> of_storyline sid (h @ [(now, ev)]) = of_storyline sid h" for sid
    by (simp_all add: of_storyline_def)
  have "backed steps (of_storyline sid (h @ [(now, ev)])) x" if "hm_get s (name, sid) = Some x" for sid x
  proof (cases "sid = ?sid")
    case True
    with that here(1) ok(1) snoc(1) show ?thesis by simp
  next
    case False
    then have "hm_get s (name, sid) = hm_get (ce_sequence_state eng) (name, sid)"
      using foldl_eval_rule_other [OF f, of "(name, sid)"] by simp
    with that False assms(1) snoc(2) show ?thesis by (simp add: sequences_backed_def)
  qed
  then show "sequences_backed name steps (fst (custom_evaluate now ev eng)) (h @ [(now, ev)])"
    using wf by (auto simp: ce sequences_backed_def hm_wf_retain hm_get_retain split: option.splits if_splits)
  assume "name \<in> set (snd (custom_evaluate now ev eng))"
  then have hit using ce here(2) by simp
  from ok(2) [OF this] show "\<exists>es. subseq es (of_storyline ?sid (h @ [(now, ev)])) \<and> es \<noteq> [] \<and>
      last es = (now, ev) \<and> fits steps es \<and> now - fst (hd es) \<le> ?t" by (simp add: snoc(1))
qed

lemma custom_run_backed:
  assumes "ce_sequence_state eng = []" and "sequence_rule (ce_rules eng) name steps"
    and "0 \<le> ce_sequence_timeout eng"
  shows "sequences_backed name steps (custom_run eng h) h"
proof (induction h rule: rev_induct)
  case Nil
  then show ?case using assms(1) by (simp add: custom_run_def sequences_backed_def)
next
  case (snoc x h)
  with custom_evaluate_backed(1) [OF snoc.IH] assms(2,3) show ?case
    by (cases x) (simp add: custom_run_snoc custom_run_config)
qed

text \<open>Conversely, events that match the steps one after the other drive the sequence to its end.\<close>

lemma custom_evaluate_sequence:
  assumes "hm_wf (ce_sequence_state eng)" and "sequence_rule (ce_rules eng) name steps"
    and "sequence_step now (ce_sequence_timeout eng) ev steps
      (case hm_get (ce_sequence_state eng) (name, storyline_id_of ev) of
         Some st \<Rightarrow> st | None \<Rightarrow> \<lparr>ss_current_step = 0, ss_started_at = now\<rparr>) = (st', hit)"
    and "now - ss_started_at st' \<le> ce_sequence_timeout eng * 2"
  shows "hm_get (ce_sequence_state (fst (custom_evaluate now ev eng))) (name, storyline_id_of ev) = Some st'"
    and "name \<in> set (snd (custom_evaluate now ev eng)) \<longleftrightarrow> hit"
proof -
  obtain s m where f: "foldl (eval_rule now (ce_sequence_timeout eng) ev) (ce_sequence_state eng, []) (ce_rules eng) = (s, m)"
    by fastforce
  have "hm_wf s"
    using foldl_eval_rule_wf [of "(ce_sequence_state eng, [])" now "ce_sequence_timeout eng" ev "ce_rules eng"] f assms(1)
    by simp
  moreover have "hm_get s (name, storyline_id_of ev) = Some st'" "name \<in> set m \<longleftrightarrow> hit"
    using foldl_eval_rule_sequence [OF f assms(2)] assms(3) by simp_all
  ultimately show "hm_get (ce_sequence_state (fst (custom_evaluate now ev eng))) (name, storyline_id_of ev) = Some st'"
    "name \<in> set (snd (custom_evaluate now ev eng)) \<longleftrightarrow> hit"
    using assms(4) by (simp_all add: custom_evaluate_def f hm_get_retain)
qed

definition prompt :: "duration \<Rightarrow> storyline_id \<Rightarrow> history \<Rightarrow> bool" where
  "prompt timeout sid es \<longleftrightarrow>
     (\<forall>(now, ev) \<in> set es. storyline_id_of ev = sid \<and> fst (hd es) \<le> now \<and> now \<le> fst (hd es) + timeout)"

lemma sequence_step_advance:
  "k < length steps \<Longrightarrow> condition_matches (steps ! k) ev \<Longrightarrow> now - t0 \<le> timeout \<Longrightarrow> (k = 0 \<Longrightarrow> now = t0) \<Longrightarrow>
     sequence_step now timeout ev steps \<lparr>ss_current_step = k, ss_started_at = t0\<rparr> =
       (\<lparr>ss_current_step = if Suc k = length steps then 0 else Suc k, ss_started_at = t0\<rparr>, Suc k = length steps)"
  by (auto simp: sequence_step_def Let_def)

definition current_sequence :: "string \<Rightarrow> storyline_id \<Rightarrow> timestamp \<Rightarrow> custom_rule_engine \<Rightarrow> sequence_state" where
  "current_sequence name sid now eng =
     (case hm_get (ce_sequence_state eng) (name, sid) of
        Some st \<Rightarrow> st | None \<Rightarrow> \<lparr>ss_current_step = 0, ss_started_at = now\<rparr>)"

lemma custom_evaluate_advance:
  assumes "hm_wf (ce_sequence_state eng)" and "sequence_rule (ce_rules eng) name steps"
    and "current_sequence name (storyline_id_of ev) now eng = \<lparr>ss_current_step = k, ss_started_at = t0\<rparr>"
    and "k < length steps" and "condition_matches (steps ! k) ev"
    and "now - t0 \<le> ce_sequence_timeout eng" and "0 \<le> ce_sequence_timeout eng" and "k = 0 \<Longrightarrow> now = t0"
  shows "Suc k < length steps \<Longrightarrow> current_sequence name (storyline_id_of ev) now' (fst (custom_evaluate now ev eng)) =
      \<lparr>ss_current_step = Suc k, ss_started_at = t0\<rparr>"
    and "name \<in> set (snd (custom_evaluate now ev eng)) \<longleftrightarrow> Suc k = length steps"
proof -
  note step = sequence_step_advance [OF assms(4,5,6,8), folded assms(3), unfolded current_sequence_def]
  have "now - t0 \<le> ce_sequence_timeout eng * 2" using assms(6,7) by simp
  note ok = custom_evaluate_sequence [OF assms(1,2) step, simplified, OF this]
  show "Suc k < length steps \<Longrightarrow> current_sequence name (storyline_id_of ev) now' (fst (custom_evaluate now ev eng)) =
      \<lparr>ss_current_step = Suc k, ss_started_at = t0\<rparr>"
    using ok(1) by (simp add: current_sequence_def)
  show "name \<in> set (snd (custom_evaluate now ev eng)) \<longleftrightarrow> Suc k = length steps" by (rule ok(2))
qed

lemma sequence_progress:
  assumes "ce_sequence_state eng = []" and rule: "sequence_rule (ce_rules eng) name steps"
    and t: "0 \<le> ce_sequence_timeout eng" and fit: "fits steps es" and p: "prompt (ce_sequence_timeout eng) sid es"
    and k: "k < length steps"
  shows "current_sequence name sid (fst (es ! k)) (custom_run eng (take k es)) =
      \<lparr>ss_current_step = k, ss_started_at = fst (hd es)\<rparr>"
    and "name \<in> set (snd (custom_evaluate (fst (es ! k)) (snd (es ! k)) (custom_run eng (take k es)))) \<longleftrightarrow>
      Suc k = length steps"
proof -
  have len: "length es = length steps" using fit by (simp add: fits_def list_all2_lengthD)
  have at: "condition_matches (steps ! i) (snd (es ! i))" "storyline_id_of (snd (es ! i)) = sid"
    "fst (es ! i) - fst (hd es) \<le> ce_sequence_timeout eng" "i = 0 \<Longrightarrow> fst (es ! i) = fst (hd es)"
    if "i < length steps" for i
  proof -
    have "es ! i \<in> set es" using that len by simp
    from bspec [OF p [unfolded prompt_def] this]
    show "storyline_id_of (snd (es ! i)) = sid" "fst (es ! i) - fst (hd es) \<le> ce_sequence_timeout eng"
      by (simp_all add: case_prod_beta)
    show "condition_matches (steps ! i) (snd (es ! i))"
      using list_all2_nthD [OF fit [unfolded fits_def] that] by (simp add: case_prod_beta)
    show "i = 0 \<Longrightarrow> fst (es ! i) = fst (hd es)" using that len by (cases es) auto
  qed
  have wf: "hm_wf (ce_sequence_state (custom_run eng h))" for h
    using custom_run_backed [OF assms(1-3)] by (simp add: sequences_backed_def)
  have adv: "current_sequence name sid (fst (es ! i)) (custom_run eng (take i es)) =
        \<lparr>ss_current_step = i, ss_started_at = fst (hd es)\<rparr> \<Longrightarrow>
      (Suc i < length steps \<longrightarrow> current_sequence name sid now' (fst (custom_evaluate (fst (es ! i)) (snd (es ! i))
         (custom_run eng (take i es)))) = \<lparr>ss_current_step = Suc i, ss_started_at = fst (hd es)\<rparr>) \<and>
      (name \<in> set (snd (custom_evaluate (fst (es ! i)) (snd (es ! i)) (custom_run eng (take i es)))) \<longleftrightarrow>
         Suc i = length steps)"
    if "i < length steps" for i now'
    using custom_evaluate_advance(1) [OF wf [of "take i es"], of name steps "snd (es ! i)" "fst (es ! i)" i "fst (hd es)" now']
      custom_evaluate_advance(2) [OF wf [of "take i es"], of name steps "snd (es ! i)" "fst (es ! i)" i "fst (hd es)"]
      at [OF that] that rule t by (simp add: custom_run_config)
  have cur: "i < length steps \<Longrightarrow> current_sequence name sid (fst (es ! i)) (custom_run eng (take i es)) =
      \<lparr>ss_current_step = i, ss_started_at = fst (hd es)\<rparr>" for i
  proof (induction i)
    case 0
    then show ?case using assms(1) at(4) [OF 0] by (simp add: current_sequence_def custom_run_def)
  next
    case (Suc i)
    then have "custom_run eng (take (Suc i) es) = fst (custom_evaluate (fst (es ! i)) (snd (es ! i)) (custom_run eng (take i es)))"
      using len by (simp add: take_Suc_conv_app_nth custom_run_def case_prod_beta)
    with adv Suc show ?case by simp
  qed
  show "current_sequence name sid (fst (es ! k)) (custom_run eng (take k es)) =
      \<lparr>ss_current_step = k, ss_started_at = fst (hd es)\<rparr>" by (rule cur [OF k])
  show "name \<in> set (snd (custom_evaluate (fst (es ! k)) (snd (es ! k)) (custom_run eng (take k es)))) \<longleftrightarrow>
      Suc k = length steps" using adv [OF k cur [OF k]] by blast
qed

section \<open>Properties\<close>

text \<open>
  C19: a sequence rule fires only on its own story. When a rule with one sequence is reported, the
  events of that storyline, and no others, contain its steps in order, the reported event is the
  last of them, and they lie within the time-out of the engine: steps of unrelated processes
  never combine.
\<close>

theorem sequence_rule_sound:
  assumes "ce_sequence_state eng = []" and "sequence_rule (ce_rules eng) name steps"
    and "0 \<le> ce_sequence_timeout eng"
    and "name \<in> set (snd (custom_evaluate now ev (custom_run eng h)))"
  shows "\<exists>es. subseq es (of_storyline (storyline_id_of ev) (h @ [(now, ev)])) \<and> es \<noteq> [] \<and>
    last es = (now, ev) \<and> fits steps es \<and> now - fst (hd es) \<le> ce_sequence_timeout eng"
  using custom_evaluate_backed(2) [OF custom_run_backed [OF assms(1-3), of h], of now ev] assms(2-4)
  by (simp add: custom_run_config)

text \<open>
  A sequence that happens is reported. When the events given to a fresh engine match the steps
  of a sequence rule one by one, in one storyline and within the time-out, the rule is reported at
  the last of them, and not before.
\<close>

theorem sequence_rule_complete:
  assumes "ce_sequence_state eng = []" and "sequence_rule (ce_rules eng) name steps"
    and "0 \<le> ce_sequence_timeout eng" and "fits steps es" and "prompt (ce_sequence_timeout eng) sid es"
    and "k < length steps"
  shows "name \<in> set (snd (custom_evaluate (fst (es ! k)) (snd (es ! k)) (custom_run eng (take k es)))) \<longleftrightarrow>
    Suc k = length steps"
  by (rule sequence_progress(2) [OF assms])

section \<open>Witnesses\<close>

definition two_step_engine :: custom_rule_engine where
  "two_step_engine = add_rule
     \<lparr>cr_name = ''drop'', cr_description = [], cr_conditions = [Sequence [ProcessName ''sh'', FilePath ''/x'']],
      cr_action = ''alert''\<rparr> custom_new"

definition sh_context :: process_context where
  "sh_context = process_context_new 7 1 ''sh'' ''/bin/sh'' [] ''u'' (StorylineId 3)"

definition sh_login :: riggs_event where
  "sh_login = new_auth (EventId 1) 1 Login sh_context ''u'' ''pam''"

definition sh_write :: riggs_event where
  "sh_write = new_file (EventId 2) 2 Modify sh_context ''/x'' None"

lemma two_step_engine_rule:
  "sequence_rule (ce_rules two_step_engine) ''drop'' [ProcessName ''sh'', FilePath ''/x'']"
  unfolding sequence_rule_def by (rule exI [of _ "[]"]) (simp add: two_step_engine_def add_rule_def custom_new_def)

theorem sequence_rule_sound_witness:
  "\<exists>es. subseq es (of_storyline (StorylineId 3) ([(1, sh_login)] @ [(seconds 5, sh_write)])) \<and> es \<noteq> [] \<and>
     last es = (seconds 5, sh_write) \<and> fits [ProcessName ''sh'', FilePath ''/x''] es \<and>
     seconds 5 - fst (hd es) \<le> ce_sequence_timeout two_step_engine"
proof -
  have "storyline_id_of sh_write = StorylineId 3" by code_simp
  moreover have "ce_sequence_state two_step_engine = []" "0 \<le> ce_sequence_timeout two_step_engine" by code_simp+
  moreover have "''drop'' \<in> set (snd (custom_evaluate (seconds 5) sh_write (custom_run two_step_engine [(1, sh_login)])))"
    by code_simp
  ultimately show ?thesis using sequence_rule_sound [of two_step_engine] two_step_engine_rule by metis
qed

theorem sequence_rule_complete_witness:
  "''drop'' \<in> set (snd (custom_evaluate (seconds 5) sh_write (custom_run two_step_engine [(1, sh_login)])))"
proof -
  let ?es = "[(1, sh_login), (seconds 5, sh_write)]"
  have "ce_sequence_state two_step_engine = []" "0 \<le> ce_sequence_timeout two_step_engine" by code_simp+
  moreover have "fits [ProcessName ''sh'', FilePath ''/x''] ?es" "prompt (ce_sequence_timeout two_step_engine) (StorylineId 3) ?es"
    unfolding fits_def prompt_def by code_simp+
  ultimately show ?thesis
    using sequence_rule_complete [OF _ two_step_engine_rule, of ?es "StorylineId 3" 1] by simp
qed

end
