(* ===== verification/Text_Ops.thy ===== *)
theory Text_Ops
  imports Prelude
begin

text \<open>
  More string operations of the Rust library, for the components that read text formats: lines,
  splitting at a string, searching, trimming given characters, and what trimming white space does
  to text that has none at its ends. Also the loop idiom that keeps first occurrences.
\<close>

section \<open>Operations\<close>

text \<open>\<^verbatim>\<open>str::lines\<close>: a line ends at a newline, a carriage return before
  it belongs to the line end, and a last line without a newline is taken as it is.\<close>

definition str_lines :: "string \<Rightarrow> string list" where
  "str_lines text =
     (let ls = split_by (\<lambda>c. c = CHR 0x0A) text
      in map (\<lambda>l. if l \<noteq> [] \<and> last l = CHR 0x0D then butlast l else l) (butlast ls)
         @ (if last ls = [] then [] else [last ls]))"

text \<open>\<^verbatim>\<open>str::find\<close> with a string: the text before and after its first occurrence.\<close>

fun break_at :: "string \<Rightarrow> string \<Rightarrow> (string \<times> string) option" where
  "break_at p [] = (if p = [] then Some ([], []) else None)"
| "break_at p (c # s) =
     (if starts_with (c # s) p then Some ([], drop (length p) (c # s))
      else map_option (\<lambda>(a, b). (c # a, b)) (break_at p s))"

lemma break_at_shorter: "break_at p s = Some (a, b) \<Longrightarrow> s = a @ p @ b"
proof (induction s arbitrary: a)
  case Nil
  then show ?case by (auto split: if_splits)
next
  case (Cons c s)
  then show ?case by (cases "starts_with (c # s) p") (auto simp: starts_with_iff)
qed

text \<open>\<^verbatim>\<open>str::split\<close> with a separator string that is not empty.\<close>

function split_str :: "string \<Rightarrow> string \<Rightarrow> string list" where
  "split_str p s =
     (if p = [] then [s]
      else case break_at p s of None \<Rightarrow> [s] | Some (a, b) \<Rightarrow> a # split_str p b)"
  by pat_completeness auto
termination
  by (relation "measure (\<lambda>(p, s). length s)") (auto dest!: break_at_shorter)

declare split_str.simps [simp del]

definition strip_suffix :: "string \<Rightarrow> string \<Rightarrow> string option" where
  "strip_suffix s p = (if ends_with s p then Some (take (length s - length p) s) else None)"

definition trim_start_matches :: "char list \<Rightarrow> string \<Rightarrow> string" where
  "trim_start_matches cs s = dropWhile (\<lambda>c. c \<in> set cs) s"

definition trim_matches :: "char list \<Rightarrow> string \<Rightarrow> string" where
  "trim_matches cs s = rev (dropWhile (\<lambda>c. c \<in> set cs) (rev (dropWhile (\<lambda>c. c \<in> set cs) s)))"

definition replace_char :: "char \<Rightarrow> char \<Rightarrow> string \<Rightarrow> string" where
  "replace_char c d s = map (\<lambda>x. if x = c then d else x) s"

text \<open>\<^verbatim>\<open>Iterator::find_map\<close>.\<close>

fun find_map :: "('a \<Rightarrow> 'b option) \<Rightarrow> 'a list \<Rightarrow> 'b option" where
  "find_map f [] = None"
| "find_map f (x # xs) = (case f x of Some y \<Rightarrow> Some y | None \<Rightarrow> find_map f xs)"

text \<open>Keeping the first occurrence of each element, as the loops with a \<^verbatim>\<open>seen\<close> set do.\<close>

definition first_occurrences :: "'a list \<Rightarrow> 'a list" where
  "first_occurrences xs = rev (remdups (rev xs))"

lemma set_first_occurrences [simp]: "set (first_occurrences xs) = set xs"
  by (simp add: first_occurrences_def)

lemma distinct_first_occurrences [simp]: "distinct (first_occurrences xs)"
  by (simp add: first_occurrences_def)

lemma first_occurrences_Nil [simp]: "first_occurrences xs = [] \<longleftrightarrow> xs = []"
  by (simp add: first_occurrences_def)

section \<open>Splitting\<close>

lemma split_by_append: "p c \<Longrightarrow> \<forall>d \<in> set a. \<not> p d \<Longrightarrow> split_by p (a @ c # b) = a # split_by p b"
  by (induction a) auto

lemma split_by_none: "\<forall>d \<in> set a. \<not> p d \<Longrightarrow> split_by p a = [a]"
  by (induction a) auto

section \<open>Trimming\<close>

text \<open>Printable ASCII: no white space begins or ends with such a byte.\<close>

definition solid :: "char \<Rightarrow> bool" where
  "solid c \<longleftrightarrow> 33 \<le> (of_char c :: nat) \<and> (of_char c :: nat) \<le> 126"

lemma whitespace_not_solid: "\<forall>w \<in> set whitespace. w \<noteq> [] \<and> \<not> solid (hd w) \<and> \<not> solid (last w)"
  by code_simp

lemma strip_any_solid:
  assumes "\<forall>w \<in> set ws. w \<noteq> [] \<longrightarrow> \<not> solid (hd w)" and "s \<noteq> []" and "solid (hd s)"
  shows "strip_any ws s = s"
proof -
  have "List.find (\<lambda>w. w \<noteq> [] \<and> starts_with s w) ws = None"
    using assms by (auto simp: find_None_iff starts_with_iff hd_append)
  then show ?thesis by (simp add: strip_any.simps)
qed

lemma trim_solid [simp]: "s \<noteq> [] \<Longrightarrow> solid (hd s) \<Longrightarrow> solid (last s) \<Longrightarrow> trim s = s"
  using whitespace_not_solid
  by (simp add: trim_def trim_start_def trim_end_def strip_any_solid hd_rev)

lemma find_unique:
  assumes "\<And>y. y \<in> set xs \<Longrightarrow> P y \<Longrightarrow> y = x" and "P x" and "x \<in> set xs"
  shows "List.find P xs = Some x"
proof (cases "List.find P xs")
  case None
  then show ?thesis using assms(2,3) by (auto simp: find_None_iff)
next
  case (Some y)
  then have "y \<in> set xs" "P y" by (auto simp: find_Some_iff)
  then show ?thesis using assms(1) Some by blast
qed

lemma trim_space: "trim (CHR '' '' # s) = trim s"
proof -
  have only: "\<forall>w \<in> set whitespace. w \<noteq> [] \<and> (hd w = CHR '' '' \<longrightarrow> w = '' '')"
    and listed: "'' '' \<in> set whitespace" by code_simp+
  have one: "w = '' ''" if "w \<in> set whitespace" "w \<noteq> [] \<and> starts_with (CHR '' '' # s) w" for w
    using only that by (cases w) (auto simp: starts_with_iff)
  have starts: "'' '' \<noteq> [] \<and> starts_with (CHR '' '' # s) '' ''" by (simp add: starts_with_iff)
  have "List.find (\<lambda>w. w \<noteq> [] \<and> starts_with (CHR '' '' # s) w) whitespace = Some '' ''"
    using one starts listed by (rule find_unique)
  then show ?thesis by (simp add: trim_def trim_start_def strip_any.simps [of _ "CHR '' '' # s"])
qed

end
