(* ===== verification/Rules_Stage.thy ===== *)
theory Rules_Stage
  imports Custom_Rules Text_Ops
begin

text \<open>
  \<^verbatim>\<open>riggs-rules\<close>: indicators of compromise (\<^verbatim>\<open>ioc.rs\<close>), the rules stage (\<^verbatim>\<open>stage.rs\<close>) and the reload of
  the rule sets (\<^verbatim>\<open>loader.rs\<close>). The Aho-Corasick automaton and the YARA scanner are code of other
  packages: the first is the argument \<open>aho\<close>, which builds from the patterns the function that
  lists the patterns found in an input, or fails; the second is the argument \<open>yara\<close>, what the scan
  task returns for a path.
\<close>

section \<open>Indicators\<close>

datatype ioc_type = Ioc_Sha256 | Ioc_Md5 | Ioc_Domain | Ioc_IpAddress | Ioc_Url | Ioc_FilePath

record ioc =
  ioc_kind :: ioc_type
  ioc_value :: string
  ioc_description :: string
  ioc_severity :: severity

record ioc_matcher =
  im_automaton :: "string \<Rightarrow> nat list"
  im_iocs :: "ioc list"

definition ioc_new :: "(string list \<Rightarrow> (string \<Rightarrow> nat list) option) \<Rightarrow> ioc list \<Rightarrow> ioc_matcher" where
  "ioc_new aho iocs0 =
     (let iocs = filter (\<lambda>i. ioc_value i \<noteq> []) iocs0
      in case aho (map ioc_value iocs) of
           Some automaton \<Rightarrow> \<lparr>im_automaton = automaton, im_iocs = iocs\<rparr>
         | None \<Rightarrow> \<lparr>im_automaton = (\<lambda>_. []), im_iocs = []\<rparr>)"

text \<open>
  A matcher hands out references into its vector, and the second loop compares their addresses:
  a reference is the index of its element here.
\<close>

definition check_string :: "ioc_matcher \<Rightarrow> string \<Rightarrow> nat list" where
  "check_string m input = first_occurrences (im_automaton m input)"

definition parent_indicators :: "process_context option \<Rightarrow> string list" where
  "parent_indicators p = (case p of Some c \<Rightarrow> [pc_name c, pc_path c] | None \<Rightarrow> [])"

fun extract_indicators :: "riggs_event \<Rightarrow> string list" where
  "extract_indicators (Process e) =
     [pc_name (pe_context e), pc_path (pe_context e), pc_cmdline (pe_context e)] @ parent_indicators (pe_parent e)"
| "extract_indicators (File e) =
     [pc_name (fe_context e), pc_path (fe_context e), fe_path e] @
     (case fe_hash e of Some h \<Rightarrow> [h] | None \<Rightarrow> [])"
| "extract_indicators (Network e) =
     [pc_name (ne_context e), pc_path (ne_context e), ne_src_addr e, ne_dst_addr e]"
| "extract_indicators (Dns e) =
     [pc_name (de_context e), pc_path (de_context e), de_query e, de_response e]"
| "extract_indicators (Auth e) = [pc_name (ae_context e), pc_path (ae_context e), ae_user e]"
| "extract_indicators (Kernel e) = [pc_name (ke_context e), pc_path (ke_context e), ke_detail e]"

definition check_event :: "ioc_matcher \<Rightarrow> riggs_event \<Rightarrow> ioc list" where
  "check_event m ev =
     map (\<lambda>i. im_iocs m ! i) (first_occurrences (concat (map (check_string m) (extract_indicators ev))))"

section \<open>Lists of indicators in text files\<close>

text \<open>\<^verbatim>\<open>value.replace("[.]", ".")\<close>.\<close>

function refang :: "string \<Rightarrow> string" where
  "refang [] = []"
| "refang (c # s) =
     (if starts_with (c # s) ''[.]'' then CHR ''.'' # refang (drop 2 s) else c # refang s)"
  by pat_completeness auto
termination by (relation "measure length") auto

definition ioc_type_of :: "string \<Rightarrow> ioc_type option" where
  "ioc_type_of kind =
     (if kind = ''sha256'' then Some Ioc_Sha256
      else if kind = ''md5'' then Some Ioc_Md5
      else if kind = ''ip'' then Some Ioc_IpAddress
      else if kind = ''domain'' then Some Ioc_Domain
      else if kind = ''url'' then Some Ioc_Url
      else if kind = ''file_path'' then Some Ioc_FilePath
      else None)"

definition severity_of :: "string \<Rightarrow> severity option" where
  "severity_of s =
     (if s = ''info'' then Some Info
      else if s = ''low'' then Some Low
      else if s = ''medium'' then Some Medium
      else if s = ''high'' then Some High
      else if s = ''critical'' then Some Critical
      else None)"

definition parse_ioc_line :: "string \<Rightarrow> ioc option" where
  "parse_ioc_line line =
     (case split_once (CHR '':'') line of
        None \<Rightarrow> None
      | Some (kind, rest) \<Rightarrow>
          (case ioc_type_of kind of
             None \<Rightarrow> None
           | Some t \<Rightarrow>
               let (raw, sev) =
                     (case rsplit_once (CHR '':'') rest of
                        Some (v, s) \<Rightarrow>
                          (case severity_of s of Some sv \<Rightarrow> (v, sv) | None \<Rightarrow> (rest, High))
                      | None \<Rightarrow> (rest, High));
                   v = refang raw
               in if v = [] then None
                  else Some \<lparr>ioc_kind = t, ioc_value = v,
                             ioc_description = ''local IOC list ('' @ kind @ '')'', ioc_severity = sev\<rparr>))"

definition ioc_lines :: "string \<Rightarrow> ioc list" where
  "ioc_lines text =
     List.map_filter parse_ioc_line
       (filter (\<lambda>l. l \<noteq> [] \<and> \<not> starts_with l ''#'') (map trim (str_lines text)))"

text \<open>\<^verbatim>\<open>load_dir\<close> on what reading each list gave, in the order of the files.\<close>

definition ioc_load_dir ::
  "(string list \<Rightarrow> (string \<Rightarrow> nat list) option) \<Rightarrow> string option list \<Rightarrow> ioc_matcher" where
  "ioc_load_dir aho files =
     ioc_new aho (concat (map (\<lambda>f. case f of Some text \<Rightarrow> ioc_lines text | None \<Rightarrow> []) files))"

section \<open>The stage\<close>

fun severity_to_threat_level :: "severity \<Rightarrow> threat_level" where
  "severity_to_threat_level Info = Suspicious"
| "severity_to_threat_level Low = Suspicious"
| "severity_to_threat_level Medium = Suspicious"
| "severity_to_threat_level High = Malicious"
| "severity_to_threat_level Critical = Malicious"

fun severity_to_confidence :: "severity \<Rightarrow> f32" where
  "severity_to_confidence Info = f32_lit (3 / 10)"
| "severity_to_confidence Low = f32_lit (4 / 10)"
| "severity_to_confidence Medium = f32_lit (6 / 10)"
| "severity_to_confidence High = f32_lit (8 / 10)"
| "severity_to_confidence Critical = f32_lit (95 / 100)"

definition stage_verdict_of :: "verdict \<Rightarrow> stage_verdict" where
  "stage_verdict_of v =
     (case v_threat_level v of
        Malicious \<Rightarrow> SV_Malicious v | Suspicious \<Rightarrow> SV_Suspicious v | Clean \<Rightarrow> SV_Clean)"

text \<open>\<^verbatim>\<open>max_by\<close> keeps the last of the greatest elements.\<close>

definition stronger :: "verdict \<Rightarrow> verdict \<Rightarrow> bool" where
  "stronger a b \<longleftrightarrow>
     v_threat_level b < v_threat_level a \<or>
     v_threat_level a = v_threat_level b \<and> \<not> f32_total_le (v_confidence a) (v_confidence b)"

fun strongest :: "verdict list \<Rightarrow> verdict option" where
  "strongest [] = None"
| "strongest (v # vs) = Some (foldl (\<lambda>a b. if stronger a b then a else b) v vs)"

record rules_stage =
  rs_ioc :: "ioc_matcher option"
  rs_local_ioc :: "ioc_matcher option"
  rs_custom :: "custom_rule_engine option"

definition ioc_hits :: "rules_stage \<Rightarrow> riggs_event \<Rightarrow> ioc list" where
  "ioc_hits s ev =
     concat (map (\<lambda>m. check_event m ev)
       ((case rs_ioc s of Some m \<Rightarrow> [m] | None \<Rightarrow> []) @ (case rs_local_ioc s of Some m \<Rightarrow> [m] | None \<Rightarrow> [])))"

definition ioc_candidates :: "timestamp \<Rightarrow> rules_stage \<Rightarrow> riggs_event \<Rightarrow> verdict list" where
  "ioc_candidates now s ev =
     (let hits = ioc_hits s ev in
      if hits = [] then []
      else let worst = (case iter_max (map ioc_severity hits) of Some x \<Rightarrow> x | None \<Rightarrow> Low)
        in [\<lparr>v_event_id = event_id_of ev, v_threat_level = severity_to_threat_level worst,
             v_confidence = severity_to_confidence worst, v_source = IocMatch,
             v_description = ''IOC matches: '' @
               join ''; '' (map (\<lambda>i. ioc_value i @ '': '' @ ioc_description i) hits),
             v_timestamp = now\<rparr>])"

definition custom_candidates ::
  "timestamp \<Rightarrow> timestamp \<Rightarrow> rules_stage \<Rightarrow> riggs_event \<Rightarrow> rules_stage \<times> verdict list" where
  "custom_candidates now_eval now s ev =
     (case rs_custom s of
        None \<Rightarrow> (s, [])
      | Some eng \<Rightarrow>
          let (eng', matched) = custom_evaluate now_eval ev eng
          in (s\<lparr>rs_custom := Some eng'\<rparr>,
              if matched = [] then []
              else [\<lparr>v_event_id = event_id_of ev, v_threat_level = Suspicious,
                     v_confidence = f32_lit (7 / 10), v_source = CustomRule,
                     v_description = ''Custom rules matched: '' @ join '', '' matched,
                     v_timestamp = now\<rparr>]))"

text \<open>The path whose content is scanned, for the file actions that may have changed it.\<close>

fun scanned_path :: "riggs_event \<Rightarrow> string option" where
  "scanned_path (File fe) =
     (if fe_action fe \<in> {Create, Modify, Rename, Scan} then Some (fe_path fe) else None)"
| "scanned_path _ = None"

text \<open>
  The scan task fails as a whole (outer \<^verbatim>\<open>Inl\<close>), the scan of the file fails (inner \<^verbatim>\<open>Inl\<close>), or it
  gives the names of the matching rules, none for a path that is not a file.
\<close>

type_synonym yara_scan = "string \<Rightarrow> string + riggs_error + string list"

definition yara_candidates ::
  "yara_scan option \<Rightarrow> timestamp \<Rightarrow> riggs_event \<Rightarrow> riggs_error + verdict list" where
  "yara_candidates yara now ev =
     (case (yara, scanned_path ev) of
        (Some scan, Some path) \<Rightarrow>
          (case scan path of
             Inl e \<Rightarrow> Inl (Engine (''YARA scan task failed: '' @ e))
           | Inr (Inl e) \<Rightarrow> Inr []
           | Inr (Inr names) \<Rightarrow>
               Inr (if names = [] then []
                    else [\<lparr>v_event_id = event_id_of ev, v_threat_level = Malicious,
                           v_confidence = f32_lit (9 / 10), v_source = YaraRule,
                           v_description = ''YARA rules matched: '' @ join '', '' names,
                           v_timestamp = now\<rparr>]))
      | _ \<Rightarrow> Inr [])"

text \<open>\<open>clock\<close> gives the successive readings of the clock.\<close>

definition rules_analyze ::
  "yara_scan option \<Rightarrow> (nat \<Rightarrow> timestamp) \<Rightarrow> rules_stage \<Rightarrow> riggs_event \<Rightarrow> rules_stage \<times> analysis" where
  "rules_analyze yara clock s ev =
     (let from_iocs = ioc_candidates (clock 0) s ev;
          (s', from_rules) = custom_candidates (clock 1) (clock 2) s ev
      in (s', case yara_candidates yara (clock 3) ev of
                Inl e \<Rightarrow> Inl e
              | Inr from_yara \<Rightarrow>
                  Inr (case strongest (from_iocs @ from_rules @ from_yara) of
                         Some v \<Rightarrow> stage_verdict_of v
                       | None \<Rightarrow> SV_Clean)))"

section \<open>Reloading the rule sets\<close>

definition YARA_EXTENSIONS :: "string list" where "YARA_EXTENSIONS = [''yar'', ''yara'']"
definition CUSTOM_RULE_EXTENSIONS :: "string list" where "CUSTOM_RULE_EXTENSIONS = [''toml'']"
definition IOC_EXTENSIONS :: "string list" where "IOC_EXTENSIONS = [''ioc'']"

definition has_extension :: "string \<Rightarrow> string list \<Rightarrow> bool" where
  "has_extension path exts = (case path_extension path of Some e \<Rightarrow> e \<in> set exts | None \<Rightarrow> False)"

record 'y rule_sets =
  rl_yara :: "'y option"
  rl_local_ioc :: "ioc_matcher option"
  rl_custom :: "custom_rule_engine option"

text \<open>
  \<^verbatim>\<open>reload_affected\<close>, given what compiling the YARA rules and loading the other sets anew from the
  directory yields at that moment.
\<close>

definition reload_affected ::
  "(riggs_error + 'y) \<Rightarrow> ioc_matcher \<Rightarrow> custom_rule_engine \<Rightarrow> string list \<Rightarrow> 'y rule_sets \<Rightarrow> 'y rule_sets" where
  "reload_affected fresh_yara fresh_ioc fresh_custom paths rl =
     (let touches = (\<lambda>exts. list_ex (\<lambda>p. has_extension p exts) paths)
      in \<lparr>rl_yara =
            (if touches YARA_EXTENSIONS
             then (case fresh_yara of Inr y \<Rightarrow> map_option (\<lambda>_. y) (rl_yara rl) | Inl _ \<Rightarrow> rl_yara rl)
             else rl_yara rl),
          rl_local_ioc =
            (if touches IOC_EXTENSIONS then map_option (\<lambda>_. fresh_ioc) (rl_local_ioc rl) else rl_local_ioc rl),
          rl_custom =
            (if touches CUSTOM_RULE_EXTENSIONS then map_option (\<lambda>_. fresh_custom) (rl_custom rl)
             else rl_custom rl)\<rparr>)"

section \<open>The strongest verdict\<close>

lemma foldl_stronger:
  "foldl (\<lambda>a b. if stronger a b then a else b) v vs \<in> insert v (set vs) \<and>
   (\<forall>u \<in> insert v (set vs).
      v_threat_level u \<le> v_threat_level (foldl (\<lambda>a b. if stronger a b then a else b) v vs))"
proof (induction vs arbitrary: v)
  case (Cons w vs)
  let ?x = "if stronger v w then v else w"
  have "v_threat_level v \<le> v_threat_level ?x" "v_threat_level w \<le> v_threat_level ?x"
    by (auto simp: stronger_def)
  with Cons [of ?x] show ?case by (auto intro: order_trans split: if_splits)
qed simp

lemma strongest_Some:
  "strongest vs = Some v \<Longrightarrow> v \<in> set vs \<and> (\<forall>u \<in> set vs. v_threat_level u \<le> v_threat_level v)"
  using foldl_stronger by (cases vs) fastforce+

lemma strongest_None [simp]: "strongest vs = None \<longleftrightarrow> vs = []"
  by (cases vs) auto

lemma level_of_strongest:
  "level_of (Inr (case strongest vs of Some v \<Rightarrow> stage_verdict_of v | None \<Rightarrow> SV_Clean)) =
     (case iter_max (map v_threat_level vs) of Some l \<Rightarrow> l | None \<Rightarrow> Clean)"
proof (cases "strongest vs")
  case (Some v)
  note v = strongest_Some [OF this]
  obtain l where l: "iter_max (map v_threat_level vs) = Some l" using Some by (cases "iter_max (map v_threat_level vs)") auto
  have "l = v_threat_level v" using iter_max_Some [OF l] v by (auto intro: antisym)
  with Some l show ?thesis by (cases "v_threat_level v") (simp_all add: stage_verdict_of_def)
qed simp

lemma candidate_usable:
  "u \<in> set (ioc_candidates now s ev) \<Longrightarrow> usable u \<and> v_event_id u = event_id_of ev"
  "u \<in> set (snd (custom_candidates now' now s ev)) \<Longrightarrow> usable u \<and> v_event_id u = event_id_of ev"
  "yara_candidates yara now ev = Inr us \<Longrightarrow> u \<in> set us \<Longrightarrow> usable u \<and> v_event_id u = event_id_of ev"
proof -
  have "usable v" if "v_confidence v = severity_to_confidence x" for x v
    using that by (cases x) (simp_all add: usable_def f32_lits)
  then show "u \<in> set (ioc_candidates now s ev) \<Longrightarrow> usable u \<and> v_event_id u = event_id_of ev"
    by (auto simp: ioc_candidates_def Let_def split: if_splits)
  show "u \<in> set (snd (custom_candidates now' now s ev)) \<Longrightarrow> usable u \<and> v_event_id u = event_id_of ev"
    by (auto simp: custom_candidates_def Let_def usable_def f32_lits split: option.splits prod.splits if_splits)
  show "yara_candidates yara now ev = Inr us \<Longrightarrow> u \<in> set us \<Longrightarrow> usable u \<and> v_event_id u = event_id_of ev"
    by (auto simp: yara_candidates_def usable_def f32_lits split: option.splits sum.splits if_splits)
qed

lemma rules_analyze_reported: "well_reported ev (snd (rules_analyze yara clock s ev))"
proof (cases "yara_candidates yara (clock 3) ev")
  case (Inl e)
  then show ?thesis by (simp add: rules_analyze_def well_reported_def Let_def case_prod_beta)
next
  case (Inr us)
  let ?vs = "ioc_candidates (clock 0) s ev @ snd (custom_candidates (clock 1) (clock 2) s ev) @ us"
  have ok: "usable u \<and> v_event_id u = event_id_of ev" if "u \<in> set ?vs" for u
    using that candidate_usable(1,2) candidate_usable(3) [OF Inr] by (metis Un_iff set_append)
  have "snd (rules_analyze yara clock s ev) =
      Inr (case strongest ?vs of Some v \<Rightarrow> stage_verdict_of v | None \<Rightarrow> SV_Clean)"
    by (simp add: rules_analyze_def Inr Let_def case_prod_beta)
  then show ?thesis
    using ok strongest_Some [of ?vs]
    by (auto simp: well_reported_def reports_def stage_verdict_of_def split: option.splits threat_level.splits)
qed

interpretation rules_stage_contract: detection_stage "rules_analyze yara clock"
  for yara :: "yara_scan option" and clock :: "nat \<Rightarrow> timestamp"
  by unfold_locales (rule rules_analyze_reported)

lemma worst_hit:
  "hits \<noteq> [] \<Longrightarrow> severity_to_threat_level
     (case iter_max (map ioc_severity hits) of Some x \<Rightarrow> x | None \<Rightarrow> Low) =
     (if \<exists>i \<in> set hits. High \<le> ioc_severity i then Malicious else Suspicious)"
proof -
  assume "hits \<noteq> []"
  then obtain w where w: "iter_max (map ioc_severity hits) = Some w"
    by (cases "iter_max (map ioc_severity hits)") auto
  have "(\<exists>i \<in> set hits. High \<le> ioc_severity i) \<longleftrightarrow> High \<le> w" using iter_max_Some [OF w] by (auto intro: order_trans)
  with w show ?thesis by (cases w) (simp_all add: less_eq_severity_def)
qed

section \<open>Matching indicators\<close>

text \<open>
  What the documentation of the Aho-Corasick package promises of an automaton built from patterns
  that are not empty: it only reports patterns that occur in the input, by their index, and it
  reports something when one of them occurs.
\<close>

definition aho_documented :: "(string list \<Rightarrow> (string \<Rightarrow> nat list) option) \<Rightarrow> bool" where
  "aho_documented aho \<longleftrightarrow>
     (\<forall>ps automaton input. aho ps = Some automaton \<longrightarrow>
        (\<forall>i \<in> set (automaton input). i < length ps \<and> str_contains input (ps ! i)) \<and>
        ((\<exists>p \<in> set ps. str_contains input p) \<longrightarrow> automaton input \<noteq> []))"

lemma check_event_hits:
  assumes "aho_documented aho" and "aho (map ioc_value (filter (\<lambda>i. ioc_value i \<noteq> []) iocs)) \<noteq> None"
  shows "\<forall>x \<in> set (check_event (ioc_new aho iocs) ev).
      x \<in> set iocs \<and> (\<exists>ind \<in> set (extract_indicators ev). str_contains ind (ioc_value x))"
    and "x \<in> set iocs \<Longrightarrow> ioc_value x \<noteq> [] \<Longrightarrow> ind \<in> set (extract_indicators ev) \<Longrightarrow>
      str_contains ind (ioc_value x) \<Longrightarrow> check_event (ioc_new aho iocs) ev \<noteq> []"
proof -
  let ?iocs = "filter (\<lambda>i. ioc_value i \<noteq> []) iocs"
  obtain a where a: "aho (map ioc_value ?iocs) = Some a" using assms(2) by auto
  then have new: "ioc_new aho iocs = \<lparr>im_automaton = a, im_iocs = ?iocs\<rparr>" by (simp add: ioc_new_def)
  have found: "i < length ?iocs \<and> str_contains input (ioc_value (?iocs ! i))" if "i \<in> set (a input)" for i input
  proof -
    have "i < length (map ioc_value ?iocs) \<and> str_contains input (map ioc_value ?iocs ! i)"
      using assms(1) a that unfolding aho_documented_def by blast
    then show ?thesis by (auto simp: nth_map)
  qed
  have some: "a input \<noteq> []" if "x \<in> set ?iocs" "str_contains input (ioc_value x)" for x input
  proof -
    have "\<exists>p \<in> set (map ioc_value ?iocs). str_contains input p" using that by auto
    then show ?thesis using assms(1) a unfolding aho_documented_def by blast
  qed
  show "\<forall>x \<in> set (check_event (ioc_new aho iocs) ev).
      x \<in> set iocs \<and> (\<exists>ind \<in> set (extract_indicators ev). str_contains ind (ioc_value x))"
  proof
    fix x assume "x \<in> set (check_event (ioc_new aho iocs) ev)"
    then obtain i ind where "x = ?iocs ! i" "ind \<in> set (extract_indicators ev)" "i \<in> set (a ind)"
      by (auto simp: new check_event_def check_string_def)
    with found show "x \<in> set iocs \<and> (\<exists>ind \<in> set (extract_indicators ev). str_contains ind (ioc_value x))"
      by (metis filter_is_subset nth_mem subsetD)
  qed
  assume "x \<in> set iocs" "ioc_value x \<noteq> []" "ind \<in> set (extract_indicators ev)" "str_contains ind (ioc_value x)"
  moreover from this have "a ind \<noteq> []" using some by simp
  ultimately have "concat (map (check_string (ioc_new aho iocs)) (extract_indicators ev)) \<noteq> []"
    by (force simp: new check_string_def first_occurrences_def)
  then show "check_event (ioc_new aho iocs) ev \<noteq> []"
    by (simp add: check_event_def first_occurrences_def del: concat_eq_Nil_conv)
qed

lemma rules_level:
  assumes "yara_candidates yara (clock 3) ev = Inr from_yara"
  shows "level_of (snd (rules_analyze yara clock s ev)) =
    (if from_yara \<noteq> [] \<or> (\<exists>i \<in> set (ioc_hits s ev). High \<le> ioc_severity i) then Malicious
     else if ioc_hits s ev \<noteq> [] \<or>
        (case rs_custom s of Some eng \<Rightarrow> snd (custom_evaluate (clock 1) ev eng) \<noteq> [] | None \<Rightarrow> False)
     then Suspicious else Clean)"
proof -
  let ?i = "ioc_candidates (clock 0) s ev" and ?c = "snd (custom_candidates (clock 1) (clock 2) s ev)"
  let ?rule = "case rs_custom s of Some eng \<Rightarrow> snd (custom_evaluate (clock 1) ev eng) \<noteq> [] | None \<Rightarrow> False"
  have i: "map v_threat_level ?i = (if ioc_hits s ev = [] then []
      else [if \<exists>i \<in> set (ioc_hits s ev). High \<le> ioc_severity i then Malicious else Suspicious])"
    using worst_hit [of "ioc_hits s ev"] by (simp add: ioc_candidates_def Let_def)
  have c: "map v_threat_level ?c = (if ?rule then [Suspicious] else [])"
    by (auto simp: custom_candidates_def Let_def split: option.splits prod.splits)
  have y: "map v_threat_level from_yara = (if from_yara = [] then [] else [Malicious])"
    using assms by (auto simp: yara_candidates_def split: option.splits sum.splits if_splits)
  have "level_of (snd (rules_analyze yara clock s ev)) =
      (case iter_max (map v_threat_level ?i @ map v_threat_level ?c @ map v_threat_level from_yara) of
         Some l \<Rightarrow> l | None \<Rightarrow> Clean)"
    by (simp add: rules_analyze_def assms Let_def case_prod_beta level_of_strongest del: level_of.simps)
  also have "\<dots> = (if from_yara \<noteq> [] \<or> (\<exists>i \<in> set (ioc_hits s ev). High \<le> ioc_severity i) then Malicious
     else if ioc_hits s ev \<noteq> [] \<or> ?rule then Suspicious else Clean)"
    unfolding i c y by (auto simp: max_def less_eq_threat_level_def)
  finally show ?thesis .
qed

section \<open>Properties\<close>

text \<open>
  The rules stage reports the strongest finding. Unless the scan task itself fails, the level is
  Malicious exactly when a YARA rule matches the scanned file or an indicator of high or critical
  severity hits, otherwise Suspicious exactly when some indicator or custom rule matches, and
  otherwise Clean: a weak hit never hides a strong one.
\<close>

theorem rules_stage_level:
  assumes "yara_candidates yara (clock 3) ev = Inr from_yara"
  shows "level_of (snd (rules_analyze yara clock s ev)) =
    (if from_yara \<noteq> [] \<or> (\<exists>i \<in> set (ioc_hits s ev). High \<le> ioc_severity i) then Malicious
     else if ioc_hits s ev \<noteq> [] \<or>
        (case rs_custom s of Some eng \<Rightarrow> snd (custom_evaluate (clock 1) ev eng) \<noteq> [] | None \<Rightarrow> False)
     then Suspicious else Clean)"
  using assms by (rule rules_level [where clock = clock])


section \<open>Indicator lists: writing and reading\<close>

text \<open>
  A line of an indicator list, as the format of the lists asks for it: the kind, the defanged value
  and the severity.
\<close>

fun defang :: "string \<Rightarrow> string" where
  "defang [] = []"
| "defang (c # s) = (if c = CHR ''.'' then ''[.]'' @ defang s else c # defang s)"

fun kind_name :: "ioc_type \<Rightarrow> string" where
  "kind_name Ioc_Sha256 = ''sha256''"
| "kind_name Ioc_Md5 = ''md5''"
| "kind_name Ioc_Domain = ''domain''"
| "kind_name Ioc_IpAddress = ''ip''"
| "kind_name Ioc_Url = ''url''"
| "kind_name Ioc_FilePath = ''file_path''"

fun severity_name :: "severity \<Rightarrow> string" where
  "severity_name Info = ''info''"
| "severity_name Low = ''low''"
| "severity_name Medium = ''medium''"
| "severity_name High = ''high''"
| "severity_name Critical = ''critical''"

definition print_ioc_line :: "ioc_type \<Rightarrow> string \<Rightarrow> severity \<Rightarrow> string" where
  "print_ioc_line t v sev = kind_name t @ '':'' @ defang v @ '':'' @ severity_name sev"

lemma defang_no_dot: "defang s = c # r \<Longrightarrow> c \<noteq> CHR ''.''"
  by (cases s) (auto split: if_splits)

lemma refang_defang [simp]: "refang (defang s) = s"
proof (induction s)
  case (Cons c s)
  show ?case
  proof (cases "c = CHR ''.''")
    case True
    then have "defang (c # s) = CHR ''['' # CHR ''.'' # CHR '']'' # defang s" by simp
    moreover have "refang (CHR ''['' # CHR ''.'' # CHR '']'' # t) = CHR ''.'' # refang t" for t
      by (simp add: starts_with_def)
    ultimately show ?thesis using Cons True by simp
  next
    case False
    have "\<not> starts_with (c # defang s) ''[.]''"
      using defang_no_dot [of s] by (auto simp: starts_with_iff)
    with False Cons show ?thesis by simp
  qed
qed simp

lemma kind_name_inverse [simp]: "ioc_type_of (kind_name t) = Some t" "CHR '':'' \<notin> set (kind_name t)"
  by (cases t; simp add: ioc_type_of_def)+

lemma severity_name_inverse [simp]: "severity_of (severity_name x) = Some x" "CHR '':'' \<notin> set (severity_name x)"
  by (cases x; simp add: severity_of_def)+

text \<open>
  Indicator lists round-trip. A line that is written for an indicator of any kind and severity
  and any non-empty value, with its dots defanged and whatever colons it has, is read back as that
  indicator.
\<close>

theorem ioc_line_roundtrip:
  assumes "v \<noteq> []"
  shows "parse_ioc_line (print_ioc_line t v sev) =
    Some \<lparr>ioc_kind = t, ioc_value = v, ioc_description = ''local IOC list ('' @ kind_name t @ '')'',
          ioc_severity = sev\<rparr>"
proof -
  have "split_once (CHR '':'') (print_ioc_line t v sev) =
      Some (kind_name t, defang v @ CHR '':'' # severity_name sev)"
    by (simp add: split_once_Some_iff print_ioc_line_def)
  moreover have "rsplit_once (CHR '':'') (defang v @ CHR '':'' # severity_name sev) = Some (defang v, severity_name sev)"
    by (simp add: rsplit_once_Some_iff)
  ultimately show ?thesis using assms by (simp add: parse_ioc_line_def)
qed

section \<open>Witnesses\<close>

theorem ioc_line_roundtrip_witness:
  "parse_ioc_line (print_ioc_line Ioc_Url ''http://a.b'' Low) =
     Some \<lparr>ioc_kind = Ioc_Url, ioc_value = ''http://a.b'', ioc_description = ''local IOC list (url)'',
           ioc_severity = Low\<rparr>"
  using ioc_line_roundtrip [of "''http://a.b''" Ioc_Url Low] by simp

text \<open>An automaton that lists every pattern that occurs.\<close>

definition all_patterns :: "string list \<Rightarrow> (string \<Rightarrow> nat list) option" where
  "all_patterns ps = Some (\<lambda>input. filter (\<lambda>i. str_contains input (ps ! i)) [0..<length ps])"

lemma all_patterns_documented: "aho_documented all_patterns"
  by (force simp: aho_documented_def all_patterns_def filter_empty_conv in_set_conv_nth)

definition bad_domain :: ioc where
  "bad_domain = \<lparr>ioc_kind = Ioc_Domain, ioc_value = ''evil.test'', ioc_description = [], ioc_severity = Medium\<rparr>"

definition feed_stage :: rules_stage where
  "feed_stage =
     \<lparr>rs_ioc = Some (ioc_new all_patterns [bad_domain]), rs_local_ioc = None, rs_custom = None\<rparr>"

definition evil_lookup :: riggs_event where
  "evil_lookup = new_dns (EventId 1) 1 sh_context ''www.evil.test'' [] ''A''"

theorem rules_stage_level_witness:
  "level_of (snd (rules_analyze (Some (\<lambda>_. Inr (Inr [''Trojan'']))) (\<lambda>_. 5) feed_stage sh_write)) = Malicious"
proof -
  have "\<exists>vs. yara_candidates (Some (\<lambda>_. Inr (Inr [''Trojan'']))) 5 sh_write = Inr vs \<and> vs \<noteq> []"
    by (simp add: yara_candidates_def sh_write_def new_file_def)
  then show ?thesis
    using rules_stage_level [of "Some (\<lambda>_. Inr (Inr [''Trojan'']))" "\<lambda>_. 5" sh_write _ feed_stage] by auto
qed


end
