(* ===== verification/Intel.thy ===== *)
theory Intel
  imports Rules_Stage
begin

text \<open>
  Threat intelligence: \<^verbatim>\<open>riggs-intel/src/bloom.rs\<close> (the filter of known malware hashes), \<^verbatim>\<open>cache.rs\<close>
  (verdicts already looked up), \<^verbatim>\<open>rate_limit.rs\<close>, the clients of the services, \<^verbatim>\<open>feeds.rs\<close> and \<^verbatim>\<open>stage.rs\<close>,
  and the dispatcher of feed updates in \<^verbatim>\<open>riggs-daemon/src/daemon.rs\<close>. The hash functions, the sizes the
  filter computes in \<^verbatim>\<open>f64\<close> and what the services answer are arguments.
\<close>

section \<open>The Bloom filter\<close>

record bloom_filter =
  bf_bits :: "u64 list"
  bf_num_bits :: nat
  bf_num_hashes :: nat
  bf_count :: nat

text \<open>\<open>m\<close> and \<open>k\<close> are the sizes before the lower limits of the constructor apply.\<close>

definition bloom_new :: "nat \<Rightarrow> nat \<Rightarrow> bloom_filter" where
  "bloom_new m k =
     (let m' = max m 64
      in \<lparr>bf_bits = replicate ((m' + 63) div 64) 0, bf_num_bits = m', bf_num_hashes = max k 1, bf_count = 0\<rparr>)"

type_synonym double_hash = "string \<Rightarrow> u64 \<times> u64"

definition bit_index :: "bloom_filter \<Rightarrow> u64 \<Rightarrow> u64 \<Rightarrow> nat \<Rightarrow> nat" where
  "bit_index f h1 h2 i = unat (h1 + of_nat i * h2) mod bf_num_bits f"

definition set_bit_at :: "u64 list \<Rightarrow> nat \<Rightarrow> u64 list" where
  "set_bit_at bits idx = bits[idx div 64 := set_bit (idx mod 64) (bits ! (idx div 64))]"

definition bloom_insert :: "double_hash \<Rightarrow> bloom_filter \<Rightarrow> string \<Rightarrow> bloom_filter" where
  "bloom_insert dh f item =
     (let (h1, h2) = dh item
      in f\<lparr>bf_bits := foldl (\<lambda>bits i. set_bit_at bits (bit_index f h1 h2 i)) (bf_bits f) [0..<bf_num_hashes f],
          bf_count := bf_count f + 1\<rparr>)"

definition bloom_contains :: "double_hash \<Rightarrow> bloom_filter \<Rightarrow> string \<Rightarrow> bool" where
  "bloom_contains dh f item =
     (let (h1, h2) = dh item
      in list_all (\<lambda>i. bit (bf_bits f ! (bit_index f h1 h2 i div 64)) (bit_index f h1 h2 i mod 64))
           [0..<bf_num_hashes f])"

definition bloom_is_empty :: "bloom_filter \<Rightarrow> bool" where
  "bloom_is_empty f \<longleftrightarrow> bf_count f = 0"

definition bloom_clear :: "bloom_filter \<Rightarrow> bloom_filter" where
  "bloom_clear f = f\<lparr>bf_bits := map (\<lambda>_. 0) (bf_bits f), bf_count := 0\<rparr>"

section \<open>The rate limiter\<close>

text \<open>
  Instants are nanoseconds of the monotonic clock. A call reads the clock twice, before the
  decision to refill and when it notes the refill.
\<close>

record rate_limiter =
  rl_max_tokens :: nat
  rl_tokens :: nat
  rl_last_refill :: nat

definition u32_max :: nat where "u32_max = 4294967295"

definition REFILL_INTERVAL :: nat where "REFILL_INTERVAL = 60 * 1000000000"

definition rate_limiter_new :: "nat \<Rightarrow> nat \<Rightarrow> rate_limiter" where
  "rate_limiter_new per_minute now =
     \<lparr>rl_max_tokens = per_minute, rl_tokens = per_minute, rl_last_refill = now\<rparr>"

definition try_refill :: "nat \<times> nat \<Rightarrow> rate_limiter \<Rightarrow> rate_limiter" where
  "try_refill clock l =
     (let elapsed = fst clock - rl_last_refill l
      in if REFILL_INTERVAL \<le> elapsed then
           (let periods = ((elapsed div 1000000) div (REFILL_INTERVAL div 1000000)) mod (u32_max + 1);
                refill = min (periods * rl_max_tokens l) u32_max
            in l\<lparr>rl_tokens := min (min (rl_tokens l + refill) u32_max) (rl_max_tokens l),
                 rl_last_refill := snd clock\<rparr>)
         else l)"

definition try_acquire :: "nat \<times> nat \<Rightarrow> rate_limiter \<Rightarrow> rate_limiter \<times> bool" where
  "try_acquire clock l =
     (let l' = try_refill clock l
      in if rl_tokens l' = 0 then (l', False) else (l'\<lparr>rl_tokens := rl_tokens l' - 1\<rparr>, True))"

section \<open>The services\<close>

text \<open>What a request gives: no response, a response with an error status, or a body that decodes or not.\<close>

datatype 'b http_reply = RequestFailed string | NotFound | ErrorStatus string | Body "string + 'b"

record vt_stats =
  vt_malicious :: u32
  vt_suspicious :: u32
  vt_undetected :: u32
  vt_harmless :: u32
  vt_timeout :: u32
  vt_confirmed_timeout :: "u32 option"
  vt_failure :: "u32 option"
  vt_type_unsupported :: "u32 option"

record vt_result =
  malicious_count :: u32
  suspicious_count :: u32
  total_engines :: u32

definition u32_or_0 :: "u32 option \<Rightarrow> u32" where
  "u32_or_0 n = (case n of Some x \<Rightarrow> x | None \<Rightarrow> 0)"

definition vt_result_of :: "vt_stats \<Rightarrow> vt_result" where
  "vt_result_of s =
     \<lparr>malicious_count = vt_malicious s, suspicious_count = vt_suspicious s,
      total_engines = vt_malicious s + vt_suspicious s + vt_undetected s + vt_harmless s + vt_timeout s
        + u32_or_0 (vt_confirmed_timeout s) + u32_or_0 (vt_failure s) + u32_or_0 (vt_type_unsupported s)\<rparr>"

definition lookup_hash ::
  "nat \<times> nat \<Rightarrow> vt_stats option http_reply \<Rightarrow> rate_limiter \<Rightarrow> rate_limiter \<times> (riggs_error + vt_result option)"
where
  "lookup_hash clock reply l =
     (let (l', granted) = try_acquire clock l
      in (l',
          if \<not> granted then Inl (Intel ''VirusTotal quota (4 lookups a minute) exhausted'')
          else case reply of
            RequestFailed e \<Rightarrow> Inl (Intel (''VT request failed: '' @ e))
          | NotFound \<Rightarrow> Inr None
          | ErrorStatus st \<Rightarrow> Inl (Intel (''VT API returned status '' @ st))
          | Body (Inl e) \<Rightarrow> Inl (Intel (''VT response parse error: '' @ e))
          | Body (Inr None) \<Rightarrow> Inr None
          | Body (Inr (Some stats)) \<Rightarrow> Inr (Some (vt_result_of stats))))"

record abuse_ip_result =
  abuse_confidence_score :: u32
  total_reports :: u32
  is_tor :: bool

definition check_ip ::
  "nat \<times> nat \<Rightarrow> abuse_ip_result http_reply \<Rightarrow> rate_limiter \<Rightarrow> rate_limiter \<times> (riggs_error + abuse_ip_result option)"
where
  "check_ip clock reply l =
     (let (l', granted) = try_acquire clock l
      in (l',
          if \<not> granted then Inr None
          else case reply of
            RequestFailed e \<Rightarrow> Inl (Intel (''AbuseIPDB request failed: '' @ e))
          | NotFound \<Rightarrow> Inr None
          | ErrorStatus st \<Rightarrow> Inl (Intel (''AbuseIPDB API returned status '' @ st))
          | Body (Inl e) \<Rightarrow> Inl (Intel (''AbuseIPDB response parse error: '' @ e))
          | Body (Inr r) \<Rightarrow> Inr (Some r)))"

definition is_hex_digit :: "char \<Rightarrow> bool" where
  "is_hex_digit c \<longleftrightarrow> is_digit c \<or> c \<in> set ''abcdefABCDEF''"

definition unquote :: "string \<Rightarrow> string" where
  "unquote s = trim_matches [CHR 0x22] (trim s)"

definition sha256_hashes :: "string \<Rightarrow> string list" where
  "sha256_hashes csv =
     List.map_filter
       (\<lambda>line. map_option to_ascii_lowercase
          (List.find (\<lambda>f. length f = 64 \<and> list_all is_hex_digit f)
             (map unquote (split_by (\<lambda>c. c = CHR '','') line))))
       (filter (\<lambda>line. \<not> starts_with line ''#'') (str_lines csv))"

record urlhaus_entry =
  uh_url :: string
  uh_status :: string
  uh_threat :: string

definition parse_csv_line :: "string \<Rightarrow> urlhaus_entry option" where
  "parse_csv_line line =
     (let fields = split_str [CHR 0x22, CHR '','', CHR 0x22] (unquote line)
      in if length fields < 6 then None
         else Some \<lparr>uh_url = fields ! 2, uh_status = fields ! 3, uh_threat = fields ! 5\<rparr>)"

definition urlhaus_entries :: "string \<Rightarrow> urlhaus_entry list" where
  "urlhaus_entries text =
     List.map_filter parse_csv_line (filter (\<lambda>l. \<not> starts_with l ''#'' \<and> trim l \<noteq> []) (str_lines text))"

section \<open>The feeds\<close>

record ioc_entry =
  ie_type :: string
  ie_value :: string
  ie_description :: string
  ie_severity :: string

datatype feed_update = BloomFilterReady bloom_filter | IocBatch "ioc_entry list" | CveBatch "string list"

record feed_manager =
  fm_auth_key :: string
  fm_malwarebazaar_enabled :: bool
  fm_urlhaus_enabled :: bool
  fm_known_hashes :: "string list"
  fm_bloom_min_capacity :: nat

definition malwarebazaar_on :: "feed_manager \<Rightarrow> bool" where
  "malwarebazaar_on m \<longleftrightarrow> fm_malwarebazaar_enabled m \<and> fm_auth_key m \<noteq> []"

definition urlhaus_on :: "feed_manager \<Rightarrow> bool" where
  "urlhaus_on m \<longleftrightarrow> fm_urlhaus_enabled m \<and> fm_auth_key m \<noteq> []"

definition request_refresh :: "feed_manager \<Rightarrow> bool" where
  "request_refresh m \<longleftrightarrow> malwarebazaar_on m \<or> urlhaus_on m"

text \<open>
  The known hashes are a set: here a list without repetitions, in the order in which the set is
  walked. \<open>sizes\<close> gives the two sizes of a filter for a number of entries.
\<close>

definition refresh_malwarebazaar ::
  "double_hash \<Rightarrow> (nat \<Rightarrow> nat \<times> nat) \<Rightarrow> riggs_error + string list \<Rightarrow> feed_manager
   \<Rightarrow> feed_manager \<times> feed_update option"
where
  "refresh_malwarebazaar dh sizes download m =
     (case download of Inl e \<Rightarrow> (m, None)
      | Inr hashes \<Rightarrow>
          (let known = first_occurrences (fm_known_hashes m @ hashes);
               (bits, k) = sizes (max (length known) (fm_bloom_min_capacity m))
           in (m\<lparr>fm_known_hashes := known\<rparr>,
               Some (BloomFilterReady (foldl (bloom_insert dh) (bloom_new bits k) known)))))"

definition refresh_urlhaus :: "riggs_error + urlhaus_entry list \<Rightarrow> feed_update option" where
  "refresh_urlhaus download =
     (case download of Inl e \<Rightarrow> None
      | Inr entries \<Rightarrow>
          Some (IocBatch (map (\<lambda>e. \<lparr>ie_type = ''url'', ie_value = uh_url e,
                                   ie_description = ''URLhaus threat: '' @ uh_threat e,
                                   ie_severity = (if uh_status e = ''online'' then ''high'' else ''medium'')\<rparr>)
                              entries)))"

text \<open>The three branches of the manager's loop; each gives the updates it sends, in order.\<close>

datatype feed_turn = MbTick "riggs_error + string list" | UhTick "riggs_error + urlhaus_entry list"
  | Requested "riggs_error + string list" "riggs_error + urlhaus_entry list"

definition sent :: "feed_update option \<Rightarrow> feed_update list" where
  "sent u = (case u of Some x \<Rightarrow> [x] | None \<Rightarrow> [])"

fun feed_step :: "double_hash \<Rightarrow> (nat \<Rightarrow> nat \<times> nat) \<Rightarrow> feed_manager \<Rightarrow> feed_turn \<Rightarrow> feed_manager \<times> feed_update list" where
  "feed_step dh sizes m (MbTick d) =
     (if malwarebazaar_on m then (let (m', u) = refresh_malwarebazaar dh sizes d m in (m', sent u)) else (m, []))"
| "feed_step dh sizes m (UhTick d) = (m, if urlhaus_on m then sent (refresh_urlhaus d) else [])"
| "feed_step dh sizes m (Requested d d') =
     (let (m', us) = (if malwarebazaar_on m
                      then (let (m', u) = refresh_malwarebazaar dh sizes d m in (m', sent u)) else (m, []))
      in (m', us @ (if urlhaus_on m' then sent (refresh_urlhaus d') else [])))"

text \<open>The dispatcher of the daemon.\<close>

definition feed_ioc_type :: "string \<Rightarrow> ioc_type" where
  "feed_ioc_type t =
     (if t = ''sha256'' then Ioc_Sha256 else if t = ''md5'' then Ioc_Md5 else if t = ''domain'' then Ioc_Domain
      else if t = ''ip'' \<or> t = ''ip_address'' then Ioc_IpAddress else if t = ''url'' then Ioc_Url
      else if t = ''file_path'' \<or> t = ''filepath'' then Ioc_FilePath else Ioc_Url)"

definition feed_severity :: "string \<Rightarrow> severity" where
  "feed_severity s =
     (if s = ''info'' then Info else if s = ''low'' then Low else if s = ''medium'' then Medium
      else if s = ''high'' then High else if s = ''critical'' then Critical else Medium)"

definition feed_ioc :: "ioc_entry \<Rightarrow> ioc" where
  "feed_ioc e = \<lparr>ioc_kind = feed_ioc_type (ie_type e), ioc_value = ie_value e,
                 ioc_description = ie_description e, ioc_severity = feed_severity (ie_severity e)\<rparr>"

record live_intel =
  li_bloom :: bloom_filter
  li_ioc :: "ioc_matcher option"
  li_bloom_size :: nat

fun dispatch_update ::
  "(string list \<Rightarrow> (string \<Rightarrow> nat list) option) \<Rightarrow> live_intel \<Rightarrow> feed_update \<Rightarrow> live_intel"
where
  "dispatch_update aho s (BloomFilterReady f) = s\<lparr>li_bloom := f, li_bloom_size := bf_count f\<rparr>"
| "dispatch_update aho s (IocBatch es) = s\<lparr>li_ioc := Some (ioc_new aho (map feed_ioc es))\<rparr>"
| "dispatch_update aho s (CveBatch _) = s"

section \<open>The cache of verdicts\<close>

record cached_verdict =
  cv_threat_level :: threat_level
  cv_confidence :: f32
  cv_source :: detection_source
  cv_cached_at :: timestamp
  cv_ttl_hours :: u32

definition is_expired :: "timestamp \<Rightarrow> cached_verdict \<Rightarrow> bool" where
  "is_expired now v \<longleftrightarrow> seconds (3600 * uint (cv_ttl_hours v)) < now - cv_cached_at v"

text \<open>The table of the database; \<open>None\<close> is an entry whose bytes do not decode.\<close>

record verdict_cache =
  vc_table :: "(string, cached_verdict option) hmap"
  vc_ttl_clean_hours :: u32
  vc_ttl_malicious_hours :: u32

definition cache_get :: "timestamp \<Rightarrow> bool \<Rightarrow> verdict_cache \<Rightarrow> string \<Rightarrow> cached_verdict option" where
  "cache_get now readable c hash =
     (if \<not> readable then None
      else case hm_get (vc_table c) hash of
        Some (Some v) \<Rightarrow> if is_expired now v then None else Some v
      | _ \<Rightarrow> None)"

definition cache_put :: "bool \<Rightarrow> verdict_cache \<Rightarrow> string \<Rightarrow> cached_verdict \<Rightarrow> verdict_cache" where
  "cache_put writable c hash v =
     (if writable then c\<lparr>vc_table := hm_insert hash (Some v) (vc_table c)\<rparr> else c)"

definition entry_count :: "bool \<Rightarrow> verdict_cache \<Rightarrow> nat" where
  "entry_count readable c = (if readable then length (vc_table c) else 0)"

fun ttl_for_level :: "verdict_cache \<Rightarrow> threat_level \<Rightarrow> u32" where
  "ttl_for_level c Clean = vc_ttl_clean_hours c"
| "ttl_for_level c _ = vc_ttl_malicious_hours c"

section \<open>The stage\<close>

record intel_stage =
  is_bloom :: bloom_filter
  is_cache :: verdict_cache
  is_vt :: "rate_limiter option"
  is_abuseipdb :: "rate_limiter option"

text \<open>What one call meets: the clocks, the database, and the answers of the two services.\<close>

record intel_env =
  ie_now :: timestamp
  ie_clock :: "nat \<times> nat"
  ie_cache_readable :: bool
  ie_cache_writable :: bool
  ie_vt :: "string \<Rightarrow> vt_stats option http_reply"
  ie_abuse :: "string \<Rightarrow> abuse_ip_result http_reply"

definition intel_verdict :: "timestamp \<Rightarrow> event_id \<Rightarrow> threat_level \<Rightarrow> f32 \<Rightarrow> string \<Rightarrow> verdict" where
  "intel_verdict now eid lvl conf desc = verdict_new now eid lvl conf ThreatIntel desc"

fun graded :: "threat_level \<Rightarrow> verdict \<Rightarrow> stage_verdict" where
  "graded Clean v = SV_Clean"
| "graded Suspicious v = SV_Suspicious v"
| "graded Malicious v = SV_Malicious v"

definition cached_to_stage_verdict :: "timestamp \<Rightarrow> event_id \<Rightarrow> cached_verdict \<Rightarrow> stage_verdict" where
  "cached_to_stage_verdict now eid c =
     graded (cv_threat_level c)
       (verdict_new now eid (cv_threat_level c) (cv_confidence c) (cv_source c) ''cached threat intel verdict'')"

definition vt_assessment :: "vt_result \<Rightarrow> threat_level \<times> f32 \<times> string" where
  "vt_assessment vt =
     (let flagged = ''VirusTotal: '' @ show_nat (unat (malicious_count vt)) @ ''/'' @
                    show_nat (unat (total_engines vt)) @ '' engines flagged malicious''
      in if 5 < malicious_count vt then (Malicious, f32_lit (95 / 100), flagged)
         else if 0 < malicious_count vt then
           (Suspicious,
            f32_add (f32_lit (5 / 10))
              (f32_min (f32_div (f32_of_nat (unat (malicious_count vt))) (F_Fin 10)) (f32_lit (4 / 10))),
            flagged)
         else (Clean, f32_lit (9 / 10),
               ''VirusTotal: clean across '' @ show_nat (unat (total_engines vt)) @ '' engines''))"

definition unconfirmed :: "timestamp \<Rightarrow> event_id \<Rightarrow> string \<Rightarrow> analysis" where
  "unconfirmed now eid desc = Inr (SV_Suspicious (intel_verdict now eid Suspicious (f32_lit (3 / 10)) desc))"

definition confirm_with_vt ::
  "intel_env \<Rightarrow> intel_stage \<Rightarrow> event_id \<Rightarrow> string \<Rightarrow> rate_limiter \<Rightarrow> intel_stage \<times> analysis"
where
  "confirm_with_vt env s eid hash limiter =
     (let (limiter', answer) = lookup_hash (ie_clock env) (ie_vt env hash) limiter;
          s' = s\<lparr>is_vt := Some limiter'\<rparr>
      in case answer of
           Inr (Some vt) \<Rightarrow>
             (let (lvl, conf, desc) = vt_assessment vt;
                  entry = \<lparr>cv_threat_level = lvl, cv_confidence = conf, cv_source = ThreatIntel,
                           cv_cached_at = ie_now env, cv_ttl_hours = ttl_for_level (is_cache s) lvl\<rparr>
              in (s'\<lparr>is_cache := cache_put (ie_cache_writable env) (is_cache s) hash entry\<rparr>,
                  Inr (graded lvl (intel_verdict (ie_now env) eid lvl conf desc))))
         | Inr None \<Rightarrow> (s', unconfirmed (ie_now env) eid ''hash matched bloom filter but not found in VirusTotal'')
         | Inl e \<Rightarrow> (s', unconfirmed (ie_now env) eid
                      (''hash matched known-malware bloom filter; VirusTotal not consulted: '' @ error_display e)))"

definition analyze_file_hash ::
  "double_hash \<Rightarrow> intel_env \<Rightarrow> intel_stage \<Rightarrow> event_id \<Rightarrow> string \<Rightarrow> intel_stage \<times> analysis"
where
  "analyze_file_hash dh env s eid hash =
     (let bloom_hit = bloom_contains dh (is_bloom s) hash;
          evaluate =
            (if \<not> bloom_hit then (s, Inr SV_Clean)
             else case is_vt s of
               None \<Rightarrow> (s, unconfirmed (ie_now env) eid
                          ''hash matched known-malware bloom filter (no VT key to confirm)'')
             | Some limiter \<Rightarrow> confirm_with_vt env s eid hash limiter)
      in case cache_get (ie_now env) (ie_cache_readable env) (is_cache s) hash of
           Some cached \<Rightarrow>
             if \<not> (bloom_hit \<and> cv_threat_level cached = Clean)
             then (s, Inr (cached_to_stage_verdict (ie_now env) eid cached))
             else evaluate
         | None \<Rightarrow> evaluate)"

definition analyze_network :: "intel_env \<Rightarrow> intel_stage \<Rightarrow> event_id \<Rightarrow> string \<Rightarrow> intel_stage \<times> analysis" where
  "analyze_network env s eid addr =
     (case is_abuseipdb s of None \<Rightarrow> (s, Inr SV_Clean)
      | Some limiter \<Rightarrow>
          (let (limiter', answer) = check_ip (ie_clock env) (ie_abuse env addr) limiter;
               s' = s\<lparr>is_abuseipdb := Some limiter'\<rparr>
           in case answer of
                Inl e \<Rightarrow> (s', Inl e)
              | Inr None \<Rightarrow> (s', Inr SV_Clean)
              | Inr (Some r) \<Rightarrow>
                  (s', Inr
                     (if 80 \<le> abuse_confidence_score r then
                        (let lvl = (if 95 \<le> abuse_confidence_score r then Malicious else Suspicious);
                             conf = f32_div (f32_of_nat (unat (abuse_confidence_score r))) (F_Fin 100)
                         in graded lvl (intel_verdict (ie_now env) eid lvl conf
                              (''AbuseIPDB: confidence='' @ show_nat (unat (abuse_confidence_score r)) @
                               '', reports='' @ show_nat (unat (total_reports r)) @
                               '', tor='' @ (if is_tor r then ''true'' else ''false''))))
                      else SV_Clean))))"

definition analyze_dns :: "double_hash \<Rightarrow> intel_env \<Rightarrow> intel_stage \<Rightarrow> event_id \<Rightarrow> string \<Rightarrow> stage_verdict" where
  "analyze_dns dh env s eid domain =
     (if bloom_contains dh (is_bloom s) domain
      then SV_Suspicious (intel_verdict (ie_now env) eid Suspicious (f32_lit (4 / 10))
             (''DNS query domain '' @ [CHR 0x27] @ domain @ [CHR 0x27] @ '' matched threat intel bloom filter''))
      else SV_Clean)"

definition intel_analyze ::
  "double_hash \<Rightarrow> intel_env \<Rightarrow> intel_stage \<Rightarrow> riggs_event \<Rightarrow> intel_stage \<times> analysis"
where
  "intel_analyze dh env s ev =
     (case ev of
        File e \<Rightarrow> (case fe_hash e of None \<Rightarrow> (s, Inr SV_Clean)
                     | Some h \<Rightarrow> analyze_file_hash dh env s (event_id_of ev) h)
      | Network e \<Rightarrow> analyze_network env s (event_id_of ev) (ne_dst_addr e)
      | Dns e \<Rightarrow> (s, Inr (analyze_dns dh env s (event_id_of ev) (de_query e)))
      | _ \<Rightarrow> (s, Inr SV_Clean))"

section \<open>The filter as a set of bits\<close>

definition bloom_wf :: "bloom_filter \<Rightarrow> bool" where
  "bloom_wf f \<longleftrightarrow> 0 < bf_num_bits f \<and> bf_num_bits f \<le> 64 * length (bf_bits f) \<and> 0 < bf_num_hashes f"

definition bits_set :: "u64 list \<Rightarrow> nat set" where
  "bits_set bits = {i. i < 64 * length bits \<and> bit (bits ! (i div 64)) (i mod 64)}"

definition positions :: "double_hash \<Rightarrow> bloom_filter \<Rightarrow> string \<Rightarrow> nat set" where
  "positions dh f item = (\<lambda>i. bit_index f (fst (dh item)) (snd (dh item)) i) ` {0..<bf_num_hashes f}"

lemma bloom_wf_new: "bloom_wf (bloom_new m k)"
proof -
  have "n \<le> 64 * ((n + 63) div 64)" for n :: nat by presburger
  from this [of "max m 64"] show ?thesis
    by (simp add: bloom_wf_def bloom_new_def Let_def less_max_iff_disj)
qed

lemma bits_set_new [simp]: "bits_set (bf_bits (bloom_new m k)) = {}"
  by (auto simp: bits_set_def bloom_new_def Let_def)

lemma bits_set_bit_at:
  assumes "idx < 64 * length bits"
  shows "bits_set (set_bit_at bits idx) = insert idx (bits_set bits)"
proof -
  have eq: "i = idx \<longleftrightarrow> i div 64 = idx div 64 \<and> i mod 64 = idx mod 64" for i :: nat
    by (metis div_mult_mod_eq)
  have "idx div 64 < length bits" using assms by (simp add: less_mult_imp_div_less mult.commute)
  then show ?thesis
    using assms by (auto simp: bits_set_def set_bit_at_def nth_list_update bit_set_bit_iff eq)
qed

lemma length_set_bit_at [simp]: "length (set_bit_at bits idx) = length bits"
  by (simp add: set_bit_at_def)

lemma bits_set_foldl:
  assumes "\<forall>i \<in> set is. g i < 64 * length bits"
  shows "bits_set (foldl (\<lambda>b i. set_bit_at b (g i)) bits is) = g ` set is \<union> bits_set bits
         \<and> length (foldl (\<lambda>b i. set_bit_at b (g i)) bits is) = length bits"
  using assms by (induction "is" arbitrary: bits) (auto simp: bits_set_bit_at)

lemma bit_index_bound: "bloom_wf f \<Longrightarrow> bit_index f h1 h2 i < 64 * length (bf_bits f)"
  unfolding bloom_wf_def bit_index_def by (meson less_le_trans mod_less_divisor)

lemma bloom_insert_bits:
  assumes "bloom_wf f"
  shows "bits_set (bf_bits (bloom_insert dh f x)) = bits_set (bf_bits f) \<union> positions dh f x"
    and "bloom_wf (bloom_insert dh f x)"
    and "positions dh (bloom_insert dh f x) = positions dh f"
proof -
  let ?ix = "bit_index f (fst (dh x)) (snd (dh x))"
  have *: "bits_set (foldl (\<lambda>b i. set_bit_at b (?ix i)) (bf_bits f) [0..<bf_num_hashes f])
             = ?ix ` {0..<bf_num_hashes f} \<union> bits_set (bf_bits f)"
    "length (foldl (\<lambda>b i. set_bit_at b (?ix i)) (bf_bits f) [0..<bf_num_hashes f]) = length (bf_bits f)"
    using bits_set_foldl [of "[0..<bf_num_hashes f]" ?ix "bf_bits f"] bit_index_bound [OF assms] by auto
  then show "bits_set (bf_bits (bloom_insert dh f x)) = bits_set (bf_bits f) \<union> positions dh f x"
    by (auto simp: bloom_insert_def positions_def split: prod.split)
  show "bloom_wf (bloom_insert dh f x)"
    using assms *(2) by (auto simp: bloom_wf_def bloom_insert_def split: prod.split)
  show "positions dh (bloom_insert dh f x) = positions dh f"
    by (simp add: fun_eq_iff positions_def bloom_insert_def bit_index_def split: prod.split)
qed

lemma bloom_contains_iff:
  "bloom_wf f \<Longrightarrow> bloom_contains dh f x \<longleftrightarrow> positions dh f x \<subseteq> bits_set (bf_bits f)"
  using bit_index_bound [of f]
  by (auto simp: bloom_contains_def positions_def bits_set_def list_all_iff split: prod.split)

text \<open>A filter that never forgets: what the feed manager and the stage rely on.\<close>

locale membership_filter =
  fixes add :: "'f \<Rightarrow> 'a \<Rightarrow> 'f" and mem :: "'f \<Rightarrow> 'a \<Rightarrow> bool" and ok :: "'f \<Rightarrow> bool"
  assumes ok_add: "ok f \<Longrightarrow> ok (add f x)"
    and mem_add: "ok f \<Longrightarrow> mem (add f x) x"
    and mem_keeps: "ok f \<Longrightarrow> mem f y \<Longrightarrow> mem (add f x) y"
begin

lemma ok_foldl: "ok f \<Longrightarrow> ok (foldl add f xs)"
  by (induction xs arbitrary: f) (auto intro: ok_add)

lemma foldl_keeps: "ok f \<Longrightarrow> mem f y \<Longrightarrow> mem (foldl add f xs) y"
  by (induction xs arbitrary: f) (auto intro: ok_add mem_keeps)

lemma added_member: "ok f \<Longrightarrow> x \<in> set xs \<Longrightarrow> mem (foldl add f xs) x"
  by (induction xs arbitrary: f) (auto intro: ok_add mem_add foldl_keeps)

end

interpretation bloom: membership_filter "bloom_insert dh" "bloom_contains dh" bloom_wf
  for dh :: double_hash
  by unfold_locales (auto simp: bloom_insert_bits bloom_contains_iff)

lemma bits_set_items:
  "bloom_wf f \<Longrightarrow>
     bits_set (bf_bits (foldl (bloom_insert dh) f xs)) = bits_set (bf_bits f) \<union> (\<Union>x \<in> set xs. positions dh f x)
     \<and> positions dh (foldl (bloom_insert dh) f xs) = positions dh f"
  by (induction xs arbitrary: f) (auto simp: bloom_insert_bits)

text \<open>
  A Bloom filter filled from empty answers yes exactly when every probed bit of the
  item was set by some inserted item: no inserted item is ever missed, an empty or cleared filter
  holds nothing, and no probe is outside the vector of words.
\<close>

theorem bloom_filter_exact:
  "let f = foldl (bloom_insert dh) (bloom_new m k) xs
   in (bloom_contains dh f y \<longleftrightarrow> positions dh f y \<subseteq> (\<Union>x \<in> set xs. positions dh f x))
      \<and> set xs \<subseteq> {x. bloom_contains dh f x}
      \<and> \<not> bloom_contains dh (bloom_clear f) y
      \<and> positions dh f y \<subseteq> {..<64 * length (bf_bits f)}"
proof -
  define f where "f = foldl (bloom_insert dh) (bloom_new m k) xs"
  have wf: "bloom_wf f" unfolding f_def by (intro bloom.ok_foldl bloom_wf_new)
  have bits: "bits_set (bf_bits f) = (\<Union>x \<in> set xs. positions dh f x)"
    unfolding f_def using bits_set_items [OF bloom_wf_new, of dh m k xs] by simp
  have "bits_set (bf_bits (bloom_clear f)) = {}" "bloom_wf (bloom_clear f)"
    using wf by (auto simp: bits_set_def bloom_clear_def bloom_wf_def)
  moreover have "positions dh (bloom_clear f) y \<noteq> {}"
    using wf by (simp add: positions_def bloom_clear_def bloom_wf_def)
  ultimately have "\<not> bloom_contains dh (bloom_clear f) y" by (simp add: bloom_contains_iff)
  moreover have "positions dh f y \<subseteq> {..<64 * length (bf_bits f)}"
    using bit_index_bound [OF wf] by (auto simp: positions_def)
  moreover have "set xs \<subseteq> {x. bloom_contains dh f x}"
    unfolding f_def using bloom.added_member [OF bloom_wf_new] by blast
  ultimately show ?thesis
    unfolding f_def [symmetric] Let_def using bloom_contains_iff [OF wf, of dh y] bits by simp
qed

section \<open>The rate limiter\<close>

fun acquire_all :: "(nat \<times> nat) list \<Rightarrow> rate_limiter \<Rightarrow> rate_limiter \<times> bool list" where
  "acquire_all [] l = (l, [])"
| "acquire_all (c # cs) l =
     (let (l', g) = try_acquire c l; (l'', gs) = acquire_all cs l' in (l'', g # gs))"

definition granted :: "(nat \<times> nat) list \<Rightarrow> rate_limiter \<Rightarrow> nat" where
  "granted cs l = count_list (snd (acquire_all cs l)) True"

definition in_window :: "nat \<Rightarrow> nat \<times> nat \<Rightarrow> bool" where
  "in_window a c \<longleftrightarrow> a \<le> fst c \<and> fst c < a + REFILL_INTERVAL \<and> a \<le> snd c"

text \<open>What can still be granted in the minute from \<open>a\<close>: the tokens left, and one refill unless it has happened.\<close>

definition budget :: "nat \<Rightarrow> rate_limiter \<Rightarrow> nat" where
  "budget a l = rl_tokens l + (if a \<le> rl_last_refill l then 0 else rl_max_tokens l)"

definition rate_limiter_wf :: "rate_limiter \<Rightarrow> bool" where
  "rate_limiter_wf l \<longleftrightarrow> rl_tokens l \<le> rl_max_tokens l"

lemma try_refill_budget:
  assumes "in_window a c" and "rate_limiter_wf l"
  shows "rate_limiter_wf (try_refill c l) \<and> rl_max_tokens (try_refill c l) = rl_max_tokens l
         \<and> budget a (try_refill c l) \<le> budget a l"
proof (cases "REFILL_INTERVAL \<le> fst c - rl_last_refill l")
  case True
  with assms have "\<not> a \<le> rl_last_refill l" "a \<le> snd c"
    by (auto simp: in_window_def REFILL_INTERVAL_def)
  with True show ?thesis
    by (simp add: try_refill_def rate_limiter_wf_def budget_def Let_def)
next
  case False
  then show ?thesis using assms by (simp add: try_refill_def Let_def)
qed

lemma try_acquire_budget:
  assumes "in_window a c" and "try_acquire c l = (l', g)" and "rate_limiter_wf l"
  shows "rate_limiter_wf l' \<and> rl_max_tokens l' = rl_max_tokens l \<and> of_bool g + budget a l' \<le> budget a l"
proof (cases "rl_tokens (try_refill c l) = 0")
  case True
  then show ?thesis using try_refill_budget [OF assms(1,3)] assms(2) by (simp add: try_acquire_def Let_def)
next
  case False
  then have "g" "l' = (try_refill c l)\<lparr>rl_tokens := rl_tokens (try_refill c l) - 1\<rparr>"
    using assms(2) by (simp_all add: try_acquire_def Let_def)
  with False show ?thesis using try_refill_budget [OF assms(1,3)]
    by (auto simp: rate_limiter_wf_def budget_def)
qed

lemma granted_budget:
  assumes "\<forall>c \<in> set cs. in_window a c" and "rate_limiter_wf l"
  shows "granted cs l \<le> budget a l \<and> rate_limiter_wf (fst (acquire_all cs l))
         \<and> rl_max_tokens (fst (acquire_all cs l)) = rl_max_tokens l"
  using assms
proof (induction cs arbitrary: l)
  case (Cons c cs)
  obtain l' g where acq: "try_acquire c l = (l', g)" by fastforce
  have step: "rate_limiter_wf l'" "rl_max_tokens l' = rl_max_tokens l" "of_bool g + budget a l' \<le> budget a l"
    using try_acquire_budget [OF _ acq Cons.prems(2), of a] Cons.prems(1) by auto
  have "granted cs l' \<le> budget a l'" "rate_limiter_wf (fst (acquire_all cs l'))"
    "rl_max_tokens (fst (acquire_all cs l')) = rl_max_tokens l'"
    using Cons.IH [of l'] Cons.prems step(1) by auto
  moreover have "granted (c # cs) l = of_bool g + granted cs l'"
    "fst (acquire_all (c # cs) l) = fst (acquire_all cs l')"
    by (simp_all add: granted_def acq split: prod.split)
  ultimately show ?case using step by simp
qed (simp add: granted_def)

text \<open>
  Within any minute a limiter grants at most twice its quota, and at most the tokens that are
  left when its last refill falls into that minute; it never holds more tokens than its quota.
\<close>

theorem rate_limit_bounded:
  assumes "\<forall>c \<in> set cs. in_window a c" and "rate_limiter_wf l"
  shows "granted cs l \<le> 2 * rl_max_tokens l
         \<and> (rl_last_refill l < a \<or> granted cs l \<le> rl_tokens l)
         \<and> rate_limiter_wf (fst (acquire_all cs l))"
  using granted_budget [OF assms] assms(2)
  by (auto simp: budget_def rate_limiter_wf_def split: if_splits)

section \<open>The stage keeps the contract of the pipeline\<close>

text \<open>
  A stage whose reports are well formed as long as an invariant of its state holds, which every
  call keeps. Each call meets an environment of its own.
\<close>

locale guarded_stage =
  fixes analyze :: "'e \<Rightarrow> 's \<Rightarrow> riggs_event \<Rightarrow> 's \<times> analysis" and ok :: "'s \<Rightarrow> bool"
  assumes guarded_reported: "ok s \<Longrightarrow> well_reported ev (snd (analyze e s ev))"
    and guarded_ok: "ok s \<Longrightarrow> ok (fst (analyze e s ev))"
begin

lemma run_ok: "ok s \<Longrightarrow> ok (foldl (\<lambda>s (e, ev). fst (analyze e s ev)) s calls)"
  by (induction calls arbitrary: s) (auto intro: guarded_ok)

lemma run_reported:
  "ok s \<Longrightarrow> well_reported ev (snd (analyze e (foldl (\<lambda>s (e, ev). fst (analyze e s ev)) s calls) ev))"
  by (intro guarded_reported run_ok)

end

sublocale detection_stage \<subseteq> guarded: guarded_stage "\<lambda>_ :: unit. analyze" "\<lambda>_. True"
  by unfold_locales (auto intro: reported)

definition positive_f32 :: "f32 \<Rightarrow> bool" where
  "positive_f32 c \<longleftrightarrow> (case c of F_Fin q \<Rightarrow> 0 < q | _ \<Rightarrow> False)"

lemma positive_usable: "positive_f32 (v_confidence v) \<Longrightarrow> usable v"
  by (cases "v_confidence v") (auto simp: positive_f32_def usable_def f32_is_finite_def)

lemma positive_lits [simp]:
  "positive_f32 (f32_round (3 / 10))" "positive_f32 (f32_round (2 / 5))" "positive_f32 (f32_round (9 / 10))"
  "positive_f32 (f32_round (19 / 20))"
  by (simp_all add: positive_f32_def f32_lits)

lemma positive_round: "1 / 1024 \<le> x \<Longrightarrow> x \<le> 10 ^ 20 \<Longrightarrow> positive_f32 (f32_round x)"
  using f32_round_close [of x] by (auto simp: positive_f32_def pow2_def)

lemma positive_ratio:
  assumes "1 \<le> n" and "n < 2 ^ 32" and "1 \<le> d" and "d \<le> 100"
  shows "positive_f32 (f32_div (f32_of_nat n) (F_Fin d))"
proof -
  have n: "1 \<le> (of_nat n :: rat)" "(of_nat n :: rat) < 2 ^ 32"
    using assms(1,2) by (simp, metis of_nat_less_iff of_nat_numeral of_nat_power)
  then obtain q where q: "f32_of_nat n = F_Fin q" "of_nat n * 3 / 4 \<le> q" "q \<le> of_nat n * 5 / 4"
    using f32_round_close [of "of_nat n"] by (auto simp: f32_of_nat_def pow2_def)
  have "d * (1 / 1024) \<le> 100 / 1024" using assms(4) by simp
  then have "1 / 1024 \<le> q / d" using q(2) n(1) assms(3) by (simp add: le_divide_eq)
  moreover have "q \<le> 10 ^ 20 * d" using q(3) n(2) assms(3) by simp
  then have "q / d \<le> 10 ^ 20" using assms(3) by (simp add: divide_le_eq)
  ultimately show ?thesis using q(1) assms(3) positive_round [of "q / d"] by simp
qed

lemma vt_confidence_positive:
  assumes "1 \<le> n" and "n < 2 ^ 32"
  shows "positive_f32 (f32_add (f32_lit (5 / 10)) (f32_min (f32_div (f32_of_nat n) (F_Fin 10)) (f32_lit (4 / 10))))"
proof -
  obtain q where q: "f32_div (f32_of_nat n) (F_Fin 10) = F_Fin q" "0 < q"
    using positive_ratio [OF assms, of 10] by (auto simp: positive_f32_def split: f32.splits)
  have half: "f32_round (1 / 2) = F_Fin (1 / 2)" by code_simp
  define m where "m = min q (13421773 / 33554432)"
  have m: "f32_min (F_Fin q) (f32_round (2 / 5)) = F_Fin m" "0 < m" "m \<le> 1"
    using q(2) by (simp_all add: m_def f32_min_def f32_lits min_def)
  show ?thesis using m positive_round [of "1 / 2 + m"] unfolding q(1) by (simp add: half)
qed

definition cache_ok :: "intel_stage \<Rightarrow> bool" where
  "cache_ok s \<longleftrightarrow>
     list_all (\<lambda>(_, e). case e of Some v \<Rightarrow> cv_threat_level v = Clean \<or> positive_f32 (cv_confidence v) | None \<Rightarrow> True)
       (vc_table (is_cache s))"

lemma u32_bound: "unat (n :: u32) < 2 ^ 32"
  by (rule order_less_le_trans [OF unsigned_less]) simp

lemma vt_assessment_positive:
  assumes "vt_assessment vt = (lvl, conf, desc)"
  shows "positive_f32 conf"
proof (cases "0 < malicious_count vt")
  case True
  then have "1 \<le> unat (malicious_count vt)" by (simp add: Suc_leI unat_gt_0)
  moreover have "unat (malicious_count vt) < 2 ^ 32" by (rule u32_bound)
  ultimately show ?thesis
    using assms True vt_confidence_positive by (auto simp: vt_assessment_def Let_def split: if_splits)
qed (use assms in \<open>auto simp: vt_assessment_def Let_def split: if_splits\<close>)

lemma graded_reported:
  "v_threat_level v = lvl \<Longrightarrow> v_event_id v = event_id_of ev \<Longrightarrow> positive_f32 (v_confidence v)
   \<Longrightarrow> well_reported ev (Inr (graded lvl v))"
  by (cases lvl) (auto simp: well_reported_def reports_def positive_usable)

lemma clean_reported [simp]: "well_reported ev (Inr SV_Clean)" "well_reported ev (Inl e)"
  by (simp_all add: well_reported_def)

lemma unconfirmed_reported [simp]: "well_reported ev (unconfirmed now (event_id_of ev) d)"
  by (auto simp: unconfirmed_def intel_verdict_def verdict_new_def well_reported_def reports_def intro!: positive_usable)

lemma cache_get_ok:
  assumes "cache_ok s" and "cache_get now r (is_cache s) h = Some v"
  shows "cv_threat_level v = Clean \<or> positive_f32 (cv_confidence v)"
proof -
  have "(h, Some v) \<in> set (vc_table (is_cache s))"
    using assms(2) by (auto simp: cache_get_def split: if_splits option.splits dest: hm_get_Some_in)
  then show ?thesis using assms(1) by (auto simp: cache_ok_def list_all_iff)
qed

lemma cached_reported:
  assumes "cache_ok s" and "cache_get now r (is_cache s) h = Some v"
  shows "well_reported ev (Inr (cached_to_stage_verdict now' (event_id_of ev) v))"
  using cache_get_ok [OF assms]
  by (cases "cv_threat_level v = Clean")
    (auto simp: cached_to_stage_verdict_def verdict_new_def intro!: graded_reported)

lemma cache_put_ok:
  "cache_ok s \<Longrightarrow> cv_threat_level v = Clean \<or> positive_f32 (cv_confidence v)
   \<Longrightarrow> cache_ok (s\<lparr>is_vt := l, is_cache := cache_put w (is_cache s) h v\<rparr>)"
  using set_hm_insert [of h "Some v" "vc_table (is_cache s)"]
  by (fastforce simp: cache_ok_def cache_put_def list_all_iff)

lemma cache_ok_limiters [simp]:
  "cache_ok (s\<lparr>is_vt := l\<rparr>) = cache_ok s" "cache_ok (s\<lparr>is_abuseipdb := l\<rparr>) = cache_ok s"
  by (simp_all add: cache_ok_def)

lemma confirm_with_vt_ok:
  assumes "cache_ok s"
  shows "well_reported ev (snd (confirm_with_vt env s (event_id_of ev) h l))
         \<and> cache_ok (fst (confirm_with_vt env s (event_id_of ev) h l))"
  using assms vt_assessment_positive
  by (auto simp: confirm_with_vt_def Let_def intel_verdict_def verdict_new_def
      split: prod.split sum.split option.split intro!: graded_reported cache_put_ok)

lemma analyze_file_hash_ok:
  assumes "cache_ok s"
  shows "well_reported ev (snd (analyze_file_hash dh env s (event_id_of ev) h))
         \<and> cache_ok (fst (analyze_file_hash dh env s (event_id_of ev) h))"
  using assms confirm_with_vt_ok [OF assms]
  by (auto simp: analyze_file_hash_def Let_def split: option.split intro: cached_reported)

lemma analyze_network_ok:
  assumes "cache_ok s"
  shows "well_reported ev (snd (analyze_network env s (event_id_of ev) addr))
         \<and> cache_ok (fst (analyze_network env s (event_id_of ev) addr))"
proof -
  have "positive_f32 (f32_div (f32_of_nat (unat n)) (F_Fin 100))" if "80 \<le> n" for n :: u32
  proof -
    have "80 \<le> unat n" using that by (simp add: word_le_nat_alt)
    then show ?thesis using u32_bound [of n] by (intro positive_ratio) simp_all
  qed
  then show ?thesis
    using assms
    by (auto simp: analyze_network_def Let_def intel_verdict_def verdict_new_def well_reported_def reports_def
        split: prod.split sum.split option.split intro!: positive_usable)
qed

interpretation intel_stage_contract: guarded_stage "intel_analyze dh" cache_ok
  for dh :: double_hash
proof
  fix s ev and e :: intel_env
  assume s: "cache_ok s"
  note cases = analyze_file_hash_ok [OF s, of ev dh e] analyze_network_ok [OF s, of ev e]
  show "well_reported ev (snd (intel_analyze dh e s ev))"
    using cases
    by (auto simp: intel_analyze_def analyze_dns_def intel_verdict_def verdict_new_def well_reported_def reports_def
        split: riggs_event.split option.split intro!: positive_usable)
  show "cache_ok (fst (intel_analyze dh e s ev))"
    using s cases by (auto simp: intel_analyze_def split: riggs_event.split option.split)
qed

section \<open>A hash of the feed is never passed over\<close>

fun feed_run ::
  "double_hash \<Rightarrow> (nat \<Rightarrow> nat \<times> nat) \<Rightarrow> feed_manager \<Rightarrow> feed_turn list \<Rightarrow> feed_manager \<times> feed_update list"
where
  "feed_run dh sizes m [] = (m, [])"
| "feed_run dh sizes m (t # ts) =
     (let (m', us) = feed_step dh sizes m t; (m'', us') = feed_run dh sizes m' ts in (m'', us @ us'))"

fun downloaded :: "feed_turn \<Rightarrow> string set" where
  "downloaded (MbTick (Inr hs)) = set hs"
| "downloaded (Requested (Inr hs) _) = set hs"
| "downloaded _ = {}"

definition covered :: "double_hash \<Rightarrow> feed_manager \<Rightarrow> live_intel \<Rightarrow> bool" where
  "covered dh m s \<longleftrightarrow> list_all (bloom_contains dh (li_bloom s)) (fm_known_hashes m)"

lemma refresh_covered:
  assumes "refresh_malwarebazaar dh sizes d m = (m', u)" and "covered dh m s"
  shows "covered dh m' (foldl (dispatch_update aho) s (sent u)) \<and>
         set (fm_known_hashes m) \<subseteq> set (fm_known_hashes m') \<and>
         (\<forall>hs. d = Inr hs \<longrightarrow> set hs \<subseteq> set (fm_known_hashes m')) \<and>
         malwarebazaar_on m' = malwarebazaar_on m \<and> urlhaus_on m' = urlhaus_on m"
proof (cases d)
  case (Inl e)
  then show ?thesis using assms by (auto simp: refresh_malwarebazaar_def sent_def)
next
  case (Inr hs)
  let ?known = "first_occurrences (fm_known_hashes m @ hs)"
  obtain bits k where sz: "sizes (max (length ?known) (fm_bloom_min_capacity m)) = (bits, k)" by fastforce
  have m': "m' = m\<lparr>fm_known_hashes := ?known\<rparr>"
    and u: "u = Some (BloomFilterReady (foldl (bloom_insert dh) (bloom_new bits k) ?known))"
    using assms(1) Inr sz by (auto simp: refresh_malwarebazaar_def Let_def)
  show ?thesis unfolding m' u
    using bloom.added_member [OF bloom_wf_new]
    by (auto simp: covered_def sent_def list_all_iff Inr malwarebazaar_on_def urlhaus_on_def)
qed

lemma urlhaus_covered [simp]: "covered dh m (foldl (dispatch_update aho) s (sent (refresh_urlhaus d))) = covered dh m s"
  by (auto simp: refresh_urlhaus_def sent_def covered_def split: sum.split)

lemma feed_step_covered:
  assumes "feed_step dh sizes m t = (m', us)" and "covered dh m s" and "malwarebazaar_on m"
  shows "covered dh m' (foldl (dispatch_update aho) s us) \<and>
         set (fm_known_hashes m) \<union> downloaded t \<subseteq> set (fm_known_hashes m') \<and> malwarebazaar_on m'"
proof (cases t)
  case (MbTick d)
  obtain m1 u where r: "refresh_malwarebazaar dh sizes d m = (m1, u)" by fastforce
  show ?thesis
    using refresh_covered [OF r assms(2), of aho] assms(1,3) MbTick r by (cases d) auto
next
  case (UhTick d)
  then show ?thesis using assms by auto
next
  case (Requested d d')
  obtain m1 u where r: "refresh_malwarebazaar dh sizes d m = (m1, u)" by fastforce
  show ?thesis
    using refresh_covered [OF r assms(2), of aho] assms(1,3) Requested r by (cases d) auto
qed

lemma feed_run_covered:
  assumes "feed_run dh sizes m ts = (m', us)" and "covered dh m s" and "malwarebazaar_on m"
  shows "covered dh m' (foldl (dispatch_update aho) s us) \<and>
         set (fm_known_hashes m) \<union> (\<Union>t \<in> set ts. downloaded t) \<subseteq> set (fm_known_hashes m')"
  using assms
proof (induction ts arbitrary: m us s)
  case (Cons t ts)
  obtain m1 us1 where step: "feed_step dh sizes m t = (m1, us1)" by fastforce
  with Cons.prems(1) obtain us2 where rest: "feed_run dh sizes m1 ts = (m', us2)" and us: "us = us1 @ us2"
    by (auto split: prod.splits)
  note one = feed_step_covered [OF step Cons.prems(2,3), of aho]
  have "covered dh m' (foldl (dispatch_update aho) (foldl (dispatch_update aho) s us1) us2) \<and>
        set (fm_known_hashes m1) \<union> (\<Union>t \<in> set ts. downloaded t) \<subseteq> set (fm_known_hashes m')"
    using one by (intro Cons.IH [OF rest]) auto
  then show ?case using one us by auto
qed simp

lemma bloom_hit_not_clean:
  assumes "bloom_contains dh (is_bloom s) h"
    and "level_of (snd (analyze_file_hash dh env s eid h)) = Clean"
  shows "\<exists>stats. is_vt s \<noteq> None \<and> ie_vt env h = Body (Inr (Some stats)) \<and> vt_malicious stats = 0"
proof -
  have graded: "level_of (Inr (graded lvl v)) = lvl" for lvl v by (cases lvl) auto
  have "\<exists>l. is_vt s = Some l \<and> level_of (snd (confirm_with_vt env s eid h l)) = Clean"
    using assms
    by (auto simp: analyze_file_hash_def Let_def unconfirmed_def cached_to_stage_verdict_def graded
        split: option.splits if_splits)
  then obtain l where l: "is_vt s = Some l" "level_of (snd (confirm_with_vt env s eid h l)) = Clean" by blast
  then have "\<exists>l' vt. lookup_hash (ie_clock env) (ie_vt env h) l = (l', Inr (Some vt)) \<and> fst (vt_assessment vt) = Clean"
    by (auto simp: confirm_with_vt_def Let_def unconfirmed_def graded split: prod.splits sum.splits option.splits)
  then obtain l' vt where vt: "lookup_hash (ie_clock env) (ie_vt env h) l = (l', Inr (Some vt))"
    and clean: "fst (vt_assessment vt) = Clean" by blast
  have "\<exists>stats. ie_vt env h = Body (Inr (Some stats)) \<and> vt = vt_result_of stats"
    using vt by (auto simp: lookup_hash_def split: prod.splits if_splits http_reply.splits sum.splits option.splits)
  moreover have "malicious_count vt = 0"
    using clean by (auto simp: vt_assessment_def Let_def split: if_splits simp: word_gt_0)
  ultimately show ?thesis using l(1) by (auto simp: vt_result_of_def)
qed

text \<open>
  C25: once a hash was downloaded from the malware feed, whatever the feeds deliver or fail to
  deliver afterwards, a file event with that hash is reported as suspicious or malicious, whatever
  the cache holds. The only exception is VirusTotal answering that no engine flags it:
  a missing key, an exhausted quota, an error and an unknown hash all leave the report standing.
\<close>

theorem feed_hash_never_clean:
  assumes run: "feed_run dh sizes m turns = (m', updates)" and "malwarebazaar_on m" and "covered dh m live"
    and "h \<in> (\<Union>t \<in> set turns. downloaded t)"
    and "is_bloom s = li_bloom (foldl (dispatch_update aho) live updates)"
    and "fe_hash e = Some h"
  shows "level_of (snd (intel_analyze dh env s (File e))) \<noteq> Clean
         \<or> (\<exists>stats. is_vt s \<noteq> None \<and> ie_vt env h = Body (Inr (Some stats)) \<and> vt_malicious stats = 0)"
proof -
  have "bloom_contains dh (is_bloom s) h"
    using feed_run_covered [OF run assms(3,2), of aho] assms(4,5) by (auto simp: covered_def list_all_iff)
  from bloom_hit_not_clean [OF this, of env] show ?thesis
    using assms(6) by (simp add: intel_analyze_def)
qed

section \<open>Witnesses\<close>

theorem rate_limit_bounded_witness:
  "granted [(60000000000, 60000000000), (60000000001, 60000000002)] (rate_limiter_new 1 0) \<le> 2"
proof -
  have "granted [(60000000000, 60000000000), (60000000001, 60000000002)] (rate_limiter_new 1 0)
        \<le> 2 * rl_max_tokens (rate_limiter_new 1 0)"
    by (rule conjunct1, rule rate_limit_bounded [where a = 60000000000])
      (simp_all add: in_window_def REFILL_INTERVAL_def rate_limiter_wf_def rate_limiter_new_def)
  then show ?thesis by (simp add: rate_limiter_new_def)
qed

definition sample_hash :: double_hash where
  "sample_hash s = (of_nat (length s), 7)"

definition sample_manager :: feed_manager where
  "sample_manager = \<lparr>fm_auth_key = ''key'', fm_malwarebazaar_enabled = True, fm_urlhaus_enabled = False,
                     fm_known_hashes = [], fm_bloom_min_capacity = 1\<rparr>"

definition sample_live :: live_intel where
  "sample_live = \<lparr>li_bloom = bloom_new 64 1, li_ioc = None, li_bloom_size = 0\<rparr>"

definition quiet_env :: intel_env where
  "quiet_env = \<lparr>ie_now = 0, ie_clock = (0, 0), ie_cache_readable = True, ie_cache_writable = True,
                ie_vt = \<lambda>_. NotFound, ie_abuse = \<lambda>_. NotFound\<rparr>"

definition sample_intel_stage :: "bloom_filter \<Rightarrow> intel_stage" where
  "sample_intel_stage f = \<lparr>is_bloom = f,
     is_cache = \<lparr>vc_table = [], vc_ttl_clean_hours = 24, vc_ttl_malicious_hours = 168\<rparr>,
     is_vt = None, is_abuseipdb = None\<rparr>"

definition hashed_file :: file_event where
  "hashed_file = \<lparr>fe_event_id = EventId 3, fe_timestamp = 1, fe_context = sample_context, fe_action = Create,
                  fe_path = ''/tmp/dropper'', fe_hash = Some ''ab'', fe_fd = None\<rparr>"

definition sample_turns :: "feed_turn list" where
  "sample_turns = [MbTick (Inr [''ab'']), MbTick (Inl (Intel ''down''))]"

theorem feed_hash_never_clean_witness:
  "level_of (snd (intel_analyze sample_hash quiet_env
     (sample_intel_stage (li_bloom (foldl (dispatch_update (\<lambda>_. None)) sample_live
        (snd (feed_run sample_hash (\<lambda>n. (10 * n, 3)) sample_manager sample_turns)))))
     (File hashed_file))) \<noteq> Clean"
proof -
  define m' us where "m' = fst (feed_run sample_hash (\<lambda>n. (10 * n, 3)) sample_manager sample_turns)"
    and "us = snd (feed_run sample_hash (\<lambda>n. (10 * n, 3)) sample_manager sample_turns)"
  let ?s = "sample_intel_stage (li_bloom (foldl (dispatch_update (\<lambda>_. None)) sample_live us))"
  have "feed_run sample_hash (\<lambda>n. (10 * n, 3)) sample_manager sample_turns = (m', us)" by (simp add: m'_def us_def)
  moreover have "malwarebazaar_on sample_manager" "covered sample_hash sample_manager sample_live"
    by (simp_all add: malwarebazaar_on_def covered_def sample_manager_def)
  moreover have "''ab'' \<in> (\<Union>t \<in> set sample_turns. downloaded t)" by (simp add: sample_turns_def)
  moreover have "is_bloom ?s = li_bloom (foldl (dispatch_update (\<lambda>_. None)) sample_live us)"
    "fe_hash hashed_file = Some ''ab''" "is_vt ?s = None"
    by (simp_all add: sample_intel_stage_def hashed_file_def)
  ultimately show ?thesis
    using feed_hash_never_clean [of sample_hash "\<lambda>n. (10 * n, 3)" sample_manager sample_turns m' us sample_live
        "''ab''" ?s "\<lambda>_. None" hashed_file quiet_env]
    unfolding us_def [symmetric] by blast
qed

end
