(* ===== verification/Versions.thy ===== *)
theory Versions
  imports Text_Ops "HOL-Library.Char_ord" "HOL-Library.List_Lexorder" "HOL-Library.Sorting_Algorithms"
begin

text \<open>
  \<^verbatim>\<open>riggs-vuln/src/version.rs\<close>: versions of packages, how they are read and how they compare. The
  three-way comparison \<^verbatim>\<open>Ord::cmp\<close> is shown to be a comparator in the sense of the library; the
  derived equality is a different relation, since it also compares the text a version was read
  from.
\<close>

section \<open>Versions\<close>

record version =
  ver_major :: u64
  ver_minor :: u64
  ver_patch :: u64
  ver_pre :: string
  ver_raw :: string

definition parse_leading_digits :: "string \<Rightarrow> u64 option" where
  "parse_leading_digits s =
     (let digits = takeWhile is_digit s
      in if digits = [] then None
         else map_option of_nat (parse_unsigned (2 ^ 64) digits))"

text \<open>The epoch of a Debian version is dropped.\<close>

definition strip_epoch :: "string \<Rightarrow> string" where
  "strip_epoch s =
     (case split_once (CHR '':'') s of
        Some (epoch, rest) \<Rightarrow> if epoch \<noteq> [] \<and> list_all is_digit epoch then rest else s
      | None \<Rightarrow> s)"

text \<open>\<^verbatim>\<open>str::find\<close> with a predicate, as the length of the part before the match.\<close>

definition find_index :: "(char \<Rightarrow> bool) \<Rightarrow> string \<Rightarrow> nat option" where
  "find_index p s = (if list_ex p s then Some (length (takeWhile (\<lambda>c. \<not> p c) s)) else None)"

definition core_end :: "string \<Rightarrow> nat" where
  "core_end s =
     (case find_index (\<lambda>c. c = CHR ''-'' \<or> c = CHR ''+'') s of
        Some i \<Rightarrow> i
      | None \<Rightarrow>
          (case find_index (\<lambda>c. \<not> is_digit c \<and> c \<noteq> CHR ''.'') s of Some i \<Rightarrow> i | None \<Rightarrow> length s))"

definition nth_part :: "string list \<Rightarrow> nat \<Rightarrow> u64" where
  "nth_part parts i =
     (if i < length parts then (case parse_leading_digits (parts ! i) of Some n \<Rightarrow> n | None \<Rightarrow> 0) else 0)"

definition version_parse :: "string \<Rightarrow> version option" where
  "version_parse raw =
     (let s = strip_epoch (trim_start_matches [CHR ''V''] (trim_start_matches [CHR ''v''] (trim raw)));
          k = core_end s;
          parts = split_by (\<lambda>c. c = CHR ''.'') (take k s)
      in map_option
           (\<lambda>major. \<lparr>ver_major = major, ver_minor = nth_part parts 1, ver_patch = nth_part parts 2,
                     ver_pre = trim_start_matches [CHR ''-'', CHR ''+''] (drop k s), ver_raw = raw\<rparr>)
           (parse_leading_digits (hd parts)))"

definition is_prerelease :: "version \<Rightarrow> bool" where
  "is_prerelease v \<longleftrightarrow> ver_pre v \<noteq> []"

section \<open>Comparing\<close>

datatype pre_seg = Num u64 | Text string

function prerelease_segments :: "string \<Rightarrow> pre_seg list" where
  "prerelease_segments [] = []"
| "prerelease_segments (c # s) =
     (if is_digit c
      then Num (case parse_unsigned (2 ^ 64) (takeWhile is_digit (c # s)) of Some n \<Rightarrow> of_nat n | None \<Rightarrow> 0) #
           prerelease_segments (dropWhile is_digit (c # s))
      else Text (takeWhile (\<lambda>d. \<not> is_digit d) (c # s)) #
           prerelease_segments (dropWhile (\<lambda>d. \<not> is_digit d) (c # s)))"
  by pat_completeness auto
termination
  by (relation "measure length") (auto simp: le_imp_less_Suc length_dropWhile_le)

text \<open>\<^verbatim>\<open>Ord::cmp\<close> on integers and on strings (byte by byte), and \<^verbatim>\<open>Ordering::then\<close>.\<close>

definition ord_cmp :: "'a::linorder \<Rightarrow> 'a \<Rightarrow> comp" where
  "ord_cmp a b = (if a < b then Less else if a = b then Equiv else Greater)"

definition and_then :: "comp \<Rightarrow> comp \<Rightarrow> comp" where
  "and_then a b = (if a = Equiv then b else a)"

fun cmp_segment :: "pre_seg \<Rightarrow> pre_seg \<Rightarrow> comp" where
  "cmp_segment (Num m) (Num n) = ord_cmp m n"
| "cmp_segment (Text m) (Text n) = ord_cmp m n"
| "cmp_segment (Num _) (Text _) = Less"
| "cmp_segment (Text _) (Num _) = Greater"

fun cmp_segments :: "pre_seg list \<Rightarrow> pre_seg list \<Rightarrow> comp" where
  "cmp_segments (x # xs) (y # ys) =
     (if cmp_segment x y \<noteq> Equiv then cmp_segment x y else cmp_segments xs ys)"
| "cmp_segments xs ys = ord_cmp (length xs) (length ys)"

definition cmp_prerelease :: "string \<Rightarrow> string \<Rightarrow> comp" where
  "cmp_prerelease a b = cmp_segments (prerelease_segments a) (prerelease_segments b)"

definition version_cmp :: "version \<Rightarrow> version \<Rightarrow> comp" where
  "version_cmp a b =
     and_then (and_then (and_then (ord_cmp (ver_major a) (ver_major b)) (ord_cmp (ver_minor a) (ver_minor b)))
         (ord_cmp (ver_patch a) (ver_patch b)))
       (case (ver_pre a = [], ver_pre b = []) of
          (True, True) \<Rightarrow> Equiv
        | (True, False) \<Rightarrow> Greater
        | (False, True) \<Rightarrow> Less
        | (False, False) \<Rightarrow> cmp_prerelease (ver_pre a) (ver_pre b))"

text \<open>The operators of \<^verbatim>\<open>PartialOrd\<close> go through \<^verbatim>\<open>cmp\<close>; \<open>\<noteq>\<close> is the derived comparison of all fields.\<close>

definition ver_lt :: "version \<Rightarrow> version \<Rightarrow> bool" where "ver_lt a b \<longleftrightarrow> version_cmp a b = Less"
definition ver_ge :: "version \<Rightarrow> version \<Rightarrow> bool" where "ver_ge a b \<longleftrightarrow> version_cmp a b \<noteq> Less"

definition in_range :: "version \<Rightarrow> version option \<Rightarrow> version option \<Rightarrow> bool" where
  "in_range v start stop =
     (if (case start of Some s \<Rightarrow> ver_lt v s | None \<Rightarrow> False) then False
      else if (case stop of Some e \<Rightarrow> ver_ge v e | None \<Rightarrow> False) then False
      else True)"

definition version_display :: "version \<Rightarrow> string" where
  "version_display v =
     show_nat (unat (ver_major v)) @ ''.'' @ show_nat (unat (ver_minor v)) @ ''.'' @ show_nat (unat (ver_patch v)) @
     (if ver_pre v = [] then [] else ''-'' @ ver_pre v)"

section \<open>The comparison is a linear quasi-order\<close>

lemma ord_cmp_simps [simp]:
  "ord_cmp a b = Less \<longleftrightarrow> a < b" "ord_cmp a b = Equiv \<longleftrightarrow> a = b" "ord_cmp a b = Greater \<longleftrightarrow> b < a"
  by (auto simp: ord_cmp_def)

lemma and_then_simps [simp]:
  "and_then a b = Equiv \<longleftrightarrow> a = Equiv \<and> b = Equiv"
  "and_then a b = Less \<longleftrightarrow> a = Less \<or> a = Equiv \<and> b = Less"
  "and_then a b = Greater \<longleftrightarrow> a = Greater \<or> a = Equiv \<and> b = Greater"
  by (auto simp: and_then_def)

interpretation ord_comparator: comparator "ord_cmp :: 'a::linorder \<Rightarrow> 'a \<Rightarrow> comp"
  by unfold_locales auto

text \<open>Comparing by one key and then by another keeps the laws.\<close>

lemma comparator_and_then:
  assumes "comparator c" and "comparator d"
  shows "comparator (\<lambda>a b. and_then (c a b) (d a b))"
proof -
  note c = comparator.refl [OF assms(1)] comparator.trans_equiv [OF assms(1)] comparator.trans_less [OF assms(1)]
    comparator.greater_iff_sym_less [OF assms(1)] comparator.sym [OF assms(1)]
    comparator.trans_equiv_less [OF assms(1)] comparator.trans_less_equiv [OF assms(1)]
  note d = comparator.refl [OF assms(2)] comparator.trans_equiv [OF assms(2)] comparator.trans_less [OF assms(2)]
    comparator.greater_iff_sym_less [OF assms(2)]
  show ?thesis
    by unfold_locales (auto simp: c(1) d(1) c(4) d(4) intro: c(2,3,6,7) d(2,3) dest: c(5) [THEN iffD1])
qed

lemma comparator_key: "comparator c \<Longrightarrow> comparator (\<lambda>a b. c (f a) (f b))"
  unfolding comparator_def by blast

lemma cmp_segment_comparator: "comparator cmp_segment"
proof
  fix a b c :: pre_seg
  show "cmp_segment a a = Equiv" by (cases a) auto
  show "cmp_segment a b = Equiv \<Longrightarrow> cmp_segment b c = Equiv \<Longrightarrow> cmp_segment a c = Equiv"
    by (cases a; cases b; cases c) auto
  show "cmp_segment a b = Less \<Longrightarrow> cmp_segment b c = Less \<Longrightarrow> cmp_segment a c = Less"
    by (cases a; cases b; cases c) auto
  show "cmp_segment b a = Greater \<longleftrightarrow> cmp_segment a b = Less" by (cases a; cases b) auto
qed

interpretation segment: comparator cmp_segment by (rule cmp_segment_comparator)

lemma cmp_segment_Equiv [simp]: "cmp_segment a b = Equiv \<longleftrightarrow> a = b"
  by (cases a; cases b) auto

lemma cmp_segments_Equiv [simp]: "cmp_segments xs ys = Equiv \<longleftrightarrow> xs = ys"
  by (induction xs ys rule: cmp_segments.induct) auto

lemma cmp_segments_less_trans:
  "cmp_segments a b = Less \<Longrightarrow> cmp_segments b c = Less \<Longrightarrow> cmp_segments a c = Less"
proof (induction a arbitrary: b c)
  case Nil
  then show ?case by (cases b; cases c) (auto split: if_splits)
next
  case (Cons x xs)
  then show ?case
    by (cases b; cases c) (auto split: if_splits intro: segment.trans_less dest: segment.asym_less)
qed

lemma cmp_segments_comparator: "comparator cmp_segments"
proof
  show "cmp_segments a a = Equiv" for a by simp
  show "cmp_segments a b = Equiv \<Longrightarrow> cmp_segments b c = Equiv \<Longrightarrow> cmp_segments a c = Equiv" for a b c by simp
  show "cmp_segments b a = Greater \<longleftrightarrow> cmp_segments a b = Less" for a b
    by (induction a b rule: cmp_segments.induct) (auto simp: segment.greater_iff_sym_less)
  show "cmp_segments a b = Less \<Longrightarrow> cmp_segments b c = Less \<Longrightarrow> cmp_segments a c = Less" for a b c
    by (rule cmp_segments_less_trans)
qed

text \<open>A release is above all its pre-releases.\<close>

definition pre_cmp :: "string \<Rightarrow> string \<Rightarrow> comp" where
  "pre_cmp p q =
     (case (p = [], q = []) of
        (True, True) \<Rightarrow> Equiv | (True, False) \<Rightarrow> Greater | (False, True) \<Rightarrow> Less
      | (False, False) \<Rightarrow> cmp_prerelease p q)"

lemma pre_cmp_comparator: "comparator pre_cmp"
proof -
  have c: "comparator cmp_prerelease"
    unfolding cmp_prerelease_def by (rule comparator_key [OF cmp_segments_comparator])
  note laws = comparator.refl [OF c] comparator.trans_equiv [OF c] comparator.trans_less [OF c]
    comparator.greater_iff_sym_less [OF c]
  show ?thesis
    by unfold_locales (auto simp: pre_cmp_def laws(1,4) intro: laws(2,3) split: if_splits bool.splits)
qed

lemma version_cmp_comparator: "comparator version_cmp"
proof -
  have "version_cmp = (\<lambda>a b. and_then (and_then (and_then (ord_cmp (ver_major a) (ver_major b))
      (ord_cmp (ver_minor a) (ver_minor b))) (ord_cmp (ver_patch a) (ver_patch b))) (pre_cmp (ver_pre a) (ver_pre b)))"
    by (intro ext) (simp add: version_cmp_def pre_cmp_def)
  moreover have "comparator \<dots>"
    by (intro comparator_and_then comparator_key [of pre_cmp ver_pre] pre_cmp_comparator
        comparator_key [OF ord_comparator.comparator_axioms])
  ultimately show ?thesis by simp
qed

interpretation version_order: comparator version_cmp by (rule version_cmp_comparator)

lemma version_not_less_trans:
  "version_cmp y x \<noteq> Less \<Longrightarrow> version_cmp y z = Less \<Longrightarrow> version_cmp x z = Less"
  "version_cmp x y = Less \<Longrightarrow> version_cmp z y \<noteq> Less \<Longrightarrow> version_cmp x z = Less"
proof -
  show "version_cmp x z = Less" if "version_cmp y x \<noteq> Less" "version_cmp y z = Less"
  proof (cases "version_cmp y x")
    case Equiv
    then have "version_cmp x y = Equiv" by (simp only: version_order.sym)
    then show ?thesis using that(2) by (rule version_order.trans_equiv_less)
  next
    case Greater
    then have "version_cmp x y = Less" by (simp only: version_order.greater_iff_sym_less)
    then show ?thesis using that(2) by (rule version_order.trans_less)
  qed (use that(1) in simp)
  show "version_cmp x z = Less" if "version_cmp x y = Less" "version_cmp z y \<noteq> Less"
  proof (cases "version_cmp z y")
    case Equiv
    then have "version_cmp y z = Equiv" by (simp only: version_order.sym)
    with that(1) show ?thesis by (rule version_order.trans_less_equiv)
  next
    case Greater
    then have "version_cmp y z = Less" by (simp only: version_order.greater_iff_sym_less)
    with that(1) show ?thesis by (rule version_order.trans_less)
  qed (use that(2) in simp)
qed

section \<open>Reading what was printed\<close>

lemma parse_leading_digits_show [simp]: "parse_leading_digits (show_nat (unat (n :: u64))) = Some n"
proof -
  have tw: "takeWhile is_digit (show_nat (unat n)) = show_nat (unat n)"
    using show_nat_digits [of "unat n"] by (simp add: takeWhile_eq_all_conv list_all_iff)
  have "parse_unsigned (2 ^ 64) (show_nat (unat n)) = Some (unat n)"
    using unsigned_less [of n] by (intro parse_show_nat) simp
  then show ?thesis unfolding parse_leading_digits_def tw Let_def using show_nat_digits [of "unat n"] by simp
qed

definition version_core :: "version \<Rightarrow> string" where
  "version_core v =
     show_nat (unat (ver_major v)) @ CHR ''.'' # show_nat (unat (ver_minor v)) @ CHR ''.'' # show_nat (unat (ver_patch v))"

lemma version_core_chars: "c \<in> set (version_core v) \<Longrightarrow> is_digit c \<or> c = CHR ''.''"
  using show_nat_digits by (auto simp: version_core_def list_all_iff)

lemma version_core_hd: "\<exists>c r. version_core v = c # r \<and> is_digit c"
  using show_nat_digits [of "unat (ver_major v)"]
  by (cases "show_nat (unat (ver_major v))") (auto simp: version_core_def)

lemma split_version_core:
  "split_by (\<lambda>c. c = CHR ''.'') (version_core v) =
     [show_nat (unat (ver_major v)), show_nat (unat (ver_minor v)), show_nat (unat (ver_patch v))]"
proof -
  have "\<forall>d \<in> set (show_nat n). d \<noteq> CHR ''.''" for n
    using show_nat_digits [of n] by (auto simp: list_all_iff is_digit_def)
  then show ?thesis by (simp add: version_core_def split_by_append split_by_none)
qed

lemma strip_epoch_core: "strip_epoch (version_core v @ t) = version_core v @ t"
proof (cases "split_once (CHR '':'') (version_core v @ t)")
  case (Some p)
  obtain e r where p: "p = (e, r)" by fastforce
  then have eq: "version_core v @ t = e @ CHR '':'' # r" using Some by (simp add: split_once_Some_iff)
  have "CHR '':'' \<notin> set (version_core v)" using version_core_chars by (fastforce simp: is_digit_def)
  then have "\<exists>u. e = version_core v @ u" using eq
    by (auto simp: append_eq_append_conv2 append_eq_Cons_conv)
  then have "CHR ''.'' \<in> set e" by (auto simp: version_core_def)
  then have "\<not> list_all is_digit e" by (auto simp: list_all_iff is_digit_def intro!: bexI [of _ "CHR ''.''"])
  with Some p show ?thesis by (simp add: strip_epoch_def)
qed (simp add: strip_epoch_def)

lemma core_end_version:
  "core_end (version_core v) = length (version_core v)"
  "core_end (version_core v @ CHR ''-'' # t) = length (version_core v)"
proof -
  have no: "\<forall>c \<in> set (version_core v). c \<noteq> CHR ''-'' \<and> c \<noteq> CHR ''+'' \<and> (is_digit c \<or> c = CHR ''.'')"
    using version_core_chars by (fastforce simp: is_digit_def)
  then have "takeWhile (\<lambda>c. c \<noteq> CHR ''-'' \<and> c \<noteq> CHR ''+'') (version_core v @ CHR ''-'' # t) = version_core v"
    by (simp add: takeWhile_append2)
  with no show "core_end (version_core v) = length (version_core v)"
    "core_end (version_core v @ CHR ''-'' # t) = length (version_core v)"
    by (auto simp: core_end_def find_index_def list_ex_iff)
qed

lemma version_parse_core:
  assumes "trim (version_core v @ t) = version_core v @ t" and "t = [] \<or> (\<exists>u. t = CHR ''-'' # u)"
  shows "version_parse (version_core v @ t) =
    Some \<lparr>ver_major = ver_major v, ver_minor = ver_minor v, ver_patch = ver_patch v,
          ver_pre = trim_start_matches [CHR ''-'', CHR ''+''] t, ver_raw = version_core v @ t\<rparr>"
proof -
  obtain c r where c: "version_core v = c # r" "is_digit c" using version_core_hd by blast
  then have "c \<noteq> CHR ''v''" "c \<noteq> CHR ''V''" by (auto simp: is_digit_def)
  then have "trim_start_matches [CHR ''V''] (trim_start_matches [CHR ''v''] (trim (version_core v @ t))) = version_core v @ t"
    unfolding assms(1) unfolding trim_start_matches_def c(1) by simp
  moreover have "core_end (version_core v @ t) = length (version_core v)" using assms(2) core_end_version by auto
  ultimately show ?thesis
    by (simp add: version_parse_def Let_def strip_epoch_core split_version_core nth_part_def)
qed

section \<open>Properties\<close>

text \<open>
  C23: versions are ordered lawfully, so ranges behave like intervals. A version of a range lies in
  every range that contains it, the bounds of a range with a version in it are in order, and a
  release is above each of its pre-releases.
\<close>

theorem version_order_lawful:
  assumes "in_range v (Some a) (Some b)" and "\<not> ver_lt a a'" and "\<not> ver_lt b' b"
    and "pre \<noteq> []"
  shows "in_range v (Some a') (Some b') \<and> ver_lt a b \<and> \<not> ver_ge a' b' \<and>
    ver_lt (v\<lparr>ver_pre := pre\<rparr>) (v\<lparr>ver_pre := []\<rparr>)"
proof -
  have v: "version_cmp v a \<noteq> Less" "version_cmp v b = Less" "version_cmp a a' \<noteq> Less" "version_cmp b' b \<noteq> Less"
    using assms(1-3) by (auto simp: in_range_def ver_lt_def ver_ge_def split: if_splits)
  have "version_cmp a b = Less" by (rule version_not_less_trans(1) [OF v(1,2)])
  moreover have "version_cmp v a' \<noteq> Less" using version_not_less_trans(2) v(1,3) by blast
  moreover have "version_cmp v b' = Less" by (rule version_not_less_trans(2) [OF v(2,4)])
  moreover have "version_cmp a' b' = Less"
    using version_not_less_trans(1) [OF v(3)] version_not_less_trans(2) [OF _ v(4)] \<open>version_cmp a b = Less\<close> by blast
  ultimately show ?thesis using assms(4) by (simp add: in_range_def ver_lt_def ver_ge_def version_cmp_def)
qed

text \<open>
  A printed version is read back. Printing a version whose pre-release does not begin with a
  separator, and is not surrounded by white space, and reading the text gives the version again.
\<close>

theorem version_roundtrip:
  assumes "trim (version_display v) = version_display v"
    and "ver_pre v = [] \<or> hd (ver_pre v) \<notin> {CHR ''-'', CHR ''+''}"
  shows "version_parse (version_display v) = Some (v\<lparr>ver_raw := version_display v\<rparr>)"
proof -
  have d: "version_display v = version_core v @ (if ver_pre v = [] then [] else CHR ''-'' # ver_pre v)"
    by (simp add: version_display_def version_core_def)
  have "trim_start_matches [CHR ''-'', CHR ''+''] (if ver_pre v = [] then [] else CHR ''-'' # ver_pre v) = ver_pre v"
    using assms(2) by (cases "ver_pre v") (auto simp: trim_start_matches_def)
  with version_parse_core [OF assms(1) [unfolded d]] show ?thesis by (auto simp: d)
qed

section \<open>Witnesses\<close>

definition release :: "u64 \<Rightarrow> u64 \<Rightarrow> string \<Rightarrow> version" where
  "release major minor pre = \<lparr>ver_major = major, ver_minor = minor, ver_patch = 0, ver_pre = pre, ver_raw = []\<rparr>"

theorem version_order_lawful_witness:
  "in_range (release 1 5 []) (Some (release 1 2 ''beta'')) (Some (release 2 0 []))"
proof -
  have "in_range (release 1 5 []) (Some (release 1 2 [])) (Some (release 1 9 []))"
    "\<not> ver_lt (release 1 2 []) (release 1 2 ''beta'')" "\<not> ver_lt (release 2 0 []) (release 1 9 [])"
    by (simp_all add: in_range_def ver_lt_def ver_ge_def version_cmp_def release_def)
  then show ?thesis using version_order_lawful [where pre = "''a''"] by blast
qed

theorem version_roundtrip_witness:
  "version_parse ''2.10.0-rc1'' = Some \<lparr>ver_major = 2, ver_minor = 10, ver_patch = 0, ver_pre = ''rc1'', ver_raw = ''2.10.0-rc1''\<rparr>"
proof -
  let ?v = "\<lparr>ver_major = 2, ver_minor = 10, ver_patch = 0, ver_pre = ''rc1'', ver_raw = []\<rparr>"
  have "version_display ?v = ''2.10.0-rc1''" "trim ''2.10.0-rc1'' = ''2.10.0-rc1''" by code_simp+
  then show ?thesis using version_roundtrip [of ?v] by simp
qed

end
