(* ===== verification/Vuln.thy ===== *)
theory Vuln
  imports Versions Float32 Filesystem "HOL-Library.Product_Lexorder"
begin

text \<open>
  The vulnerability scanner: \<^verbatim>\<open>riggs-vuln/src/cve.rs\<close> (vulnerabilities and reports), \<^verbatim>\<open>database.rs\<close>
  (the database and its version constraints), \<^verbatim>\<open>packages.rs\<close> (installed packages), \<^verbatim>\<open>osv.rs\<close>
  (advisories of OSV.dev) and \<^verbatim>\<open>scanner.rs\<close>. The argument \<open>lower\<close> is \<^verbatim>\<open>str::to_lowercase\<close>; the answers
  of the OSV service, its time stamps and its CVSS vectors come in through arguments; directories
  are listed by an argument.
\<close>

section \<open>Vulnerabilities\<close>

datatype cve_severity = NoSeverity | LowSeverity | MediumSeverity | HighSeverity | CriticalSeverity

fun cve_severity_rank :: "cve_severity \<Rightarrow> nat" where
  "cve_severity_rank NoSeverity = 0"
| "cve_severity_rank LowSeverity = 1"
| "cve_severity_rank MediumSeverity = 2"
| "cve_severity_rank HighSeverity = 3"
| "cve_severity_rank CriticalSeverity = 4"

instantiation cve_severity :: linorder
begin

definition less_eq_cve_severity :: "cve_severity \<Rightarrow> cve_severity \<Rightarrow> bool" where
  "a \<le> b \<longleftrightarrow> cve_severity_rank a \<le> cve_severity_rank b"

definition less_cve_severity :: "cve_severity \<Rightarrow> cve_severity \<Rightarrow> bool" where
  "a < b \<longleftrightarrow> cve_severity_rank a < cve_severity_rank b"

instance
proof
  fix a b :: cve_severity
  show "a \<le> b \<Longrightarrow> b \<le> a \<Longrightarrow> a = b" by (cases a; cases b) (simp_all add: less_eq_cve_severity_def)
qed (auto simp: less_eq_cve_severity_def less_cve_severity_def)

end

fun cve_severity_display :: "cve_severity \<Rightarrow> string" where
  "cve_severity_display NoSeverity = ''NONE''"
| "cve_severity_display LowSeverity = ''LOW''"
| "cve_severity_display MediumSeverity = ''MEDIUM''"
| "cve_severity_display HighSeverity = ''HIGH''"
| "cve_severity_display CriticalSeverity = ''CRITICAL''"

definition from_cvss :: "f32 \<Rightarrow> cve_severity" where
  "from_cvss s =
     (if f32_le (F_Fin 9) s then CriticalSeverity
      else if f32_le (F_Fin 7) s then HighSeverity
      else if f32_le (F_Fin 4) s then MediumSeverity
      else if f32_lt (F_Fin 0) s then LowSeverity
      else NoSeverity)"

record cve =
  cve_id :: string
  cve_level :: cve_severity
  cvss_score :: f32
  cve_description :: string
  affected_package :: string
  affected_versions :: string
  fixed_version :: "string option"
  cve_published :: timestamp
  cve_references :: "string list"

datatype package_source = Homebrew | System | Application | Pip | Npm | Gem | Dpkg | Rpm | Binary

record installed_package =
  pkg_name :: string
  pkg_version :: string
  pkg_source :: package_source
  install_path :: "string option"

record remediation =
  rem_fixed_version :: "string option"
  rem_upgrade_command :: "string option"
  rem_workaround :: "string option"

record vuln_match =
  vm_cve :: cve
  vm_installed_version :: string
  vm_package_name :: string
  vm_path :: string
  vm_remediation :: "remediation option"

record vuln_report =
  vr_scanned_at :: timestamp
  vr_total_packages :: nat
  vr_vulnerabilities :: "vuln_match list"

definition count_by_severity :: "vuln_report \<Rightarrow> cve_severity \<Rightarrow> nat" where
  "count_by_severity r s = length (filter (\<lambda>v. cve_level (vm_cve v) = s) (vr_vulnerabilities r))"

definition report_summary :: "vuln_report \<Rightarrow> string" where
  "report_summary r =
     show_nat (vr_total_packages r) @ '' packages scanned, '' @
     show_nat (length (vr_vulnerabilities r)) @ '' vulnerabilities found (critical: '' @
     show_nat (count_by_severity r CriticalSeverity) @ '', high: '' @
     show_nat (count_by_severity r HighSeverity) @ '', medium: '' @
     show_nat (count_by_severity r MediumSeverity) @ '', low: '' @
     show_nat (count_by_severity r LowSeverity) @ '')''"

definition has_critical :: "vuln_report \<Rightarrow> bool" where
  "has_critical r \<longleftrightarrow> list_ex (\<lambda>v. cve_level (vm_cve v) = CriticalSeverity) (vr_vulnerabilities r)"

definition filter_by_min_severity :: "vuln_report \<Rightarrow> cve_severity \<Rightarrow> vuln_match list" where
  "filter_by_min_severity r least = filter (\<lambda>v. least \<le> cve_level (vm_cve v)) (vr_vulnerabilities r)"

definition suggest_remediation :: "installed_package \<Rightarrow> cve \<Rightarrow> remediation option" where
  "suggest_remediation p c =
     (let command =
        (case pkg_source p of
           Homebrew \<Rightarrow> Some (''brew upgrade '' @ pkg_name p)
         | Pip \<Rightarrow> map_option (\<lambda>v. ''pip install --upgrade '' @ pkg_name p @ ''=='' @ v) (fixed_version c)
         | Npm \<Rightarrow> Some (''npm update -g '' @ pkg_name p)
         | Gem \<Rightarrow> Some (''gem update '' @ pkg_name p)
         | Dpkg \<Rightarrow> Some (''apt-get install --only-upgrade '' @ pkg_name p)
         | Rpm \<Rightarrow> Some (''yum update '' @ pkg_name p)
         | _ \<Rightarrow> None)
      in Some \<lparr>rem_fixed_version = fixed_version c, rem_upgrade_command = command, rem_workaround = None\<rparr>)"

section \<open>Version constraints\<close>

text \<open>
  One constraint. The operators compare through \<^verbatim>\<open>cmp\<close>, but \<^verbatim>\<open>!=\<close> is the derived comparison, which also
  looks at the text the version was read from.
\<close>

definition constraint_holds :: "version \<Rightarrow> string \<Rightarrow> bool" where
  "constraint_holds installed c =
     (if c = [] \<or> c = ''*'' then True
      else case strip_prefix c ''>='' of
        Some rest \<Rightarrow> (case version_parse (trim rest) of Some v \<Rightarrow> \<not> ver_lt installed v | None \<Rightarrow> True)
      | None \<Rightarrow>
       (case strip_prefix c ''>'' of
          Some rest \<Rightarrow> (case version_parse (trim rest) of
             Some v \<Rightarrow> version_cmp installed v = Greater | None \<Rightarrow> True)
        | None \<Rightarrow>
         (case strip_prefix c ''<='' of
            Some rest \<Rightarrow> (case version_parse (trim rest) of
               Some v \<Rightarrow> version_cmp installed v \<noteq> Greater | None \<Rightarrow> True)
          | None \<Rightarrow>
           (case strip_prefix c ''<'' of
              Some rest \<Rightarrow> (case version_parse (trim rest) of
                 Some v \<Rightarrow> \<not> ver_ge installed v | None \<Rightarrow> True)
            | None \<Rightarrow>
             (case strip_prefix c ''='' of
                Some rest \<Rightarrow> (case version_parse (trim rest) of
                   Some v \<Rightarrow> installed = v | None \<Rightarrow> True)
              | None \<Rightarrow> True)))))"

definition range_matches :: "version \<Rightarrow> string \<Rightarrow> bool" where
  "range_matches installed constraints =
     list_all (constraint_holds installed) (map trim (split_by (\<lambda>c. c = CHR '','') constraints))"

definition at_or_past_fix :: "version \<Rightarrow> string option \<Rightarrow> bool" where
  "at_or_past_fix installed fixed =
     (case fixed of None \<Rightarrow> False
      | Some f \<Rightarrow> (case version_parse f of Some v \<Rightarrow> ver_ge installed v | None \<Rightarrow> False))"

definition version_is_affected :: "version \<Rightarrow> string \<Rightarrow> string option \<Rightarrow> bool" where
  "version_is_affected installed affected fixed =
     (if at_or_past_fix installed fixed then False
      else
        let trimmed = trim affected
        in if trimmed = [] \<or> trimmed = ''unknown'' then fixed \<noteq> None
           else list_ex (range_matches installed)
                  (filter (\<lambda>r. r \<noteq> []) (map trim (split_by (\<lambda>c. c = CHR '';'') trimmed))))"

section \<open>The database\<close>

record cve_database =
  db_entries :: "(string, cve list) hmap"
  total_cves :: nat

definition db_new :: cve_database where
  "db_new = \<lparr>db_entries = [], total_cves = 0\<rparr>"

definition db_add :: "(string \<Rightarrow> string) \<Rightarrow> cve_database \<Rightarrow> cve \<Rightarrow> cve_database" where
  "db_add lower db c =
     (let key = lower (affected_package c);
          cves = (case hm_get (db_entries db) key of Some cs \<Rightarrow> cs | None \<Rightarrow> [])
      in \<lparr>db_entries = hm_insert key (cves @ [c]) (db_entries db), total_cves = total_cves db + 1\<rparr>)"

definition db_lookup :: "(string \<Rightarrow> string) \<Rightarrow> cve_database \<Rightarrow> string \<Rightarrow> string \<Rightarrow> cve list" where
  "db_lookup lower db name installed_version =
     (case hm_get (db_entries db) (lower name) of
        None \<Rightarrow> []
      | Some cves \<Rightarrow>
          (case version_parse installed_version of
             None \<Rightarrow> []
           | Some installed \<Rightarrow>
               filter (\<lambda>c. version_is_affected installed (affected_versions c) (fixed_version c)) cves))"

definition db_lookup_all :: "(string \<Rightarrow> string) \<Rightarrow> cve_database \<Rightarrow> string \<Rightarrow> cve list" where
  "db_lookup_all lower db name =
     (case hm_get (db_entries db) (lower name) of None \<Rightarrow> [] | Some cves \<Rightarrow> cves)"

definition db_replace_all :: "(string \<Rightarrow> string) \<Rightarrow> cve_database \<Rightarrow> cve list \<Rightarrow> cve_database" where
  "db_replace_all lower db cves = foldl (db_add lower) (db\<lparr>db_entries := [], total_cves := 0\<rparr>) cves"

definition package_count :: "cve_database \<Rightarrow> nat" where
  "package_count db = length (db_entries db)"

definition all_cves :: "cve_database \<Rightarrow> cve list" where
  "all_cves db = concat (map snd (db_entries db))"

definition by_severity :: "cve_database \<Rightarrow> cve_severity \<Rightarrow> cve list" where
  "by_severity db least = filter (\<lambda>c. least \<le> cve_level c) (all_cves db)"

definition get_by_id :: "cve_database \<Rightarrow> string \<Rightarrow> cve option" where
  "get_by_id db i = List.find (\<lambda>c. cve_id c = i) (all_cves db)"

text \<open>Loading a file: its text, when it can be read, and what the JSON decoder makes of it.\<close>

definition load_from_file ::
  "(string \<Rightarrow> string) \<Rightarrow> string + string \<Rightarrow> (string \<Rightarrow> string + cve list) \<Rightarrow> string + cve_database"
where
  "load_from_file lower content parse =
     (case content of Inl e \<Rightarrow> Inl e
      | Inr text \<Rightarrow>
          (case parse text of Inl e \<Rightarrow> Inl e
           | Inr cves \<Rightarrow> Inr (foldl (db_add lower) db_new cves)))"

section \<open>Installed packages\<close>

fun osv_ecosystem :: "package_source \<Rightarrow> string option \<Rightarrow> string option" where
  "osv_ecosystem Npm debian = Some ''npm''"
| "osv_ecosystem Pip debian = Some ''PyPI''"
| "osv_ecosystem Gem debian = Some ''RubyGems''"
| "osv_ecosystem Dpkg debian = debian"
| "osv_ecosystem _ debian = None"

definition os_release_field :: "string \<Rightarrow> string \<Rightarrow> string option" where
  "os_release_field text name =
     map_option (\<lambda>v. trim_matches [CHR 0x22] (trim v)) (find_map (\<lambda>l. strip_prefix l name) (str_lines text))"

definition debian_ecosystem :: "string \<Rightarrow> string option" where
  "debian_ecosystem text =
     (case (os_release_field text ''ID='', os_release_field text ''VERSION_ID='') of
        (Some i, Some v) \<Rightarrow> if i = ''debian'' \<and> v \<noteq> [] then Some (''Debian:'' @ v) else None
      | _ \<Rightarrow> None)"

definition block_field :: "string \<Rightarrow> string \<Rightarrow> string option" where
  "block_field block name = map_option trim (find_map (\<lambda>l. strip_prefix l name) (str_lines block))"

text \<open>\<^verbatim>\<open>split_whitespace().last()\<close>: the last token is the first one of the text read backwards.\<close>

fun take_token_rev :: "string \<Rightarrow> string" where
  "take_token_rev [] = []"
| "take_token_rev (c # s) =
     (if list_ex (\<lambda>w. starts_with (c # s) (rev w)) whitespace then [] else c # take_token_rev s)"

definition last_token :: "string \<Rightarrow> string option" where
  "last_token s = (let t = rev (take_token_rev (rev (trim s))) in if t = [] then None else Some t)"

definition dpkg_block :: "string \<Rightarrow> (string \<times> string) option" where
  "dpkg_block block =
     (let installed = (case block_field block ''Status:'' of
                         Some s \<Rightarrow> last_token s = Some ''installed'' | None \<Rightarrow> False)
      in case (block_field block ''Package:'', block_field block ''Version:'') of
           (Some binary, Some version) \<Rightarrow>
             if \<not> installed then None
             else Some
               (case block_field block ''Source:'' of
                  Some source \<Rightarrow>
                    (case split_once (CHR '' '') source of
                       Some (name, v) \<Rightarrow> (name, trim_matches [CHR ''('', CHR '')''] v)
                     | None \<Rightarrow> (source, version))
                | None \<Rightarrow> (binary, version))
         | _ \<Rightarrow> None)"

definition parse_dpkg_status :: "string \<Rightarrow> installed_package list" where
  "parse_dpkg_status content =
     map (\<lambda>(name, version). \<lparr>pkg_name = name, pkg_version = version, pkg_source = Dpkg, install_path = None\<rparr>)
       (sorted_list_of_set
         (set (List.map_filter dpkg_block (split_str [CHR 0x0A, CHR 0x0A] content))))"

definition read_plist_version :: "string option \<Rightarrow> string option" where
  "read_plist_version content =
     (case content of None \<Rightarrow> None
      | Some text \<Rightarrow>
        (case break_at ''CFBundleShortVersionString'' text of None \<Rightarrow> None
         | Some (_, after_key) \<Rightarrow>
           (case break_at ''<string>'' after_key of None \<Rightarrow> None
            | Some (_, remaining) \<Rightarrow> map_option (\<lambda>(v, _). trim v) (break_at ''</string>'' remaining))))"

text \<open>
  Directories: \<open>ls d\<close> lists the names in \<open>d\<close>, or nothing when \<open>d\<close> is not a directory that can be
  read.
\<close>

type_synonym listing = "string \<Rightarrow> string list option"

definition entries_of :: "listing \<Rightarrow> string \<Rightarrow> string list" where
  "entries_of ls d = (case ls d of Some names \<Rightarrow> names | None \<Rightarrow> [])"

definition enumerate_homebrew :: "listing \<Rightarrow> installed_package list" where
  "enumerate_homebrew ls =
     concat (map (\<lambda>prefix.
       concat (map (\<lambda>name.
         map (\<lambda>version. \<lparr>pkg_name = name, pkg_version = version, pkg_source = Homebrew,
                        install_path = Some (path_join (path_join prefix name) version)\<rparr>)
           (filter (\<lambda>version. ls (path_join (path_join prefix name) version) \<noteq> None)
              (entries_of ls (path_join prefix name))))
         (entries_of ls prefix)))
       [''/opt/homebrew/Cellar'', ''/usr/local/Cellar''])"

definition dist_info_package :: "string \<Rightarrow> string \<Rightarrow> installed_package option" where
  "dist_info_package dir name =
     (case strip_suffix name ''.dist-info'' of None \<Rightarrow> None
      | Some stripped \<Rightarrow>
          map_option (\<lambda>(p, version). \<lparr>pkg_name = replace_char (CHR ''_'') (CHR ''-'') p, pkg_version = version,
                                      pkg_source = Pip, install_path = Some (path_join dir name)\<rparr>)
            (rsplit_once (CHR ''-'') stripped))"

definition enumerate_pip :: "string \<Rightarrow> listing \<Rightarrow> installed_package list" where
  "enumerate_pip home ls =
     concat (map (\<lambda>base. List.map_filter (dist_info_package base) (entries_of ls base))
       [home @ ''/.local/lib/python3/dist-packages'', ''/usr/lib/python3/dist-packages'',
        ''/usr/local/lib/python3/dist-packages''])"

text \<open>
  \<open>manifest p\<close> is what the JSON of the file \<open>p\<close> says of name and version, when the file is there and
  decodes.
\<close>

type_synonym manifests = "string \<Rightarrow> (string option \<times> string option) option"

definition npm_package :: "manifests \<Rightarrow> string \<Rightarrow> installed_package option" where
  "npm_package manifest pkg_path =
     (case manifest (path_join pkg_path ''package.json'') of None \<Rightarrow> None
      | Some (name, version) \<Rightarrow>
          (let n = (case name of Some s \<Rightarrow> s | None \<Rightarrow> [])
           in if n = [] then None
              else Some \<lparr>pkg_name = n, pkg_version = (case version of Some v \<Rightarrow> v | None \<Rightarrow> ''0.0.0''),
                         pkg_source = Npm, install_path = Some pkg_path\<rparr>))"

definition npm_dir :: "manifests \<Rightarrow> listing \<Rightarrow> string \<Rightarrow> installed_package list" where
  "npm_dir manifest ls base =
     List.map_filter (\<lambda>name. npm_package manifest (path_join base name)) (entries_of ls base)"

definition enumerate_npm_global :: "string \<Rightarrow> manifests \<Rightarrow> listing \<Rightarrow> installed_package list" where
  "enumerate_npm_global home manifest ls =
     concat (map (npm_dir manifest ls)
       [home @ ''/.npm-global/lib/node_modules'', ''/usr/local/lib/node_modules'', ''/usr/lib/node_modules''])"

text \<open>The packages of a Linux host, from the text of dpkg's status file when it can be read.\<close>

definition enumerate_packages ::
  "string option \<Rightarrow> string \<Rightarrow> manifests \<Rightarrow> listing \<Rightarrow> installed_package list"
where
  "enumerate_packages status home manifest ls =
     (case status of Some text \<Rightarrow> parse_dpkg_status text | None \<Rightarrow> [])
     @ enumerate_pip home ls @ enumerate_npm_global home manifest ls"

text \<open>The packages below a path: \<^verbatim>\<open>node_modules\<close> and the Python libraries of a virtual environment.\<close>

definition enumerate_path_packages :: "manifests \<Rightarrow> listing \<Rightarrow> string \<Rightarrow> installed_package list" where
  "enumerate_path_packages manifest ls path =
     (if ls path = None then []
      else npm_dir manifest ls (path_join path ''node_modules'')
        @ concat (map (\<lambda>dir.
            (let site = path_join (path_join (path_join path ''lib'') dir) ''site-packages''
             in List.map_filter (dist_info_package site) (entries_of ls site)))
            (entries_of ls (path_join path ''lib''))))"

section \<open>Advisories of OSV\<close>

record osv_event =
  oe_introduced :: "string option"
  oe_fixed :: "string option"

record osv_range =
  range_type :: string
  range_events :: "osv_event list option"

record osv_affected =
  oa_package :: "(string \<times> string) option"
  oa_ranges :: "osv_range list option"

record osv_severity =
  severity_type :: string
  severity_score :: string

record osv_vuln =
  ov_id :: string
  ov_summary :: "string option"
  ov_details :: "string option"
  ov_published :: "string option"
  ov_severity :: "osv_severity list option"
  ov_affected :: "osv_affected list option"
  ov_references :: "string list option"

definition last_event :: "(osv_event \<Rightarrow> string option) \<Rightarrow> osv_event list \<Rightarrow> string option" where
  "last_event f events = foldl (\<lambda>acc e. case f e of Some v \<Rightarrow> Some v | None \<Rightarrow> acc) None events"

definition range_part :: "string option \<Rightarrow> string option \<Rightarrow> string" where
  "range_part introduced fixed =
     (let p = (case introduced of Some i \<Rightarrow> ''>= '' @ i | None \<Rightarrow> [])
      in case fixed of Some f \<Rightarrow> (if p \<noteq> [] then p @ '', '' else p) @ ''< '' @ f | None \<Rightarrow> p)"

definition range_step :: "string list \<times> string option \<Rightarrow> osv_range \<Rightarrow> string list \<times> string option" where
  "range_step acc r =
     (case range_events r of None \<Rightarrow> acc
      | Some events \<Rightarrow>
          (let introduced = last_event oe_introduced events;
               fixed = last_event oe_fixed events;
               p = range_part introduced fixed
           in (if p \<noteq> [] then fst acc @ [p] else fst acc,
               case fixed of Some f \<Rightarrow> Some f | None \<Rightarrow> snd acc)))"

definition extract_version_info :: "osv_range list option \<Rightarrow> string \<times> string option" where
  "extract_version_info ranges =
     (case ranges of None \<Rightarrow> (''unknown'', None)
      | Some rs \<Rightarrow>
          if rs = [] then (''unknown'', None)
          else (let (parts, latest) = foldl range_step ([], None) rs
                in (if parts = [] then ''unknown'' else join ''; '' parts, latest)))"

definition extract_cvss_score :: "(string \<Rightarrow> f32 option) \<Rightarrow> osv_severity list option \<Rightarrow> f32" where
  "extract_cvss_score cvss severity =
     (case severity of None \<Rightarrow> F_Fin 0
      | Some entries \<Rightarrow>
          (case find_map (\<lambda>e. if severity_type e = ''CVSS_V3'' then cvss (severity_score e) else None) entries of
             Some s \<Rightarrow> s
           | None \<Rightarrow> (case find_map (\<lambda>e. cvss (severity_score e)) entries of Some s \<Rightarrow> s | None \<Rightarrow> F_Fin 0)))"

text \<open>\<^verbatim>\<open>chars().take(n)\<close> of UTF-8 text: a character goes with its continuation bytes.\<close>

fun take_chars :: "nat \<Rightarrow> string \<Rightarrow> string" where
  "take_chars n [] = []"
| "take_chars n (c # s) =
     (if 128 \<le> (of_char c :: nat) \<and> (of_char c :: nat) < 192 then c # take_chars n s
      else case n of 0 \<Rightarrow> [] | Suc m \<Rightarrow> c # take_chars m s)"

definition osv_to_cve ::
  "(string \<Rightarrow> f32 option) \<Rightarrow> (string \<Rightarrow> timestamp option) \<Rightarrow> timestamp \<Rightarrow> osv_vuln \<Rightarrow> cve list"
where
  "osv_to_cve cvss parse_time now vuln =
     (let score = extract_cvss_score cvss (ov_severity vuln);
          template = \<lparr>cve_id = ov_id vuln, cve_level = from_cvss score, cvss_score = score,
            cve_description =
              (case ov_summary vuln of Some s \<Rightarrow> s
               | None \<Rightarrow> (case ov_details vuln of Some d \<Rightarrow> take_chars 200 d
                        | None \<Rightarrow> ''No description available'')),
            affected_package = ''unknown'', affected_versions = ''unknown'', fixed_version = None,
            cve_published =
              (case Option.bind (ov_published vuln) parse_time of Some t \<Rightarrow> t | None \<Rightarrow> now),
            cve_references = (case ov_references vuln of Some rs \<Rightarrow> rs | None \<Rightarrow> [])\<rparr>
      in case ov_affected vuln of
           Some (a # as) \<Rightarrow>
             map (\<lambda>a. (let (versions, fixed) = extract_version_info (oa_ranges a)
                       in template\<lparr>affected_package :=
                                     (case oa_package a of Some (_, name) \<Rightarrow> name | None \<Rightarrow> ''unknown''),
                                   affected_versions := versions, fixed_version := fixed\<rparr>)) (a # as)
         | _ \<Rightarrow> [template])"

text \<open>
  A query of the service: an error, or its advisories. For an installed version the answer keeps one
  entry per advisory.
\<close>

type_synonym osv_service = "string \<Rightarrow> string \<Rightarrow> string option \<Rightarrow> string + osv_vuln list option"

fun first_ids :: "string list \<Rightarrow> cve list \<Rightarrow> cve list" where
  "first_ids seen [] = []"
| "first_ids seen (c # cs) =
     (if cve_id c \<in> set seen then first_ids seen cs else c # first_ids (cve_id c # seen) cs)"

definition osv_query ::
  "osv_service \<Rightarrow> (osv_vuln \<Rightarrow> cve list) \<Rightarrow> string \<Rightarrow> string \<Rightarrow> string option \<Rightarrow> string + cve list"
where
  "osv_query service convert ecosystem name version =
     (case service ecosystem name version of Inl e \<Rightarrow> Inl e
      | Inr vulns \<Rightarrow> Inr (concat (map convert (case vulns of Some vs \<Rightarrow> vs | None \<Rightarrow> []))))"

definition query_installed ::
  "osv_service \<Rightarrow> (osv_vuln \<Rightarrow> cve list) \<Rightarrow> string \<Rightarrow> string \<Rightarrow> string \<Rightarrow> string + cve list"
where
  "query_installed service convert ecosystem name version =
     map_sum id (first_ids []) (osv_query service convert ecosystem name (Some version))"

definition query_batch ::
  "osv_service \<Rightarrow> (osv_vuln \<Rightarrow> cve list) \<Rightarrow> string \<Rightarrow> string list \<Rightarrow> cve list"
where
  "query_batch service convert ecosystem names =
     concat (map (\<lambda>n. case osv_query service convert ecosystem n None of Inl e \<Rightarrow> [] | Inr cs \<Rightarrow> cs) names)"

section \<open>The scanner\<close>

definition vuln_match_of :: "installed_package \<Rightarrow> cve \<Rightarrow> vuln_match" where
  "vuln_match_of p c =
     \<lparr>vm_cve = c, vm_installed_version = pkg_version p, vm_package_name = pkg_name p,
      vm_path = (case install_path p of Some d \<Rightarrow> d | None \<Rightarrow> []),
      vm_remediation = suggest_remediation p c\<rparr>"

text \<open>\<^verbatim>\<open>f32::total_cmp\<close>, three-way.\<close>

definition f32_total_cmp :: "f32 \<Rightarrow> f32 \<Rightarrow> comp" where
  "f32_total_cmp a b =
     (if f32_total_le a b then (if f32_total_le b a then Equiv else Less) else Greater)"

lemma f32_total_le_linear: "f32_total_le a b \<or> f32_total_le b a"
  by (cases a; cases b) (auto simp: f32_total_le_def)

lemma f32_total_le_trans: "f32_total_le a b \<Longrightarrow> f32_total_le b c \<Longrightarrow> f32_total_le a c"
  by (auto simp: f32_total_le_def intro: f32_le_trans)

lemma f32_total_cmp_iff:
  "f32_total_cmp a b = Less \<longleftrightarrow> \<not> f32_total_le b a"
  "f32_total_cmp a b = Equiv \<longleftrightarrow> f32_total_le a b \<and> f32_total_le b a"
  "f32_total_cmp a b = Greater \<longleftrightarrow> \<not> f32_total_le a b"
  using f32_total_le_linear [of a b] by (auto simp: f32_total_cmp_def)

lift_definition score_order :: "f32 comparator" is f32_total_cmp
  by unfold_locales (unfold f32_total_cmp_iff; meson f32_total_le_linear f32_total_le_trans)+

definition by_score :: "vuln_match comparator" where
  "by_score = reversed (key (\<lambda>v. cvss_score (vm_cve v)) score_order)"

definition build_report :: "timestamp \<Rightarrow> nat \<Rightarrow> vuln_match list \<Rightarrow> vuln_report" where
  "build_report now n vulns =
     \<lparr>vr_scanned_at = now, vr_total_packages = n,
      vr_vulnerabilities = Sorting_Algorithms.sort by_score vulns\<rparr>"

definition scan_packages ::
  "(string \<Rightarrow> string) \<Rightarrow> timestamp \<Rightarrow> cve_database \<Rightarrow> installed_package list \<Rightarrow> vuln_report"
where
  "scan_packages lower now db packages =
     build_report now (length packages)
       (concat (map (\<lambda>p. map (vuln_match_of p) (db_lookup lower db (pkg_name p) (pkg_version p))) packages))"

text \<open>One package of the refresh loop, and the loop: matches, and the vulnerabilities for the database.\<close>

definition osv_package ::
  "osv_service \<Rightarrow> (osv_vuln \<Rightarrow> cve list) \<Rightarrow> string option \<Rightarrow> installed_package \<Rightarrow> cve list"
where
  "osv_package service convert debian p =
     (case osv_ecosystem (pkg_source p) debian of None \<Rightarrow> []
      | Some ecosystem \<Rightarrow>
          (case query_installed service convert ecosystem (pkg_name p) (pkg_version p) of
             Inl e \<Rightarrow> [] | Inr affecting \<Rightarrow> affecting))"

definition update_from_osv_and_scan ::
  "(string \<Rightarrow> string) \<Rightarrow> osv_service \<Rightarrow> (osv_vuln \<Rightarrow> cve list) \<Rightarrow> string option \<Rightarrow> timestamp
   \<Rightarrow> installed_package list \<Rightarrow> cve_database \<Rightarrow> cve_database \<times> vuln_report"
where
  "update_from_osv_and_scan lower service convert os_release now packages db =
     (let debian = Option.bind os_release debian_ecosystem;
          found = map (\<lambda>p. (p, osv_package service convert debian p)) packages
      in (db_replace_all lower db (concat (map snd found)),
          build_report now (length packages)
            (concat (map (\<lambda>(p, cs). map (vuln_match_of p) cs) found))))"

section \<open>The database answers like the list of what was added\<close>

lemma db_lookup_all_add [simp]:
  "db_lookup_all lower (db_add lower db c) name =
     db_lookup_all lower db name @ (if lower (affected_package c) = lower name then [c] else [])"
  by (simp add: db_lookup_all_def db_add_def Let_def hmap_simps split: option.split)

lemma db_lookup_all_foldl:
  "db_lookup_all lower (foldl (db_add lower) db cves) name =
     db_lookup_all lower db name @ filter (\<lambda>c. lower (affected_package c) = lower name) cves"
  by (induction cves arbitrary: db) auto

lemma db_lookup_conv:
  "db_lookup lower db name ver =
     (case version_parse ver of None \<Rightarrow> []
      | Some v \<Rightarrow> filter (\<lambda>c. version_is_affected v (affected_versions c) (fixed_version c)) (db_lookup_all lower db name))"
  by (simp add: db_lookup_def db_lookup_all_def split: option.split)

lemma db_lookup_replaced:
  "db_lookup lower (db_replace_all lower db cves) name ver =
     filter (\<lambda>c. lower (affected_package c) = lower name \<and>
                 (\<exists>v. version_parse ver = Some v \<and> version_is_affected v (affected_versions c) (fixed_version c))) cves"
proof -
  have "db_lookup_all lower (db\<lparr>db_entries := [], total_cves := 0\<rparr>) name = []" by (simp add: db_lookup_all_def)
  then show ?thesis
    by (cases "version_parse ver")
      (simp_all add: db_lookup_conv db_replace_all_def db_lookup_all_foldl conj_commute)
qed

lemma total_cves_foldl [simp]: "total_cves (foldl (db_add lower) db cves) = total_cves db + length cves"
  by (induction cves arbitrary: db) (auto simp: db_add_def Let_def)

section \<open>The report\<close>

lemma sorted_sorted_wrt: "Sorting_Algorithms.sorted cmp xs \<Longrightarrow> sorted_wrt (\<lambda>a b. compare cmp a b \<noteq> Greater) xs"
  by (induction xs) (auto dest: sorted_Cons_imp_sorted sorted_Cons_imp_not_less)

lemma compare_by_score [simp]:
  "compare by_score a b \<noteq> Greater \<longleftrightarrow> f32_total_le (cvss_score (vm_cve b)) (cvss_score (vm_cve a))"
  by (simp add: by_score_def score_order.rep_eq f32_total_cmp_def)

text \<open>
  A scan reports every vulnerability once for each installed package it affects, and nothing
  else, and the report lists them with the highest CVSS score first. A vulnerability affects a
  package when their names agree up to case and the version constraints accept the installed
  version; the database answers as the plain list of vulnerabilities would, although it is indexed
  by name.
\<close>

theorem scan_report_exact:
  "let report = scan_packages lower now (db_replace_all lower db cves) pkgs
   in sorted_wrt (\<lambda>a b. f32_total_le (cvss_score (vm_cve b)) (cvss_score (vm_cve a))) (vr_vulnerabilities report)
      \<and> mset (vr_vulnerabilities report) =
          mset [vuln_match_of p c. p \<leftarrow> pkgs, c \<leftarrow> cves,
                  lower (affected_package c) = lower (pkg_name p) \<and>
                  (\<exists>v. version_parse (pkg_version p) = Some v \<and>
                       version_is_affected v (affected_versions c) (fixed_version c))]
      \<and> vr_total_packages report = length pkgs"
proof -
  have *: "concat (map (\<lambda>c. if P c then [f c] else []) cs) = map f (filter P cs)" for P f and cs :: "cve list"
    by (induction cs) auto
  show ?thesis
    using sorted_sorted_wrt [OF sorted_sort, of by_score]
    by (simp add: scan_packages_def build_report_def db_lookup_replaced Let_def *)
qed

section \<open>Ranges written for the database mean what they say\<close>

definition plain_version :: "string \<Rightarrow> bool" where
  "plain_version t \<longleftrightarrow> t \<noteq> [] \<and> list_all (\<lambda>c. solid c \<and> c \<noteq> CHR '','' \<and> c \<noteq> CHR '';'') t \<and> version_parse t \<noteq> None"

lemma plain_version_trim:
  assumes "plain_version t" shows "trim t = t" "trim (CHR '' '' # t) = t"
proof -
  have "solid (hd t)" "solid (last t)" "t \<noteq> []"
    using assms by (auto simp: plain_version_def list_all_iff)
  then show "trim t = t" by simp
  then show "trim (CHR '' '' # t) = t" by (simp add: trim_space)
qed

lemma constraint_at_least:
  "plain_version i \<Longrightarrow> constraint_holds v (''>= '' @ i) \<longleftrightarrow> (case version_parse i of Some a \<Rightarrow> \<not> ver_lt v a | None \<Rightarrow> True)"
  by (auto simp: constraint_holds_def strip_prefix_def starts_with_def plain_version_trim split: option.split)

lemma constraint_below:
  "plain_version f \<Longrightarrow> constraint_holds v (''< '' @ f) \<longleftrightarrow> (case version_parse f of Some b \<Rightarrow> \<not> ver_ge v b | None \<Rightarrow> True)"
  by (auto simp: constraint_holds_def strip_prefix_def starts_with_def plain_version_trim split: option.split)

definition read_bound :: "string option \<Rightarrow> version option" where
  "read_bound t = Option.bind t version_parse"

definition plain_bound :: "string option \<Rightarrow> bool" where
  "plain_bound t \<longleftrightarrow> pred_option plain_version t"

lemma plain_no_sep: "plain_version t \<Longrightarrow> CHR '','' \<notin> set t \<and> CHR '';'' \<notin> set t"
  by (auto simp: plain_version_def list_all_iff)

lemma part_ends:
  assumes "plain_bound i" "plain_bound f" "i \<noteq> None \<or> f \<noteq> None"
  shows "solid (hd (range_part i f)) \<and> solid (last (range_part i f)) \<and> range_part i f \<noteq> []
         \<and> CHR '';'' \<notin> set (range_part i f) \<and> hd (range_part i f) \<noteq> CHR ''u''"
proof -
  have *: "solid (last t) \<and> t \<noteq> []" if "plain_version t" for t
    using that by (auto simp: plain_version_def list_all_iff)
  show ?thesis
    using assms * plain_no_sep
    by (cases i; cases f) (auto simp: range_part_def plain_bound_def solid_def)
qed

lemma trim_part:
  assumes "plain_version t" shows "trim (''>= '' @ t) = ''>= '' @ t" "trim (''< '' @ t) = ''< '' @ t"
proof -
  have "solid (last t) \<and> t \<noteq> []" using assms by (auto simp: plain_version_def list_all_iff)
  then show "trim (''>= '' @ t) = ''>= '' @ t" "trim (''< '' @ t) = ''< '' @ t"
    by (auto intro!: trim_solid simp: solid_def)
qed

lemma range_matches_part:
  assumes "plain_bound i" "plain_bound f" "i \<noteq> None \<or> f \<noteq> None"
  shows "range_matches v (range_part i f) \<longleftrightarrow> in_range v (read_bound i) (read_bound f)"
proof -
  let ?comma = "\<lambda>c. c = CHR '',''"
  have one: "split_by ?comma t = [t]" "split_by ?comma (t @ CHR '','' # r) = t # split_by ?comma r"
    if "plain_version t" for t r
    using plain_no_sep [OF that] by (auto intro!: split_by_none split_by_append)
  show ?thesis
    using assms
    by (cases i; cases f)
      (auto simp: range_matches_def range_part_def plain_bound_def read_bound_def in_range_def one trim_part [simplified]
        trim_space constraint_at_least [simplified] constraint_below [simplified] split: option.split)
qed

lemma split_join:
  assumes "\<forall>q \<in> set (p # ps). CHR '';'' \<notin> set q"
  shows "split_by (\<lambda>c. c = CHR '';'') (join ''; '' (p # ps)) = p # map (\<lambda>q. CHR '' '' # q) ps"
  using assms
proof (induction ps arbitrary: p)
  case Nil
  then show ?case by (auto intro: split_by_none)
next
  case (Cons q ps)
  have "split_by (\<lambda>c. c = CHR '';'') (p @ CHR '';'' # CHR '' '' # join ''; '' (q # ps))
        = p # split_by (\<lambda>c. c = CHR '';'') (CHR '' '' # join ''; '' (q # ps))"
    using Cons.prems by (intro split_by_append) auto
  then show ?case using Cons by simp
qed

lemma join_ends:
  "p \<noteq> [] \<Longrightarrow> hd (join sep (p # ps)) = hd p"
  "last ps \<noteq> [] \<Longrightarrow> ps \<noteq> [] \<Longrightarrow> last (join sep ps) = last (last ps)"
  "p \<noteq> [] \<Longrightarrow> join sep (p # ps) \<noteq> []"
proof -
  show "p \<noteq> [] \<Longrightarrow> hd (join sep (p # ps)) = hd p" by (cases ps) auto
  show ne: "p \<noteq> [] \<Longrightarrow> join sep (p # ps) \<noteq> []" for p ps by (cases ps) auto
  have "last ps \<noteq> [] \<Longrightarrow> ps \<noteq> [] \<Longrightarrow> join sep ps \<noteq> [] \<and> last (join sep ps) = last (last ps)"
    by (induction ps rule: induct_list012) auto
  then show "last ps \<noteq> [] \<Longrightarrow> ps \<noteq> [] \<Longrightarrow> last (join sep ps) = last (last ps)" by simp
qed

text \<open>What a list of ranges says: the bounds of each, and the fix of the last range that names one.\<close>

definition range_bounds :: "osv_range \<Rightarrow> string option \<times> string option" where
  "range_bounds r =
     (case range_events r of None \<Rightarrow> (None, None)
      | Some events \<Rightarrow> (last_event oe_introduced events, last_event oe_fixed events))"

definition bounded_ranges :: "osv_range list \<Rightarrow> (string option \<times> string option) list" where
  "bounded_ranges rs = filter (\<lambda>b. b \<noteq> (None, None)) (map range_bounds rs)"

lemma range_part_Nil [simp]: "range_part i f = [] \<longleftrightarrow> i = None \<and> f = None"
  by (cases i; cases f) (auto simp: range_part_def)

lemma foldl_range_step:
  "foldl range_step (parts, latest) rs =
     (parts @ map (\<lambda>(i, f). range_part i f) (bounded_ranges rs),
      case find_map snd (rev (map range_bounds rs)) of Some f \<Rightarrow> Some f | None \<Rightarrow> latest)"
proof (induction rs rule: rev_induct)
  case Nil
  then show ?case by (simp add: bounded_ranges_def)
next
  case (snoc r rs)
  then show ?case
    by (auto simp: bounded_ranges_def range_step_def range_bounds_def Let_def split: option.splits)
qed

definition range_text :: "string \<Rightarrow> bool" where
  "range_text q \<longleftrightarrow> q \<noteq> [] \<and> solid (hd q) \<and> solid (last q) \<and> CHR '';'' \<notin> set q \<and> hd q \<noteq> CHR ''u''"

lemma range_text_part: "plain_bound i \<Longrightarrow> plain_bound f \<Longrightarrow> i \<noteq> None \<or> f \<noteq> None \<Longrightarrow> range_text (range_part i f)"
  using part_ends [of i f] by (simp add: range_text_def)

lemma affected_join:
  assumes texts: "\<forall>q \<in> set (p # ps). range_text q"
  shows "version_is_affected v (join ''; '' (p # ps)) fixed \<longleftrightarrow>
           \<not> at_or_past_fix v fixed \<and> (\<exists>q \<in> set (p # ps). range_matches v q)"
proof -
  let ?text = "join ''; '' (p # ps)"
  have ends: "hd ?text = hd p" "last ?text = last (last (p # ps))" "?text \<noteq> []"
    using texts join_ends(1,3) [of p "''; ''" ps] join_ends(2) [of "p # ps" "''; ''"] last_in_set [of "p # ps"]
    by (auto simp: range_text_def simp del: join.simps last.simps)
  have trimmed: "trim ?text = ?text"
    using texts ends last_in_set [of "p # ps"] by (intro trim_solid) (auto simp: range_text_def)
  have "hd ?text \<noteq> CHR ''u''" using texts ends(1) by (simp add: range_text_def)
  then have known: "?text \<noteq> ''unknown''" by (metis list.sel(1))
  have "map trim (split_by (\<lambda>c. c = CHR '';'') ?text) = p # ps"
    using texts by (subst split_join) (auto simp: range_text_def trim_space intro!: map_idI)
  moreover have "filter (\<lambda>r. r \<noteq> []) (p # ps) = p # ps"
    using texts by (auto simp: range_text_def intro!: filter_True)
  ultimately show ?thesis
    using ends(3) known unfolding version_is_affected_def Let_def trimmed
    by (simp only: list_ex_iff) auto
qed

lemma bounded_Nil: "bounded_ranges rs = [] \<Longrightarrow> find_map snd (rev (map range_bounds rs)) = None"
  by (induction rs rule: rev_induct) (auto simp: bounded_ranges_def split: if_splits)

lemma find_map_Some_in: "find_map f xs = Some y \<Longrightarrow> \<exists>x \<in> set xs. f x = Some y"
  by (induction xs) (auto split: option.splits)

text \<open>
  The text that \<^verbatim>\<open>extract_version_info\<close> writes for the ranges of an advisory is read back by
  \<^verbatim>\<open>version_is_affected\<close> with its meaning: a version is affected exactly when some range with a bound
  contains it (from the last version that introduces to before the last version that fixes) and it
  lies before the fix that the last range with a fix names. Version texts are printable, have no comma and no
  semicolon, and can be read as versions.
\<close>

theorem osv_ranges_read_back:
  assumes "\<forall>(i, f) \<in> set (map range_bounds rs). plain_bound i \<and> plain_bound f"
  shows "(case extract_version_info (Some rs) of (text, fixed) \<Rightarrow> version_is_affected v text fixed) \<longleftrightarrow>
           (\<exists>(i, f) \<in> set (bounded_ranges rs). in_range v (read_bound i) (read_bound f)) \<and>
           (case find_map snd (rev (map range_bounds rs)) of
              None \<Rightarrow> True | Some f \<Rightarrow> ver_lt v (the (version_parse f)))"
proof (cases "bounded_ranges rs")
  case Nil
  have "trim ''unknown'' = ''unknown''" by (simp add: solid_def)
  then show ?thesis
    using Nil bounded_Nil [OF Nil]
    by (simp add: extract_version_info_def foldl_range_step version_is_affected_def at_or_past_fix_def)
next
  case (Cons b bs)
  let ?fixed = "find_map snd (rev (map range_bounds rs))"
  have texts: "\<forall>q \<in> set (map (\<lambda>(i, f). range_part i f) (b # bs)). range_text q"
    using assms unfolding Cons [symmetric] by (auto simp: bounded_ranges_def intro!: range_text_part)
  have "rs \<noteq> []" using Cons by (auto simp: bounded_ranges_def)
  then have "extract_version_info (Some rs) = (join ''; '' (map (\<lambda>(i, f). range_part i f) (b # bs)), ?fixed)"
    using Cons by (auto simp: extract_version_info_def foldl_range_step split: option.split)
  moreover have "(\<exists>q \<in> set (map (\<lambda>(i, f). range_part i f) (b # bs)). range_matches v q) \<longleftrightarrow>
        (\<exists>(i, f) \<in> set (b # bs). in_range v (read_bound i) (read_bound f))"
  proof -
    have "range_matches v (range_part i f) \<longleftrightarrow> in_range v (read_bound i) (read_bound f)"
      if "(i, f) \<in> set (b # bs)" for i f
      using that assms unfolding Cons [symmetric]
      by (intro range_matches_part) (auto simp: bounded_ranges_def)
    then show ?thesis unfolding set_map bex_simps(7) by (intro bex_cong) (auto split: prod.splits)
  qed
  moreover have "\<not> at_or_past_fix v ?fixed \<longleftrightarrow> (case ?fixed of None \<Rightarrow> True | Some f \<Rightarrow> ver_lt v (the (version_parse f)))"
  proof (cases ?fixed)
    case (Some f)
    then have "plain_version f"
      using assms by (fastforce dest!: find_map_Some_in simp: plain_bound_def)
    then show ?thesis using Some
      by (auto simp: at_or_past_fix_def plain_version_def ver_ge_def ver_lt_def)
  qed (simp add: at_or_past_fix_def)
  ultimately show ?thesis
    using affected_join [of "case b of (i, f) \<Rightarrow> range_part i f" "map (\<lambda>(i, f). range_part i f) bs" v ?fixed] texts Cons
    by auto
qed

definition sample_ranges :: "osv_range list" where
  "sample_ranges = [\<lparr>range_type = ''ECOSYSTEM'',
     range_events = Some [\<lparr>oe_introduced = Some ''1.0.0'', oe_fixed = None\<rparr>,
                          \<lparr>oe_introduced = None, oe_fixed = Some ''1.2.3''\<rparr>]\<rparr>]"

lemma parse_plain:
  assumes "version_core v = t" "t \<noteq> []" "solid (hd t)" "solid (last t)"
  shows "version_parse t = Some (v\<lparr>ver_pre := [], ver_raw := t\<rparr>)"
  using version_parse_core [of v "[]"] assms by (simp add: trim_start_matches_def)

lemma sample_bounds:
  "version_parse ''1.0.0'' = Some ((release 1 0 [])\<lparr>ver_raw := ''1.0.0''\<rparr>)"
  "version_parse ''1.2.3'' = Some \<lparr>ver_major = 1, ver_minor = 2, ver_patch = 3, ver_pre = [], ver_raw = ''1.2.3''\<rparr>"
proof -
  have "version_core (release 1 0 []) = ''1.0.0''"
    "version_core \<lparr>ver_major = 1, ver_minor = 2, ver_patch = 3, ver_pre = [], ver_raw = []\<rparr> = ''1.2.3''" by code_simp+
  from this [THEN parse_plain] show
    "version_parse ''1.0.0'' = Some ((release 1 0 [])\<lparr>ver_raw := ''1.0.0''\<rparr>)"
    "version_parse ''1.2.3'' = Some \<lparr>ver_major = 1, ver_minor = 2, ver_patch = 3, ver_pre = [], ver_raw = ''1.2.3''\<rparr>"
    by (simp_all add: solid_def release_def)
qed

theorem osv_ranges_read_back_witness:
  "(case extract_version_info (Some sample_ranges) of (text, fixed) \<Rightarrow> version_is_affected (release 1 1 []) text fixed)
   \<and> \<not> (case extract_version_info (Some sample_ranges) of (text, fixed) \<Rightarrow> version_is_affected (release 2 0 []) text fixed)"
proof -
  have bounds: "map range_bounds sample_ranges = [(Some ''1.0.0'', Some ''1.2.3'')]" by code_simp
  then have "bounded_ranges sample_ranges = [(Some ''1.0.0'', Some ''1.2.3'')]" by (simp add: bounded_ranges_def)
  moreover have "\<forall>(i, f) \<in> set (map range_bounds sample_ranges). plain_bound i \<and> plain_bound f"
    unfolding bounds by (simp add: plain_bound_def plain_version_def sample_bounds solid_def)
  note osv_ranges_read_back [OF this]
  ultimately show ?thesis unfolding bounds
    by (simp add: read_bound_def sample_bounds in_range_def ver_lt_def ver_ge_def version_cmp_def release_def)
qed

end
