(* ===== verification/Control.thy ===== *)
theory Control
  imports Daemon Dlp_Model Vault Intel Vuln
begin

text \<open>
  What the daemon does for its local clients: the adapters of \<^verbatim>\<open>riggs-daemon/src/daemon.rs\<close> for the DLP
  and egress engines and the operations of \<^verbatim>\<open>riggs-daemon/src/control.rs\<close>. Files are those of the
  theory of file systems; TOML and UUID texts are read and written by parameters.
\<close>

section \<open>Replacing a file\<close>

text \<open>\<^verbatim>\<open>Path::with_extension\<close>: the extension of the last component is replaced.\<close>

definition file_stem :: "string \<Rightarrow> string" where
  "file_stem n =
     (case rsplit_once (CHR ''.'') n of None \<Rightarrow> n | Some (before, _) \<Rightarrow> if before = [] then n else before)"

definition with_extension :: "string \<Rightarrow> string \<Rightarrow> string" where
  "with_extension p ext =
     (case path_file_name p of None \<Rightarrow> p
      | Some n \<Rightarrow>
          (case rsplit_once (CHR ''/'') (strip_slashes p) of
             Some (dir, _) \<Rightarrow> dir @ ''/'' | None \<Rightarrow> []) @ file_stem n @ ''.'' @ ext)"

text \<open>Write a temporary file, then rename it over the target.\<close>

definition replace_file :: "io_env \<Rightarrow> string \<Rightarrow> string \<Rightarrow> string \<Rightarrow> fs \<Rightarrow> fs \<times> string option" where
  "replace_file env tmp p d fs =
     (let (fs1, written) = fs_write env tmp d fs
      in if \<not> written then (fs1, Some (io_error env (IO_Write tmp)))
         else let (fs2, renamed) = fs_rename env tmp p fs1
           in (fs2, if renamed then None else Some (io_error env (IO_Rename tmp p))))"

lemma replace_file_atomic:
  assumes "replace_file env tmp p d fs = (fs', r)" and "tmp \<noteq> p"
  shows "case r of None \<Rightarrow> \<exists>m. fs' p = Some (FileNode d m) | Some e \<Rightarrow> fs' p = fs p"
  using assms
  by (auto simp: replace_file_def fs_write_def fs_rename_def Let_def
      split: if_splits option.splits fs_node.splits)

section \<open>The adapter of the egress engine\<close>

record policy_libs =
  pl_read :: "string \<Rightarrow> string + egress_config"
  pl_write :: "egress_config \<Rightarrow> string + string"

definition load_policy_file ::
  "policy_libs \<Rightarrow> io_env \<Rightarrow> string \<Rightarrow> fs \<Rightarrow> riggs_error + egress_config"
where
  "load_policy_file pl env p fs =
     (case fs_read env p fs of
        None \<Rightarrow> Inl (Config (''failed to read egress policy '' @ p @ '': '' @ io_error env (IO_Read p)))
      | Some text \<Rightarrow>
          (case pl_read pl text of
             Inl e \<Rightarrow> Inl (Config (''failed to parse egress policy '' @ p @ '': '' @ e))
           | Inr c \<Rightarrow> Inr c))"

record 'net egress_adapter =
  ea_engine :: "'net egress_engine"
  ea_policy_path :: string
  ea_config :: egress_config
  ea_poisoned :: bool

definition mutate ::
  "(string \<Rightarrow> 'net option) \<Rightarrow> policy_libs \<Rightarrow> io_env \<Rightarrow> (egress_config \<Rightarrow> egress_config)
   \<Rightarrow> fs \<times> 'net egress_adapter \<Rightarrow> (fs \<times> 'net egress_adapter) \<times> (string + unit)"
where
  "mutate net_parse pl env f w =
     (let (fs, a) = w; p = ea_policy_path a
      in if ea_poisoned a then (w, Inl ''egress config lock poisoned'')
         else case (if fs p \<noteq> None then load_policy_file pl env p fs else Inr (ea_config a)) of
           Inl e \<Rightarrow> (w, Inl (error_display e))
         | Inr current \<Rightarrow>
             (let a' = a\<lparr>ea_config := f current\<rparr>
              in case pl_write pl (f current) of
                   Inl e \<Rightarrow> ((fs, a'), Inl (''serialize egress policy: '' @ e))
                 | Inr text \<Rightarrow>
                     (let fs1 = (case path_parent p of None \<Rightarrow> fs | Some d \<Rightarrow> fst (create_dir_all env d fs));
                          (fs2, failed) = replace_file env (with_extension p ''toml.tmp'') p text fs1
                      in case failed of
                           Some e \<Rightarrow> ((fs2, a'), Inl (''write '' @ p @ '': '' @ e))
                         | None \<Rightarrow>
                             ((fs2, a'\<lparr>ea_engine := egress_replace_policy (ea_engine a)
                                                     (egress_from_config net_parse (f current))\<rparr>), Inr ()))))"

definition allow_domain ::
  "(string \<Rightarrow> 'net option) \<Rightarrow> policy_libs \<Rightarrow> io_env \<Rightarrow> string
   \<Rightarrow> fs \<times> 'net egress_adapter \<Rightarrow> (fs \<times> 'net egress_adapter) \<times> (string + unit)"
where
  "allow_domain net_parse pl env domain w =
     (let d = trim domain
      in if d = [] then (w, Inl ''empty domain'')
         else mutate net_parse pl env
           (\<lambda>c. if list_ex (\<lambda>x. x = d) (ec_allow_domains c) then c
                else c\<lparr>ec_allow_domains := ec_allow_domains c @ [d]\<rparr>) w)"

definition deny_domain ::
  "(string \<Rightarrow> 'net option) \<Rightarrow> policy_libs \<Rightarrow> io_env \<Rightarrow> string
   \<Rightarrow> fs \<times> 'net egress_adapter \<Rightarrow> (fs \<times> 'net egress_adapter) \<times> (string + unit)"
where
  "deny_domain net_parse pl env domain w =
     (let d = trim domain
      in mutate net_parse pl env (\<lambda>c. c\<lparr>ec_allow_domains := filter (\<lambda>x. x \<noteq> d) (ec_allow_domains c)\<rparr>) w)"

definition set_egress_mode ::
  "(string \<Rightarrow> 'net option) \<Rightarrow> policy_libs \<Rightarrow> io_env \<Rightarrow> string
   \<Rightarrow> fs \<times> 'net egress_adapter \<Rightarrow> (fs \<times> 'net egress_adapter) \<times> (string + unit)"
where
  "set_egress_mode net_parse pl env mode w =
     (let m = to_ascii_lowercase (trim mode)
      in if m \<notin> {''off'', ''monitor'', ''enforce''}
         then (w, Inl (''invalid mode '' @ [CHR 0x27] @ mode @ [CHR 0x27] @ '' (use off | monitor | enforce)''))
         else mutate net_parse pl env (\<lambda>c. c\<lparr>ec_enabled := (m \<noteq> ''off''), ec_mode := m\<rparr>) w)"

record egress_flow_verdict =
  ef_allow :: bool
  ef_would_block :: bool
  ef_reason :: "string option"
  ef_mode :: string

text \<open>\<open>ip_parse\<close> reads an address.\<close>

definition egress_check ::
  "('net \<Rightarrow> ip_addr \<Rightarrow> bool) \<Rightarrow> (string \<Rightarrow> ip_addr option) \<Rightarrow> 'net egress_adapter \<Rightarrow> string \<Rightarrow> string \<Rightarrow> string
   \<Rightarrow> u16 \<Rightarrow> egress_flow_verdict"
where
  "egress_check net_contains ip_parse a process_path hostname remote_ip port =
     (let d = egress_evaluate net_contains (ee_policy (ea_engine a)) (egress_process_name process_path)
                (if hostname \<noteq> [] then Some hostname else None) (ip_parse remote_ip) port
      in \<lparr>ef_allow = ed_allow d, ef_would_block = ed_would_block d, ef_reason = Some (ed_reason d),
          ef_mode = egress_mode_as_str (ed_mode d)\<rparr>)"

definition egress_adapter_status :: "'net egress_adapter \<Rightarrow> string \<times> nat \<times> nat" where
  "egress_adapter_status a =
     (case egress_status (ea_engine a) of (m, d, r) \<Rightarrow> (egress_mode_as_str m, d, r))"

section \<open>The adapter of the DLP correlator\<close>

definition dlp_check :: "timestamp \<Rightarrow> dlp_correlator \<Rightarrow> u32 \<Rightarrow> string \<Rightarrow> bool \<times> string option" where
  "dlp_check now c pid hostname = (let v = check_flow now c pid hostname in (fv_allow v, fv_reason v))"

definition dlp_adapter_status :: "dlp_correlator \<Rightarrow> bool \<times> nat \<times> nat \<times> nat" where
  "dlp_adapter_status c =
     (True, active_pid_count c, total_tracked_accesses c, length (dp_watched_domains (dlp_policy_of c)))"

section \<open>The scan of a path\<close>

text \<open>
  A tree of the file system as \<^verbatim>\<open>symlink_metadata\<close> and \<^verbatim>\<open>read_dir\<close> show it: a regular file, a directory
  (whose listing may fail), or something else, symbolic links included.
\<close>

datatype fs_tree = RegularFile | Directory "(string \<times> fs_tree) list option" | Special

definition MAX_SCAN_FILES :: nat where "MAX_SCAN_FILES = 100000"

fun tree_nodes :: "fs_tree \<Rightarrow> nat" where
  "tree_nodes (Directory (Some es)) = Suc (sum_list (map (\<lambda>(_, t). tree_nodes t) es))"
| "tree_nodes _ = 1"

text \<open>The stack of \<^verbatim>\<open>walk_files\<close>; its top is the head of the list, so a listing is pushed in reverse.\<close>

function walk_stack :: "(string \<times> fs_tree) list \<Rightarrow> string list" where
  "walk_stack [] = []"
| "walk_stack ((p, RegularFile) # st) = p # walk_stack st"
| "walk_stack ((p, Special) # st) = walk_stack st"
| "walk_stack ((p, Directory None) # st) = walk_stack st"
| "walk_stack ((p, Directory (Some es)) # st) =
     walk_stack (rev (map (\<lambda>(n, t). (path_join p n, t)) es) @ st)"
  by pat_completeness auto

termination
proof (relation "measure (\<lambda>st. sum_list (map (tree_nodes \<circ> snd) st))")
  fix p es st
  have *: "(tree_nodes \<circ> snd) \<circ> (\<lambda>(n, t). (path_join p n, t)) = (\<lambda>(_, t). tree_nodes t)" by auto
  show "(rev (map (\<lambda>(n, t). (path_join p n, t)) es) @ st, (p, Directory (Some es)) # st)
      \<in> measure (\<lambda>st. sum_list (map (tree_nodes \<circ> snd) st))"
    by (simp add: rev_map [symmetric] sum_list_rev *)
qed auto

definition walk_files :: "string \<Rightarrow> fs_tree \<Rightarrow> string list" where
  "walk_files start t = walk_stack [(start, t)]"

definition MAX_HASH_BYTES :: nat where "MAX_HASH_BYTES = 256 * 1024 * 1024"

text \<open>\<open>content\<close> is the text of the file, when it can be opened and read to its end.\<close>

definition sha256_file :: "(string \<Rightarrow> string) \<Rightarrow> string option \<Rightarrow> string option" where
  "sha256_file digest content =
     (case content of None \<Rightarrow> None
      | Some d \<Rightarrow> if MAX_HASH_BYTES < length d then None else Some (digest d))"

definition scan_context :: "string \<Rightarrow> storyline_id \<Rightarrow> process_context" where
  "scan_context start sid = process_context_new 0 0 ''riggs-scan'' ''riggs-scan'' start ''root'' sid"

text \<open>
  The task that \<^verbatim>\<open>trigger_scan\<close> spawns: the events it sends, until the channel is closed after
  \<open>accepted\<close> of them. \<open>mint\<close> gives id and time of the n-th event.
\<close>

definition scan_events ::
  "(string \<Rightarrow> string) \<Rightarrow> (string \<Rightarrow> string option) \<Rightarrow> (nat \<Rightarrow> event_id \<times> timestamp) \<Rightarrow> storyline_id
   \<Rightarrow> nat option \<Rightarrow> string \<Rightarrow> fs_tree \<Rightarrow> riggs_event list"
where
  "scan_events digest content mint sid accepted start t =
     (let files = take MAX_SCAN_FILES (walk_files start t);
          events = map (\<lambda>(i, p). new_file (fst (mint i)) (snd (mint i)) Scan (scan_context start sid) p
                                    (sha256_file digest (content p)))
                     (zip [0..<length files] files)
      in case accepted of None \<Rightarrow> events | Some n \<Rightarrow> take n events)"

section \<open>Control operations\<close>

record control_adapter =
  ca_config_path :: "string option"
  ca_scans :: "string list"
  ca_feeds :: "feed_manager option"
  ca_refresh_requested :: bool
  ca_vuln_running :: bool
  ca_vault_dir :: string

text \<open>
  \<open>cl_known\<close>: the key is a field of the default configuration. \<open>cl_edit\<close>: the document with the value
  set, or why it cannot be (no TOML, a segment that is no table). \<open>cl_parses\<close>: the text reads as a
  configuration. \<open>cl_uuid\<close> reads a UUID.
\<close>

record control_libs =
  cl_known :: "string \<Rightarrow> bool"
  cl_edit :: "string \<Rightarrow> string list \<Rightarrow> string \<Rightarrow> string \<Rightarrow> string + string"
  cl_parses :: "string \<Rightarrow> string + unit"
  cl_uuid :: "string \<Rightarrow> uuid option"

definition set_config_value :: "control_libs \<Rightarrow> string \<Rightarrow> string \<Rightarrow> string \<Rightarrow> string + string" where
  "set_config_value cl text fld value =
     (if \<not> cl_known cl (''/'' @ replace_char (CHR ''.'') (CHR ''/'') fld) then Inl (''unknown config key: '' @ fld)
      else
        let segments = split_by (\<lambda>c. c = CHR ''.'') fld
        in case cl_edit cl text (butlast segments) (last segments) value of
             Inl e \<Rightarrow> Inl e
           | Inr updated \<Rightarrow>
               (case cl_parses cl updated of
                  Inl e \<Rightarrow> Inl (''invalid value for '' @ fld @ '': '' @ e)
                | Inr _ \<Rightarrow> Inr updated))"

definition update_config ::
  "control_libs \<Rightarrow> io_env \<Rightarrow> string \<Rightarrow> string \<Rightarrow> fs \<times> control_adapter \<Rightarrow> (fs \<times> control_adapter) \<times> (string + string)"
where
  "update_config cl env fld value w =
     (let (fs, a) = w
      in case ca_config_path a of
           None \<Rightarrow> (w, Inl ''no config file was loaded; create /etc/riggs/riggs.toml first'')
         | Some p \<Rightarrow>
             (case fs_read env p fs of
                None \<Rightarrow> (w, Inl (''reading '' @ p @ '': '' @ io_error env (IO_Read p)))
              | Some text \<Rightarrow>
                  (case set_config_value cl text fld value of
                     Inl e \<Rightarrow> (w, Inl e)
                   | Inr updated \<Rightarrow>
                       (let (fs1, failed) = replace_file env (with_extension p ''toml.tmp'') p updated fs
                        in ((fs1, a),
                            case failed of
                              Some e \<Rightarrow> Inl (''writing '' @ p @ '': '' @ e)
                            | None \<Rightarrow> Inr (fld @ '' saved to '' @ p @ ''; restart the daemon to apply''))))))"

definition trigger_scan ::
  "string \<Rightarrow> fs \<times> control_adapter \<Rightarrow> (fs \<times> control_adapter) \<times> (string + string)"
where
  "trigger_scan path w =
     (let (fs, a) = w
      in if \<not> starts_with path ''/'' then (w, Inl (''scan path must be absolute: '' @ path))
         else if fs path = None then (w, Inl (path @ '' does not exist''))
         else ((fs, a\<lparr>ca_scans := ca_scans a @ [path]\<rparr>),
               Inr (''scanning '' @ path @ ''; detections appear in `riggs threats`'')))"

definition refresh_feeds ::
  "fs \<times> control_adapter \<Rightarrow> (fs \<times> control_adapter) \<times> (string + string)"
where
  "refresh_feeds w =
     (let (fs, a) = w
      in case ca_feeds a of
           None \<Rightarrow> (w, Inl ''threat intel is disabled ([intel] enabled = false)'')
         | Some m \<Rightarrow>
             if request_refresh m
             then ((fs, a\<lparr>ca_refresh_requested := True\<rparr>), Inr ''threat feed refresh started'')
             else (w, Inl ''no threat feeds are enabled in [intel.feeds] (MalwareBazaar and URLhaus also need abusech_auth_key)''))"

definition vuln_update ::
  "fs \<times> control_adapter \<Rightarrow> (fs \<times> control_adapter) \<times> (string + string)"
where
  "vuln_update w =
     (let (fs, a) = w
      in if ca_vuln_running a then (w, Inl ''a vulnerability scan is already running'')
         else ((fs, a\<lparr>ca_vuln_running := True\<rparr>),
               Inr ''vulnerability database refresh and scan started; results are logged and sent to the console''))"

record quarantined_file =
  qf_id :: string
  qf_original_path :: string
  qf_quarantined_at :: timestamp
  qf_file_size :: u64
  qf_sha256 :: "string option"

definition quarantined_file_of :: "vault_libs \<Rightarrow> quarantine_entry \<Rightarrow> quarantined_file" where
  "quarantined_file_of vl e =
     \<lparr>qf_id = vl_show_uuid vl (qe_id e), qf_original_path = qe_original_path e,
      qf_quarantined_at = qe_quarantined_at e, qf_file_size = qe_file_size e, qf_sha256 = qe_sha256_hash e\<rparr>"

definition quarantine_list ::
  "vault_libs \<Rightarrow> io_env \<Rightarrow> fs \<times> control_adapter \<Rightarrow> string + quarantined_file list"
where
  "quarantine_list vl env w =
     (case load_manifest vl env (ca_vault_dir (snd w)) (fst w) of
        Inl e \<Rightarrow> Inl (error_display e)
      | Inr entries \<Rightarrow> Inr (map (quarantined_file_of vl) entries))"

definition quarantine_restore ::
  "control_libs \<Rightarrow> vault_libs \<Rightarrow> io_env \<Rightarrow> string \<Rightarrow> fs \<times> control_adapter
   \<Rightarrow> (fs \<times> control_adapter) \<times> (string + string)"
where
  "quarantine_restore cl vl env i w =
     (let (fs, a) = w
      in case cl_uuid cl i of
           None \<Rightarrow> (w, Inl (''not a quarantine id: '' @ i))
         | Some entry_id \<Rightarrow>
             (case load_manifest vl env (ca_vault_dir a) fs of
                Inl e \<Rightarrow> (w, Inl (error_display e))
              | Inr entries \<Rightarrow>
                  (case List.find (\<lambda>e. qe_id e = entry_id) entries of
                     None \<Rightarrow> (w, Inl (''no quarantined file with id '' @ i))
                   | Some entry \<Rightarrow>
                       (let (fs1, failed) = restore vl env (ca_vault_dir a) entry_id fs
                        in ((fs1, a),
                            case failed of
                              Some e \<Rightarrow> Inl (error_display e)
                            | None \<Rightarrow> Inr (''restored '' @ qe_original_path entry))))))"

text \<open>How a finding of the vulnerability scan is graded for the console.\<close>

fun finding_severity :: "cve_severity \<Rightarrow> string" where
  "finding_severity CriticalSeverity = ''critical''"
| "finding_severity HighSeverity = ''high''"
| "finding_severity MediumSeverity = ''medium''"
| "finding_severity _ = ''low''"

section \<open>A scan visits every file once\<close>

fun all_files :: "string \<Rightarrow> fs_tree \<Rightarrow> string list" where
  "all_files p RegularFile = [p]"
| "all_files p (Directory (Some es)) = concat (map (\<lambda>(n, t). all_files (path_join p n) t) es)"
| "all_files p _ = []"

lemma mset_concat_rev: "mset (concat (rev xss)) = mset (concat xss)"
  by (induction xss) auto

lemma walk_stack_files: "mset (walk_stack st) = mset (concat (map (\<lambda>(p, t). all_files p t) st))"
proof (induction st rule: walk_stack.induct)
  case (5 p es st)
  have "map (\<lambda>(p, t). all_files p t) (rev (map (\<lambda>(n, t). (path_join p n, t)) es))
        = rev (map (\<lambda>(n, t). all_files (path_join p n) t) es)"
    by (simp add: rev_map comp_def case_prod_unfold)
  with 5 show ?case by (simp add: mset_concat_rev)
qed auto

text \<open>
  C29: a scan of a path queues one event for every regular file below it, each once, up to the
  limit of one scan, and follows no symbolic link; every event carries pid 0, so that no answer
  to it can act on a process.
\<close>

theorem scan_covers_tree:
  "let evs = scan_events digest content mint sid None start t
   in length evs = min MAX_SCAN_FILES (length (all_files start t))
      \<and> mset (map fe_path (List.map_filter (\<lambda>ev. case ev of File e \<Rightarrow> Some e | _ \<Rightarrow> None) evs))
          \<subseteq># mset (all_files start t)
      \<and> length (List.map_filter (\<lambda>ev. case ev of File e \<Rightarrow> Some e | _ \<Rightarrow> None) evs) = length evs
      \<and> list_all (\<lambda>ev. pc_pid (process_context_of ev) = 0) evs"
proof -
  define files where "files = take MAX_SCAN_FILES (walk_files start t)"
  define ev where "ev = (\<lambda>(i, p). new_file (fst (mint i)) (snd (mint i)) Scan (scan_context start sid) p
                                     (sha256_file digest (content p)))"
  have evs: "scan_events digest content mint sid None start t = map ev (zip [0..<length files] files)"
    by (simp add: scan_events_def files_def ev_def Let_def)
  have walk: "mset (walk_files start t) = mset (all_files start t)"
    by (simp add: walk_files_def walk_stack_files)
  then have len: "length files = min MAX_SCAN_FILES (length (all_files start t))"
    unfolding files_def using mset_eq_length [OF walk] by simp
  have only: "List.map_filter (\<lambda>ev. case ev of File e \<Rightarrow> Some e | _ \<Rightarrow> None) (map ev ps) = map (\<lambda>p. case ev p of File e \<Rightarrow> e) ps"
    for ps by (induction ps) (auto simp: map_filter_simps ev_def new_file_def)
  have paths: "map fe_path (map (\<lambda>p. case ev p of File e \<Rightarrow> e) ps) = map snd ps" for ps
    by (auto simp: ev_def new_file_def)
  have "mset files \<subseteq># mset (all_files start t)"
    unfolding files_def walk [symmetric] by (metis append_take_drop_id mset_append mset_subset_eq_add_left)
  moreover have "list_all (\<lambda>ev. pc_pid (process_context_of ev) = 0) (map ev ps)" for ps
    by (auto simp: list_all_iff ev_def new_file_def scan_context_def process_context_new_def)
  ultimately show ?thesis unfolding evs Let_def only paths by (simp add: len del: map_map)
qed

section \<open>Edits are all or nothing\<close>

text \<open>The temporary file, the directory and the file itself are different paths.\<close>

definition apart_paths :: "string \<Rightarrow> bool" where
  "apart_paths p \<longleftrightarrow> with_extension p ''toml.tmp'' \<noteq> p \<and> path_parent p \<noteq> Some p"

lemma mutate_error:
  assumes "mutate net_parse pl env f (fs, a) = ((fs', a'), Inl e)" and "apart_paths (ea_policy_path a)"
  shows "fs' (ea_policy_path a) = fs (ea_policy_path a) \<and> ea_engine a' = ea_engine a"
  using assms
  by (auto simp: mutate_def Let_def apart_paths_def split: if_splits sum.splits option.splits prod.splits
      dest!: replace_file_atomic simp: create_dir_all_other)

lemma mutate_done:
  assumes "mutate net_parse pl env f (fs, a) = ((fs', a'), Inr u)" and "apart_paths (ea_policy_path a)"
  obtains current doc m where
    "(if fs (ea_policy_path a) \<noteq> None then load_policy_file pl env (ea_policy_path a) fs else Inr (ea_config a)) = Inr current"
    and "pl_write pl (f current) = Inr doc" and "fs' (ea_policy_path a) = Some (FileNode doc m)"
    and "ee_policy (ea_engine a') = egress_from_config net_parse (f current)" and "ea_config a' = f current"
  using assms
  by (auto simp: mutate_def Let_def apart_paths_def egress_replace_policy_def
      split: if_splits sum.splits option.splits prod.splits dest!: replace_file_atomic)

text \<open>The three egress commands, as edits of the configuration.\<close>

datatype egress_command = AllowDomain string | DenyDomain string | SetMode string

fun run_egress_command ::
  "(string \<Rightarrow> 'net option) \<Rightarrow> policy_libs \<Rightarrow> io_env \<Rightarrow> egress_command
   \<Rightarrow> fs \<times> 'net egress_adapter \<Rightarrow> (fs \<times> 'net egress_adapter) \<times> (string + unit)"
where
  "run_egress_command np pl env (AllowDomain d) w = allow_domain np pl env d w"
| "run_egress_command np pl env (DenyDomain d) w = deny_domain np pl env d w"
| "run_egress_command np pl env (SetMode m) w = set_egress_mode np pl env m w"

text \<open>What each command promises of the configuration it leaves.\<close>

fun commanded :: "egress_command \<Rightarrow> egress_config \<Rightarrow> egress_config \<Rightarrow> bool" where
  "commanded (AllowDomain d) old new \<longleftrightarrow>
     set (ec_allow_domains new) = insert (trim d) (set (ec_allow_domains old)) \<and>
     new\<lparr>ec_allow_domains := []\<rparr> = old\<lparr>ec_allow_domains := []\<rparr>"
| "commanded (DenyDomain d) old new \<longleftrightarrow>
     set (ec_allow_domains new) = set (ec_allow_domains old) - {trim d} \<and>
     new\<lparr>ec_allow_domains := []\<rparr> = old\<lparr>ec_allow_domains := []\<rparr>"
| "commanded (SetMode m) old new \<longleftrightarrow>
     egress_mode_as_str (egress_mode_parse (ec_mode new) (ec_enabled new)) = to_ascii_lowercase (trim m) \<and>
     new\<lparr>ec_mode := [], ec_enabled := False\<rparr> = old\<lparr>ec_mode := [], ec_enabled := False\<rparr>"

lemma mode_round_trip:
  assumes "m \<in> {''off'', ''monitor'', ''enforce''}"
  shows "egress_mode_as_str (egress_mode_parse m (m \<noteq> ''off'')) = m"
proof -
  have "trim m = m" using assms by (intro trim_solid) (auto simp: solid_def)
  moreover have "to_ascii_lowercase ''off'' = ''off''" "to_ascii_lowercase ''monitor'' = ''monitor''"
    "to_ascii_lowercase ''enforce'' = ''enforce''" by code_simp+
  ultimately show ?thesis using assms by (auto simp: egress_mode_parse_def Let_def)
qed

lemma egress_command_mutates:
  assumes "run_egress_command np pl env cmd w = (w', r)"
  shows "(w' = w \<and> isl r) \<or> (\<exists>f. mutate np pl env f w = (w', r) \<and> (\<forall>c. commanded cmd c (f c)))"
proof (cases cmd)
  case (AllowDomain d)
  then show ?thesis
    using assms by (auto simp: allow_domain_def Let_def list_ex_iff split: if_splits intro!: exI)
next
  case (DenyDomain d)
  then show ?thesis using assms by (auto simp: deny_domain_def Let_def intro!: exI)
next
  case (SetMode mode)
  let ?m = "to_ascii_lowercase (trim mode)"
  let ?f = "\<lambda>c. c\<lparr>ec_enabled := (?m \<noteq> ''off''), ec_mode := ?m\<rparr>"
  show ?thesis
  proof (cases "?m \<in> {''off'', ''monitor'', ''enforce''}")
    case True
    then have "commanded cmd c (?f c)" for c using SetMode mode_round_trip [OF True] by simp
    moreover have "mutate np pl env ?f w = (w', r)"
      using assms True unfolding SetMode run_egress_command.simps set_egress_mode_def Let_def by (simp only: not_True_eq_False if_False)
    ultimately show ?thesis by blast
  qed (use assms SetMode in \<open>auto simp: set_egress_mode_def Let_def\<close>)
qed

definition policy_codec :: "policy_libs \<Rightarrow> bool" where
  "policy_codec pl \<longleftrightarrow> (\<forall>c t. pl_write pl c = Inr t \<longrightarrow> pl_read pl t = Inr c)"


text \<open>
  Setting a configuration value never leaves a file the daemon cannot start from. When the
  command reports success the file holds a text that reads as a configuration; when it reports an
  error the file is as it was.
\<close>

theorem config_edit_safe:
  assumes "update_config cl env fld value (fs, a) = ((fs', a'), r)" and "ca_config_path a = Some p"
    and "apart_paths p"
  shows "case r of
           Inl e \<Rightarrow> fs' p = fs p
         | Inr _ \<Rightarrow> \<exists>doc m. fs' p = Some (FileNode doc m) \<and> cl_parses cl doc = Inr ()"
  using assms
  by (auto simp: update_config_def set_config_value_def Let_def apart_paths_def
      split: if_splits sum.splits option.splits prod.splits dest!: replace_file_atomic)

section \<open>Witnesses\<close>

definition sample_toml :: policy_libs where
  "sample_toml =
     \<lparr>pl_read = (\<lambda>t. if t = ''enforce'' then Inr (egress_config_default\<lparr>ec_enabled := True, ec_mode := ''enforce''\<rparr>)
                    else Inl ''expected a policy''),
      pl_write = (\<lambda>c. if c = egress_config_default\<lparr>ec_enabled := True, ec_mode := ''enforce''\<rparr>
                     then Inr ''enforce'' else Inl ''not written'')\<rparr>"

definition sample_adapter :: "unit egress_adapter" where
  "sample_adapter = \<lparr>ea_engine = egress_new (egress_from_config (\<lambda>_. None) egress_config_default),
     ea_policy_path = ''/etc/riggs/egress-policy.toml'', ea_config = egress_config_default, ea_poisoned = False\<rparr>"

lemma sample_paths: "apart_paths ''/etc/riggs/egress-policy.toml''" "apart_paths ''/etc/riggs/riggs.toml''"
  unfolding apart_paths_def by code_simp+

lemma sample_path_parts:
  "with_extension ''/etc/riggs/egress-policy.toml'' ''toml.tmp'' = ''/etc/riggs/egress-policy.toml.tmp''"
  "path_parent ''/etc/riggs/egress-policy.toml'' = Some ''/etc/riggs''"
  "with_extension ''/etc/riggs/riggs.toml'' ''toml.tmp'' = ''/etc/riggs/riggs.toml.tmp''"
  "to_ascii_lowercase ''Enforce'' = ''enforce''" "to_ascii_lowercase ''enforce'' = ''enforce''"
  by code_simp+

lemma sample_trim: "trim ''Enforce'' = ''Enforce''" by (simp add: solid_def)


definition sample_control :: control_libs where
  "sample_control = \<lparr>cl_known = (\<lambda>k. k = ''/engine/rules_enabled''),
     cl_edit = (\<lambda>_ _ _ v. Inr (''rules_enabled = '' @ v)), cl_parses = (\<lambda>t. if t = ''rules_enabled = false'' then Inr () else Inl ''bad''),
     cl_uuid = (\<lambda>_. None)\<rparr>"

definition sample_control_adapter :: control_adapter where
  "sample_control_adapter = \<lparr>ca_config_path = Some ''/etc/riggs/riggs.toml'', ca_scans = [], ca_feeds = None,
     ca_refresh_requested = False, ca_vuln_running = False, ca_vault_dir = ''/var/lib/riggs/quarantine''\<rparr>"

theorem config_edit_safe_witness:
  "\<exists>doc m. fst (fst (update_config sample_control calm ''engine.rules_enabled'' ''false''
      (Map.empty(''/etc/riggs/riggs.toml'' \<mapsto> FileNode ''rules_enabled = true'' 0), sample_control_adapter)))
      ''/etc/riggs/riggs.toml'' = Some (FileNode doc m) \<and> cl_parses sample_control doc = Inr ()"
proof -
  let ?w = "(Map.empty(''/etc/riggs/riggs.toml'' \<mapsto> FileNode ''rules_enabled = true'' 0), sample_control_adapter)"
  obtain fs' a' r where run: "update_config sample_control calm ''engine.rules_enabled'' ''false'' ?w = ((fs', a'), r)"
    by (metis prod.exhaust)
  have "set_config_value sample_control ''rules_enabled = true'' ''engine.rules_enabled'' ''false'' = Inr ''rules_enabled = false''"
    by (simp add: set_config_value_def sample_control_def replace_char_def)
  then obtain msg where "r = Inr msg"
    using run by (auto simp: update_config_def sample_control_adapter_def sample_path_parts replace_file_def
        fs_read_def fs_write_def fs_rename_def calm_def Let_def)
  then show ?thesis
    using config_edit_safe [OF run _ sample_paths(2)] unfolding run by (simp add: sample_control_adapter_def)
qed

end
