(* ===== verification/Store_Model.thy ===== *)
theory Store_Model
  imports Events "HOL-Library.List_Lexorder"
begin

text \<open>
  The event store, \<^verbatim>\<open>riggs-store/src/store.rs\<close> and \<^verbatim>\<open>retention.rs\<close>. The database \<^verbatim>\<open>redb\<close> keeps each
  table ordered by the bytes of its keys and applies a write transaction as a whole or not at all;
  a table is an association list in key order. The JSON writer and reader and the compressor
  are parameters.
\<close>

section \<open>Keys\<close>

text \<open>The bytes of a number, most significant first.\<close>

fun be_bytes :: "nat \<Rightarrow> nat \<Rightarrow> u8 list" where
  "be_bytes 0 x = []"
| "be_bytes (Suc n) x = be_bytes n (x div 256) @ [of_nat x]"

definition uuid_bytes :: "uuid \<Rightarrow> u8 list" where
  "uuid_bytes u = be_bytes 16 (unat u)"

section \<open>The store\<close>

type_synonym table = "(u8 list \<times> string) list"

record 'r store_libs =
  sl_event_json :: "riggs_event \<Rightarrow> string + string"
  sl_event_parse :: "string \<Rightarrow> string + riggs_event"
  sl_verdict_json :: "merged_verdict \<Rightarrow> string + string"
  sl_verdict_parse :: "string \<Rightarrow> string + merged_verdict"
  sl_record_json :: "'r \<Rightarrow> string + string"
  sl_zstd_encode :: "string \<Rightarrow> string + string"
  sl_zstd_decode :: "string \<Rightarrow> string option"

record riggs_store =
  rs_events :: table
  rs_verdicts :: table
  rs_response_log :: table
  rs_compress :: bool

definition decode :: "'r store_libs \<Rightarrow> string \<Rightarrow> string" where
  "decode sl bytes = (case sl_zstd_decode sl bytes of Some d \<Rightarrow> d | None \<Rightarrow> bytes)"

definition encode :: "'r store_libs \<Rightarrow> riggs_store \<Rightarrow> string \<Rightarrow> string + string" where
  "encode sl s json = (if rs_compress s then sl_zstd_encode sl json else Inr json)"

text \<open>\<^verbatim>\<open>serde_json::to_vec\<close> and the compressor; either may fail.\<close>

definition stored_form :: "'r store_libs \<Rightarrow> riggs_store \<Rightarrow> string + string \<Rightarrow> string + string" where
  "stored_form sl s json = (case json of Inl e \<Rightarrow> Inl e | Inr j \<Rightarrow> encode sl s j)"

definition event_key :: "riggs_event \<Rightarrow> u8 list" where
  "event_key ev = (case event_id_of ev of EventId u \<Rightarrow> uuid_bytes u)"

definition verdict_key :: "merged_verdict \<Rightarrow> u8 list" where
  "verdict_key v = (case mv_event_id v of EventId u \<Rightarrow> uuid_bytes u)"

text \<open>\<open>txn\<close> is the error of the database, if a write transaction fails.\<close>

definition store_event ::
  "'r store_libs \<Rightarrow> string option \<Rightarrow> riggs_store \<Rightarrow> riggs_event \<Rightarrow> riggs_store \<times> riggs_error option"
where
  "store_event sl txn s ev =
     (case stored_form sl s (sl_event_json sl ev) of
        Inl e \<Rightarrow> (s, Some (Store e))
      | Inr bytes \<Rightarrow>
          (case txn of Some e \<Rightarrow> (s, Some (Store e))
           | None \<Rightarrow> (s\<lparr>rs_events := bt_insert (event_key ev) bytes (rs_events s)\<rparr>, None)))"

definition store_verdict ::
  "'r store_libs \<Rightarrow> string option \<Rightarrow> riggs_store \<Rightarrow> merged_verdict \<Rightarrow> riggs_store \<times> riggs_error option"
where
  "store_verdict sl txn s v =
     (case stored_form sl s (sl_verdict_json sl v) of
        Inl e \<Rightarrow> (s, Some (Store e))
      | Inr bytes \<Rightarrow>
          (case txn of Some e \<Rightarrow> (s, Some (Store e))
           | None \<Rightarrow> (s\<lparr>rs_verdicts := bt_insert (verdict_key v) bytes (rs_verdicts s)\<rparr>, None)))"

text \<open>The loop of \<^verbatim>\<open>store_batch\<close> on the two tables of the open transaction.\<close>

fun batch_inserts ::
  "'r store_libs \<Rightarrow> riggs_store \<Rightarrow> (riggs_event \<times> merged_verdict) list \<Rightarrow> table \<times> table \<Rightarrow> string + table \<times> table"
where
  "batch_inserts sl s [] tabs = Inr tabs"
| "batch_inserts sl s ((ev, v) # rest) tabs =
     (case stored_form sl s (sl_event_json sl ev) of
        Inl e \<Rightarrow> Inl e
      | Inr eb \<Rightarrow>
          (case stored_form sl s (sl_verdict_json sl v) of
             Inl e \<Rightarrow> Inl e
           | Inr vb \<Rightarrow>
               batch_inserts sl s rest
                 (bt_insert (event_key ev) eb (fst tabs), bt_insert (verdict_key v) vb (snd tabs))))"

definition store_batch ::
  "'r store_libs \<Rightarrow> string option \<Rightarrow> riggs_store \<Rightarrow> (riggs_event \<times> merged_verdict) list
   \<Rightarrow> riggs_store \<times> riggs_error option"
where
  "store_batch sl txn s batch =
     (if batch = [] then (s, None)
      else case txn of Some e \<Rightarrow> (s, Some (Store e))
        | None \<Rightarrow>
            (case batch_inserts sl s batch (rs_events s, rs_verdicts s) of
               Inl e \<Rightarrow> (s, Some (Store e))
             | Inr (es, vs) \<Rightarrow> (s\<lparr>rs_events := es, rs_verdicts := vs\<rparr>, None)))"

definition get_event :: "'r store_libs \<Rightarrow> riggs_store \<Rightarrow> event_id \<Rightarrow> riggs_error + riggs_event option" where
  "get_event sl s i =
     (case i of EventId u \<Rightarrow>
       (case hm_get (rs_events s) (uuid_bytes u) of
          None \<Rightarrow> Inr None
        | Some bytes \<Rightarrow>
            (case sl_event_parse sl (decode sl bytes) of Inl e \<Rightarrow> Inl (Store e) | Inr ev \<Rightarrow> Inr (Some ev))))"

fun collect_storyline ::
  "'r store_libs \<Rightarrow> storyline_id \<Rightarrow> table \<Rightarrow> riggs_event list \<Rightarrow> riggs_error + riggs_event list"
where
  "collect_storyline sl i [] acc = Inr acc"
| "collect_storyline sl i ((_, bytes) # rest) acc =
     (case sl_event_parse sl (decode sl bytes) of
        Inl e \<Rightarrow> Inl (Store e)
      | Inr ev \<Rightarrow> collect_storyline sl i rest (if storyline_id_of ev = i then acc @ [ev] else acc))"

definition get_events_by_storyline ::
  "'r store_libs \<Rightarrow> riggs_store \<Rightarrow> storyline_id \<Rightarrow> riggs_error + riggs_event list"
where
  "get_events_by_storyline sl s i = collect_storyline sl i (rs_events s) []"

text \<open>The loop of \<^verbatim>\<open>get_recent_events\<close> over the entries from the newest, and the final reversal.\<close>

fun collect_recent :: "'r store_libs \<Rightarrow> nat \<Rightarrow> table \<Rightarrow> riggs_event list \<Rightarrow> riggs_event list" where
  "collect_recent sl limit [] acc = acc"
| "collect_recent sl limit ((_, bytes) # rest) acc =
     (if limit \<le> length acc then acc
      else case sl_event_parse sl (decode sl bytes) of
        Inl _ \<Rightarrow> collect_recent sl limit rest acc
      | Inr ev \<Rightarrow> collect_recent sl limit rest (acc @ [ev]))"

definition get_recent_events :: "'r store_libs \<Rightarrow> riggs_store \<Rightarrow> nat \<Rightarrow> riggs_event list" where
  "get_recent_events sl s limit = rev (collect_recent sl limit (rev (rs_events s)) [])"

definition get_verdicts_above_clean :: "'r store_libs \<Rightarrow> riggs_store \<Rightarrow> nat \<Rightarrow> merged_verdict list" where
  "get_verdicts_above_clean sl s limit =
     (let verdicts = List.map_filter
            (\<lambda>(_, bytes). case sl_verdict_parse sl (decode sl bytes) of
               Inr v \<Rightarrow> if Clean < mv_final_threat_level v then Some v else None
             | Inl _ \<Rightarrow> None) (rs_verdicts s)
      in drop (length verdicts - limit) verdicts)"

definition store_response_record ::
  "'r store_libs \<Rightarrow> string option \<Rightarrow> riggs_store \<Rightarrow> uuid \<Rightarrow> 'r \<Rightarrow> riggs_store \<times> riggs_error option"
where
  "store_response_record sl txn s i r =
     (case stored_form sl s (sl_record_json sl r) of
        Inl e \<Rightarrow> (s, Some (Store e))
      | Inr bytes \<Rightarrow>
          (case txn of Some e \<Rightarrow> (s, Some (Store e))
           | None \<Rightarrow> (s\<lparr>rs_response_log := bt_insert (uuid_bytes i) bytes (rs_response_log s)\<rparr>, None)))"

section \<open>Retention\<close>

definition uuid_v7_floor_key :: "int \<Rightarrow> u8 list" where
  "uuid_v7_floor_key cutoff_ms =
     (let ms = nat (max cutoff_ms 0) mod 2 ^ 64
      in [of_nat (ms div 2 ^ 40), of_nat (ms div 2 ^ 32), of_nat (ms div 2 ^ 24), of_nat (ms div 2 ^ 16),
          of_nat (ms div 2 ^ 8), of_nat ms] @ replicate 10 0)"

definition prune_before :: "string option \<Rightarrow> u8 list \<Rightarrow> table \<Rightarrow> table \<times> (riggs_error + nat)" where
  "prune_before txn cutoff_key tbl =
     (let expired = filter (\<lambda>k. k < cutoff_key) (map fst tbl)
      in if expired = [] then (tbl, Inr 0)
         else case txn of Some e \<Rightarrow> (tbl, Inl (Store e))
           | None \<Rightarrow> (foldl (\<lambda>t k. hm_remove k t) tbl expired, Inr (length expired)))"

text \<open>\<^verbatim>\<open>timestamp_millis\<close> of an instant in nanoseconds rounds down.\<close>

definition cutoff_key :: "timestamp \<Rightarrow> nat \<Rightarrow> u8 list" where
  "cutoff_key now days = uuid_v7_floor_key ((now - seconds (86400 * int days)) div 1000000)"

definition run_cleanup ::
  "(nat \<Rightarrow> string option) \<Rightarrow> timestamp \<Rightarrow> nat \<Rightarrow> riggs_store \<Rightarrow> riggs_store \<times> (riggs_error + nat)"
where
  "run_cleanup txn now days s =
     (let key = cutoff_key now days;
          (es, r1) = prune_before (txn 0) key (rs_events s);
          s1 = s\<lparr>rs_events := es\<rparr>
      in case r1 of Inl e \<Rightarrow> (s1, Inl e)
         | Inr n1 \<Rightarrow>
             (let (vs, r2) = prune_before (txn 1) key (rs_verdicts s1); s2 = s1\<lparr>rs_verdicts := vs\<rparr>
              in case r2 of Inl e \<Rightarrow> (s2, Inl e)
                 | Inr n2 \<Rightarrow>
                     (let (ls, r3) = prune_before (txn 2) key (rs_response_log s2); s3 = s2\<lparr>rs_response_log := ls\<rparr>
                      in case r3 of Inl e \<Rightarrow> (s3, Inl e) | Inr n3 \<Rightarrow> (s3, Inr (n1 + n2 + n3)))))"

section \<open>Keys are ordered like the numbers\<close>

lemma length_be_bytes [simp]: "length (be_bytes n x) = n"
  by (induction n arbitrary: x) auto

lemma less_snoc:
  fixes xs ys :: "u8 list"
  assumes "length xs = length ys"
  shows "xs @ [a] < ys @ [b] \<longleftrightarrow> xs < ys \<or> xs = ys \<and> a < b"
  using assms by (induction xs ys rule: list_induct2) auto

lemma be_bytes_less:
  "x < 256 ^ n \<Longrightarrow> y < 256 ^ n \<Longrightarrow> be_bytes n x < be_bytes n y \<longleftrightarrow> x < y"
proof (induction n arbitrary: x y)
  case (Suc n)
  have d: "x div 256 < 256 ^ n" "y div 256 < 256 ^ n"
    using Suc.prems by (simp_all add: less_mult_imp_div_less mult.commute)
  have eq: "be_bytes n (x div 256) = be_bytes n (y div 256) \<longleftrightarrow> x div 256 = y div 256"
    using Suc.IH [OF d] Suc.IH [OF d(2,1)] by (metis less_irrefl linorder_neqE_nat)
  have byte: "(of_nat x :: u8) < of_nat y \<longleftrightarrow> x mod 256 < y mod 256"
    by (simp add: word_less_nat_alt unat_of_nat)
  have lt: "x < y \<longleftrightarrow> x div 256 < y div 256 \<or> x div 256 = y div 256 \<and> x mod 256 < y mod 256"
  proof (cases "x div 256" "y div 256" rule: linorder_cases)
    case less
    then show ?thesis using div_le_mono [of y x 256] by linarith
  next
    case equal
    then show ?thesis using div_mult_mod_eq [of x 256] div_mult_mod_eq [of y 256] by linarith
  next
    case greater
    then show ?thesis using div_le_mono [of x y 256] by linarith
  qed
  have "be_bytes (Suc n) x < be_bytes (Suc n) y \<longleftrightarrow>
      be_bytes n (x div 256) < be_bytes n (y div 256) \<or> be_bytes n (x div 256) = be_bytes n (y div 256) \<and> (of_nat x :: u8) < of_nat y"
    unfolding be_bytes.simps by (rule less_snoc) simp
  then show ?case unfolding Suc.IH [OF d] eq byte lt .
qed simp

lemma be_bytes_numeral: "be_bytes (numeral k) x = be_bytes (pred_numeral k) (x div 256) @ [of_nat x]"
  unfolding numeral_eq_Suc [of k] be_bytes.simps by (rule refl)

lemma be_bytes_append: "be_bytes (m + n) x = be_bytes m (x div 256 ^ n) @ be_bytes n x"
  by (induction n arbitrary: x) (simp_all add: div_mult2_eq)

lemma be_bytes_shift: "be_bytes n (x * 256 ^ n) = replicate n 0"
proof (induction n)
  case (Suc n)
  have "x * 256 ^ Suc n div 256 = x * 256 ^ n" by (simp add: mult.left_commute [of _ 256])
  moreover have "(of_nat (x * 256 ^ Suc n) :: u8) = 0"
    by (subst word_of_nat_eq_0_iff) simp
  ultimately show ?case using Suc by (simp add: replicate_append_same del: power_Suc)
qed simp

lemma uuid_bytes_less: "uuid_bytes a < uuid_bytes b \<longleftrightarrow> a < b"
proof -
  have "unat w < 256 ^ 16" for w :: uuid by (rule order_less_le_trans [OF unsigned_less]) simp
  then show ?thesis by (simp add: uuid_bytes_def be_bytes_less word_less_nat_alt)
qed

lemma uuid_bytes_eq [simp]: "uuid_bytes a = uuid_bytes b \<longleftrightarrow> a = b"
  using uuid_bytes_less by (metis less_irrefl linorder_neqE)

text \<open>The time of a version 7 UUID: its first 48 bits, in milliseconds.\<close>

definition uuid_ms :: "uuid \<Rightarrow> nat" where
  "uuid_ms u = unat u div 2 ^ 80"

lemma floor_key_bytes:
  assumes "0 \<le> ms" and "ms < 2 ^ 48"
  shows "uuid_v7_floor_key ms = be_bytes 16 (nat ms * 2 ^ 80)"
proof -
  have "nat ms < 2 ^ 48" using assms by (metis nat_less_numeral_power_cancel_iff)
  then have m: "nat (max ms 0) mod 2 ^ 64 = nat ms" using assms(1) by (simp add: max_def)
  have "be_bytes (6 + 10) (nat ms * 256 ^ 10) = be_bytes 6 (nat ms) @ replicate 10 0"
    unfolding be_bytes_append be_bytes_shift by simp
  moreover have "be_bytes 6 x = [of_nat (x div 2 ^ 40), of_nat (x div 2 ^ 32), of_nat (x div 2 ^ 24),
      of_nat (x div 2 ^ 16), of_nat (x div 2 ^ 8), of_nat x]" for x
    by (simp add: be_bytes_numeral div_mult2_eq [symmetric])
  ultimately show ?thesis unfolding uuid_v7_floor_key_def Let_def m by simp
qed

lemma uuid_before_floor:
  assumes "0 \<le> ms" and "ms < 2 ^ 48"
  shows "uuid_bytes u < uuid_v7_floor_key ms \<longleftrightarrow> int (uuid_ms u) < ms"
proof -
  have u: "unat u < 256 ^ 16" by (rule order_less_le_trans [OF unsigned_less]) simp
  have "nat ms < 2 ^ 48" using assms by (metis nat_less_numeral_power_cancel_iff)
  then have "nat ms * 2 ^ 80 < 256 ^ 16" by simp
  then have "uuid_bytes u < uuid_v7_floor_key ms \<longleftrightarrow> unat u < nat ms * 2 ^ 80"
    using u by (simp add: floor_key_bytes [OF assms] uuid_bytes_def be_bytes_less)
  also have "\<dots> \<longleftrightarrow> uuid_ms u < nat ms"
    by (simp add: uuid_ms_def div_less_iff_less_mult)
  finally show ?thesis using assms(1) by linarith
qed

section \<open>Retention removes exactly what is older\<close>

lemma foldl_hm_remove: "foldl (\<lambda>t k. hm_remove k t) tbl ks = filter (\<lambda>p. fst p \<notin> set ks) tbl"
  by (induction ks arbitrary: tbl) (auto simp: hm_remove_def AList.delete_eq intro: filter_cong)

lemma prune_before_filter:
  "prune_before None key tbl =
     (filter (\<lambda>p. \<not> fst p < key) tbl, Inr (length (filter (\<lambda>p. fst p < key) tbl)))"
proof -
  have "filter (\<lambda>p. fst p \<notin> set (filter (\<lambda>k. k < key) (map fst tbl))) tbl = filter (\<lambda>p. \<not> fst p < key) tbl"
    by (rule filter_cong) auto
  moreover have "filter (\<lambda>k. k < key) (map fst tbl) = [] \<Longrightarrow>
      filter (\<lambda>p. \<not> fst p < key) tbl = tbl \<and> filter (\<lambda>p. fst p < key) tbl = []"
    "length (filter (\<lambda>k. k < key) (map fst tbl)) = length (filter (\<lambda>p. fst p < key) tbl)"
    by (auto simp: filter_map filter_empty_conv comp_def intro!: filter_True)
  ultimately show ?thesis by (auto simp: prune_before_def Let_def foldl_hm_remove)
qed

lemma hm_get_filter_key: "hm_get (filter (\<lambda>p. P (fst p)) m) k = (if P k then hm_get m k else None)"
  by (induction m) (auto simp: hm_get_def)

definition kept_from :: "int \<Rightarrow> table \<Rightarrow> table \<Rightarrow> bool" where
  "kept_from ms old new \<longleftrightarrow>
     (\<forall>u. hm_get new (uuid_bytes u) = (if int (uuid_ms u) < ms then None else hm_get old (uuid_bytes u)))"

lemma kept_from_prune:
  "0 \<le> ms \<Longrightarrow> ms < 2 ^ 48 \<Longrightarrow> kept_from ms tbl (filter (\<lambda>p. \<not> fst p < uuid_v7_floor_key ms) tbl)"
  using hm_get_filter_key [of "\<lambda>k. \<not> k < uuid_v7_floor_key ms" tbl]
  by (auto simp: kept_from_def uuid_before_floor)

text \<open>
  C27: a cleanup removes from all three tables exactly the entries whose UUID was minted in a
  millisecond before the cutoff, keeps every other entry as it is, and reports how many it removed.
  The cutoff is a time after 1970 that a UUID can hold.
\<close>

theorem retention_exact:
  assumes "ms = (now - seconds (86400 * int days)) div 1000000" and "0 \<le> ms" and "ms < 2 ^ 48"
  shows "\<exists>s'. run_cleanup (\<lambda>_. None) now days s =
           (s', Inr (length (rs_events s) - length (rs_events s') + (length (rs_verdicts s) - length (rs_verdicts s'))
                     + (length (rs_response_log s) - length (rs_response_log s')))) \<and>
         kept_from ms (rs_events s) (rs_events s') \<and> kept_from ms (rs_verdicts s) (rs_verdicts s') \<and>
         kept_from ms (rs_response_log s) (rs_response_log s')"
proof -
  have count: "length (filter (\<lambda>p. fst p < key) xs) = length xs - length (filter (\<lambda>p. \<not> fst p < key) xs)"
    for key and xs :: table
    using sum_length_filter_compl [of "\<lambda>p. fst p < key" xs] by linarith
  show ?thesis
    using kept_from_prune [OF assms(2,3)]
    by (simp add: run_cleanup_def cutoff_key_def prune_before_filter assms(1) [symmetric] count Let_def)
qed

section \<open>What is stored can be read\<close>

definition event_codec :: "'r store_libs \<Rightarrow> riggs_event \<Rightarrow> bool" where
  "event_codec sl ev \<longleftrightarrow>
     (\<exists>j z. sl_event_json sl ev = Inr j \<and> sl_event_parse sl j = Inr ev \<and> sl_zstd_decode sl j = None \<and>
            sl_zstd_encode sl j = Inr z \<and> sl_zstd_decode sl z = Some j)"

lemma stored_event_decodes:
  "event_codec sl ev \<Longrightarrow> stored_form sl s (sl_event_json sl ev) = Inr b \<Longrightarrow> sl_event_parse sl (decode sl b) = Inr ev"
  by (auto simp: event_codec_def stored_form_def encode_def decode_def split: if_splits)

lemma get_event_conv:
  "get_event sl s (EventId u) =
     (case hm_get (rs_events s) (uuid_bytes u) of None \<Rightarrow> Inr None
      | Some b \<Rightarrow> (case sl_event_parse sl (decode sl b) of Inl e \<Rightarrow> Inl (Store e) | Inr ev \<Rightarrow> Inr (Some ev)))"
  by (simp add: get_event_def)

lemma event_key_eq: "event_key ev = uuid_bytes u \<longleftrightarrow> event_id_of ev = EventId u"
  by (cases "event_id_of ev") (simp add: event_key_def)

lemma batch_inserts_get:
  assumes "\<forall>p \<in> set batch. event_codec sl (fst p)" and "batch_inserts sl s batch tabs = Inr tabs'"
  shows "case List.find (\<lambda>p. event_id_of (fst p) = EventId u) (rev batch) of
           Some p \<Rightarrow> \<exists>b. hm_get (fst tabs') (uuid_bytes u) = Some b \<and> sl_event_parse sl (decode sl b) = Inr (fst p)
         | None \<Rightarrow> hm_get (fst tabs') (uuid_bytes u) = hm_get (fst tabs) (uuid_bytes u)"
  using assms
proof (induction batch arbitrary: tabs)
  case (Cons p batch)
  obtain ev v where p: "p = (ev, v)" by fastforce
  obtain eb vb where eb: "stored_form sl s (sl_event_json sl ev) = Inr eb"
    and rest: "batch_inserts sl s batch
        (bt_insert (event_key ev) eb (fst tabs), bt_insert (verdict_key v) vb (snd tabs)) = Inr tabs'"
    using Cons.prems(2) p by (auto split: sum.splits)
  have "sl_event_parse sl (decode sl eb) = Inr ev"
    using Cons.prems(1) p stored_event_decodes [OF _ eb] by simp
  with Cons.IH [OF _ rest] Cons.prems(1) p show ?case
    by (auto simp: find_append bt_get_insert event_key_eq [symmetric] split: option.splits if_splits)
qed simp


section \<open>The newest events\<close>

definition readable_events :: "'r store_libs \<Rightarrow> riggs_store \<Rightarrow> riggs_event list" where
  "readable_events sl s =
     List.map_filter (\<lambda>(_, b). case sl_event_parse sl (decode sl b) of Inr ev \<Rightarrow> Some ev | Inl _ \<Rightarrow> None) (rs_events s)"

lemma collect_recent_take:
  "length acc \<le> limit \<Longrightarrow>
   collect_recent sl limit tbl acc = take limit (acc @ List.map_filter
     (\<lambda>(_, b). case sl_event_parse sl (decode sl b) of Inr ev \<Rightarrow> Some ev | Inl _ \<Rightarrow> None) tbl)"
  by (induction sl limit tbl acc rule: collect_recent.induct) (auto simp: map_filter_simps split: sum.splits)

lemma map_filter_rev: "List.map_filter f (rev xs) = rev (List.map_filter f xs)"
  by (simp add: map_filter_conv rev_map rev_filter)

text \<open>
  The loop over the newest end of the table gives the same as reading the whole table: the
  last events that decode, at most as many as asked for, oldest first, in the order of their keys;
  entries that do not decode are passed over and do not count.
\<close>

theorem recent_events_newest:
  "get_recent_events sl s limit =
     drop (length (readable_events sl s) - limit) (readable_events sl s)"
  by (simp add: get_recent_events_def collect_recent_take map_filter_rev readable_events_def take_rev)

section \<open>Witnesses\<close>

definition stored_process :: riggs_event where
  "stored_process = new_process (EventId 5) 1 Exec (process_context_new 42 1 ''t'' ''/bin/t'' ''t'' ''root'' (StorylineId 7)) None"

definition stored_verdict :: merged_verdict where
  "stored_verdict = from_verdicts (EventId 5) (StorylineId 7) []"

definition plain_libs :: "unit store_libs" where
  "plain_libs =
     \<lparr>sl_event_json = (\<lambda>ev. if ev = stored_process then Inr ''{e}'' else Inl ''other''),
      sl_event_parse = (\<lambda>j. if j = ''{e}'' then Inr stored_process else Inl ''other''),
      sl_verdict_json = (\<lambda>_. Inr ''{v}''), sl_verdict_parse = (\<lambda>_. Inr stored_verdict),
      sl_record_json = (\<lambda>_. Inl ''none''), sl_zstd_encode = (\<lambda>j. Inr (CHR ''z'' # j)),
      sl_zstd_decode = (\<lambda>b. if starts_with b ''z'' then Some (tl b) else None)\<rparr>"

definition empty_store :: riggs_store where
  "empty_store = \<lparr>rs_events = [], rs_verdicts = [], rs_response_log = [], rs_compress = True\<rparr>"


theorem retention_exact_witness:
  "hm_get (rs_events (fst (run_cleanup (\<lambda>_. None) (seconds 200000) 1
     (empty_store\<lparr>rs_events := [(uuid_bytes 0, ''old'')]\<rparr>)))) (uuid_bytes 0) = None"
proof -
  let ?s = "empty_store\<lparr>rs_events := [(uuid_bytes 0, ''old'')]\<rparr>"
  have "kept_from ((seconds 200000 - seconds (86400 * int 1)) div 1000000) (rs_events ?s)
      (rs_events (fst (run_cleanup (\<lambda>_. None) (seconds 200000) 1 ?s)))"
    using retention_exact [OF refl, of "seconds 200000" 1 ?s] by (auto simp: seconds_def)
  then show ?thesis by (simp add: kept_from_def uuid_ms_def seconds_def)
qed

end
