(* ===== verification/Ipc.thy ===== *)
theory Ipc
  imports Control Store_Model
begin

text \<open>
  The local socket of the daemon, \<^verbatim>\<open>riggs-comms/src/ipc.rs\<close> and \<^verbatim>\<open>messages.rs\<close>: frames with a length prefix,
  the messages, the handler of a client with its check of privileges, and the pools that limit how
  many clients are served at a time. The handler works on the models of the store, of the DLP and
  egress adapters and of the control operations; the JSON codec is a parameter.
\<close>

section \<open>Frames\<close>

definition DEFAULT_MAX_MSG_LEN :: nat where "DEFAULT_MAX_MSG_LEN = 8 * 1024 * 1024"
definition DEFAULT_MAX_CONCURRENT_CLIENTS :: nat where "DEFAULT_MAX_CONCURRENT_CLIENTS = 32"

datatype ipc_error = Ipc_Io | Ipc_Serialization string | Ipc_Other string

text \<open>\<^verbatim>\<open>u32::to_le_bytes\<close> of a length and \<^verbatim>\<open>u32::from_le_bytes\<close>; the cast to 32 bits drops what does not fit.\<close>

fun le_digits :: "nat \<Rightarrow> nat \<Rightarrow> string" where
  "le_digits 0 n = []"
| "le_digits (Suc k) n = char_of (n mod 256) # le_digits k (n div 256)"

definition le_bytes :: "nat \<Rightarrow> string" where
  "le_bytes n = le_digits 4 n"

fun from_le_bytes :: "string \<Rightarrow> nat" where
  "from_le_bytes [] = 0"
| "from_le_bytes (c # cs) = of_char c + 256 * from_le_bytes cs"

text \<open>Reading takes bytes from the front of what the peer sent; a stream that ends early is an error.\<close>

definition read_length_prefixed :: "nat \<Rightarrow> string \<Rightarrow> ipc_error + string \<times> string" where
  "read_length_prefixed max_len input =
     (if length input < 4 then Inl Ipc_Io
      else
        let len = from_le_bytes (take 4 input); rest = drop 4 input
        in if max_len < len
           then Inl (Ipc_Other (''message length '' @ show_nat len @ '' exceeds maximum '' @ show_nat max_len))
           else if length rest < len then Inl Ipc_Io
           else Inr (take len rest, drop len rest))"

definition write_length_prefixed :: "string \<Rightarrow> string" where
  "write_length_prefixed data = le_bytes (length data) @ data"

section \<open>Messages\<close>

datatype client_message =
    GetStatus
  | QueryEvents "string option" nat
  | QueryThreats string
  | GetConfig
  | UpdateConfig string string
  | TriggerScan string
  | RefreshFeeds
  | QuarantineList
  | QuarantineRestore string
  | VulnUpdate
  | IntelStatus
  | DlpCheckFlow u32 string string u16
  | DlpStatus
  | EgressCheckFlow u32 string string string u16
  | EgressStatus
  | EgressAllow string
  | EgressDeny string
  | EgressSetMode string

datatype daemon_message =
    StatusReply bool u64 u32
  | EventsReply "riggs_event list"
  | ThreatsReply "merged_verdict list"
  | QuarantineReply "quarantined_file list"
  | ConfigReply string
  | IntelStatusReply u64 u64 "string option"
  | OkReply
  | DoneReply string
  | ErrorReply string
  | DlpVerdictReply bool "string option"
  | DlpStatusReply bool nat nat nat
  | EgressVerdictReply bool bool "string option" string
  | EgressStatusReply string nat nat

section \<open>The state the handlers share\<close>

text \<open>A slot behind a lock: the lock is poisoned, the daemon has not filled the slot, or it has.\<close>

datatype 'a slot = Poisoned | Unset | Ready 'a

record 'net daemon_state =
  st_events_processed :: u64
  st_threats_detected :: u64
  st_config_json :: "string option"
  st_bloom_size :: u64
  st_cache_entries :: u64
  st_store :: "riggs_store slot"
  st_dlp :: "dlp_correlator slot"
  st_egress :: "'net egress_adapter slot"
  st_control :: "control_adapter slot"
  st_fs :: fs

definition daemon_state_new :: "fs \<Rightarrow> 'net daemon_state" where
  "daemon_state_new fs =
     \<lparr>st_events_processed = 0, st_threats_detected = 0, st_config_json = Some ''{}'', st_bloom_size = 0,
      st_cache_entries = 0, st_store = Unset, st_dlp = Unset, st_egress = Unset, st_control = Unset, st_fs = fs\<rparr>"

record 'net ipc_libs =
  il_net_parse :: "string \<Rightarrow> 'net option"
  il_net_contains :: "'net \<Rightarrow> ip_addr \<Rightarrow> bool"
  il_ip_parse :: "string \<Rightarrow> ip_addr option"
  il_policy :: policy_libs
  il_control :: control_libs
  il_vault :: vault_libs
  il_store :: "unit store_libs"
  il_io :: io_env
  il_now :: timestamp
  il_read_client :: "string \<Rightarrow> string + client_message"
  il_write_client :: "client_message \<Rightarrow> string + string"
  il_read_daemon :: "string \<Rightarrow> string + daemon_message"
  il_write_daemon :: "daemon_message \<Rightarrow> string + string"

definition egress_mutate ::
  "'net daemon_state \<Rightarrow> (fs \<times> 'net egress_adapter \<Rightarrow> (fs \<times> 'net egress_adapter) \<times> (string + unit))
   \<Rightarrow> 'net daemon_state \<times> daemon_message"
where
  "egress_mutate s f =
     (case st_egress s of
        Poisoned \<Rightarrow> (s, ErrorReply ''egress state unavailable'')
      | Unset \<Rightarrow> (s, ErrorReply ''egress control not initialized'')
      | Ready a \<Rightarrow>
          (let ((fs, a'), r) = f (st_fs s, a)
           in (s\<lparr>st_fs := fs, st_egress := Ready a'\<rparr>, case r of Inr _ \<Rightarrow> OkReply | Inl e \<Rightarrow> ErrorReply e)))"

definition control ::
  "'net daemon_state \<Rightarrow> (fs \<times> control_adapter \<Rightarrow> (fs \<times> control_adapter) \<times> (string + string))
   \<Rightarrow> 'net daemon_state \<times> daemon_message"
where
  "control s f =
     (case st_control s of
        Poisoned \<Rightarrow> (s, ErrorReply ''daemon control unavailable'')
      | Unset \<Rightarrow> (s, ErrorReply ''daemon control not initialized'')
      | Ready a \<Rightarrow>
          (let ((fs, a'), r) = f (st_fs s, a)
           in (s\<lparr>st_fs := fs, st_control := Ready a'\<rparr>,
               case r of Inr outcome \<Rightarrow> DoneReply outcome | Inl e \<Rightarrow> ErrorReply e)))"

fun needs_privilege :: "client_message \<Rightarrow> bool" where
  "needs_privilege (UpdateConfig _ _) = True"
| "needs_privilege (TriggerScan _) = True"
| "needs_privilege RefreshFeeds = True"
| "needs_privilege VulnUpdate = True"
| "needs_privilege (QuarantineRestore _) = True"
| "needs_privilege (EgressAllow _) = True"
| "needs_privilege (EgressDeny _) = True"
| "needs_privilege (EgressSetMode _) = True"
| "needs_privilege _ = False"

fun handle_message ::
  "'net ipc_libs \<Rightarrow> 'net daemon_state \<Rightarrow> client_message \<Rightarrow> 'net daemon_state \<times> daemon_message"
where
  "handle_message il s GetStatus =
     (s, StatusReply True (st_events_processed s) (ucast (st_threats_detected s)))"
| "handle_message il s (QueryEvents _ limit) =
     (s, EventsReply (case st_store s of Ready r \<Rightarrow> get_recent_events (il_store il) r limit | _ \<Rightarrow> []))"
| "handle_message il s (QueryThreats _) =
     (s, ThreatsReply (case st_store s of Ready r \<Rightarrow> get_verdicts_above_clean (il_store il) r 100 | _ \<Rightarrow> []))"
| "handle_message il s GetConfig =
     (s, ConfigReply (case st_config_json s of Some c \<Rightarrow> c | None \<Rightarrow> ''{}''))"
| "handle_message il s (UpdateConfig fld value) = control s (update_config (il_control il) (il_io il) fld value)"
| "handle_message il s (TriggerScan path) = control s (trigger_scan path)"
| "handle_message il s RefreshFeeds = control s refresh_feeds"
| "handle_message il s VulnUpdate = control s vuln_update"
| "handle_message il s QuarantineList =
     (s, case st_control s of
           Ready a \<Rightarrow> (case quarantine_list (il_vault il) (il_io il) (st_fs s, a) of
                        Inr files \<Rightarrow> QuarantineReply files | Inl e \<Rightarrow> ErrorReply e)
         | Unset \<Rightarrow> ErrorReply ''daemon control not initialized''
         | Poisoned \<Rightarrow> ErrorReply ''daemon control unavailable'')"
| "handle_message il s (QuarantineRestore i) =
     control s (quarantine_restore (il_control il) (il_vault il) (il_io il) i)"
| "handle_message il s IntelStatus = (s, IntelStatusReply (st_bloom_size s) (st_cache_entries s) None)"
| "handle_message il s (DlpCheckFlow pid hostname remote_ip port) =
     (s, case (case st_dlp s of Ready c \<Rightarrow> dlp_check (il_now il) c pid hostname | _ \<Rightarrow> (True, None)) of
           (allow, reason) \<Rightarrow> DlpVerdictReply allow reason)"
| "handle_message il s DlpStatus =
     (s, case (case st_dlp s of Ready c \<Rightarrow> dlp_adapter_status c | _ \<Rightarrow> (False, 0, 0, 0)) of
           (enabled, pids, accesses, domains) \<Rightarrow> DlpStatusReply enabled pids accesses domains)"
| "handle_message il s (EgressCheckFlow pid process_path hostname remote_ip port) =
     (s, let v = (case st_egress s of
                    Ready a \<Rightarrow> egress_check (il_net_contains il) (il_ip_parse il) a process_path hostname remote_ip port
                  | _ \<Rightarrow> \<lparr>ef_allow = True, ef_would_block = False, ef_reason = None, ef_mode = ''off''\<rparr>)
         in EgressVerdictReply (ef_allow v) (ef_would_block v) (ef_reason v) (ef_mode v))"
| "handle_message il s EgressStatus =
     (s, case (case st_egress s of Ready a \<Rightarrow> egress_adapter_status a | _ \<Rightarrow> (''off'', 0, 0)) of
           (mode, domains, rules) \<Rightarrow> EgressStatusReply mode domains rules)"
| "handle_message il s (EgressAllow d) = egress_mutate s (allow_domain (il_net_parse il) (il_policy il) (il_io il) d)"
| "handle_message il s (EgressDeny d) = egress_mutate s (deny_domain (il_net_parse il) (il_policy il) (il_io il) d)"
| "handle_message il s (EgressSetMode m) = egress_mutate s (set_egress_mode (il_net_parse il) (il_policy il) (il_io il) m)"

definition PERMISSION_DENIED :: string where
  "PERMISSION_DENIED = ''permission denied: command requires daemon-owner privilege''"

definition respond :: "'net ipc_libs \<Rightarrow> daemon_message \<Rightarrow> ipc_error + string" where
  "respond il r =
     (case il_write_daemon il r of Inl e \<Rightarrow> Inl (Ipc_Serialization e) | Inr bytes \<Rightarrow> Inr (write_length_prefixed bytes))"

text \<open>One client: what it sent, and what the daemon sends back.\<close>

definition handle_client ::
  "'net ipc_libs \<Rightarrow> nat \<Rightarrow> bool \<Rightarrow> string \<Rightarrow> 'net daemon_state \<Rightarrow> 'net daemon_state \<times> (ipc_error + string)"
where
  "handle_client il max_message_bytes is_owner input s =
     (case read_length_prefixed max_message_bytes input of
        Inl e \<Rightarrow> (s, Inl e)
      | Inr (raw, _) \<Rightarrow>
          (case il_read_client il raw of
             Inl e \<Rightarrow> (s, Inl (Ipc_Serialization e))
           | Inr msg \<Rightarrow>
               if needs_privilege msg \<and> \<not> is_owner then (s, respond il (ErrorReply PERMISSION_DENIED))
               else let (s', response) = handle_message il s msg in (s', respond il response)))"

text \<open>The client: it sends a message and reads the response.\<close>

definition client_send ::
  "'net ipc_libs \<Rightarrow> nat \<Rightarrow> bool \<Rightarrow> client_message \<Rightarrow> 'net daemon_state \<Rightarrow> 'net daemon_state \<times> (ipc_error + daemon_message)"
where
  "client_send il max_message_bytes is_owner msg s =
     (case il_write_client il msg of
        Inl e \<Rightarrow> (s, Inl (Ipc_Serialization e))
      | Inr bytes \<Rightarrow>
          (let (s', out) = handle_client il max_message_bytes is_owner (write_length_prefixed bytes) s
           in (s',
               case out of Inl e \<Rightarrow> Inl Ipc_Io
               | Inr stream \<Rightarrow>
                   (case read_length_prefixed DEFAULT_MAX_MSG_LEN stream of
                      Inl e \<Rightarrow> Inl e
                    | Inr (raw, _) \<Rightarrow>
                        (case il_read_daemon il raw of Inl e \<Rightarrow> Inl (Ipc_Serialization e) | Inr r \<Rightarrow> Inr r)))))"

section \<open>The server\<close>

record ipc_server =
  sv_max_message_bytes :: nat
  sv_max_connections :: nat
  sv_root_only :: bool
  sv_euid :: nat

definition server_with_limits :: "nat \<Rightarrow> nat \<Rightarrow> ipc_server \<Rightarrow> ipc_server" where
  "server_with_limits bytes connections sv =
     sv\<lparr>sv_max_message_bytes := max bytes 1024, sv_max_connections := max connections 1\<rparr>"

definition server_root_only :: "ipc_server \<Rightarrow> ipc_server" where
  "server_root_only sv = sv\<lparr>sv_root_only := True\<rparr>"

definition peer_is_owner :: "ipc_server \<Rightarrow> nat option \<Rightarrow> bool" where
  "peer_is_owner sv cred = (case cred of Some uid \<Rightarrow> uid = sv_euid sv | None \<Rightarrow> False)"

text \<open>
  The permits taken from the two pools. A connection comes with the credentials of its peer, if the
  system gives them; a handler that ends, also by its deadline, returns its permit.
\<close>

record ipc_pools =
  po_owner_busy :: nat
  po_other_busy :: nat

datatype server_event = Connection "nat option" | AcceptError | HandlerDone bool

datatype admission = DroppedNonRoot | DroppedFull | Served bool | NoConnection

fun server_step :: "ipc_server \<Rightarrow> ipc_pools \<Rightarrow> server_event \<Rightarrow> ipc_pools \<times> admission" where
  "server_step sv p (Connection cred) =
     (if sv_root_only sv \<and> cred \<noteq> Some 0 then (p, DroppedNonRoot)
      else if peer_is_owner sv cred then
        (if po_owner_busy p < sv_max_connections sv
         then (p\<lparr>po_owner_busy := po_owner_busy p + 1\<rparr>, Served True) else (p, DroppedFull))
      else
        (if po_other_busy p < sv_max_connections sv
         then (p\<lparr>po_other_busy := po_other_busy p + 1\<rparr>, Served False) else (p, DroppedFull)))"
| "server_step sv p AcceptError = (p, NoConnection)"
| "server_step sv p (HandlerDone True) = (p\<lparr>po_owner_busy := po_owner_busy p - 1\<rparr>, NoConnection)"
| "server_step sv p (HandlerDone False) = (p\<lparr>po_other_busy := po_other_busy p - 1\<rparr>, NoConnection)"

definition server_run :: "ipc_server \<Rightarrow> ipc_pools \<Rightarrow> server_event list \<Rightarrow> ipc_pools" where
  "server_run sv p evs = foldl (\<lambda>p ev. fst (server_step sv p ev)) p evs"

section \<open>Frames round trip\<close>

lemma length_le_bytes [simp]: "length (le_bytes n) = 4"
proof -
  have "length (le_digits k n) = k" for k by (induction k arbitrary: n) auto
  then show ?thesis by (simp add: le_bytes_def)
qed

lemma from_le_bytes_le_bytes: "from_le_bytes (le_bytes n) = n mod 2 ^ 32"
proof -
  have "from_le_bytes (le_digits k n) = n mod 256 ^ k" for k
  proof (induction k arbitrary: n)
    case (Suc k)
    then show ?case using mod_mult2_eq [of n 256 "256 ^ k"] by simp
  qed simp
  from this [of 4] show ?thesis by (simp add: le_bytes_def)
qed

lemma read_frame:
  assumes "length d < 2 ^ 32"
  shows "read_length_prefixed m (write_length_prefixed d @ rest) =
           (if length d \<le> m then Inr (d, rest)
            else Inl (Ipc_Other (''message length '' @ show_nat (length d) @ '' exceeds maximum '' @ show_nat m)))"
  using assms
  by (simp add: read_length_prefixed_def write_length_prefixed_def from_le_bytes_le_bytes Let_def)

fun read_frames :: "nat \<Rightarrow> nat \<Rightarrow> string \<Rightarrow> ipc_error + string list" where
  "read_frames m 0 input = Inr []"
| "read_frames m (Suc n) input =
     (case read_length_prefixed m input of Inl e \<Rightarrow> Inl e
      | Inr (d, rest) \<Rightarrow> map_sum id ((#) d) (read_frames m n rest))"

text \<open>
  Frames written one after the other are read back one by one, each as it was written, as long as each
  fits into the limit of the reader; a frame above the limit is refused by its length
  alone, before its bytes are read. Lengths fit into the 32 bits of the prefix.
\<close>

theorem frames_roundtrip:
  assumes "\<forall>d \<in> set ds. length d < 2 ^ 32"
  shows "read_frames m (length ds) (concat (map write_length_prefixed ds) @ rest) =
           (case List.find (\<lambda>d. m < length d) ds of
              None \<Rightarrow> Inr ds
            | Some d \<Rightarrow> Inl (Ipc_Other (''message length '' @ show_nat (length d) @ '' exceeds maximum '' @ show_nat m)))"
  using assms
proof (induction ds)
  case (Cons d ds)
  then show ?case
    using read_frame [of d m "concat (map write_length_prefixed ds) @ rest"] by (auto split: option.splits)
qed simp

section \<open>Privileges\<close>

lemma query_keeps_state: "\<not> needs_privilege msg \<Longrightarrow> fst (handle_message il s msg) = s"
  by (cases msg) auto

text \<open>
  C30: a peer that does not run as the owner of the daemon changes nothing. Whatever bytes it sends,
  no file, no policy, no configuration, no quarantined file, no scan, no feed and no counter is
  touched: every command that changes state is among those refused before they are carried out.
\<close>

theorem unprivileged_peer_changes_nothing:
  "fst (handle_client il max_message_bytes False input s) = s"
  by (auto simp: handle_client_def split: sum.splits prod.splits if_splits) (metis query_keeps_state fst_conv)

definition message_codec :: "'net ipc_libs \<Rightarrow> client_message \<Rightarrow> daemon_message \<Rightarrow> nat \<Rightarrow> bool" where
  "message_codec il msg r limit \<longleftrightarrow>
     (\<exists>mb rb. il_write_client il msg = Inr mb \<and> il_read_client il mb = Inr msg \<and> length mb \<le> limit \<and> length mb < 2 ^ 32 \<and>
              il_write_daemon il r = Inr rb \<and> il_read_daemon il rb = Inr r \<and> length rb \<le> DEFAULT_MAX_MSG_LEN)"

lemma client_send_answer:
  assumes "answer = (if needs_privilege msg \<and> \<not> is_owner then (s, ErrorReply PERMISSION_DENIED) else handle_message il s msg)"
    and "message_codec il msg (snd answer) limit"
  shows "client_send il limit is_owner msg s = (fst answer, Inr (snd answer))"
proof -
  from assms(2) obtain mb rb where c: "il_write_client il msg = Inr mb" "il_read_client il mb = Inr msg"
      "length mb \<le> limit" "length mb < 2 ^ 32" "il_write_daemon il (snd answer) = Inr rb"
      "il_read_daemon il rb = Inr (snd answer)" "length rb \<le> DEFAULT_MAX_MSG_LEN"
    unfolding message_codec_def by blast
  have rb: "length rb < 2 ^ 32" using c(7) by (simp add: DEFAULT_MAX_MSG_LEN_def)
  have "handle_client il limit is_owner (write_length_prefixed mb) s = (fst answer, Inr (write_length_prefixed rb))"
    using read_frame [OF c(4), of limit "[]"] c assms(1)
    by (auto simp: handle_client_def respond_def split: prod.splits if_splits)
  then show ?thesis
    using read_frame [OF rb, of DEFAULT_MAX_MSG_LEN "[]"] c by (simp add: client_send_def)
qed

text \<open>
  The client receives the daemon's answer to the message it sent: the refusal, for a command that
  needs the owner and comes from someone else, and otherwise exactly what carrying out the message
  gives, with the state it leaves. Both messages are encoded within the limits of the readers and
  decode to what was encoded.
\<close>

theorem exchange_faithful:
  assumes "answer = (if needs_privilege msg \<and> \<not> is_owner then (s, ErrorReply PERMISSION_DENIED) else handle_message il s msg)"
    and "message_codec il msg (snd answer) limit"
  shows "client_send il limit is_owner msg s = (fst answer, Inr (snd answer))"
  using assms by (rule client_send_answer)

section \<open>The pools\<close>

definition owner_event :: "ipc_server \<Rightarrow> server_event \<Rightarrow> bool" where
  "owner_event sv ev = (case ev of Connection cred \<Rightarrow> peer_is_owner sv cred | HandlerDone own \<Rightarrow> own | AcceptError \<Rightarrow> False)"

lemma other_event_keeps_owner_pool:
  "\<not> owner_event sv ev \<Longrightarrow> po_owner_busy (fst (server_step sv p ev)) = po_owner_busy p"
  by (cases "(sv, p, ev)" rule: server_step.cases) (auto simp: owner_event_def)

lemma owner_pool_step:
  "po_owner_busy p = po_owner_busy q \<Longrightarrow>
   po_owner_busy (fst (server_step sv p ev)) = po_owner_busy (fst (server_step sv q ev)) \<or> \<not> owner_event sv ev"
  by (cases "(sv, p, ev)" rule: server_step.cases) (auto simp: owner_event_def)

lemma server_run_simps [simp]:
  "server_run sv p [] = p" "server_run sv p (ev # evs) = server_run sv (fst (server_step sv p ev)) evs"
  by (simp_all add: server_run_def)

lemma server_run_projects:
  "po_owner_busy p = po_owner_busy q \<Longrightarrow>
   po_owner_busy (server_run sv p evs) = po_owner_busy (server_run sv q (filter (owner_event sv) evs))"
proof (induction evs arbitrary: p q)
  case (Cons ev evs)
  show ?case
  proof (cases "owner_event sv ev")
    case True
    then have "po_owner_busy (fst (server_step sv p ev)) = po_owner_busy (fst (server_step sv q ev))"
      using owner_pool_step [OF Cons.prems, of sv ev] by blast
    from Cons.IH [OF this] show ?thesis using True by simp
  next
    case False
    then have "po_owner_busy (fst (server_step sv p ev)) = po_owner_busy q"
      using other_event_keeps_owner_pool Cons.prems by simp
    from Cons.IH [OF this] show ?thesis using False by simp
  qed
qed simp

lemma server_run_bounded:
  "po_owner_busy p \<le> sv_max_connections sv \<Longrightarrow> po_other_busy p \<le> sv_max_connections sv \<Longrightarrow>
   po_owner_busy (server_run sv p evs) \<le> sv_max_connections sv \<and> po_other_busy (server_run sv p evs) \<le> sv_max_connections sv"
proof (induction evs arbitrary: p)
  case (Cons ev evs)
  have "po_owner_busy (fst (server_step sv p ev)) \<le> sv_max_connections sv"
    "po_other_busy (fst (server_step sv p ev)) \<le> sv_max_connections sv"
    using Cons.prems by (cases "(sv, p, ev)" rule: server_step.cases; auto)+
  then show ?case using Cons.IH by simp
qed simp

text \<open>
  C33: peers without the owner's user id cannot starve the owner. Whatever they do, whether the next
  connection of the owner is served depends on the owner's own connections alone, and neither pool
  ever serves more clients at a time than its limit.
\<close>

theorem owner_never_starved:
  "snd (server_step sv (server_run sv \<lparr>po_owner_busy = 0, po_other_busy = 0\<rparr> evs) (Connection (Some (sv_euid sv)))) =
   snd (server_step sv (server_run sv \<lparr>po_owner_busy = 0, po_other_busy = 0\<rparr> (filter (owner_event sv) evs))
         (Connection (Some (sv_euid sv))))
   \<and> po_owner_busy (server_run sv \<lparr>po_owner_busy = 0, po_other_busy = 0\<rparr> evs) \<le> sv_max_connections sv
   \<and> po_other_busy (server_run sv \<lparr>po_owner_busy = 0, po_other_busy = 0\<rparr> evs) \<le> sv_max_connections sv"
  using server_run_projects [OF refl, of sv "\<lparr>po_owner_busy = 0, po_other_busy = 0\<rparr>" evs]
    server_run_bounded [of "\<lparr>po_owner_busy = 0, po_other_busy = 0\<rparr>" sv evs]
  by (auto simp: peer_is_owner_def)

section \<open>Witnesses\<close>

theorem frames_roundtrip_witness:
  "read_frames 3 (Suc (Suc 0)) (write_length_prefixed ''abc'' @ write_length_prefixed ''x'') = Inr [''abc'', ''x'']"
  using frames_roundtrip [of "[''abc'', ''x'']" 3 "[]"] by (simp del: read_frames.simps)

definition sample_ipc :: "unit ipc_libs" where
  "sample_ipc = \<lparr>il_net_parse = (\<lambda>_. None), il_net_contains = (\<lambda>_ _. False), il_ip_parse = (\<lambda>_. None),
     il_policy = sample_toml, il_control = sample_control,
     il_vault = \<lparr>vl_sha256 = (\<lambda>_. []), vl_show_uuid = (\<lambda>_. []), vl_write_manifest = (\<lambda>_. Inl []),
                 vl_read_manifest = (\<lambda>_. Inl []), vl_write_released = (\<lambda>_. Inl []), vl_read_released = (\<lambda>_. Inl [])\<rparr>,
     il_store = plain_libs, il_io = calm, il_now = 0,
     il_read_client = (\<lambda>b. if b = ''allow'' then Inr (EgressAllow ''a.test'') else Inl ''bad''),
     il_write_client = (\<lambda>m. if m = EgressAllow ''a.test'' then Inr ''allow'' else Inl ''bad''),
     il_read_daemon = (\<lambda>b. if b = ''denied'' then Inr (ErrorReply PERMISSION_DENIED) else Inl ''bad''),
     il_write_daemon = (\<lambda>m. if m = ErrorReply PERMISSION_DENIED then Inr ''denied'' else Inl ''bad'')\<rparr>"

theorem exchange_faithful_witness:
  "client_send sample_ipc 1024 False (EgressAllow ''a.test'') (daemon_state_new Map.empty)
   = (daemon_state_new Map.empty, Inr (ErrorReply PERMISSION_DENIED))"
  using exchange_faithful [where msg = "EgressAllow ''a.test''" and is_owner = False and s = "daemon_state_new Map.empty"
      and il = sample_ipc and limit = 1024, OF refl]
  by (simp add: message_codec_def sample_ipc_def DEFAULT_MAX_MSG_LEN_def)

end
