(* ===== verification/Collector.thy ===== *)
theory Collector
  imports Events
begin

text \<open>
  The collector between the platform sensor and the daemon, \<^verbatim>\<open>riggs-sensor/src/normalizer.rs\<close> and
  \<^verbatim>\<open>collector.rs\<close>: every event is cut to bounded strings, dated no later than now and given a
  storyline before it is forwarded. Strings are the bytes of their UTF-8 encoding, as in Rust;
  clock readings and fresh ids are arguments.
\<close>

section \<open>Truncation\<close>

definition MAX_STRING_LEN :: nat where "MAX_STRING_LEN = 4096"

definition is_continuation :: "char \<Rightarrow> bool" where
  "is_continuation c \<longleftrightarrow> 0x80 \<le> (of_char c :: nat) \<and> (of_char c :: nat) < 0xC0"

text \<open>\<^verbatim>\<open>str::is_char_boundary\<close>: both ends, and before every byte that starts a character.\<close>

definition is_char_boundary :: "string \<Rightarrow> nat \<Rightarrow> bool" where
  "is_char_boundary s i \<longleftrightarrow> i = 0 \<or> i = length s \<or> (i < length s \<and> \<not> is_continuation (s ! i))"

fun boundary_below :: "string \<Rightarrow> nat \<Rightarrow> nat" where
  "boundary_below s 0 = 0"
| "boundary_below s (Suc n) = (if is_char_boundary s (Suc n) then Suc n else boundary_below s n)"

definition truncate_str :: "string \<Rightarrow> string" where
  "truncate_str s = (if MAX_STRING_LEN < length s then take (boundary_below s MAX_STRING_LEN) s else s)"

section \<open>Normalization\<close>

definition normalize_process_context :: "storyline_id \<Rightarrow> process_context \<Rightarrow> process_context" where
  "normalize_process_context fresh ctx =
     ctx\<lparr>pc_storyline_id := (if pc_storyline_id ctx = StorylineId 0 then fresh else pc_storyline_id ctx),
         pc_name := truncate_str (pc_name ctx), pc_path := truncate_str (pc_path ctx),
         pc_cmdline := truncate_str (pc_cmdline ctx), pc_user := truncate_str (pc_user ctx)\<rparr>"

text \<open>\<open>fresh\<close> and \<open>parent_fresh\<close> are the ids drawn for the context and for the parent, if needed.\<close>

fun normalize :: "timestamp \<Rightarrow> storyline_id \<Rightarrow> storyline_id \<Rightarrow> riggs_event \<Rightarrow> riggs_event" where
  "normalize now fresh parent_fresh (Process e) =
     Process (e\<lparr>pe_timestamp := min (pe_timestamp e) now,
                pe_context := normalize_process_context fresh (pe_context e),
                pe_parent := map_option (normalize_process_context parent_fresh) (pe_parent e)\<rparr>)"
| "normalize now fresh parent_fresh (File e) =
     File (e\<lparr>fe_timestamp := min (fe_timestamp e) now,
             fe_context := normalize_process_context fresh (fe_context e)\<rparr>)"
| "normalize now fresh parent_fresh (Network e) =
     Network (e\<lparr>ne_timestamp := min (ne_timestamp e) now,
                ne_context := normalize_process_context fresh (ne_context e)\<rparr>)"
| "normalize now fresh parent_fresh (Dns e) =
     Dns (e\<lparr>de_timestamp := min (de_timestamp e) now,
            de_context := normalize_process_context fresh (de_context e)\<rparr>)"
| "normalize now fresh parent_fresh (Auth e) =
     Auth (e\<lparr>ae_timestamp := min (ae_timestamp e) now,
             ae_context := normalize_process_context fresh (ae_context e)\<rparr>)"
| "normalize now fresh parent_fresh (Kernel e) =
     Kernel (e\<lparr>ke_timestamp := min (ke_timestamp e) now,
               ke_context := normalize_process_context fresh (ke_context e)\<rparr>)"

section \<open>The collector\<close>

text \<open>
  \<open>ec_task\<close> is the forwarding task, while it runs; \<open>ec_sent\<close> what the daemon's channel received and
  \<open>ec_room\<close> how many more events it takes before its receiver is gone, if ever.
\<close>

record event_collector =
  ec_task :: bool
  ec_sent :: "riggs_event list"
  ec_room :: "nat option"

definition collector_new :: "nat option \<Rightarrow> event_collector" where
  "collector_new room = \<lparr>ec_task = False, ec_sent = [], ec_room = room\<rparr>"

definition collector_start :: "riggs_error option \<Rightarrow> event_collector \<Rightarrow> event_collector \<times> riggs_error option" where
  "collector_start sensor c =
     (case sensor of Some e \<Rightarrow> (c, Some e) | None \<Rightarrow> (c\<lparr>ec_task := True\<rparr>, None))"

text \<open>One turn of the forwarding task on an event the sensor sent.\<close>

definition forward_step ::
  "event_collector \<Rightarrow> timestamp \<times> storyline_id \<times> storyline_id \<times> riggs_event \<Rightarrow> event_collector"
where
  "forward_step c x =
     (let (now, fresh, parent_fresh, ev) = x
      in if \<not> ec_task c then c
         else case ec_room c of
           Some 0 \<Rightarrow> c\<lparr>ec_task := False\<rparr>
         | Some (Suc n) \<Rightarrow> c\<lparr>ec_sent := ec_sent c @ [normalize now fresh parent_fresh ev], ec_room := Some n\<rparr>
         | None \<Rightarrow> c\<lparr>ec_sent := ec_sent c @ [normalize now fresh parent_fresh ev]\<rparr>)"

definition collector_stop :: "riggs_error option \<Rightarrow> event_collector \<Rightarrow> event_collector \<times> riggs_error option" where
  "collector_stop sensor c =
     (case sensor of Some e \<Rightarrow> (c, Some e) | None \<Rightarrow> (c\<lparr>ec_task := False\<rparr>, None))"

section \<open>Truncation keeps whole characters\<close>

text \<open>The encoding of one character: a byte that starts it, and continuation bytes.\<close>

definition utf8_char :: "string \<Rightarrow> bool" where
  "utf8_char c \<longleftrightarrow> c \<noteq> [] \<and> \<not> is_continuation (hd c) \<and> (\<forall>b \<in> set (tl c). is_continuation b)"

lemma boundary_below_le: "boundary_below s n \<le> n"
  by (induction s n rule: boundary_below.induct) auto

lemma boundary_below_boundary: "is_char_boundary s (boundary_below s n)"
  by (induction s n rule: boundary_below.induct) (auto simp: is_char_boundary_def)

lemma boundary_below_greatest:
  "is_char_boundary s m \<Longrightarrow> m \<le> n \<Longrightarrow> m \<le> boundary_below s n"
  by (induction s n rule: boundary_below.induct) (auto simp: le_Suc_eq)

lemma length_truncate: "length (truncate_str s) \<le> MAX_STRING_LEN"
  using boundary_below_le [of s MAX_STRING_LEN] by (auto simp: truncate_str_def)

lemma truncate_prefix: "\<exists>rest. s = truncate_str s @ rest"
  by (simp add: truncate_str_def) (metis append_take_drop_id)

lemma truncate_short [simp]: "length s \<le> MAX_STRING_LEN \<Longrightarrow> truncate_str s = s"
  by (simp add: truncate_str_def)

lemma truncate_idem [simp]: "truncate_str (truncate_str s) = truncate_str s"
  by (rule truncate_short) (rule length_truncate)

text \<open>The boundaries of an encoded text are the ends of its characters.\<close>

lemma char_boundary_inside:
  assumes "utf8_char c" and "0 < i" and "i < length c"
  shows "\<not> is_char_boundary (c @ rest) i"
proof -
  have "(c @ rest) ! i \<in> set (tl c)"
    using assms by (cases c) (auto simp: nth_append nth_Cons' utf8_char_def)
  then show ?thesis using assms by (auto simp: is_char_boundary_def utf8_char_def)
qed

lemma char_boundary_after:
  assumes "utf8_char c" and "\<forall>d \<in> set cs. utf8_char d"
  shows "is_char_boundary (c @ concat cs) (length c + i) \<longleftrightarrow> is_char_boundary (concat cs) i"
proof (cases cs)
  case Nil
  then show ?thesis using assms(1) by (auto simp: is_char_boundary_def utf8_char_def)
next
  case (Cons d ds)
  then have "concat cs \<noteq> []" "\<not> is_continuation (concat cs ! 0)"
    using assms(2) by (auto simp: utf8_char_def hd_conv_nth nth_append)
  then show ?thesis by (cases "i = 0") (auto simp: is_char_boundary_def nth_append)
qed

lemma char_boundaries:
  assumes "\<forall>c \<in> set cs. utf8_char c" and "is_char_boundary (concat cs) i"
  shows "\<exists>k \<le> length cs. i = length (concat (take k cs))"
  using assms
proof (induction cs arbitrary: i)
  case Nil
  then show ?case by (simp add: is_char_boundary_def)
next
  case (Cons c cs)
  show ?case
  proof (cases "i < length c")
    case True
    then have "i = 0" using Cons.prems char_boundary_inside [of c i "concat cs"] by auto
    then show ?thesis by (intro exI [of _ 0]) simp
  next
    case False
    then obtain j where j: "i = length c + j" by (metis le_add_diff_inverse not_less)
    then have "is_char_boundary (concat cs) j" using Cons.prems char_boundary_after [of c cs j] by simp
    with Cons obtain k where "k \<le> length cs" "j = length (concat (take k cs))" by auto
    with j show ?thesis by (intro exI [of _ "Suc k"]) simp
  qed
qed

lemma char_boundary_take:
  assumes "\<forall>c \<in> set cs. utf8_char c"
  shows "is_char_boundary (concat cs) (length (concat (take k cs)))"
  using assms
proof (induction cs arbitrary: k)
  case Nil
  then show ?case by (simp add: is_char_boundary_def)
next
  case (Cons c cs)
  then show ?case using char_boundary_after [of c cs]
    by (cases k) (auto simp: is_char_boundary_def [of _ 0])
qed

text \<open>
  A string that is too long is cut at the end of a character: the result is made of the first
  characters of the text, fits the limit, and no further character would have fitted.
\<close>

theorem truncate_whole_chars:
  assumes "\<forall>c \<in> set cs. utf8_char c"
  shows "\<exists>k \<le> length cs. truncate_str (concat cs) = concat (take k cs)
           \<and> length (concat (take k cs)) \<le> MAX_STRING_LEN
           \<and> (k < length cs \<longrightarrow> MAX_STRING_LEN < length (concat (take (Suc k) cs)))"
proof (cases "length (concat cs) \<le> MAX_STRING_LEN")
  case True
  then show ?thesis by (intro exI [of _ "length cs"]) simp
next
  case False
  let ?s = "concat cs" and ?b = "boundary_below (concat cs) MAX_STRING_LEN"
  obtain k where k: "k \<le> length cs" "?b = length (concat (take k cs))"
    using char_boundaries [OF assms boundary_below_boundary] by blast
  have "?s = concat (take k cs) @ concat (drop k cs)" by (metis append_take_drop_id concat_append)
  then have "take ?b ?s = concat (take k cs)" using k(2) by (metis append_eq_conv_conj)
  moreover have "MAX_STRING_LEN < length (concat (take (Suc k) cs))" if "k < length cs"
  proof (rule ccontr)
    assume "\<not> ?thesis"
    then have "length (concat (take (Suc k) cs)) \<le> ?b"
      using boundary_below_greatest [OF char_boundary_take [OF assms, of "Suc k"]] by simp
    moreover have "cs ! k \<noteq> []" using assms that by (auto simp: utf8_char_def)
    ultimately show False using that k(2) by (simp add: take_Suc_conv_app_nth)
  qed
  ultimately show ?thesis
    using False k boundary_below_le [of ?s MAX_STRING_LEN] by (auto simp: truncate_str_def)
qed

section \<open>What reaches the daemon\<close>

definition bounded_context :: "process_context \<Rightarrow> bool" where
  "bounded_context ctx \<longleftrightarrow>
     (\<forall>s \<in> {pc_name ctx, pc_path ctx, pc_cmdline ctx, pc_user ctx}. length s \<le> MAX_STRING_LEN)
     \<and> pc_storyline_id ctx \<noteq> StorylineId 0"

fun parent_of :: "riggs_event \<Rightarrow> process_context option" where
  "parent_of (Process e) = pe_parent e"
| "parent_of _ = None"

definition normal_at :: "timestamp \<Rightarrow> riggs_event \<Rightarrow> bool" where
  "normal_at now ev \<longleftrightarrow> timestamp_of ev \<le> now \<and> bounded_context (process_context_of ev)
     \<and> (\<forall>p. parent_of ev = Some p \<longrightarrow> bounded_context p)"

lemma bounded_normalized:
  "fresh \<noteq> StorylineId 0 \<Longrightarrow> bounded_context (normalize_process_context fresh ctx)"
  by (simp add: bounded_context_def normalize_process_context_def length_truncate)

lemma normalize_bounded_context:
  "bounded_context ctx \<Longrightarrow> normalize_process_context fresh ctx = ctx"
  by (cases ctx) (simp add: bounded_context_def normalize_process_context_def)

lemma normalize_normal:
  assumes "fresh \<noteq> StorylineId 0" and "parent_fresh \<noteq> StorylineId 0"
  shows "normal_at now (normalize now fresh parent_fresh ev)"
  using assms by (cases ev) (auto simp: normal_at_def bounded_normalized)

lemma normalize_fixed:
  assumes "normal_at now ev"
  shows "normalize now fresh parent_fresh ev = ev"
  using assms
  by (cases ev) (auto simp: normal_at_def normalize_bounded_context min_def map_option_case split: option.splits)

definition normalized :: "timestamp \<times> storyline_id \<times> storyline_id \<times> riggs_event \<Rightarrow> riggs_event" where
  "normalized = (\<lambda>(now, fresh, parent_fresh, ev). normalize now fresh parent_fresh ev)"

lemma forward_step_idle: "\<not> ec_task c \<Longrightarrow> foldl forward_step c xs = c"
  by (induction xs) (auto simp: forward_step_def)

lemma forward_step_task:
  "ec_task c \<Longrightarrow> forward_step c x =
     (case ec_room c of
        Some 0 \<Rightarrow> c\<lparr>ec_task := False\<rparr>
      | Some (Suc n) \<Rightarrow> c\<lparr>ec_sent := ec_sent c @ [normalized x], ec_room := Some n\<rparr>
      | None \<Rightarrow> c\<lparr>ec_sent := ec_sent c @ [normalized x]\<rparr>)"
  by (cases x) (auto simp: forward_step_def normalized_def split: option.split nat.split)

lemma foldl_forward:
  assumes "ec_task c"
  shows "ec_sent (foldl forward_step c xs) =
           ec_sent c @ map normalized (case ec_room c of None \<Rightarrow> xs | Some n \<Rightarrow> take n xs)"
  using assms
proof (induction xs arbitrary: c)
  case (Cons x xs)
  then show ?case
    by (cases "ec_room c") (auto simp: forward_step_task forward_step_idle split: nat.split)
qed (simp split: option.split)

text \<open>
  What the sensor reports reaches the daemon in order and normalized, up to the event at which
  the daemon's channel is closed: every forwarded event is dated no later than its arrival, its
  process contexts have strings of at most 4096 bytes and a storyline. An event that is already
  so is forwarded as it is.
\<close>

theorem collector_forwards_normal:
  assumes "\<forall>x \<in> set xs. fst (snd x) \<noteq> StorylineId 0 \<and> fst (snd (snd x)) \<noteq> StorylineId 0"
    and "collector_start None (collector_new room) = (c, None)"
  shows "ec_sent (foldl forward_step c xs) = map normalized (case room of None \<Rightarrow> xs | Some n \<Rightarrow> take n xs)
         \<and> (\<forall>x \<in> set xs. normal_at (fst x) (normalized x)
              \<and> (normal_at (fst x) (snd (snd (snd x))) \<longrightarrow> normalized x = snd (snd (snd x))))"
proof -
  from assms(2) have c: "c = (collector_new room)\<lparr>ec_task := True\<rparr>" by (simp add: collector_start_def)
  have "ec_sent (foldl forward_step c xs) = map normalized (case room of None \<Rightarrow> xs | Some n \<Rightarrow> take n xs)"
    by (simp add: foldl_forward collector_new_def c)
  moreover have "\<forall>x \<in> set xs. normal_at (fst x) (normalized x)
      \<and> (normal_at (fst x) (snd (snd (snd x))) \<longrightarrow> normalized x = snd (snd (snd x)))"
    using assms(1) by (auto simp: normalized_def normalize_normal normalize_fixed split: prod.splits)
  ultimately show ?thesis by simp
qed

section \<open>Concrete runs\<close>

theorem truncate_whole_chars_witness:
  "\<exists>k \<le> 1. truncate_str (concat [[CHR 0xC3, CHR 0xA9]]) = concat (take k [[CHR 0xC3, CHR 0xA9]])"
proof -
  have "\<forall>c \<in> set [[CHR 0xC3, CHR 0xA9]]. utf8_char c"
    by (simp add: utf8_char_def is_continuation_def)
  from truncate_whole_chars [OF this] show ?thesis by auto
qed

definition late_event :: riggs_event where
  "late_event = new_dns (EventId 1) 90 (process_context_new 7 1 ''sh'' ''/bin/sh'' [] ''u'' (StorylineId 0))
     ''a.example'' [] ''A''"

theorem collector_forwards_normal_witness:
  "ec_sent (foldl forward_step ((collector_new (Some 3))\<lparr>ec_task := True\<rparr>) [(50, StorylineId 4, StorylineId 5, late_event)])
     = [normalize 50 (StorylineId 4) (StorylineId 5) late_event]
   \<and> timestamp_of (normalize 50 (StorylineId 4) (StorylineId 5) late_event) \<le> 50"
proof -
  let ?x = "(50 :: timestamp, StorylineId 4, StorylineId 5, late_event)"
  have ids: "\<forall>x \<in> set [?x]. fst (snd x) \<noteq> StorylineId 0 \<and> fst (snd (snd x)) \<noteq> StorylineId 0" by simp
  have start: "collector_start None (collector_new (Some 3)) = ((collector_new (Some 3))\<lparr>ec_task := True\<rparr>, None)"
    by (simp add: collector_start_def)
  note run = collector_forwards_normal [OF ids start]
  have "normal_at 50 (normalized ?x)" using run by simp
  then show ?thesis
    using conjunct1 [OF run] unfolding normalized_def normal_at_def by simp
qed

end
