(* ===== verification/Linux_Files.thy ===== *)
theory Linux_Files
  imports Events Filesystem Text_Ops
begin

text \<open>
  Attribution of file events to processes on Linux, \<^verbatim>\<open>riggs-platform-linux/src/fanotify.rs\<close>: fanotify
  reports opens and finished writes with the acting pid; the events of inotify, which carry none,
  borrow the pid that fanotify last saw on the same file. The answers of the system calls (metadata
  of a path, a \<^verbatim>\<open>/proc\<close> entry, the records fanotify delivers) are arguments.
\<close>

section \<open>Paths by component\<close>

text \<open>\<^verbatim>\<open>Path::starts_with\<close> and \<^verbatim>\<open>Path::strip_prefix\<close> compare whole components.\<close>

definition path_components :: "string \<Rightarrow> string list" where
  "path_components p =
     (if starts_with p ''/'' then [''/''] else []) @
     filter (\<lambda>c. c \<noteq> [] \<and> c \<noteq> ''.'') (split_by (\<lambda>c. c = CHR ''/'') p)"

definition path_starts_with :: "string \<Rightarrow> string \<Rightarrow> bool" where
  "path_starts_with p base = (take (length (path_components base)) (path_components p) = path_components base)"

definition path_strip_prefix :: "string \<Rightarrow> string \<Rightarrow> string" where
  "path_strip_prefix p base =
     (if path_starts_with p base then join ''/'' (drop (length (path_components base)) (path_components p)) else [])"

section \<open>Sightings\<close>

definition ATTRIBUTION_WINDOW :: duration where "ATTRIBUTION_WINDOW = seconds 2"

definition OPEN_DIRS :: "string list" where "OPEN_DIRS = [''/home'', ''/tmp'']"

datatype key = Inode u64 u64 | Path string

record sighting =
  sg_inode :: key
  sg_path :: key
  sg_ctx :: process_context

type_synonym sightings = "(key, process_context \<times> timestamp) hmap"

definition remember :: "timestamp \<Rightarrow> sightings \<Rightarrow> sighting \<Rightarrow> sightings" where
  "remember now seen s =
     hm_insert (sg_path s) (sg_ctx s, now) (hm_insert (sg_inode s) (sg_ctx s, now) seen)"

text \<open>
  \<open>meta\<close> is the answer of \<^verbatim>\<open>symlink_metadata\<close> on the path: device and inode, or \<open>None\<close> when there is no
  such file; \<open>fresh\<close> the storyline id that is drawn.
\<close>

definition attribution ::
  "timestamp \<Rightarrow> (u64 \<times> u64) option \<Rightarrow> storyline_id \<Rightarrow> sightings \<Rightarrow> string \<Rightarrow> file_action \<Rightarrow> process_context option"
where
  "attribution now meta fresh seen path action =
     (if action = Delete then None
      else
        let k = (case meta of Some (dev, ino) \<Rightarrow> Inode dev ino | None \<Rightarrow> Path path)
        in case hm_get seen k of
             None \<Rightarrow> None
           | Some (ctx, seen_at) \<Rightarrow>
               if now - seen_at < ATTRIBUTION_WINDOW then Some (ctx\<lparr>pc_storyline_id := fresh\<rparr>) else None)"

section \<open>The attributing task\<close>

text \<open>
  The task of \<^verbatim>\<open>start\<close>: its \<^verbatim>\<open>select!\<close> is biased, so sightings are remembered before the next inotify
  event is taken. A create may be reported before the sighting of the same open; the task then
  waits for sightings, for at most 20 ms, until the file is attributed. \<open>raced\<close> are the sightings that
  arrive in that time, with the clock at each; those not taken stay in the channel.
\<close>

record attributor =
  at_seen :: sightings
  at_pending :: "sighting list"
  at_sent :: "riggs_event list"

datatype file_input =
    Sighted sighting
  | Inotify "(u64 \<times> u64) option" bool storyline_id "(timestamp \<times> sighting) list" riggs_event
  | PruneTick

fun await_sighting ::
  "(timestamp \<Rightarrow> sightings \<Rightarrow> bool) \<Rightarrow> timestamp \<Rightarrow> sightings \<Rightarrow> (timestamp \<times> sighting) list
   \<Rightarrow> timestamp \<times> sightings \<times> sighting list"
where
  "await_sighting found now seen [] = (now, seen, [])"
| "await_sighting found now seen ((t, s) # raced) =
     (if found now seen then (now, seen, s # map snd raced)
      else await_sighting found t (remember t seen s) raced)"

definition attributed ::
  "timestamp \<Rightarrow> (u64 \<times> u64) option \<Rightarrow> storyline_id \<Rightarrow> sightings \<Rightarrow> file_event \<Rightarrow> riggs_event"
where
  "attributed now meta fresh seen fe =
     File (case attribution now meta fresh seen (fe_path fe) (fe_action fe) of
             None \<Rightarrow> fe | Some ctx \<Rightarrow> fe\<lparr>fe_context := ctx\<rparr>)"

definition attribute_step :: "timestamp \<Rightarrow> attributor \<Rightarrow> file_input \<Rightarrow> attributor" where
  "attribute_step now a i =
     (let seen = foldl (remember now) (at_seen a) (at_pending a)
      in case i of
           Sighted s \<Rightarrow> a\<lparr>at_seen := remember now seen s, at_pending := []\<rparr>
         | PruneTick \<Rightarrow>
             a\<lparr>at_seen := hm_retain (\<lambda>_ (_, seen_at). now - seen_at < ATTRIBUTION_WINDOW) seen, at_pending := []\<rparr>
         | Inotify meta is_dir fresh raced ev \<Rightarrow>
             (case ev of
                File fe \<Rightarrow>
                  (let found = (\<lambda>t seen. attribution t meta fresh seen (fe_path fe) (fe_action fe) \<noteq> None);
                       (now', seen', rest) =
                         (if fe_action fe = Create \<and> \<not> is_dir then await_sighting found now seen raced
                          else (now, seen, map snd raced))
                   in \<lparr>at_seen = seen', at_pending = rest,
                       at_sent = at_sent a @ [attributed now' meta fresh seen' fe]\<rparr>)
              | _ \<Rightarrow> \<lparr>at_seen = seen, at_pending = map snd raced, at_sent = at_sent a @ [ev]\<rparr>))"

section \<open>The records of fanotify\<close>

text \<open>
  One event record with what the reader finds out about it: \<open>fm_link\<close> is the link of the descriptor
  in \<^verbatim>\<open>/proc\<close>, \<open>fm_stat\<close> link count, device and inode of the file, and \<open>fm_context\<close> the context of the
  pid, when it could be read.
\<close>

record fan_record =
  fm_known_version :: bool
  fm_overflow :: bool
  fm_has_fd :: bool
  fm_pid :: u32
  fm_open :: bool
  fm_close_write :: bool
  fm_link :: "string option"
  fm_stat :: "(nat \<times> u64 \<times> u64) option"
  fm_context :: "process_context option"

datatype fan_outcome = StopReading | Ignored | Reported sighting "file_action list" string

definition unknown_process :: "u32 \<Rightarrow> storyline_id \<Rightarrow> process_context" where
  "unknown_process pid fresh = process_context_new pid 0 ''unknown'' ''unknown'' [] ''unknown'' fresh"

text \<open>The path shown for a file: the watched root as configured, and the rest of the real path.\<close>

definition shown_path :: "string \<Rightarrow> string \<Rightarrow> string \<Rightarrow> nat \<Rightarrow> string" where
  "shown_path base shown link nlink =
     (let real = (if nlink = 0 then (case strip_suffix link '' (deleted)'' of Some r \<Rightarrow> r | None \<Rightarrow> link) else link)
      in path_join shown (path_strip_prefix real base))"

definition read_record :: "u32 \<Rightarrow> (string \<times> string) list \<Rightarrow> storyline_id \<Rightarrow> fan_record \<Rightarrow> fan_outcome" where
  "read_record own_pid roots fresh m =
     (if \<not> fm_known_version m then StopReading
      else if fm_overflow m \<or> \<not> fm_has_fd m \<or> fm_pid m = own_pid then Ignored
      else case fm_link m of
        None \<Rightarrow> Ignored
      | Some link \<Rightarrow>
          (case List.find (\<lambda>(base, _). path_starts_with link base) roots of
             None \<Rightarrow> Ignored
           | Some (base, shown) \<Rightarrow>
               (case fm_stat m of
                  None \<Rightarrow> Ignored
                | Some (nlink, dev, ino) \<Rightarrow>
                    let path = shown_path base shown link nlink;
                        ctx = (case fm_context m of Some c \<Rightarrow> c | None \<Rightarrow> unknown_process (fm_pid m) fresh);
                        opened = fm_open m \<and> list_ex (path_starts_with path) OPEN_DIRS
                    in Reported \<lparr>sg_inode = Inode dev ino, sg_path = Path path, sg_ctx = ctx\<rparr>
                         ((if opened then [Open] else []) @ (if fm_close_write m then [Modify] else [])) path)))"

text \<open>
  \<^verbatim>\<open>read_events\<close> over the records of the reads, until one has an unknown format; the sightings and
  the events it sends. \<open>mint\<close> gives id and time of the n-th event.
\<close>

fun read_events ::
  "u32 \<Rightarrow> (string \<times> string) list \<Rightarrow> (nat \<Rightarrow> event_id \<times> timestamp) \<Rightarrow> (storyline_id \<times> fan_record) list
   \<Rightarrow> sighting list \<times> riggs_event list \<Rightarrow> sighting list \<times> riggs_event list"
where
  "read_events own_pid roots mint [] out = out"
| "read_events own_pid roots mint ((fresh, m) # ms) (ss, evs) =
     (case read_record own_pid roots fresh m of
        StopReading \<Rightarrow> (ss, evs)
      | Ignored \<Rightarrow> read_events own_pid roots mint ms (ss, evs)
      | Reported s actions path \<Rightarrow>
          read_events own_pid roots mint ms
            (ss @ [s],
             foldl (\<lambda>out act. out @ [new_file (fst (mint (length out))) (snd (mint (length out))) act (sg_ctx s) path None])
               evs actions))"

section \<open>Attribution is backed by a sighting of the same file\<close>

text \<open>
  Every remembered entry stems from a sighting in the history \<open>h\<close>, under one of its two keys, at the
  time it was remembered.
\<close>

definition backed_by :: "(timestamp \<times> sighting) set \<Rightarrow> key \<Rightarrow> process_context \<times> timestamp \<Rightarrow> bool" where
  "backed_by h k v \<longleftrightarrow> (\<exists>s. (snd v, s) \<in> h \<and> sg_ctx s = fst v \<and> (k = sg_inode s \<or> k = sg_path s))"

definition seen_backed :: "(timestamp \<times> sighting) set \<Rightarrow> sightings \<Rightarrow> bool" where
  "seen_backed h seen \<longleftrightarrow> (\<forall>k v. hm_get seen k = Some v \<longrightarrow> backed_by h k v)"

lemma seen_backedD: "seen_backed h seen \<Longrightarrow> hm_get seen k = Some v \<Longrightarrow> backed_by h k v"
  unfolding seen_backed_def by blast

lemma seen_backed_mono: "seen_backed h seen \<Longrightarrow> h \<subseteq> h' \<Longrightarrow> seen_backed h' seen"
  by (fastforce simp: seen_backed_def backed_by_def)

lemma remember_backed:
  assumes "hm_wf seen \<and> seen_backed h seen" and "(now, s) \<in> h"
  shows "hm_wf (remember now seen s) \<and> seen_backed h (remember now seen s)"
  using assms by (auto simp: seen_backed_def remember_def hm_get_insert backed_by_def hm_wf_insert split: if_splits)

lemma foldl_remember_backed:
  assumes "hm_wf seen \<and> seen_backed h seen" and "(\<lambda>s. (now, s)) ` set ss \<subseteq> h"
  shows "hm_wf (foldl (remember now) seen ss) \<and> seen_backed h (foldl (remember now) seen ss)"
  using assms by (induction ss arbitrary: seen) (auto intro: remember_backed [THEN conjunct1] remember_backed [THEN conjunct2])

lemma await_sighting_backed:
  assumes "await_sighting found now seen raced = (now', seen', rest)"
    and "hm_wf seen \<and> seen_backed h seen" and "set raced \<subseteq> h"
  shows "hm_wf seen' \<and> seen_backed h seen' \<and> now' \<in> insert now (fst ` set raced) \<and> set rest \<subseteq> snd ` set raced"
  using assms
proof (induction found now seen raced rule: await_sighting.induct)
  case (2 found now seen t s raced)
  then show ?case using remember_backed [of seen h t s] by (auto split: if_splits)
qed auto

text \<open>The sightings that have arrived by the end of a step, with the time they were taken.\<close>

definition noted :: "timestamp \<Rightarrow> attributor \<Rightarrow> file_input \<Rightarrow> (timestamp \<times> sighting) set" where
  "noted now a i =
     (\<lambda>s. (now, s)) ` set (at_pending a) \<union>
     (case i of Sighted s \<Rightarrow> {(now, s)} | Inotify _ _ _ raced _ \<Rightarrow> set raced | PruneTick \<Rightarrow> {})"

text \<open>What the task can reach, with the sightings that arrived on the way.\<close>

inductive attributing :: "attributor \<Rightarrow> (timestamp \<times> sighting) set \<Rightarrow> bool" where
  started: "attributing \<lparr>at_seen = [], at_pending = [], at_sent = []\<rparr> {}"
| step: "attributing a h \<Longrightarrow> attributing (attribute_step now a i) (h \<union> noted now a i)"

definition attributor_inv :: "attributor \<Rightarrow> (timestamp \<times> sighting) set \<Rightarrow> bool" where
  "attributor_inv a h \<longleftrightarrow> hm_wf (at_seen a) \<and> seen_backed h (at_seen a) \<and> set (at_pending a) \<subseteq> snd ` h"

lemma pending_remembered:
  assumes "attributor_inv a h"
  shows "hm_wf (foldl (remember now) (at_seen a) (at_pending a))
    \<and> seen_backed (h \<union> noted now a i) (foldl (remember now) (at_seen a) (at_pending a))"
  using assms
  by (intro foldl_remember_backed) (auto simp: attributor_inv_def noted_def intro: seen_backed_mono)

lemma seen_backed_retain:
  "hm_wf seen \<and> seen_backed h seen \<Longrightarrow> hm_wf (hm_retain p seen) \<and> seen_backed h (hm_retain p seen)"
  by (auto simp: seen_backed_def hm_get_retain hm_wf_retain split: option.splits if_splits)

text \<open>The state after an inotify event on a file, and the clock at which the file was looked up.\<close>

lemma inotify_step:
  assumes "attributor_inv a h" and i: "i = Inotify meta is_dir fresh raced (File fe)"
  obtains now' seen' where "attributor_inv (attribute_step now a i) (h \<union> noted now a i)"
    and "at_sent (attribute_step now a i) = at_sent a @ [attributed now' meta fresh seen' fe]"
    and "hm_wf seen' \<and> seen_backed (h \<union> noted now a i) seen'" and "now' \<in> insert now (fst ` set raced)"
proof -
  let ?seen = "foldl (remember now) (at_seen a) (at_pending a)" and ?h = "h \<union> noted now a i"
  let ?found = "\<lambda>t seen. attribution t meta fresh seen (fe_path fe) (fe_action fe) \<noteq> None"
  have raced: "set raced \<subseteq> ?h" by (auto simp: i noted_def)
  obtain now' seen' rest where aw:
    "(if fe_action fe = Create \<and> \<not> is_dir then await_sighting ?found now ?seen raced
      else (now, ?seen, map snd raced)) = (now', seen', rest)" by (metis prod_cases3)
  have inv: "hm_wf seen' \<and> seen_backed ?h seen' \<and> now' \<in> insert now (fst ` set raced) \<and> set rest \<subseteq> snd ` set raced"
    using aw await_sighting_backed [OF _ pending_remembered [OF assms(1), of now i] raced]
      pending_remembered [OF assms(1), of now i]
    by (auto split: if_splits)
  have st: "attribute_step now a i =
      \<lparr>at_seen = seen', at_pending = rest, at_sent = at_sent a @ [attributed now' meta fresh seen' fe]\<rparr>"
    unfolding attribute_step_def i Let_def file_input.case riggs_event.case aw prod.case by (rule refl)
  have "attributor_inv (attribute_step now a i) ?h"
    using inv raced unfolding st attributor_inv_def attributor.simps by blast
  with inv st that show thesis by simp
qed

lemma attribute_step_inv:
  assumes "attributor_inv a h"
  shows "attributor_inv (attribute_step now a i) (h \<union> noted now a i)"
proof (cases i)
  case (Sighted s)
  then show ?thesis
    using remember_backed [OF pending_remembered [OF assms, of now i], of now s]
    by (auto simp: attribute_step_def attributor_inv_def noted_def)
next
  case (Inotify meta is_dir fresh raced ev)
  show ?thesis
  proof (cases "\<exists>fe. ev = File fe")
    case True
    with Inotify inotify_step [OF assms] show ?thesis by blast
  next
    case False
    then have "attribute_step now a i =
        \<lparr>at_seen = foldl (remember now) (at_seen a) (at_pending a), at_pending = map snd raced, at_sent = at_sent a @ [ev]\<rparr>"
      by (cases ev) (simp_all add: attribute_step_def Inotify)
    then show ?thesis
      using pending_remembered [OF assms, of now i] by (auto simp: attributor_inv_def noted_def Inotify)
  qed
next
  case PruneTick
  then show ?thesis
    using seen_backed_retain [OF pending_remembered [OF assms, of now i]]
    by (auto simp: attribute_step_def attributor_inv_def)
qed

lemma attributing_inv: "attributing a h \<Longrightarrow> attributor_inv a h"
proof (induction rule: attributing.induct)
  case started
  then show ?case by (simp add: attributor_inv_def seen_backed_def)
next
  case (step a h now i)
  then show ?case by (intro attribute_step_inv)
qed

definition sighting_wf :: "sighting \<Rightarrow> bool" where
  "sighting_wf s \<longleftrightarrow> (\<exists>d i. sg_inode s = Inode d i) \<and> (\<exists>p. sg_path s = Path p)"


lemma read_record_sighting:
  assumes "read_record own_pid roots fresh m = Reported s acts path"
  shows "sighting_wf s" and "fm_pid m \<noteq> own_pid"
    and "sg_ctx s = (case fm_context m of Some c \<Rightarrow> c | None \<Rightarrow> unknown_process (fm_pid m) fresh)"
proof -
  from assms obtain link base shown nlink dev ino where
    "fm_pid m \<noteq> own_pid" "fm_link m = Some link"
    "List.find (\<lambda>(base, _). path_starts_with link base) roots = Some (base, shown)"
    "fm_stat m = Some (nlink, dev, ino)"
    unfolding read_record_def by (simp split: if_split_asm option.split_asm prod.split_asm)
  with assms show "sighting_wf s" and "fm_pid m \<noteq> own_pid"
    and "sg_ctx s = (case fm_context m of Some c \<Rightarrow> c | None \<Rightarrow> unknown_process (fm_pid m) fresh)"
    unfolding read_record_def sighting_wf_def Let_def by (simp_all split: if_split_asm) fastforce+
qed

text \<open>
  Every sighting that the reader of fanotify sends is well formed and never of the daemon itself,
  when the contexts it reads carry the pid they were read for.
\<close>

theorem read_events_sightings:
  assumes "\<forall>x \<in> set ms. \<forall>c. fm_context (snd x) = Some c \<longrightarrow> pc_pid c = fm_pid (snd x)"
    and "\<forall>s \<in> set ss. sighting_wf s \<and> pc_pid (sg_ctx s) \<noteq> own_pid"
  shows "\<forall>s \<in> set (fst (read_events own_pid roots mint ms (ss, evs))). sighting_wf s \<and> pc_pid (sg_ctx s) \<noteq> own_pid"
  using assms
proof (induction ms arbitrary: ss evs)
  case (Cons x ms)
  obtain fresh m where x: "x = (fresh, m)" by (cases x)
  have rest: "\<forall>x \<in> set ms. \<forall>c. fm_context (snd x) = Some c \<longrightarrow> pc_pid c = fm_pid (snd x)"
    using Cons(2) by (metis list.set_intros(2))
  show ?case
  proof (cases "read_record own_pid roots fresh m")
    case (Reported s acts path)
    have "pc_pid c = fm_pid m" if "fm_context m = Some c" for c
      using Cons(2) that x by (metis list.set_intros(1) snd_conv)
    moreover have "pc_pid (unknown_process (fm_pid m) fresh) = fm_pid m"
      by (simp add: unknown_process_def process_context_new_def)
    ultimately have "pc_pid (sg_ctx s) = fm_pid m"
      unfolding read_record_sighting(3) [OF Reported] by (cases "fm_context m") simp_all
    with Cons(3) read_record_sighting(1,2) [OF Reported]
    have "\<forall>s \<in> set (ss @ [s]). sighting_wf s \<and> pc_pid (sg_ctx s) \<noteq> own_pid" by simp
    from Cons(1) [OF rest this] show ?thesis by (simp add: Reported x)
  next
    case Ignored
    then show ?thesis using Cons(1) [OF rest Cons(3)] by (simp add: x)
  next
    case StopReading
    then show ?thesis using Cons(3) by (simp add: x)
  qed
qed simp

lemma await_sighting_found: "found now seen \<Longrightarrow> await_sighting found now seen raced = (now, seen, map snd raced)"
  by (cases raced) auto

text \<open>
  Conversely a sighting attributes the file it saw: an event on the same inode within two seconds,
  under whatever name the file has by then, carries the process of the sighting.
\<close>

theorem sighted_process_named:
  assumes "sighting_wf s" and "sg_inode s = Inode d n" and "now - t < ATTRIBUTION_WINDOW"
    and "fe_action fe \<noteq> Delete"
  shows "at_sent (attribute_step now (attribute_step t a (Sighted s)) (Inotify (Some (d, n)) is_dir fresh raced (File fe)))
           = at_sent a @ [File (fe\<lparr>fe_context := (sg_ctx s)\<lparr>pc_storyline_id := fresh\<rparr>\<rparr>)]"
proof -
  let ?seen = "at_seen (attribute_step t a (Sighted s))"
  have seen: "hm_get ?seen (Inode d n) = Some (sg_ctx s, t)"
    using assms(1,2) by (auto simp: attribute_step_def remember_def hm_get_insert sighting_wf_def)
  have found: "attribution now (Some (d, n)) fresh ?seen (fe_path fe) (fe_action fe)
      = Some ((sg_ctx s)\<lparr>pc_storyline_id := fresh\<rparr>)"
    using assms(3,4) by (simp add: attribution_def seen)
  have idle: "at_pending (attribute_step t a (Sighted s)) = []" "at_sent (attribute_step t a (Sighted s)) = at_sent a"
    by (simp_all add: attribute_step_def)
  have "await_sighting (\<lambda>t seen. attribution t (Some (d, n)) fresh seen (fe_path fe) (fe_action fe) \<noteq> None) now ?seen raced
      = (now, ?seen, map snd raced)" by (rule await_sighting_found) (simp add: found)
  then show ?thesis
    unfolding attribute_step_def [of now] idle foldl.simps Let_def file_input.case riggs_event.case
    by (simp only: if_cancel prod.case attributor.simps attributed_def found option.case)
qed

section \<open>Concrete runs\<close>

definition crontab_write :: sighting where
  "crontab_write = \<lparr>sg_inode = Inode 8 42, sg_path = Path ''/var/spool/cron/tmp.X'',
     sg_ctx = process_context_new 4242 1 ''crontab'' ''/usr/bin/crontab'' ''crontab -'' ''1000'' (StorylineId 3)\<rparr>"

definition renamed_crontab :: file_event where
  "renamed_crontab = \<lparr>fe_event_id = EventId 1, fe_timestamp = 0, fe_context = unknown_process 0 (StorylineId 9),
     fe_action = Create, fe_path = ''/var/spool/cron/dev'', fe_hash = None, fe_fd = None\<rparr>"

definition watching :: attributor where
  "watching = attribute_step 0 \<lparr>at_seen = [], at_pending = [], at_sent = []\<rparr> (Sighted crontab_write)"


theorem sighted_process_named_witness:
  "at_sent (attribute_step 5 watching (Inotify (Some (8, 42)) False (StorylineId 7) [] (File renamed_crontab)))
     = [File (renamed_crontab\<lparr>fe_context := (sg_ctx crontab_write)\<lparr>pc_storyline_id := StorylineId 7\<rparr>\<rparr>)]"
  using sighted_process_named [of crontab_write 8 42 5 0 renamed_crontab "\<lparr>at_seen = [], at_pending = [], at_sent = []\<rparr>" False "StorylineId 7" "[]"]
  by (simp add: sighting_wf_def crontab_write_def renamed_crontab_def ATTRIBUTION_WINDOW_def seconds_def watching_def)

lemma read_events_sample:
  "fst (read_events 99 [(''/var/home'', ''/home'')] (\<lambda>n. (EventId (of_nat n), 0))
     [(StorylineId 1, \<lparr>fm_known_version = True, fm_overflow = False, fm_has_fd = True, fm_pid = 7, fm_open = True,
        fm_close_write = False, fm_link = Some ''/var/home/a'', fm_stat = Some (1, 8, 5), fm_context = None\<rparr>)] ([], []))
   = [\<lparr>sg_inode = Inode 8 5, sg_path = Path ''/home/a'', sg_ctx = unknown_process 7 (StorylineId 1)\<rparr>]"
  by code_simp

end
