(* ===== verification/Linux_Sensor.thy ===== *)
theory Linux_Sensor
  imports Executor Text_Ops "HOL-Library.Option_ord" "HOL-Library.Product_Lexorder"
begin

text \<open>
  The Linux platform, \<^verbatim>\<open>riggs-platform-linux/src/sensor.rs\<close>: process contexts from \<^verbatim>\<open>/proc\<close>, the
  translation of inotify events, the polling of the process table, the signals and the network
  containment of the response actions. The texts of \<^verbatim>\<open>/proc\<close>, the process table of each poll and
  the outcomes of \<^verbatim>\<open>kill\<close> and \<^verbatim>\<open>nft\<close> are arguments.
\<close>

section \<open>Process contexts\<close>

record proc_info =
  pi_parent :: "u32 option"
  pi_name :: string
  pi_exe :: "string option"
  pi_cmd :: "string list"
  pi_user :: "string option"
  pi_start_time :: nat

definition build_process_context :: "proc_info \<Rightarrow> u32 \<Rightarrow> storyline_id \<Rightarrow> process_context" where
  "build_process_context p pid fresh =
     process_context_new pid (case pi_parent p of Some pp \<Rightarrow> pp | None \<Rightarrow> 0) (pi_name p)
       (case pi_exe p of Some e \<Rightarrow> e | None \<Rightarrow> []) (join '' '' (pi_cmd p))
       (case pi_user p of Some u \<Rightarrow> u | None \<Rightarrow> ''unknown'') fresh"

text \<open>The entries of \<^verbatim>\<open>/proc/<pid>\<close>; a file that cannot be read is \<open>None\<close>.\<close>

record proc_entry =
  px_comm :: "string option"
  px_exe :: "string option"
  px_cmdline :: "string option"
  px_status :: "string option"

definition or_empty :: "string option \<Rightarrow> string" where
  "or_empty s = (case s of Some t \<Rightarrow> t | None \<Rightarrow> [])"

text \<open>One line of the status: parent pid and user id.\<close>

definition status_line :: "u32 \<times> string \<Rightarrow> string \<Rightarrow> u32 \<times> string" where
  "status_line acc line =
     (case strip_prefix line (''PPid:'' @ [CHR 0x09]) of
        Some v \<Rightarrow> (case parse_unsigned (2 ^ 32) (trim v) of Some n \<Rightarrow> of_nat n | None \<Rightarrow> 0, snd acc)
      | None \<Rightarrow>
          (case strip_prefix line (''Uid:'' @ [CHR 0x09]) of
             Some v \<Rightarrow> (fst acc, case first_token v of Some t \<Rightarrow> t | None \<Rightarrow> ''unknown'')
           | None \<Rightarrow> acc))"

definition proc_context :: "u32 \<Rightarrow> storyline_id \<Rightarrow> proc_entry option \<Rightarrow> process_context option" where
  "proc_context pid fresh entry =
     (case entry of None \<Rightarrow> None
      | Some x \<Rightarrow>
          let (ppid, uid) = foldl status_line (0, ''unknown'') (str_lines (or_empty (px_status x)))
          in Some (process_context_new pid ppid (trim (or_empty (px_comm x))) (or_empty (px_exe x))
                (trim (replace_char (CHR 0x00) (CHR '' '') (or_empty (px_cmdline x)))) uid fresh))"

section \<open>Events of inotify\<close>

datatype notify_kind = NotifyCreate | NotifyModifyData | NotifyModifyOther | NotifyRemove | NotifyOther

text \<open>
  \<open>covered\<close> tells whether fanotify marked the mount of a path: there it reports each finished write
  itself, with the writer.
\<close>

fun notify_action :: "(string \<Rightarrow> bool) \<Rightarrow> notify_kind \<Rightarrow> string list \<Rightarrow> file_action option" where
  "notify_action covered NotifyCreate paths = Some Create"
| "notify_action covered NotifyModifyData paths = (if list_all covered paths then None else Some Modify)"
| "notify_action covered NotifyModifyOther paths = Some Modify"
| "notify_action covered NotifyRemove paths = Some Delete"
| "notify_action covered NotifyOther paths = None"

definition unattributed :: "storyline_id \<Rightarrow> process_context" where
  "unattributed fresh = process_context_new 0 0 ''unknown'' ''unknown'' [] ''unknown'' fresh"

definition notify_events ::
  "(nat \<Rightarrow> event_id \<times> timestamp \<times> storyline_id) \<Rightarrow> (string \<Rightarrow> bool) \<Rightarrow> notify_kind \<Rightarrow> string list \<Rightarrow> riggs_event list"
where
  "notify_events mint covered kind paths =
     (case notify_action covered kind paths of
        None \<Rightarrow> []
      | Some act \<Rightarrow>
          map (\<lambda>(n, p). case mint n of (eid, now, fresh) \<Rightarrow> new_file eid now act (unattributed fresh) p None)
            (zip [0..<length paths] paths))"

section \<open>Polling the process table\<close>

text \<open>The process table of one poll, and the pids remembered between polls.\<close>

type_synonym proc_table = "(u32, proc_info) hmap"

record poll_state =
  po_known :: "u32 list"
  po_held :: "u32 list"

definition poll_init :: "proc_table \<Rightarrow> poll_state" where
  "poll_init procs = \<lparr>po_known = map fst procs, po_held = []\<rparr>"

text \<open>What is drawn for the report on a pid: event id, time, and the ids of its and its parent's storyline.\<close>

type_synonym draw = "u32 \<Rightarrow> event_id \<times> timestamp \<times> storyline_id \<times> storyline_id"

text \<open>
  One new pid: a process whose command line reads empty is held back once, because it may have been
  caught in the middle of its exec.
\<close>

definition report_new :: "draw \<Rightarrow> proc_table \<Rightarrow> u32 list \<times> riggs_event list \<Rightarrow> u32 \<Rightarrow> u32 list \<times> riggs_event list" where
  "report_new draw procs st pid =
     (case hm_get procs pid of
        None \<Rightarrow> st
      | Some p \<Rightarrow>
          (let (held, evs) = st; (eid, now, fresh, parent_fresh) = draw pid; ctx = build_process_context p pid fresh
           in if pc_cmdline ctx = [] \<and> pid \<notin> set held then (pid # held, evs)
              else
                let parent = (case pi_parent p of None \<Rightarrow> None
                              | Some pp \<Rightarrow> map_option (\<lambda>q. build_process_context q pp parent_fresh) (hm_get procs pp))
                in (removeAll pid held, evs @ [new_process eid now Exec ctx parent])))"

definition exit_event :: "draw \<Rightarrow> u32 \<Rightarrow> riggs_event" where
  "exit_event draw pid =
     (let (eid, now, fresh, _) = draw pid
      in new_process eid now Exit (process_context_new pid 0 ''exited'' [] [] ''unknown'' fresh) None)"

definition new_pids :: "proc_table \<Rightarrow> poll_state \<Rightarrow> u32 list" where
  "new_pids procs st =
     sort_key (\<lambda>pid. (map_option pi_start_time (hm_get procs pid), pid))
       (filter (\<lambda>pid. pid \<notin> set (po_known st)) (map fst procs))"

definition poll_step :: "draw \<Rightarrow> proc_table \<Rightarrow> poll_state \<Rightarrow> poll_state \<times> riggs_event list" where
  "poll_step draw procs st =
     (let current = map fst procs;
          (held, execs) = foldl (report_new draw procs) (po_held st, []) (new_pids procs st);
          exits = map (exit_event draw) (filter (\<lambda>pid. pid \<notin> set current) (po_known st));
          held' = filter (\<lambda>pid. pid \<in> set current) held
      in (\<lparr>po_known = filter (\<lambda>pid. pid \<notin> set held') current, po_held = held'\<rparr>, execs @ exits))"

text \<open>The loop over a sequence of polls.\<close>

fun poll_run :: "(draw \<times> proc_table) list \<Rightarrow> poll_state \<Rightarrow> poll_state \<times> riggs_event list" where
  "poll_run [] st = (st, [])"
| "poll_run ((draw, procs) # polls) st =
     (let (st1, evs) = poll_step draw procs st; (st2, rest) = poll_run polls st1 in (st2, evs @ rest))"

section \<open>Signals and containment\<close>

datatype signal = SIGKILL | SIGSTOP | SIGCONT

text \<open>The signals the kernel delivered, and the scripts \<^verbatim>\<open>nft\<close> loaded and tables it deleted.\<close>

record linux_host =
  lh_signals :: "(u32 \<times> signal) list"
  lh_nft :: "string list"
  lh_deleted :: "string list"

text \<open>
  The daemon's own pid, and how the next call of \<^verbatim>\<open>kill\<close> or \<^verbatim>\<open>nft\<close> ends: an error of the system, and
  for \<^verbatim>\<open>nft\<close> what a failing run writes to its error stream.
\<close>

record linux_env =
  le_own_pid :: u32
  le_kill_fails :: "u32 \<Rightarrow> signal \<Rightarrow> linux_host \<Rightarrow> string option"
  le_nft_spawn_fails :: "linux_host \<Rightarrow> string option"
  le_nft_stderr :: "linux_host \<Rightarrow> string option"

fun signal_number :: "signal \<Rightarrow> string" where
  "signal_number SIGKILL = ''9''"
| "signal_number SIGCONT = ''18''"
| "signal_number SIGSTOP = ''19''"

definition send_signal :: "linux_env \<Rightarrow> u32 \<Rightarrow> signal \<Rightarrow> linux_host platform_call" where
  "send_signal env pid sig h =
     (if pid \<le> 1 \<or> pid = le_own_pid env then
        (h, Inl (Platform (''refusing to signal pid '' @ show_nat (unat pid) @
           '': pid 0 signals the daemon'' @ [CHR 0x27] @ ''s own process group, pid 1 is init, and the daemon never signals itself'')))
      else case le_kill_fails env pid sig h of
        Some e \<Rightarrow> (h, Inl (Platform (''kill('' @ show_nat (unat pid) @ '', '' @ signal_number sig @ '') failed: '' @ e)))
      | None \<Rightarrow> (h\<lparr>lh_signals := lh_signals h @ [(pid, sig)]\<rparr>, Inr ()))"

definition contain_rules :: "ip_addr list \<Rightarrow> string" where
  "contain_rules ips =
     (let nl = [CHR 0x0A]
      in ''flush ruleset'' @ nl @ ''table inet riggs_containment {'' @ nl @ ''  chain input {'' @ nl @
         ''    type filter hook input priority 0; policy drop;'' @ nl @
         ''    ct state established,related accept'' @ nl @ ''    iif lo accept'' @ nl @
         concat (map (\<lambda>ip. ''    ip saddr '' @ show_ip ip @ '' accept'' @ nl @ ''    ip daddr '' @ show_ip ip @ '' accept'' @ nl) ips) @
         ''  }'' @ nl @ ''  chain output {'' @ nl @
         ''    type filter hook output priority 0; policy drop;'' @ nl @
         ''    ct state established,related accept'' @ nl @ ''    oif lo accept'' @ nl @
         concat (map (\<lambda>ip. ''    ip daddr '' @ show_ip ip @ '' accept'' @ nl @ ''    ip saddr '' @ show_ip ip @ '' accept'' @ nl) ips) @
         ''  }'' @ nl @ ''}'' @ nl)"

definition nft_call :: "linux_env \<Rightarrow> (linux_host \<Rightarrow> linux_host) \<Rightarrow> linux_host platform_call" where
  "nft_call env effect h =
     (case le_nft_spawn_fails env h of
        Some e \<Rightarrow> (h, Inl (Platform (''nft command failed: '' @ e)))
      | None \<Rightarrow>
          (case le_nft_stderr env h of
             Some e \<Rightarrow> (h, Inl (Platform (''nft failed: '' @ e)))
           | None \<Rightarrow> (effect h, Inr ())))"

definition linux_contain :: "linux_env \<Rightarrow> ip_addr list \<Rightarrow> linux_host platform_call" where
  "linux_contain env ips = nft_call env (\<lambda>h. h\<lparr>lh_nft := lh_nft h @ [contain_rules ips]\<rparr>)"

definition linux_release :: "linux_env \<Rightarrow> linux_host platform_call" where
  "linux_release env = nft_call env (\<lambda>h. h\<lparr>lh_deleted := lh_deleted h @ [''riggs_containment'']\<rparr>)"

text \<open>\<open>listing\<close> is the output of \<^verbatim>\<open>nft list tables\<close>, or the error of running it.\<close>

definition linux_is_contained :: "string + string \<Rightarrow> riggs_error + bool" where
  "linux_is_contained listing =
     (case listing of Inl e \<Rightarrow> Inl (Platform (''nft command failed: '' @ e))
      | Inr out \<Rightarrow> Inr (str_contains out ''riggs_containment''))"

definition linux_control :: "linux_env \<Rightarrow> linux_host platform_control" where
  "linux_control env =
     \<lparr>pl_kill_process = (\<lambda>pid. send_signal env pid SIGKILL),
      pl_suspend_process = (\<lambda>pid. send_signal env pid SIGSTOP),
      pl_contain = linux_contain env, pl_release = linux_release env\<rparr>"

section \<open>Every process is reported once\<close>

definition actions_of :: "u32 \<Rightarrow> riggs_event list \<Rightarrow> process_action list" where
  "actions_of pid evs =
     List.map_filter (\<lambda>ev. case ev of Process e \<Rightarrow> if pc_pid (pe_context e) = pid then Some (pe_action e) else None
                                    | _ \<Rightarrow> None) evs"

lemma actions_of_simps [simp]:
  "actions_of pid [] = []"
  "actions_of pid (evs @ evs') = actions_of pid evs @ actions_of pid evs'"
  by (simp_all add: actions_of_def List.map_filter_def)

lemma actions_of_new_process [simp]:
  "actions_of pid [new_process eid now act ctx parent] = (if pc_pid ctx = pid then [act] else [])"
  by (simp add: actions_of_def List.map_filter_def new_process_def)

lemma pid_build_process_context [simp]: "pc_pid (build_process_context p pid fresh) = pid"
  by (simp add: build_process_context_def process_context_new_def)

text \<open>The command line of the process reads empty.\<close>

definition reads_empty :: "proc_table \<Rightarrow> u32 \<Rightarrow> bool" where
  "reads_empty procs pid = (\<exists>p. hm_get procs pid = Some p \<and> join '' '' (pi_cmd p) = [])"

lemma cmdline_build [simp]: "pc_cmdline (build_process_context p pid fresh) = join '' '' (pi_cmd p)"
  by (simp add: build_process_context_def process_context_new_def)

lemma report_new_known:
  assumes "pid \<in> fst ` set procs"
  shows "actions_of q (snd (report_new draw procs (held, evs) pid)) =
           actions_of q evs @ (if q = pid \<and> (\<not> reads_empty procs pid \<or> pid \<in> set held) then [Exec] else [])"
    and "set (fst (report_new draw procs (held, evs) pid)) =
           (if reads_empty procs pid \<and> pid \<notin> set held then insert pid (set held) else set held - {pid})"
proof -
  obtain p where p: "hm_get procs pid = Some p"
    using assms hm_get_None_iff [of procs pid] by (cases "hm_get procs pid") auto
  obtain eid now fresh pf where d: "draw pid = (eid, now, fresh, pf)" by (metis prod_cases4)
  show "actions_of q (snd (report_new draw procs (held, evs) pid)) =
           actions_of q evs @ (if q = pid \<and> (\<not> reads_empty procs pid \<or> pid \<in> set held) then [Exec] else [])"
    and "set (fst (report_new draw procs (held, evs) pid)) =
           (if reads_empty procs pid \<and> pid \<notin> set held then insert pid (set held) else set held - {pid})"
    by (auto simp: report_new_def p d reads_empty_def Let_def)
qed

lemma report_new_foldl:
  assumes "set pids \<subseteq> fst ` set procs" and "distinct pids"
    and "foldl (report_new draw procs) (held, evs) pids = (held', evs')"
  shows "(\<forall>q. actions_of q evs' = actions_of q evs @
            (if q \<in> set pids \<and> (\<not> reads_empty procs q \<or> q \<in> set held) then [Exec] else []))
    \<and> set held' = {q. if q \<in> set pids then reads_empty procs q \<and> q \<notin> set held else q \<in> set held}"
  using assms
proof (induction pids arbitrary: held evs)
  case (Cons pid pids)
  obtain held1 evs1 where st: "report_new draw procs (held, evs) pid = (held1, evs1)"
    by (cases "report_new draw procs (held, evs) pid")
  have pid: "pid \<in> fst ` set procs" using Cons by simp
  have "\<forall>q. actions_of q evs1 = actions_of q evs @
      (if q = pid \<and> (\<not> reads_empty procs pid \<or> pid \<in> set held) then [Exec] else [])"
    using report_new_known(1) [OF pid, of _ draw held evs] by (simp add: st)
  moreover have "set held1 = (if reads_empty procs pid \<and> pid \<notin> set held then insert pid (set held) else set held - {pid})"
    using report_new_known(2) [OF pid, of draw held evs] by (simp add: st)
  ultimately show ?case using Cons(1) [of held1 evs1] Cons(2,3,4) by (auto simp: st)
qed auto

lemma new_pids_set: "set (new_pids procs st) = fst ` set procs - set (po_known st)"
  by (auto simp: new_pids_def)

lemma new_pids_distinct: "hm_wf procs \<Longrightarrow> distinct (new_pids procs st)"
  by (simp add: new_pids_def hm_wf_def)

lemma actions_of_exits:
  "distinct pids \<Longrightarrow> actions_of q (map (exit_event draw) pids) = (if q \<in> set pids then [Exit] else [])"
proof (induction pids)
  case (Cons pid pids)
  have "actions_of q [exit_event draw pid] = (if pid = q then [Exit] else [])"
    by (cases "draw pid") (simp add: exit_event_def process_context_new_def)
  then show ?case using Cons actions_of_simps(2) [of q "[exit_event draw pid]"] by auto
qed simp

definition poll_wf :: "poll_state \<Rightarrow> bool" where
  "poll_wf st \<longleftrightarrow> distinct (po_known st) \<and> set (po_known st) \<inter> set (po_held st) = {}"

lemma poll_step_result:
  assumes "poll_wf st" and "hm_wf procs" and "poll_step draw procs st = (st', evs)"
  shows "poll_wf st'"
    and "set (po_held st') = {q \<in> fst ` set procs. q \<notin> set (po_known st) \<and> reads_empty procs q \<and> q \<notin> set (po_held st)}"
    and "set (po_known st') = fst ` set procs - set (po_held st')"
    and "actions_of q evs =
      (if q \<in> set (po_known st) then (if q \<in> fst ` set procs then [] else [Exit])
       else if q \<in> set (po_known st') then [Exec] else [])"
proof -
  obtain held execs where fold: "foldl (report_new draw procs) (po_held st, []) (new_pids procs st) = (held, execs)"
    by (cases "foldl (report_new draw procs) (po_held st, []) (new_pids procs st)")
  note new = report_new_foldl [OF _ new_pids_distinct [OF assms(2)] fold, unfolded new_pids_set]
  have st': "st' = \<lparr>po_known = filter (\<lambda>pid. pid \<notin> set (po_held st')) (map fst procs),
      po_held = filter (\<lambda>pid. pid \<in> fst ` set procs) held\<rparr>"
    and evs: "evs = execs @ map (exit_event draw) (filter (\<lambda>pid. pid \<notin> fst ` set procs) (po_known st))"
    using assms(3) by (auto simp: poll_step_def fold Let_def)
  show held: "set (po_held st') = {q \<in> fst ` set procs. q \<notin> set (po_known st) \<and> reads_empty procs q \<and> q \<notin> set (po_held st)}"
    using new assms(1) by (subst st') (auto simp: poll_wf_def)
  show known: "set (po_known st') = fst ` set procs - set (po_held st')"
    by (subst st') auto
  show "poll_wf st'"
    using assms(2) known by (subst (asm) st', subst st') (auto simp: poll_wf_def hm_wf_def)
  show "actions_of q evs =
      (if q \<in> set (po_known st) then (if q \<in> fst ` set procs then [] else [Exit])
       else if q \<in> set (po_known st') then [Exec] else [])"
    using new assms(1) by (auto simp: evs actions_of_exits known held poll_wf_def)
qed

text \<open>Reports on one pid: never two starts or two exits in a row.\<close>

fun alternates :: "bool \<Rightarrow> process_action list \<Rightarrow> bool" where
  "alternates running [] = True"
| "alternates running (act # acts) =
     (case act of Exec \<Rightarrow> \<not> running \<and> alternates True acts
      | Exit \<Rightarrow> running \<and> alternates False acts | Fork \<Rightarrow> False)"

fun reported_running :: "bool \<Rightarrow> process_action list \<Rightarrow> bool" where
  "reported_running running [] = running"
| "reported_running running (act # acts) = reported_running (act = Exec) acts"

lemma alternates_append:
  "alternates b (as @ bs) \<longleftrightarrow> alternates b as \<and> alternates (reported_running b as) bs"
  by (induction b as rule: alternates.induct) (auto split: process_action.splits)

lemma reported_running_append: "reported_running b (as @ bs) = reported_running (reported_running b as) bs"
  by (induction b as rule: reported_running.induct) auto

lemma poll_step_alternates:
  assumes "poll_wf st" and "hm_wf procs" and "poll_step draw procs st = (st', evs)"
  shows "alternates (q \<in> set (po_known st)) (actions_of q evs)"
    and "reported_running (q \<in> set (po_known st)) (actions_of q evs) = (q \<in> set (po_known st'))"
  using poll_step_result(2,3) [OF assms] poll_step_result(4) [OF assms, of q] by auto

lemma poll_run_alternates:
  assumes "poll_wf st" and "\<forall>(draw, procs) \<in> set polls. hm_wf procs" and "poll_run polls st = (st', evs)"
  shows "poll_wf st' \<and> alternates (q \<in> set (po_known st)) (actions_of q evs)
    \<and> reported_running (q \<in> set (po_known st)) (actions_of q evs) = (q \<in> set (po_known st'))"
  using assms
proof (induction polls st arbitrary: evs rule: poll_run.induct)
  case (2 draw procs polls st)
  obtain st1 evs1 where st1: "poll_step draw procs st = (st1, evs1)" by (cases "poll_step draw procs st")
  obtain rest where rest: "poll_run polls st1 = (st', rest)" "evs = evs1 @ rest"
    using 2(4) by (auto simp: st1 split: prod.splits)
  have procs: "hm_wf procs" using 2(3) by simp
  show ?case
    using 2(1) [OF st1 [symmetric] refl] 2(3) rest poll_step_result(1) [OF 2(2) procs st1]
      poll_step_alternates [OF 2(2) procs st1, of q]
    by (simp add: alternates_append reported_running_append)
qed auto

lemma poll_run_snoc:
  "poll_run (polls @ [(draw, procs)]) st =
     (let (st1, evs) = poll_run polls st; (st2, last) = poll_step draw procs st1 in (st2, evs @ last))"
  by (induction polls st rule: poll_run.induct) (simp_all add: Let_def split: prod.splits)

text \<open>
  C38: the reports on a pid alternate between start and exit, beginning with a start unless the
  process was there when the sensor began. After any number of polls a process seen by the last
  two of them has been reported as running, also one caught in the middle of its exec, and one
  missing from the last has not.
\<close>

theorem processes_reported:
  assumes "hm_wf procs\<^sub>0" and "\<forall>(draw, procs) \<in> set polls. hm_wf procs"
    and "poll_run polls (poll_init procs\<^sub>0) = (st, evs)"
  shows "alternates (pid \<in> fst ` set procs\<^sub>0) (actions_of pid evs)
    \<and> (\<forall>before d1 t1 d2 t2. polls = before @ [(d1, t1), (d2, t2)] \<and> pid \<in> fst ` set t1 \<inter> fst ` set t2 \<longrightarrow>
         reported_running (pid \<in> fst ` set procs\<^sub>0) (actions_of pid evs))
    \<and> (\<forall>before d t. polls = before @ [(d, t)] \<and> pid \<notin> fst ` set t \<longrightarrow>
         \<not> reported_running (pid \<in> fst ` set procs\<^sub>0) (actions_of pid evs))"
proof -
  have init: "poll_wf (poll_init procs\<^sub>0)" using assms(1) by (simp add: poll_wf_def poll_init_def hm_wf_def)
  have known: "set (po_known (poll_init procs\<^sub>0)) = fst ` set procs\<^sub>0" by (simp add: poll_init_def)
  note run = poll_run_alternates [OF init assms(2,3), of pid, unfolded known]
  have last: "\<exists>st'. poll_wf st' \<and> poll_step d t st' = (st, es) \<and> hm_wf t
      \<and> (\<exists>es'. poll_run before (poll_init procs\<^sub>0) = (st', es'))"
    if "polls = before @ [(d, t)]" "es = snd (poll_step d t (fst (poll_run before (poll_init procs\<^sub>0))))" for before d t es
    using that assms(2,3) poll_run_alternates [OF init, of before]
    by (cases "poll_run before (poll_init procs\<^sub>0)") (auto simp: poll_run_snoc split: prod.splits)
  have "pid \<in> set (po_known st)"
    if polls: "polls = before @ [(d1, t1), (d2, t2)]" and pid: "pid \<in> fst ` set t1 \<inter> fst ` set t2" for before d1 t1 d2 t2
  proof -
    obtain st2 es where st2: "poll_wf st2" "poll_step d2 t2 st2 = (st, es)" "hm_wf t2"
      and prev: "\<exists>es'. poll_run (before @ [(d1, t1)]) (poll_init procs\<^sub>0) = (st2, es')"
      using last [of "before @ [(d1, t1)]" d2 t2, OF _ refl] polls by auto
    obtain st1 es1 where st1: "poll_run before (poll_init procs\<^sub>0) = (st1, es1)"
      by (cases "poll_run before (poll_init procs\<^sub>0)")
    have wf: "poll_wf st1" "hm_wf t1" using poll_run_alternates [OF init _ st1, of pid] assms(2) polls by auto
    obtain es' where "poll_step d1 t1 st1 = (st2, es')" using prev by (auto simp: poll_run_snoc st1 split: prod.splits)
    from poll_step_result(3) [OF wf this] have "pid \<in> set (po_known st2) \<or> pid \<in> set (po_held st2)"
      using pid by blast
    then show ?thesis using poll_step_result(2,3) [OF st2(1) st2(3) st2(2)] pid by auto
  qed
  moreover have "pid \<notin> set (po_known st)" if "polls = before @ [(d, t)]" "pid \<notin> fst ` set t" for before d t
    using last [OF that(1) refl] that(2) poll_step_result(3) by blast
  ultimately show ?thesis using run by simp
qed

section \<open>Signals spare the system and the daemon\<close>

definition spares :: "u32 \<Rightarrow> linux_host \<Rightarrow> bool" where
  "spares own_pid h \<longleftrightarrow> (\<forall>(pid, _) \<in> set (lh_signals h). 1 < pid \<and> pid \<noteq> own_pid)"

lemma send_signal_spares: "spares (le_own_pid env) h \<Longrightarrow> spares (le_own_pid env) (fst (send_signal env pid sig h))"
  by (auto simp: send_signal_def spares_def split: option.splits)

lemma nft_call_spares:
  "spares own h \<Longrightarrow> (\<And>h. lh_signals (effect h) = lh_signals h) \<Longrightarrow> spares own (fst (nft_call env effect h))"
  by (auto simp: nft_call_def spares_def split: option.splits)

interpretation linux_platform: guarded_platform "linux_control env" "spares (le_own_pid env)" for env
  by unfold_locales
    (simp_all add: linux_control_def send_signal_spares linux_contain_def linux_release_def nft_call_spares)


section \<open>Concrete runs\<close>

definition mid_exec :: proc_info where
  "mid_exec = \<lparr>pi_parent = Some 1, pi_name = ''sh'', pi_exe = Some ''/bin/sh'', pi_cmd = [], pi_user = Some ''1000'', pi_start_time = 9\<rparr>"

definition some_draw :: draw where
  "some_draw pid = (EventId 1, 0, StorylineId 1, StorylineId 2)"

theorem processes_reported_witness:
  "reported_running False (actions_of 5 (snd (poll_run [(some_draw, [(5, mid_exec)]), (some_draw, [(5, mid_exec)])] (poll_init []))))"
proof -
  let ?polls = "[(some_draw, [(5, mid_exec)]), (some_draw, [(5, mid_exec)])]"
  obtain st evs where run: "poll_run ?polls (poll_init []) = (st, evs)" by (cases "poll_run ?polls (poll_init [])")
  have wf: "\<forall>(draw, procs) \<in> set ?polls. hm_wf procs" by (simp add: hm_wf_def)
  show ?thesis
    using processes_reported [of "[]", OF _ wf run, of 5] unfolding run by (simp add: hm_wf_def)
qed

definition sample_linux :: linux_env where
  "sample_linux = \<lparr>le_own_pid = 77, le_kill_fails = (\<lambda>_ _ _. None), le_nft_spawn_fails = (\<lambda>_. None), le_nft_stderr = (\<lambda>_. None)\<rparr>"

definition sample_supply :: action_supply where
  "sample_supply = \<lparr>as_env = calm, as_record_id = 1, as_event_id = EventId 2, as_quarantine_id = 3, as_now = 0\<rparr>"

definition sample_executor :: "linux_host response_executor" where
  "sample_executor = \<lparr>re_platform = linux_control sample_linux, re_vault_libs = sample_libs, re_vault_dir = ''/v'',
     re_snapshot_libs = snap_libs, re_snapshots = None\<rparr>"

definition idle_host :: "linux_host response_world" where
  "idle_host = \<lparr>rw_platform = \<lparr>lh_signals = [], lh_nft = [], lh_deleted = []\<rparr>, rw_fs = (\<lambda>_. None)\<rparr>"


end
