(* ===== verification/Linux_Net.thy ===== *)
theory Linux_Net
  imports Events Addresses Text_Ops
begin

text \<open>
  Outbound connections on Linux, \<^verbatim>\<open>riggs-platform-linux/src/net.rs\<close>: the socket tables of
  \<^verbatim>\<open>/proc/net\<close>, the processes that hold the sockets, and the poll that reports each connection once.
  The texts of the tables and the links under \<^verbatim>\<open>/proc/<pid>/fd\<close> are arguments. The host is little-endian,
  as every platform the agent is built for.
\<close>

section \<open>Hexadecimal fields\<close>

definition hex_value :: "char \<Rightarrow> nat option" where
  "hex_value c =
     (let n = of_char c :: nat
      in if 48 \<le> n \<and> n \<le> 57 then Some (n - 48)
         else if 65 \<le> n \<and> n \<le> 70 then Some (n - 55)
         else if 97 \<le> n \<and> n \<le> 102 then Some (n - 87) else None)"

fun hex_digits_value :: "nat \<Rightarrow> string \<Rightarrow> nat option" where
  "hex_digits_value acc [] = Some acc"
| "hex_digits_value acc (c # s) =
     (case hex_value c of None \<Rightarrow> None | Some d \<Rightarrow> hex_digits_value (acc * 16 + d) s)"

text \<open>\<^verbatim>\<open>from_str_radix(s, 16)\<close> of an unsigned type with \<open>bound\<close> values.\<close>

definition from_hex :: "nat \<Rightarrow> string \<Rightarrow> nat option" where
  "from_hex bound s =
     (let ds = (case s of c # r \<Rightarrow> if c = CHR ''+'' then r else s | [] \<Rightarrow> s)
      in if ds = [] then None
         else case hex_digits_value 0 ds of None \<Rightarrow> None | Some n \<Rightarrow> if n < bound then Some n else None)"

lemma length_trim_start: "length (trim_start s) \<le> length s"
  unfolding trim_start_def
proof (induction whitespace s rule: strip_any.induct)
  case (1 s)
  then show ?case by (subst strip_any.simps) (auto split: option.split dest: find_Some_in intro: order_trans)
qed

text \<open>\<^verbatim>\<open>split_whitespace\<close>.\<close>

function split_whitespace :: "string \<Rightarrow> string list" where
  "split_whitespace s =
     (let t = trim_start s; w = take_token t
      in if w = [] then [] else w # split_whitespace (drop (length w) t))"
  by pat_completeness auto
termination
proof (relation "measure length")
  fix s t w :: string
  assume t: "t = trim_start s" and w: "w = take_token t" and "w \<noteq> []"
  have "0 < length t" using w \<open>w \<noteq> []\<close> by auto
  moreover have "0 < length w" using \<open>w \<noteq> []\<close> by simp
  ultimately have "length t - length w < length t" by simp
  then show "(drop (length w) t, s) \<in> measure length"
    using length_trim_start [of s] by (simp add: t)
qed simp

declare split_whitespace.simps [simp del]

section \<open>The socket tables\<close>

type_synonym socket_addr = "ip_addr \<times> u16"

record net_socket =
  so_local :: socket_addr
  so_remote :: socket_addr
  so_state :: nat
  so_inode :: nat

definition TCP_LISTEN :: nat where "TCP_LISTEN = 0x0A"

fun chunks8 :: "string \<Rightarrow> string list option" where
  "chunks8 [] = Some []"
| "chunks8 (a # b # c # d # e # f # g # h # s) = map_option ((#) [a, b, c, d, e, f, g, h]) (chunks8 s)"
| "chunks8 _ = None"

fun all_some :: "'a option list \<Rightarrow> 'a list option" where
  "all_some [] = Some []"
| "all_some (x # xs) = (case x of None \<Rightarrow> None | Some a \<Rightarrow> map_option ((#) a) (all_some xs))"

text \<open>\<^verbatim>\<open>u32::to_ne_bytes\<close>.\<close>

definition ne_bytes :: "nat \<Rightarrow> nat list" where
  "ne_bytes n = [n mod 256, n div 256 mod 256, n div 65536 mod 256, n div 16777216 mod 256]"

fun from_be :: "nat \<Rightarrow> nat list \<Rightarrow> nat" where
  "from_be acc [] = acc"
| "from_be acc (b # bs) = from_be (acc * 256 + b) bs"

text \<open>\<^verbatim>\<open>IpAddr::to_canonical\<close>: an IPv4-mapped address is the IPv4 address.\<close>

fun to_canonical :: "ip_addr \<Rightarrow> ip_addr" where
  "to_canonical (V4 a) = V4 a"
| "to_canonical (V6 a) = (if unat a div 2 ^ 32 = 0xFFFF then V4 (of_nat (unat a mod 2 ^ 32)) else V6 a)"

definition parse_addr :: "string \<Rightarrow> socket_addr option" where
  "parse_addr field =
     (case split_once (CHR '':'') field of
        None \<Rightarrow> None
      | Some (hex, port) \<Rightarrow>
          (case chunks8 hex of
             None \<Rightarrow> None
           | Some cs \<Rightarrow>
               (case all_some (map (from_hex (2 ^ 32)) cs) of
                  None \<Rightarrow> None
                | Some ws \<Rightarrow>
                    let bytes = concat (map ne_bytes ws);
                        ip = (if length bytes = 4 then Some (V4 (of_nat (from_be 0 bytes)))
                              else if length bytes = 16 then Some (V6 (of_nat (from_be 0 bytes))) else None)
                    in case ip of
                         None \<Rightarrow> None
                       | Some a \<Rightarrow>
                           (case from_hex (2 ^ 16) port of
                              None \<Rightarrow> None | Some p \<Rightarrow> Some (to_canonical a, of_nat p)))))"

definition nth_opt :: "'a list \<Rightarrow> nat \<Rightarrow> 'a option" where
  "nth_opt xs i = (if i < length xs then Some (xs ! i) else None)"

definition parse_row :: "string \<Rightarrow> net_socket option" where
  "parse_row line =
     (let fields = split_whitespace line
      in case (nth_opt fields 1, nth_opt fields 2, nth_opt fields 3, nth_opt fields 9) of
           (Some l, Some r, Some st, Some ino) \<Rightarrow>
             (case (parse_addr l, parse_addr r, from_hex (2 ^ 8) st, parse_unsigned (2 ^ 64) ino) of
                (Some la, Some ra, Some s, Some i) \<Rightarrow> Some \<lparr>so_local = la, so_remote = ra, so_state = s, so_inode = i\<rparr>
              | _ \<Rightarrow> None)
         | _ \<Rightarrow> None)"

definition parse_table :: "string \<Rightarrow> net_socket list" where
  "parse_table table = List.map_filter parse_row (drop 1 (str_lines table))"

section \<open>Connections\<close>

record connection =
  cn_pid :: u32
  cn_proto :: string
  cn_local :: socket_addr
  cn_remote :: socket_addr

fun is_unspecified :: "ip_addr \<Rightarrow> bool" where
  "is_unspecified (V4 a) = (a = 0)"
| "is_unspecified (V6 a) = (a = 0)"

definition listening_ports :: "(string \<times> net_socket list) list \<Rightarrow> u16 list" where
  "listening_ports tables =
     map (\<lambda>s. snd (so_local s))
       (filter (\<lambda>s. so_state s = TCP_LISTEN)
         (concat (map snd (filter (\<lambda>t. fst t = ''tcp'') tables))))"

definition outbound :: "(string \<times> net_socket list) list \<Rightarrow> (string \<times> net_socket) list" where
  "outbound tables =
     (let listening = listening_ports tables
      in filter (\<lambda>(_, s). so_inode s \<noteq> 0)
           (filter (\<lambda>(proto, s). \<not> (proto = ''tcp'' \<and> snd (so_local s) \<in> set listening))
             (filter (\<lambda>(_, s). snd (so_remote s) \<noteq> 0 \<and> \<not> is_unspecified (fst (so_remote s)) \<and> \<not> is_loopback (fst (so_remote s)))
               (concat (map (\<lambda>(proto, ss). map (Pair proto) ss) tables)))))"

text \<open>The inode of a descriptor that is a socket, from its link.\<close>

definition socket_inode :: "string \<Rightarrow> nat option" where
  "socket_inode link =
     (case strip_prefix link ''socket:['' of
        None \<Rightarrow> None
      | Some r \<Rightarrow> (case strip_suffix r '']'' of None \<Rightarrow> None | Some n \<Rightarrow> parse_unsigned (2 ^ 64) n))"

type_synonym owners = "(nat, u32) hmap"

definition own_fd :: "nat list \<Rightarrow> u32 \<Rightarrow> owners \<Rightarrow> string \<Rightarrow> owners" where
  "own_fd inodes pid owners link =
     (case socket_inode link of
        None \<Rightarrow> owners
      | Some i \<Rightarrow> if i \<in> set inodes \<and> hm_get owners i = None then hm_insert i pid owners else owners)"

fun own_pids :: "nat list \<Rightarrow> (u32 \<times> string list) list \<Rightarrow> owners \<Rightarrow> owners" where
  "own_pids inodes [] owners = owners"
| "own_pids inodes ((pid, links) # procs) owners =
     (let owners' = foldl (own_fd inodes pid) owners links
      in if length owners' = length (remdups inodes) then owners' else own_pids inodes procs owners')"

definition socket_owners :: "nat list \<Rightarrow> (u32 \<times> string list) list \<Rightarrow> owners" where
  "socket_owners inodes procs = (if inodes = [] then [] else own_pids inodes procs [])"

definition connections :: "(string \<times> string) list \<Rightarrow> (u32 \<times> string list) list \<Rightarrow> connection list" where
  "connections texts procs =
     (let tables = map (\<lambda>(proto, text). (proto, parse_table text)) texts;
          out = outbound tables;
          owners = socket_owners (map (\<lambda>(_, s). so_inode s) out) procs
      in List.map_filter
           (\<lambda>(proto, s). map_option (\<lambda>pid. \<lparr>cn_pid = pid, cn_proto = proto, cn_local = so_local s, cn_remote = so_remote s\<rparr>)
                          (hm_get owners (so_inode s))) out)"

text \<open>
  One turn of the poll: the connections not seen by the turn before, each reported when its process
  can still be read; the set of current ones is remembered. \<open>draw\<close> gives id and time of an event.
\<close>

definition connection_event ::
  "(connection \<Rightarrow> event_id \<times> timestamp) \<Rightarrow> (u32 \<Rightarrow> process_context option) \<Rightarrow> connection \<Rightarrow> riggs_event option"
where
  "connection_event draw ctx_of c =
     map_option (\<lambda>ctx. new_network (fst (draw c)) (snd (draw c)) Outbound ctx (show_ip (fst (cn_local c)))
                   (show_ip (fst (cn_remote c))) (snd (cn_local c)) (snd (cn_remote c)) (cn_proto c))
       (ctx_of (cn_pid c))"

definition net_poll ::
  "u32 \<Rightarrow> (connection \<Rightarrow> event_id \<times> timestamp) \<Rightarrow> (u32 \<Rightarrow> process_context option) \<Rightarrow> connection list
   \<Rightarrow> connection list \<Rightarrow> connection list \<times> riggs_event list"
where
  "net_poll own_pid draw ctx_of found known =
     (let current = remdups (filter (\<lambda>c. cn_pid c \<noteq> own_pid) found)
      in (current, List.map_filter (connection_event draw ctx_of) (filter (\<lambda>c. c \<notin> set known) current)))"

section \<open>Owners: the search that stops early\<close>

text \<open>The first process in the listing that holds a socket.\<close>

definition holds :: "nat \<Rightarrow> string list \<Rightarrow> bool" where
  "holds i links \<longleftrightarrow> (\<exists>l \<in> set links. socket_inode l = Some i)"

definition first_owner :: "(u32 \<times> string list) list \<Rightarrow> nat \<Rightarrow> u32 option" where
  "first_owner procs i = map_option fst (List.find (\<lambda>(_, links). holds i links) procs)"

lemma own_fds_get:
  "hm_get (foldl (own_fd inodes pid) owners links) i =
     (case hm_get owners i of Some q \<Rightarrow> Some q
      | None \<Rightarrow> if i \<in> set inodes \<and> holds i links then Some pid else None)"
proof (induction links arbitrary: owners)
  case (Cons l links)
  then show ?case
    by (auto simp: own_fd_def hm_get_insert holds_def split: option.splits if_splits)
qed (simp add: holds_def split: option.split)

lemma hm_insert_keys: "fst ` set (hm_insert k v m) = insert k (fst ` set m)"
  by (simp add: hm_insert_def AList.dom_update)

lemma own_fds_wf:
  assumes "hm_wf owners" and "fst ` set owners \<subseteq> set inodes"
  shows "hm_wf (foldl (own_fd inodes pid) owners links) \<and> fst ` set (foldl (own_fd inodes pid) owners links) \<subseteq> set inodes"
  using assms
proof (induction links arbitrary: owners)
  case (Cons l links)
  have "hm_wf (own_fd inodes pid owners l) \<and> fst ` set (own_fd inodes pid owners l) \<subseteq> set inodes"
    using Cons(2,3) hm_insert_keys [of _ pid owners]
    by (auto simp: own_fd_def hm_wf_insert split: option.split)
  then show ?case using Cons(1) by simp
qed simp

text \<open>When there are as many owners as sockets, every socket has its owner.\<close>

lemma owners_complete:
  assumes "hm_wf owners" and "fst ` set owners \<subseteq> set inodes" and "length owners = length (remdups inodes)"
    and "i \<in> set inodes"
  shows "hm_get owners i \<noteq> None"
proof -
  have "card (fst ` set owners) = card (set inodes)"
    using assms(1,3) distinct_card [of "map fst owners"] by (simp add: hm_wf_def length_remdups_card_conv)
  then have "fst ` set owners = set inodes"
    using assms(2) by (metis List.finite_set card_subset_eq)
  then show ?thesis using assms(4) hm_get_None_iff [of owners i] by auto
qed

lemma own_pids_get:
  assumes "hm_wf owners" and "fst ` set owners \<subseteq> set inodes" and "i \<in> set inodes"
  shows "hm_get (own_pids inodes procs owners) i =
           (case hm_get owners i of Some q \<Rightarrow> Some q | None \<Rightarrow> first_owner procs i)"
  using assms
proof (induction inodes procs owners rule: own_pids.induct)
  case (2 inodes pid links procs owners)
  note wf = own_fds_wf [OF 2(2,3), of pid links] and got = own_fds_get [of inodes pid owners links i]
  show ?case
  proof (cases "length (foldl (own_fd inodes pid) owners links) = length (remdups inodes)")
    case True
    then show ?thesis
      using owners_complete [OF conjunct1 [OF wf] conjunct2 [OF wf] True, of i] got 2(4)
      by (cases "hm_get owners i"; cases "holds i links") (auto simp: first_owner_def)
  next
    case False
    then show ?thesis using 2(1) [OF refl False _ _ 2(4)] wf got 2(4)
      by (cases "hm_get owners i"; cases "holds i links") (auto simp: first_owner_def)
  qed
qed (simp add: first_owner_def split: option.split)

section \<open>What is reported\<close>

text \<open>
  The rows that count: a connected socket with a peer on another host, that some process holds, and
  not the server side of a TCP connection accepted on a port somebody listens on.
\<close>

definition outgoing :: "(string \<times> net_socket list) list \<Rightarrow> string \<Rightarrow> net_socket \<Rightarrow> bool" where
  "outgoing tables proto s \<longleftrightarrow>
     (\<exists>ss. (proto, ss) \<in> set tables \<and> s \<in> set ss)
     \<and> snd (so_remote s) \<noteq> 0 \<and> \<not> is_unspecified (fst (so_remote s)) \<and> \<not> is_loopback (fst (so_remote s))
     \<and> so_inode s \<noteq> 0
     \<and> \<not> (proto = ''tcp'' \<and>
           (\<exists>ss l. (''tcp'', ss) \<in> set tables \<and> l \<in> set ss \<and> so_state l = TCP_LISTEN \<and> snd (so_local l) = snd (so_local s)))"

lemma set_listening_ports:
  "p \<in> set (listening_ports tables) \<longleftrightarrow>
     (\<exists>ss l. (''tcp'', ss) \<in> set tables \<and> l \<in> set ss \<and> so_state l = TCP_LISTEN \<and> snd (so_local l) = p)"
  by (force simp: listening_ports_def)

lemma set_outbound: "(proto, s) \<in> set (outbound tables) \<longleftrightarrow> outgoing tables proto s"
  by (auto simp: outbound_def outgoing_def set_listening_ports)

lemma socket_owners_get:
  assumes "i \<in> set inodes"
  shows "hm_get (socket_owners inodes procs) i = first_owner procs i"
proof -
  have "inodes \<noteq> []" using assms by auto
  then show ?thesis using own_pids_get [of "[]" inodes i procs] assms by (simp add: socket_owners_def)
qed

text \<open>
  The connections found are exactly the outgoing rows of the socket tables, each with the first
  process in the listing that holds its socket; that the search of the processes stops as soon as
  every socket has an owner loses none.
\<close>

theorem connections_exact:
  "set (connections texts procs) =
     {\<lparr>cn_pid = pid, cn_proto = proto, cn_local = so_local s, cn_remote = so_remote s\<rparr> | pid proto s.
        outgoing (map (\<lambda>(proto, text). (proto, parse_table text)) texts) proto s
        \<and> first_owner procs (so_inode s) = Some pid}"
proof -
  let ?tables = "map (\<lambda>(proto, text). (proto, parse_table text)) texts"
  have owner: "hm_get (socket_owners (map (\<lambda>(_, s). so_inode s) (outbound ?tables)) procs) (so_inode s) = first_owner procs (so_inode s)"
    if "outgoing ?tables proto s" for proto s
    using that by (intro socket_owners_get) (force simp: set_outbound [symmetric])
  have "c \<in> set (connections texts procs) \<longleftrightarrow>
      (\<exists>proto s. outgoing ?tables proto s \<and>
         map_option (\<lambda>pid. \<lparr>cn_pid = pid, cn_proto = proto, cn_local = so_local s, cn_remote = so_remote s\<rparr>)
           (first_owner procs (so_inode s)) = Some c)" for c
    unfolding connections_def Let_def in_map_filter
    by (simp add: Bex_def set_outbound owner split_paired_Ex cong: conj_cong)
  then show ?thesis unfolding map_option_eq_Some set_eq_iff mem_Collect_eq by metis
qed

section \<open>Addresses as the kernel prints them\<close>

text \<open>
  The kernel prints each 32-bit word of an address, which is stored in network order, as a number of
  the host, in eight upper-case hexadecimal digits, and the port in four.
\<close>

definition upper_hex :: "nat \<Rightarrow> char" where
  "upper_hex d = (if d < 10 then char_of (48 + d) else char_of (55 + d))"

fun hex_pad :: "nat \<Rightarrow> nat \<Rightarrow> string" where
  "hex_pad 0 n = []"
| "hex_pad (Suc k) n = hex_pad k (n div 16) @ [upper_hex (n mod 16)]"

definition swap_word :: "nat \<Rightarrow> nat" where
  "swap_word w = from_be 0 (ne_bytes w)"

fun kernel_words :: "ip_addr \<Rightarrow> nat list" where
  "kernel_words (V4 a) = [swap_word (unat a)]"
| "kernel_words (V6 a) = map (\<lambda>i. swap_word (unat a div 2 ^ (32 * i) mod 2 ^ 32)) [3, 2, 1, 0]"

definition kernel_addr :: "socket_addr \<Rightarrow> string" where
  "kernel_addr a = concat (map (hex_pad 8) (kernel_words (fst a))) @ '':'' @ hex_pad 4 (unat (snd a))"

lemma length_hex_pad [simp]: "length (hex_pad k n) = k"
  by (induction k arbitrary: n) auto

lemma hex_value_upper_hex: "d < 16 \<Longrightarrow> hex_value (upper_hex d) = Some d"
  by (auto simp: hex_value_def upper_hex_def)

lemma hex_digits_value_append:
  "hex_digits_value acc (s @ t) = (case hex_digits_value acc s of None \<Rightarrow> None | Some a \<Rightarrow> hex_digits_value a t)"
  by (induction acc s rule: hex_digits_value.induct) (auto split: option.split)

lemma hex_digits_value_pad: "hex_digits_value acc (hex_pad k n) = Some (acc * 16 ^ k + n mod 16 ^ k)"
proof (induction k arbitrary: n acc)
  case (Suc k)
  have "n mod 16 ^ Suc k = 16 * (n div 16 mod 16 ^ k) + n mod 16" by (simp add: mod_mult2_eq)
  then show ?case by (simp add: Suc hex_digits_value_append hex_value_upper_hex algebra_simps)
qed simp

lemma upper_hex_not: "d < 16 \<Longrightarrow> upper_hex d \<noteq> CHR ''+'' \<and> upper_hex d \<noteq> CHR '':''"
  by (auto simp: upper_hex_def dest!: arg_cong [of _ _ "of_char :: char \<Rightarrow> nat"])

lemma hex_pad_chars: "c \<in> set (hex_pad k n) \<Longrightarrow> c \<noteq> CHR ''+'' \<and> c \<noteq> CHR '':''"
  by (induction k arbitrary: n) (auto simp: upper_hex_not)

lemma from_hex_pad:
  assumes "n < 16 ^ k" and "n < bound" and "0 < k"
  shows "from_hex bound (hex_pad k n) = Some n"
proof -
  obtain c s where cs: "hex_pad k n = c # s" using assms(3) by (cases "hex_pad k n") (auto dest: arg_cong [of _ _ length])
  then have "c \<noteq> CHR ''+''" using hex_pad_chars [of c k n] by simp
  then show ?thesis using hex_digits_value_pad [of 0 k n] assms by (simp add: from_hex_def cs)
qed

lemma chunks8_append: "length a = 8 \<Longrightarrow> chunks8 (a @ s) = map_option ((#) a) (chunks8 s)"
  by (auto simp: length_Suc_conv eval_nat_numeral)

lemma chunks8_concat: "\<forall>c \<in> set cs. length c = 8 \<Longrightarrow> chunks8 (concat cs) = Some cs"
  by (induction cs) (auto simp: chunks8_append)

lemma all_some_map_Some: "\<forall>x \<in> set xs. f x = Some (g x) \<Longrightarrow> all_some (map f xs) = Some (map g xs)"
  by (induction xs) auto

lemma swap_word_bound: "swap_word w < 2 ^ 32"
  by (simp add: swap_word_def ne_bytes_def)

lemma ne_bytes_be:
  assumes "b < 256" and "c < 256" and "d < 256"
  shows "a < 256 \<Longrightarrow> ne_bytes (((a * 256 + b) * 256 + c) * 256 + d) = [d, c, b, a]"
proof -
  let ?n = "((a * 256 + b) * 256 + c) * 256 + d"
  have 1: "?n div 256 = (a * 256 + b) * 256 + c" using assms by simp
  have "?n div 65536 = ?n div 256 div 256" by (simp add: div_mult2_eq [symmetric])
  then have 2: "?n div 65536 = a * 256 + b" using 1 assms by simp
  have "?n div 16777216 = ?n div 65536 div 256" by (simp add: div_mult2_eq [symmetric])
  then have 3: "?n div 16777216 = a" using 2 assms by simp
  show "a < 256 \<Longrightarrow> ne_bytes ?n = [d, c, b, a]" 
    unfolding ne_bytes_def 1 2 3 mod_mult_self3 using assms by simp
qed

lemma word_bytes:
  fixes w :: nat
  assumes "w < 2 ^ 32"
  shows "w = ((w div 16777216 mod 256 * 256 + w div 65536 mod 256) * 256 + w div 256 mod 256) * 256 + w mod 256"
proof -
  have "w div 65536 = w div 256 div 256" "w div 16777216 = w div 256 div 256 div 256"
    by (simp_all add: div_mult2_eq [symmetric])
  moreover have "w div 256 div 256 div 256 < 256" using assms by (simp add: div_mult2_eq [symmetric])
  ultimately show ?thesis
    using div_mult_mod_eq [of w 256] div_mult_mod_eq [of "w div 256" 256] div_mult_mod_eq [of "w div 256 div 256" 256]
    by (simp add: mod_less)
qed

lemma swap_word_bytes:
  assumes "w < 2 ^ 32"
  shows "from_be acc (ne_bytes (swap_word w)) = acc * 2 ^ 32 + w"
proof -
  have "ne_bytes (swap_word w) = [w div 16777216 mod 256, w div 65536 mod 256, w div 256 mod 256, w mod 256]"
    unfolding swap_word_def ne_bytes_def [of w] from_be.simps mult_zero_left add_0 by (rule ne_bytes_be) simp_all
  moreover have "from_be acc [p, q, r, t] = acc * 2 ^ 32 + (((p * 256 + q) * 256 + r) * 256 + t)" for p q r t by simp
  ultimately show ?thesis by (simp only: word_bytes [OF assms, symmetric])
qed

lemma from_be_append: "from_be acc (xs @ ys) = from_be (from_be acc xs) ys"
  by (induction acc xs rule: from_be.induct) auto

lemma v6_words:
  fixes n :: nat
  assumes "n < 2 ^ 128"
  shows "((n div 2 ^ 96 mod 2 ^ 32 * 2 ^ 32 + n div 2 ^ 64 mod 2 ^ 32) * 2 ^ 32 + n div 2 ^ 32 mod 2 ^ 32) * 2 ^ 32 + n mod 2 ^ 32 = n"
proof -
  define b :: nat where "b = 2 ^ 32"
  have b2: "2 ^ 64 = b * b" and b3: "2 ^ 96 = b * b * b" and b4: "2 ^ 128 = b * b * b * b" by (simp_all add: b_def)
  have "n div b div b div b < b"
    using assms unfolding b4 by (simp add: div_mult2_eq [symmetric] less_mult_imp_div_less mult.assoc)
  then have "n div b div b div b mod b = n div b div b div b" by simp
  then show ?thesis
    unfolding b2 b3 b_def [symmetric] div_mult2_eq
    by (metis div_mult_mod_eq)
qed

text \<open>
  An address of the socket table is read back as the address and port the kernel printed, IPv4
  and IPv6, an IPv4-mapped address as the IPv4 address it stands for.
\<close>

theorem kernel_addr_read_back: "parse_addr (kernel_addr (ip, port)) = Some (to_canonical ip, port)"
proof -
  let ?ws = "kernel_words ip"
  have ws: "\<forall>w \<in> set ?ws. w < 2 ^ 32" by (cases ip) (simp_all add: swap_word_bound del: power_numeral)
  have "CHR '':'' \<notin> set (concat (map (hex_pad 8) ?ws))" using hex_pad_chars by (auto simp: in_set_conv_nth dest!: nth_mem)
  then have split: "split_once (CHR '':'') (kernel_addr (ip, port)) =
      Some (concat (map (hex_pad 8) ?ws), hex_pad 4 (unat port))"
    by (simp add: kernel_addr_def split_once_Some_iff)
  have chunks: "chunks8 (concat (map (hex_pad 8) ?ws)) = Some (map (hex_pad 8) ?ws)"
    by (rule chunks8_concat) simp
  have words: "all_some (map (from_hex (2 ^ 32)) (map (hex_pad 8) ?ws)) = Some ?ws"
    using ws all_some_map_Some [of ?ws "\<lambda>w. from_hex (2 ^ 32) (hex_pad 8 w)" id] by (simp add: from_hex_pad comp_def)
  have port: "from_hex (2 ^ 16) (hex_pad 4 (unat port)) = Some (unat port)"
    using unsigned_less [of port] by (intro from_hex_pad) simp_all
  have "from_be 0 (concat (map ne_bytes ?ws)) = (case ip of V4 a \<Rightarrow> unat a | V6 a \<Rightarrow> unat a)"
  proof (cases ip)
    case (V6 a)
    have "unat a < 2 ^ 128" using unsigned_less [of a] by simp
    from v6_words [OF this] show ?thesis
      by (simp add: V6 from_be_append swap_word_bytes del: power_numeral)
  next
    case (V4 a)
    have "unat a < 2 ^ 32" using unsigned_less [of a] by simp
    then show ?thesis by (simp add: V4 swap_word_bytes)
  qed
  moreover have "length (concat (map ne_bytes ?ws)) = (case ip of V4 _ \<Rightarrow> 4 | V6 _ \<Rightarrow> 16)"
    by (cases ip) (simp_all add: ne_bytes_def)
  ultimately show ?thesis
    unfolding parse_addr_def split option.case prod.case chunks words port Let_def
    by (cases ip) simp_all
qed

end
