(* ===== verification/Static_Ai.thy ===== *)
theory Static_Ai
  imports Intel
begin

text \<open>
  \<^verbatim>\<open>crates/riggs-static-ai\<close>: the features read from a file, the heuristic score computed from them
  and the detection stage. The bytes of a file are a list of 8-bit characters. What \<^verbatim>\<open>goblin\<close>
  parses is a parameter, the function \<open>parse\<close>; the records below have the fields of its result that
  the code reads. So are the binary and the natural logarithm of \<^verbatim>\<open>f64\<close>, whose last digits Rust
  leaves to the platform. A \<^verbatim>\<open>usize\<close> has 64 bits.
\<close>

unbundle bit_operations_syntax

section \<open>Entropy\<close>

type_synonym bytes = "char list"

definition usize_max :: nat where "usize_max = 2 ^ 64 - 1"

definition entropy_step :: "(rat \<Rightarrow> rat) \<Rightarrow> rat \<Rightarrow> rat \<Rightarrow> nat \<Rightarrow> rat" where
  "entropy_step log2 len entropy count =
     (if count = 0 then entropy
      else let p = f64_near (f64_near (of_nat count) / len)
           in f64_near (entropy - f64_near (p * log2 p)))"

definition calculate_entropy :: "(rat \<Rightarrow> rat) \<Rightarrow> bytes \<Rightarrow> f32" where
  "calculate_entropy log2 data =
     (if length data < 2 then F_Fin 0
      else let counts = map (\<lambda>b. count_list data (char_of b)) [0 ..< 256 :: nat];
               len = f64_near (of_nat (length data));
               entropy = foldl (entropy_step log2 len) 0 counts
           in f32_round (max 0 (min 8 entropy)))"

text \<open>The bytes of a section, clipped to the file.\<close>

definition section_bytes :: "bytes \<Rightarrow> u64 \<times> u64 \<Rightarrow> bytes" where
  "section_bytes bytes s =
     (let start = min (unat (fst s)) (length bytes);
          len = min (unat (snd s)) (length bytes - start)
      in take len (drop start bytes))"

fun entropy_loop :: "(rat \<Rightarrow> rat) \<Rightarrow> bytes \<Rightarrow> nat \<Rightarrow> bool \<Rightarrow> (u64 \<times> u64) list \<Rightarrow> f32 list \<times> bool" where
  "entropy_loop log2 bytes left overrun [] = ([], overrun)"
| "entropy_loop log2 bytes left overrun (s # ss) =
     (let part = section_bytes bytes s in
      if left < length part
      then let (es, ov) = entropy_loop log2 bytes left True ss in (F_Fin 0 # es, ov)
      else let (es, ov) = entropy_loop log2 bytes (left - length part) overrun ss
           in (calculate_entropy log2 part # es, ov))"

definition entropy_by_section :: "(rat \<Rightarrow> rat) \<Rightarrow> bytes \<Rightarrow> (u64 \<times> u64) list \<Rightarrow> f32 list \<times> bool" where
  "entropy_by_section log2 bytes sections =
     entropy_loop log2 bytes (min (2 * length bytes) usize_max) False sections"

section \<open>Imported names\<close>

definition SUSPICIOUS_IMPORT_NAMES :: "string list" where
  "SUSPICIOUS_IMPORT_NAMES =
     [''VirtualAlloc'', ''VirtualProtect'', ''WriteProcessMemory'', ''CreateRemoteThread'',
      ''NtUnmapViewOfSection'', ''SetWindowsHookEx'', ''LoadLibrary'', ''GetProcAddress'', ''WinExec'',
      ''ShellExecute'', ''URLDownloadToFile'', ''InternetOpen'', ''CryptEncrypt'', ''ptrace'',
      ''mprotect'', ''dlopen'', ''dlsym'', ''execve'', ''fork'', ''mmap'']"

fun find_suspicious_imports :: "string list \<Rightarrow> nat \<Rightarrow> string list" where
  "find_suspicious_imports [] left = []"
| "find_suspicious_imports (name # names) left =
     (if left < length name then []
      else let found = find_suspicious_imports names (left - length name)
           in if list_ex (str_contains name) SUSPICIOUS_IMPORT_NAMES then name # found else found)"

text \<open>\<^verbatim>\<open>std::str::from_utf8\<close>: well-formed UTF-8, without overlong forms and surrogates.\<close>

definition byte_in :: "nat \<Rightarrow> nat \<Rightarrow> char \<Rightarrow> bool" where
  "byte_in lo hi c \<longleftrightarrow> lo \<le> (of_char c :: nat) \<and> (of_char c :: nat) \<le> hi"

fun valid_utf8 :: "bytes \<Rightarrow> bool" where
  "valid_utf8 [] = True"
| "valid_utf8 (a # s) =
     (if byte_in 0 0x7F a then valid_utf8 s
      else
        (case s of
           [] \<Rightarrow> False
         | b # s2 \<Rightarrow>
             (if byte_in 0xC2 0xDF a then byte_in 0x80 0xBF b \<and> valid_utf8 s2
              else
                (case s2 of
                   [] \<Rightarrow> False
                 | c # s3 \<Rightarrow>
                     (if byte_in 0xE0 0xEF a
                      then byte_in (if of_char a = (0xE0 :: nat) then 0xA0 else 0x80)
                             (if of_char a = (0xED :: nat) then 0x9F else 0xBF) b
                           \<and> byte_in 0x80 0xBF c \<and> valid_utf8 s3
                      else
                        (case s3 of
                           [] \<Rightarrow> False
                         | d # s4 \<Rightarrow>
                             byte_in 0xF0 0xF4 a
                             \<and> byte_in (if of_char a = (0xF0 :: nat) then 0x90 else 0x80)
                                 (if of_char a = (0xF4 :: nat) then 0x8F else 0xBF) b
                             \<and> byte_in 0x80 0xBF c \<and> byte_in 0x80 0xBF d \<and> valid_utf8 s4))))))"

text \<open>What the code reads of a parsed Mach-O file.\<close>

record symtab_command =
  sy_symoff :: u32
  sy_nsyms :: u32
  sy_stroff :: u32

datatype load_command = LC_Symtab symtab_command | LC_Other

record macho_section =
  ms_flags :: u32
  ms_offset :: u32
  ms_size :: u64

record macho_segment =
  sg_name :: "string option"
  sg_sections :: "macho_section list option"

record macho =
  mo_is_64 :: bool
  mo_little_endian :: bool
  mo_load_commands :: "load_command list"
  mo_segments :: "macho_segment list"

definition N_STAB :: u8 where "N_STAB = 0xE0"
definition N_TYPE :: u8 where "N_TYPE = 0x0E"
definition N_EXT :: u8 where "N_EXT = 0x01"
definition N_UNDF :: u8 where "N_UNDF = 0x00"

function chunks_exact :: "nat \<Rightarrow> 'a list \<Rightarrow> 'a list list" where
  "chunks_exact n xs =
     (if n = 0 \<or> length xs < n then [] else take n xs # chunks_exact n (drop n xs))"
  by pat_completeness auto
termination
  by (relation "measure (length \<circ> snd)") auto

declare chunks_exact.simps [simp del]

definition byte_at :: "bytes \<Rightarrow> nat \<Rightarrow> u8" where
  "byte_at bs i = of_nat (of_char (bs ! i))"

text \<open>\<^verbatim>\<open>u32::from_le_bytes\<close> and \<^verbatim>\<open>u32::from_be_bytes\<close> of the first four bytes.\<close>

definition read_u32 :: "bool \<Rightarrow> bytes \<Rightarrow> nat" where
  "read_u32 little bs =
     (let ds = map of_char (if little then rev (take 4 bs) else take 4 bs)
      in foldl (\<lambda>acc d. 256 * acc + d) 0 ds)"

text \<open>\<^verbatim>\<open>bytes.get(n..).unwrap_or_default()\<close> is \<open>drop n bytes\<close>: both are empty past the end.\<close>

record symbol_scan =
  ss_budget :: nat
  ss_names :: "string list"
  ss_imports :: nat
  ss_exports :: nat

definition read_symbol :: "macho \<Rightarrow> bytes \<Rightarrow> symbol_scan \<Rightarrow> bytes \<Rightarrow> symbol_scan" where
  "read_symbol m strtab st nlist =
     (let n_type = byte_at nlist 4 in
      if n_type AND N_STAB \<noteq> 0 \<or> n_type AND N_EXT = 0 then st
      else if n_type AND N_TYPE \<noteq> N_UNDF then st\<lparr>ss_exports := ss_exports st + 1\<rparr>
      else
        let tail = drop (read_u32 (mo_little_endian m) nlist) strtab;
            window = take (min (length tail) (ss_budget st)) tail;
            name = takeWhile (\<lambda>b. b \<noteq> CHR 0x00) window;
            st' = st\<lparr>ss_imports := ss_imports st + 1\<rparr>
        in if CHR 0x00 \<in> set window
           then st'\<lparr>ss_budget := ss_budget st - (length name + 1),
                    ss_names := (if valid_utf8 name then ss_names st @ [name] else ss_names st)\<rparr>
           else st'\<lparr>ss_budget := 0\<rparr>)"

definition symtab_of :: "load_command \<Rightarrow> symtab_command option" where
  "symtab_of lc = (case lc of LC_Symtab st \<Rightarrow> Some st | LC_Other \<Rightarrow> None)"

definition macho_symbols :: "macho \<Rightarrow> bytes \<Rightarrow> string list \<times> nat \<times> nat" where
  "macho_symbols m bytes =
     (case find_map symtab_of (mo_load_commands m) of
        None \<Rightarrow> ([], 0, 0)
      | Some symtab \<Rightarrow>
          let strtab = drop (unat (sy_stroff symtab)) bytes;
              entries = drop (unat (sy_symoff symtab)) bytes;
              nlists = take (unat (sy_nsyms symtab)) (chunks_exact (if mo_is_64 m then 16 else 12) entries);
              st = foldl (read_symbol m strtab)
                     \<lparr>ss_budget = length bytes, ss_names = [], ss_imports = 0, ss_exports = 0\<rparr> nlists
          in (ss_names st, ss_imports st, ss_exports st))"

section \<open>Strings\<close>

definition SUSPICIOUS_STRING_PATTERNS :: "string list" where
  "SUSPICIOUS_STRING_PATTERNS =
     [''powershell'', ''cmd.exe'', ''/bin/sh'', ''/bin/bash'', ''eval'', ''base64'', ''http://'',
      ''https://'', ''socket'', ''reverse'', ''shell'', ''exploit'', ''payload'', ''inject'',
      ''keylog'', ''ransom'', ''encrypt'', ''decrypt'', ''backdoor'', ''rootkit'', ''trojan'',
      ''bind_shell'', ''reverse_tcp'', ''meterpreter'', ''mimikatz'', ''passwd'', ''shadow'',
      ''credential'', ''dump'']"

definition MAX_SUSPICIOUS_STRINGS :: nat where "MAX_SUSPICIOUS_STRINGS = 20"

definition printable :: "char \<Rightarrow> bool" where
  "printable b \<longleftrightarrow> byte_in 33 126 b \<or> b = CHR '' ''"

text \<open>A run is ASCII, so its lossy conversion to a string keeps it.\<close>

definition check_and_collect :: "string list \<Rightarrow> bytes \<Rightarrow> string list \<Rightarrow> string list" where
  "check_and_collect patterns run found =
     (if length run < 4 then found
      else if list_ex (str_contains (to_ascii_lowercase run)) patterns \<and> run \<notin> set found
      then found @ [run] else found)"

fun scan_strings :: "string list \<Rightarrow> bytes \<Rightarrow> string list \<Rightarrow> bytes \<Rightarrow> string list" where
  "scan_strings patterns current found [] = check_and_collect patterns current found"
| "scan_strings patterns current found (b # bs) =
     (if printable b then scan_strings patterns (current @ [b]) found bs
      else let found' = check_and_collect patterns current found
           in if length found' = MAX_SUSPICIOUS_STRINGS then found'
              else scan_strings patterns [] found' bs)"

definition extract_suspicious_strings :: "bytes \<Rightarrow> string list" where
  "extract_suspicious_strings bytes =
     scan_strings (map to_ascii_lowercase SUSPICIOUS_STRING_PATTERNS) [] [] bytes"

section \<open>Features\<close>

record file_features =
  ff_file_size :: nat
  ff_entropy :: f32
  ff_section_count :: nat
  ff_import_count :: nat
  ff_export_count :: nat
  ff_has_debug_info :: bool
  ff_is_packed :: bool
  ff_section_entropies :: "f32 list"
  ff_suspicious_imports :: "string list"
  ff_suspicious_strings :: "string list"

text \<open>What the code reads of a parsed PE or ELF file.\<close>

record pe_image =
  pe_sections :: "(u32 \<times> u32) list"
  pe_imports :: "string list"
  pe_exports :: nat
  pe_has_debug_data :: bool

record elf_section_header =
  sh_name :: nat
  sh_type :: u32
  sh_offset :: u64
  sh_size :: u64

record elf_symbol =
  st_name :: nat
  st_value :: u64
  st_is_import :: bool

record elf_image =
  ei_section_headers :: "elf_section_header list"
  ei_dynsyms :: "elf_symbol list"
  ei_dynstrtab :: "nat \<Rightarrow> string option"
  ei_shdr_strtab :: "nat \<Rightarrow> string option"

text \<open>
  A universal binary is its first architecture: the bytes \<^verbatim>\<open>arch.slice\<close> cuts out of the file and
  the Mach-O parsed from them, or nothing when either fails or the member is not a Mach-O.
\<close>

datatype mach = Mach_Binary macho | Mach_Fat "((bytes \<Rightarrow> bytes) \<times> macho) option"

datatype object = Obj_PE pe_image | Obj_Elf elf_image | Obj_Mach mach | Obj_Other

definition SHT_NOBITS :: u32 where "SHT_NOBITS = 8"
definition SECTION_TYPE :: u32 where "SECTION_TYPE = 0xFF"
definition S_ZEROFILL :: u32 where "S_ZEROFILL = 1"
definition S_GB_ZEROFILL :: u32 where "S_GB_ZEROFILL = 0xC"
definition S_THREAD_LOCAL_ZEROFILL :: u32 where "S_THREAD_LOCAL_ZEROFILL = 0x12"

abbreviation f32_above :: "rat \<Rightarrow> f32 \<Rightarrow> bool" where
  "f32_above q e \<equiv> f32_lt (f32_lit q) e"

text \<open>The features of a file whose format is not understood.\<close>

definition plain_features :: "nat \<Rightarrow> f32 \<Rightarrow> string list \<Rightarrow> file_features" where
  "plain_features file_size entropy suspicious_strings =
     \<lparr>ff_file_size = file_size, ff_entropy = entropy, ff_section_count = 0, ff_import_count = 0,
      ff_export_count = 0, ff_has_debug_info = False, ff_is_packed = f32_above 7 entropy,
      ff_section_entropies = [], ff_suspicious_imports = [],
      ff_suspicious_strings = suspicious_strings\<rparr>"

definition pe_section_table :: "pe_image \<Rightarrow> (u64 \<times> u64) list" where
  "pe_section_table pe = map (\<lambda>(pointer, size). (ucast pointer, ucast size)) (pe_sections pe)"

definition from_pe ::
  "(rat \<Rightarrow> rat) \<Rightarrow> pe_image \<Rightarrow> bytes \<Rightarrow> nat \<Rightarrow> f32 \<Rightarrow> string list \<Rightarrow> file_features" where
  "from_pe log2 pe bytes file_size entropy suspicious_strings =
     (let section_count = length (pe_sections pe);
          (section_entropies, overrun) = entropy_by_section log2 bytes (pe_section_table pe)
      in \<lparr>ff_file_size = file_size, ff_entropy = entropy, ff_section_count = section_count,
          ff_import_count = length (pe_imports pe), ff_export_count = pe_exports pe,
          ff_has_debug_info = pe_has_debug_data pe,
          ff_is_packed =
            (overrun \<or> list_ex (f32_above 7) section_entropies
             \<or> section_count \<le> 2 \<and> f32_above (34 / 5) entropy),
          ff_section_entropies = section_entropies,
          ff_suspicious_imports = find_suspicious_imports (pe_imports pe) (length bytes),
          ff_suspicious_strings = suspicious_strings\<rparr>)"

definition elf_section_table :: "elf_image \<Rightarrow> (u64 \<times> u64) list" where
  "elf_section_table elf =
     map (\<lambda>sh. if sh_type sh = SHT_NOBITS then (0, 0) else (sh_offset sh, sh_size sh))
       (ei_section_headers elf)"

definition from_elf ::
  "(rat \<Rightarrow> rat) \<Rightarrow> elf_image \<Rightarrow> bytes \<Rightarrow> nat \<Rightarrow> f32 \<Rightarrow> string list \<Rightarrow> file_features" where
  "from_elf log2 elf bytes file_size entropy suspicious_strings =
     (let section_count = length (ei_section_headers elf);
          (section_entropies, overrun) = entropy_by_section log2 bytes (elf_section_table elf);
          import_names =
            List.map_filter (\<lambda>sym. ei_dynstrtab elf (st_name sym)) (filter st_is_import (ei_dynsyms elf))
      in \<lparr>ff_file_size = file_size, ff_entropy = entropy, ff_section_count = section_count,
          ff_import_count = length import_names,
          ff_export_count =
            length (filter (\<lambda>sym. \<not> st_is_import sym \<and> st_value sym \<noteq> 0) (ei_dynsyms elf)),
          ff_has_debug_info =
            list_ex (\<lambda>sh. case ei_shdr_strtab elf (sh_name sh) of
                            Some n \<Rightarrow> starts_with n ''.debug'' | None \<Rightarrow> False) (ei_section_headers elf),
          ff_is_packed =
            (overrun \<or> list_ex (f32_above 7) section_entropies
             \<or> section_count \<le> 3 \<and> f32_above (34 / 5) entropy),
          ff_section_entropies = section_entropies,
          ff_suspicious_imports = find_suspicious_imports import_names (length bytes),
          ff_suspicious_strings = suspicious_strings\<rparr>)"

definition macho_section_table :: "macho \<Rightarrow> (u64 \<times> u64) list" where
  "macho_section_table m =
     map (\<lambda>s. if ms_flags s AND SECTION_TYPE \<in> {S_ZEROFILL, S_GB_ZEROFILL, S_THREAD_LOCAL_ZEROFILL}
              then (0, 0) else (ucast (ms_offset s), ms_size s))
       (concat (map (\<lambda>seg. case sg_sections seg of Some ss \<Rightarrow> ss | None \<Rightarrow> []) (mo_segments m)))"

definition from_single_macho ::
  "(rat \<Rightarrow> rat) \<Rightarrow> macho \<Rightarrow> bytes \<Rightarrow> nat \<Rightarrow> f32 \<Rightarrow> string list \<Rightarrow> file_features" where
  "from_single_macho log2 m bytes file_size entropy suspicious_strings =
     (let sections = macho_section_table m;
          (section_entropies, overrun) = entropy_by_section log2 bytes sections;
          (import_names, import_count, export_count) = macho_symbols m bytes
      in \<lparr>ff_file_size = file_size, ff_entropy = entropy, ff_section_count = length sections,
          ff_import_count = import_count, ff_export_count = export_count,
          ff_has_debug_info = list_ex (\<lambda>seg. sg_name seg = Some ''__DWARF'') (mo_segments m),
          ff_is_packed =
            (overrun \<or> list_ex (f32_above 7) section_entropies \<or> f32_above 7 entropy),
          ff_section_entropies = section_entropies,
          ff_suspicious_imports = find_suspicious_imports import_names (length bytes),
          ff_suspicious_strings = suspicious_strings\<rparr>)"

definition from_mach ::
  "(rat \<Rightarrow> rat) \<Rightarrow> mach \<Rightarrow> bytes \<Rightarrow> nat \<Rightarrow> f32 \<Rightarrow> string list \<Rightarrow> file_features" where
  "from_mach log2 mach bytes file_size entropy suspicious_strings =
     (case mach of
        Mach_Binary m \<Rightarrow> from_single_macho log2 m bytes file_size entropy suspicious_strings
      | Mach_Fat (Some (arch_slice, m)) \<Rightarrow>
          from_single_macho log2 m (arch_slice bytes) file_size entropy suspicious_strings
      | Mach_Fat None \<Rightarrow> plain_features file_size entropy suspicious_strings)"

definition extract_from_bytes ::
  "(rat \<Rightarrow> rat) \<Rightarrow> (bytes \<Rightarrow> object option) \<Rightarrow> bytes \<Rightarrow> file_features" where
  "extract_from_bytes log2 parse bytes =
     (let file_size = length bytes;
          entropy = calculate_entropy log2 bytes;
          suspicious_strings = extract_suspicious_strings bytes
      in case parse bytes of
           None \<Rightarrow> plain_features file_size entropy suspicious_strings
         | Some (Obj_PE pe) \<Rightarrow> from_pe log2 pe bytes file_size entropy suspicious_strings
         | Some (Obj_Elf elf) \<Rightarrow> from_elf log2 elf bytes file_size entropy suspicious_strings
         | Some (Obj_Mach mach) \<Rightarrow> from_mach log2 mach bytes file_size entropy suspicious_strings
         | Some Obj_Other \<Rightarrow> plain_features file_size entropy suspicious_strings)"

definition DEFAULT_MAX_SCAN_BYTES :: nat where "DEFAULT_MAX_SCAN_BYTES = 64 * 1024 * 1024"

text \<open>Opening or reading the file fails with an error, or the file has the given contents.\<close>

definition extract_with_limit ::
  "(rat \<Rightarrow> rat) \<Rightarrow> (bytes \<Rightarrow> object option) \<Rightarrow> (string + bytes) \<Rightarrow> nat \<Rightarrow> string + file_features" where
  "extract_with_limit log2 parse contents max_bytes =
     (case contents of
        Inl e \<Rightarrow> Inl (''io error: '' @ e)
      | Inr bytes \<Rightarrow> Inr (extract_from_bytes log2 parse (take max_bytes bytes)))"

definition unit_clamp :: "f32 \<Rightarrow> f32" where
  "unit_clamp x = f32_clamp x (F_Fin 0) (F_Fin 1)"

definition f32_flag :: "bool \<Rightarrow> f32" where
  "f32_flag b = (if b then F_Fin 1 else F_Fin 0)"

definition to_feature_vector :: "(rat \<Rightarrow> rat) \<Rightarrow> file_features \<Rightarrow> f32 list" where
  "to_feature_vector nat_log f =
     (let max_log_size = f32_round (nat_log 1073741824);
          log_size =
            (if 0 < ff_file_size f
             then f32_div (f32_round (nat_log (f64_near (of_nat (ff_file_size f))))) max_log_size
             else F_Fin 0);
          es = ff_section_entropies f;
          max_section_entropy = foldl f32_max (F_Fin 0) es;
          min_section_entropy = foldl f32_min (F_Fin 8) es;
          min_se = (if es = [] then F_Fin 0 else f32_div min_section_entropy (F_Fin 8));
          mean_section_entropy =
            (if es = [] then F_Fin 0
             else f32_div (f32_div (f32_sum es) (f32_of_nat (length es))) (F_Fin 8));
          suspicious_ratio =
            f32_div (f32_of_nat (length (ff_suspicious_imports f)))
              (f32_of_nat (length SUSPICIOUS_IMPORT_NAMES))
      in [unit_clamp log_size,
          unit_clamp (f32_div (ff_entropy f) (F_Fin 8)),
          unit_clamp (f32_div (f32_of_nat (ff_section_count f)) (F_Fin 64)),
          unit_clamp (f32_div (f32_of_nat (ff_import_count f)) (F_Fin 2048)),
          unit_clamp (f32_div (f32_of_nat (ff_export_count f)) (F_Fin 2048)),
          f32_flag (ff_has_debug_info f),
          f32_flag (ff_is_packed f),
          unit_clamp (f32_div max_section_entropy (F_Fin 8)),
          unit_clamp min_se,
          unit_clamp mean_section_entropy,
          unit_clamp suspicious_ratio,
          unit_clamp (f32_div (f32_of_nat (length (ff_suspicious_strings f))) (F_Fin 20))])"

text \<open>The weighted signals of the score, in the order in which they are added.\<close>

definition section_signal :: "file_features \<Rightarrow> f32" where
  "section_signal f =
     (if 4096 < ff_file_size f \<and> ff_section_count f \<le> 2 then F_Fin 1
      else if ff_section_count f \<le> 4 then f32_lit (3 / 10) else F_Fin 0)"

definition weighted_signals :: "file_features \<Rightarrow> f32 list" where
  "weighted_signals f =
     [f32_mul (f32_lit (1 / 4)) (unit_clamp (f32_div (ff_entropy f) (F_Fin 8)))]
     @ (if ff_is_packed f then [f32_lit (1 / 5)] else [])
     @ [f32_mul (f32_lit (1 / 5))
          (unit_clamp (f32_div (f32_of_nat (length (ff_suspicious_imports f))) (F_Fin 5))),
        f32_mul (f32_lit (3 / 20))
          (unit_clamp (f32_div (f32_of_nat (length (ff_suspicious_strings f))) (F_Fin 5))),
        f32_mul (f32_lit (1 / 10)) (section_signal f)]
     @ (if \<not> ff_has_debug_info f \<and> 4096 < ff_file_size f then [f32_lit (1 / 20)] else [])
     @ [f32_mul (f32_lit (1 / 20))
          (f32_flag (10000 < ff_file_size f \<and> ff_import_count f < 5))]"

definition WEIGHTS :: "f32 list" where
  "WEIGHTS = map f32_lit [1 / 4, 1 / 5, 1 / 5, 3 / 20, 1 / 10, 1 / 20, 1 / 20]"

definition heuristic_score :: "file_features \<Rightarrow> f32" where
  "heuristic_score f = unit_clamp (f32_div (f32_sum (weighted_signals f)) (f32_sum WEIGHTS))"

section \<open>The analyzer and its stage\<close>

record static_analyzer =
  sa_model_path :: "string option"
  sa_max_scan_bytes :: nat

definition analyzer_new :: "string \<Rightarrow> static_analyzer" where
  "analyzer_new model_path =
     \<lparr>sa_model_path = Some model_path, sa_max_scan_bytes = DEFAULT_MAX_SCAN_BYTES\<rparr>"

definition analyzer_new_without_model :: static_analyzer where
  "analyzer_new_without_model =
     \<lparr>sa_model_path = None, sa_max_scan_bytes = DEFAULT_MAX_SCAN_BYTES\<rparr>"

definition has_model :: "static_analyzer \<Rightarrow> bool" where
  "has_model a \<longleftrightarrow> sa_model_path a \<noteq> None"

record static_ai_stage =
  sas_analyzer :: static_analyzer
  sas_malicious_threshold :: f32
  sas_suspicious_threshold :: f32

definition static_stage_new :: "string \<Rightarrow> static_ai_stage" where
  "static_stage_new model_path =
     \<lparr>sas_analyzer = analyzer_new model_path, sas_malicious_threshold = f32_lit (17 / 20),
      sas_suspicious_threshold = f32_lit (1 / 2)\<rparr>"

definition new_heuristic_only :: static_ai_stage where
  "new_heuristic_only =
     \<lparr>sas_analyzer = analyzer_new_without_model, sas_malicious_threshold = f32_lit (17 / 20),
      sas_suspicious_threshold = f32_lit (1 / 2)\<rparr>"

definition with_max_scan_bytes :: "nat \<Rightarrow> static_ai_stage \<Rightarrow> static_ai_stage" where
  "with_max_scan_bytes n s = s\<lparr>sas_analyzer := (sas_analyzer s)\<lparr>sa_max_scan_bytes := n\<rparr>\<rparr>"

definition with_thresholds :: "string \<Rightarrow> f32 \<Rightarrow> f32 \<Rightarrow> static_ai_stage" where
  "with_thresholds model_path suspicious malicious =
     \<lparr>sas_analyzer = analyzer_new model_path, sas_malicious_threshold = malicious,
      sas_suspicious_threshold = suspicious\<rparr>"

text \<open>
  What the file system answers while one event is inspected: the type and length of the file, the
  contents seen by the check of the signature, and the contents seen by the analysis (another
  process may write to the file in between). \<open>se_join\<close> is the error of a blocking task that
  panicked or was cancelled. \<open>se_parse\<close> is \<^verbatim>\<open>goblin::Object::parse\<close>.
\<close>

record static_env =
  se_log2 :: "rat \<Rightarrow> rat"
  se_parse :: "bytes \<Rightarrow> object option"
  se_metadata :: "string \<Rightarrow> (bool \<times> nat) option"
  se_head :: "string \<Rightarrow> bytes option"
  se_contents :: "string \<Rightarrow> string + bytes"
  se_join :: "string option"
  se_now :: timestamp

definition EXECUTABLE_MAGIC :: "bytes list" where
  "EXECUTABLE_MAGIC =
     [[CHR 0x7F, CHR ''E'', CHR ''L'', CHR ''F''],
      [CHR 0xFE, CHR 0xED, CHR 0xFA, CHR 0xCE],
      [CHR 0xFE, CHR 0xED, CHR 0xFA, CHR 0xCF],
      [CHR 0xCE, CHR 0xFA, CHR 0xED, CHR 0xFE],
      [CHR 0xCF, CHR 0xFA, CHR 0xED, CHR 0xFE],
      [CHR 0xCA, CHR 0xFE, CHR 0xBA, CHR 0xBE]]"

definition has_executable_magic :: "static_env \<Rightarrow> string \<Rightarrow> bool" where
  "has_executable_magic env path =
     (case se_head env path of
        None \<Rightarrow> False
      | Some bytes \<Rightarrow>
          if length bytes < 4 then False
          else let buf = take 4 bytes in buf \<in> set EXECUTABLE_MAGIC \<or> take 2 buf = ''MZ'')"

definition analyze_file :: "static_env \<Rightarrow> static_analyzer \<Rightarrow> string \<Rightarrow> string + f32" where
  "analyze_file env a path =
     (case extract_with_limit (se_log2 env) (se_parse env) (se_contents env path) (sa_max_scan_bytes a) of
        Inl e \<Rightarrow> Inl (''feature extraction failed: '' @ e)
      | Inr features \<Rightarrow>
          Inr (case sa_model_path a of
                 Some _ \<Rightarrow> heuristic_score features
               | None \<Rightarrow> heuristic_score features))"

definition SKIP_EXTENSIONS :: "string list" where
  "SKIP_EXTENSIONS =
     [''txt'', ''log'', ''json'', ''toml'', ''yaml'', ''yml'', ''xml'', ''csv'', ''md'', ''rst'',
      ''html'', ''css'', ''js'', ''ts'', ''py'', ''rb'', ''sh'', ''conf'', ''cfg'', ''ini'',
      ''lock'', ''pid'', ''sock'', ''tmp'']"

definition skipped_extension :: "string \<Rightarrow> bool" where
  "skipped_extension path =
     (case path_extension path of
        None \<Rightarrow> False
      | Some ext \<Rightarrow> list_ex (\<lambda>s. eq_ignore_ascii_case s ext) SKIP_EXTENSIONS)"

definition inspect :: "static_env \<Rightarrow> static_analyzer \<Rightarrow> string \<Rightarrow> (string + f32) option" where
  "inspect env a path =
     (case se_metadata env path of
        None \<Rightarrow> None
      | Some (regular, len) \<Rightarrow>
          if \<not> regular \<or> len < 64 then None
          else if skipped_extension path \<and> \<not> has_executable_magic env path then None
          else Some (analyze_file env a path))"

text \<open>The level that a confidence stands for under the two thresholds.\<close>

definition threshold_level :: "static_ai_stage \<Rightarrow> f32 \<Rightarrow> threat_level" where
  "threshold_level s confidence =
     (if f32_le (sas_malicious_threshold s) confidence then Malicious
      else if f32_le (sas_suspicious_threshold s) confidence then Suspicious
      else Clean)"

text \<open>\<^verbatim>\<open>{:.2}\<close> of a confidence: two decimals, ties to even.\<close>

definition show_2_decimals :: "f32 \<Rightarrow> string" where
  "show_2_decimals x =
     (case x of
        F_Fin q \<Rightarrow>
          let n = nat (round_even (100 * q))
          in show_nat (n div 100) @ ''.'' @ show_nat (n mod 100 div 10) @ show_nat (n mod 10)
      | F_Inf s \<Rightarrow> if s then ''-inf'' else ''inf''
      | F_NaN \<Rightarrow> ''NaN'')"

definition static_verdict :: "static_env \<Rightarrow> static_ai_stage \<Rightarrow> file_event \<Rightarrow> f32 \<Rightarrow> verdict" where
  "static_verdict env s fe confidence =
     \<lparr>v_event_id = fe_event_id fe, v_threat_level = threshold_level s confidence,
      v_confidence = confidence, v_source = StaticAI,
      v_description =
        ''Static AI analysis of '' @ fe_path fe @ '' (confidence: '' @ show_2_decimals confidence @ '')'',
      v_timestamp = se_now env\<rparr>"

definition static_analyze :: "static_env \<Rightarrow> static_ai_stage \<Rightarrow> riggs_event \<Rightarrow> static_ai_stage \<times> analysis" where
  "static_analyze env s ev =
     (s, case ev of
           File fe \<Rightarrow>
             if fe_action fe \<notin> {Create, Scan} then Inr SV_Clean
             else (case se_join env of
                 Some e \<Rightarrow> Inl (Engine (''static analysis task failed: '' @ e))
               | None \<Rightarrow>
                   (case inspect env (sas_analyzer s) (fe_path fe) of
                      None \<Rightarrow> Inr SV_Clean
                    | Some (Inl e) \<Rightarrow> Inr (SV_Error e)
                    | Some (Inr confidence) \<Rightarrow>
                        let verdict = static_verdict env s fe confidence in
                        if f32_le (sas_malicious_threshold s) confidence then Inr (SV_Malicious verdict)
                        else if f32_le (sas_suspicious_threshold s) confidence
                        then Inr (SV_Suspicious verdict)
                        else Inr SV_Clean))
         | _ \<Rightarrow> Inr SV_Clean)"

section \<open>The work is bounded\<close>

lemma f32_clamp_unit: "x \<noteq> F_NaN \<Longrightarrow> \<exists>r. unit_clamp x = F_Fin r \<and> 0 \<le> r \<and> r \<le> 1"
  unfolding unit_clamp_def by (rule f32_clamp_bounds) simp_all

text \<open>The bytes claimed by a section table, each section clipped to the file.\<close>

definition claimed :: "bytes \<Rightarrow> (u64 \<times> u64) list \<Rightarrow> nat" where
  "claimed bytes sections = (\<Sum>s \<leftarrow> sections. length (section_bytes bytes s))"

lemma claimed_simps [simp]:
  "claimed bytes [] = 0"
  "claimed bytes (s # ss) = length (section_bytes bytes s) + claimed bytes ss"
  by (simp_all add: claimed_def)

lemma entropy_loop_within:
  "claimed bytes ss \<le> left \<Longrightarrow>
     entropy_loop log2 bytes left ov ss = (map (calculate_entropy log2 \<circ> section_bytes bytes) ss, ov)"
  by (induction ss arbitrary: left) (auto simp: Let_def)

lemma entropy_loop_overrun: "snd (entropy_loop log2 bytes left ov ss) \<longleftrightarrow> ov \<or> left < claimed bytes ss"
proof (induction ss arbitrary: left ov)
  case (Cons s ss)
  then show ?case
    by (cases "left < length (section_bytes bytes s)") (auto simp: Let_def split_beta)
qed simp

text \<open>
  What is hashed, section by section: the bytes of the section, or nothing.
\<close>

lemma entropy_loop_hashed:
  "\<exists>hs. fst (entropy_loop log2 bytes left ov ss) = map (case_option (F_Fin 0) (calculate_entropy log2)) hs
        \<and> list_all2 (\<lambda>s h. h = None \<or> h = Some (section_bytes bytes s)) ss hs
        \<and> (\<Sum>h \<leftarrow> hs. case_option 0 length h) \<le> left"
proof (induction ss arbitrary: left ov)
  case (Cons s ss)
  let ?n = "length (section_bytes bytes s)"
  show ?case
  proof (cases "left < ?n")
    case True
    with Cons.IH [of left True] obtain hs where
      "fst (entropy_loop log2 bytes left True ss) = map (case_option (F_Fin 0) (calculate_entropy log2)) hs"
      "list_all2 (\<lambda>s h. h = None \<or> h = Some (section_bytes bytes s)) ss hs"
      "(\<Sum>h \<leftarrow> hs. case_option 0 length h) \<le> left" by blast
    with True show ?thesis by (intro exI [of _ "None # hs"]) (auto simp: Let_def split_beta)
  next
    case False
    with Cons.IH [of "left - ?n" ov] obtain hs where
      "fst (entropy_loop log2 bytes (left - ?n) ov ss)
         = map (case_option (F_Fin 0) (calculate_entropy log2)) hs"
      "list_all2 (\<lambda>s h. h = None \<or> h = Some (section_bytes bytes s)) ss hs"
      "(\<Sum>h \<leftarrow> hs. case_option 0 length h) \<le> left - ?n" by blast
    with False show ?thesis
      by (intro exI [of _ "Some (section_bytes bytes s) # hs"]) (auto simp: Let_def split_beta)
  qed
qed simp

text \<open>
  The reference: packed by its sections when the table claims more than two passes over the file,
  or when hashing every section in full finds a random-looking one.
\<close>

definition packed_sections :: "(rat \<Rightarrow> rat) \<Rightarrow> bytes \<Rightarrow> (u64 \<times> u64) list \<Rightarrow> bool" where
  "packed_sections log2 bytes ss \<longleftrightarrow>
     min (2 * length bytes) usize_max < claimed bytes ss
     \<or> list_ex (\<lambda>s. f32_above 7 (calculate_entropy log2 (section_bytes bytes s))) ss"

lemma packed_by_sections:
  "entropy_by_section log2 bytes ss = (es, ov) \<Longrightarrow>
     ov \<or> list_ex (f32_above 7) es \<longleftrightarrow> packed_sections log2 bytes ss"
  using entropy_loop_overrun [of log2 bytes "min (2 * length bytes) usize_max" False ss]
  by (cases "min (2 * length bytes) usize_max < claimed bytes ss")
    (auto simp: entropy_by_section_def packed_sections_def list_ex_iff entropy_loop_within not_less
      simp del: min_less_iff_conj min.bounded_iff min_less_iff_disj)

text \<open>
  At most two passes over the file are hashed for its section table, whatever the table
  claims: each section is either hashed, as the bytes it has in the file, or left out, and the
  bytes hashed are at most twice the length of the file; a section is left out, and the table
  reported as overrunning, exactly when the sections claim more than that.
\<close>

theorem section_hashing_bounded:
  "\<exists>hs. entropy_by_section log2 bytes sections
          = (map (case_option (F_Fin 0) (calculate_entropy log2)) hs,
             min (2 * length bytes) usize_max < claimed bytes sections)
        \<and> list_all2 (\<lambda>s h. h = None \<or> h = Some (section_bytes bytes s)) sections hs
        \<and> (\<Sum>h \<leftarrow> hs. case_option 0 length h) \<le> 2 * length bytes"
proof -
  let ?r = "entropy_by_section log2 bytes sections"
  obtain hs where hs: "fst ?r = map (case_option (F_Fin 0) (calculate_entropy log2)) hs"
    "list_all2 (\<lambda>s h. h = None \<or> h = Some (section_bytes bytes s)) sections hs"
    "(\<Sum>h \<leftarrow> hs. case_option 0 length h) \<le> min (2 * length bytes) usize_max"
    using entropy_loop_hashed [of log2 bytes "min (2 * length bytes) usize_max" False sections]
    unfolding entropy_by_section_def by blast
  have "snd ?r \<longleftrightarrow> min (2 * length bytes) usize_max < claimed bytes sections"
    by (simp add: entropy_by_section_def entropy_loop_overrun)
  with hs show ?thesis by (intro exI [of _ hs]) (auto simp: prod_eq_iff)
qed

text \<open>
  C35: the bound on the work never hides a packed file: under it, each format is judged packed
  exactly when its table overruns the bound, or hashing every section in full would find one of
  more than 7 bits per byte, or the rule of the format on the whole file holds.
\<close>

theorem packed_exact:
  "(ff_is_packed (from_pe log2 pe bytes n e strs) \<longleftrightarrow>
      packed_sections log2 bytes (pe_section_table pe)
      \<or> length (pe_section_table pe) \<le> 2 \<and> f32_above (34 / 5) e)
   \<and> (ff_is_packed (from_elf log2 elf bytes n e strs) \<longleftrightarrow>
      packed_sections log2 bytes (elf_section_table elf)
      \<or> length (elf_section_table elf) \<le> 3 \<and> f32_above (34 / 5) e)
   \<and> (ff_is_packed (from_single_macho log2 m bytes n e strs) \<longleftrightarrow>
      packed_sections log2 bytes (macho_section_table m) \<or> f32_above 7 e)"
proof (intro conjI)
  note packed = packed_by_sections [symmetric]
  show "ff_is_packed (from_pe log2 pe bytes n e strs) \<longleftrightarrow>
      packed_sections log2 bytes (pe_section_table pe)
      \<or> length (pe_section_table pe) \<le> 2 \<and> f32_above (34 / 5) e"
    by (cases "entropy_by_section log2 bytes (pe_section_table pe)")
      (simp add: from_pe_def Let_def packed, simp add: pe_section_table_def)
  show "ff_is_packed (from_elf log2 elf bytes n e strs) \<longleftrightarrow>
      packed_sections log2 bytes (elf_section_table elf)
      \<or> length (elf_section_table elf) \<le> 3 \<and> f32_above (34 / 5) e"
    by (cases "entropy_by_section log2 bytes (elf_section_table elf)")
      (simp add: from_elf_def Let_def packed, simp add: elf_section_table_def)
  show "ff_is_packed (from_single_macho log2 m bytes n e strs) \<longleftrightarrow>
      packed_sections log2 bytes (macho_section_table m) \<or> f32_above 7 e"
    by (cases "entropy_by_section log2 bytes (macho_section_table m)"; cases "macho_symbols m bytes")
      (simp add: from_single_macho_def Let_def packed)
qed

section \<open>Names\<close>

lemma length_chunks_exact: "n * length (chunks_exact n xs) \<le> length xs"
proof (induction n xs rule: chunks_exact.induct)
  case (1 n xs)
  then show ?case
    by (cases "n = 0 \<or> length xs < n") (auto simp: chunks_exact.simps [of n xs] algebra_simps)
qed

definition read_so_far :: "symbol_scan \<Rightarrow> nat" where
  "read_so_far st = (\<Sum>name \<leftarrow> ss_names st. length name + 1)"

definition scan_ok :: "nat \<Rightarrow> symbol_scan \<Rightarrow> bool" where
  "scan_ok n st \<longleftrightarrow>
     read_so_far st + ss_budget st \<le> n \<and> length (ss_names st) \<le> ss_imports st
     \<and> list_all (\<lambda>name. valid_utf8 name \<and> CHR 0x00 \<notin> set name) (ss_names st)"

lemma length_takeWhile_found: "x \<in> set xs \<Longrightarrow> \<not> P x \<Longrightarrow> length (takeWhile P xs) < length xs"
  by (induction xs) auto

lemma read_symbol_ok:
  assumes "scan_ok n st"
  shows "scan_ok n (read_symbol m strtab st nlist)"
proof -
  define tail where "tail = drop (read_u32 (mo_little_endian m) nlist) strtab"
  define window where "window = take (min (length tail) (ss_budget st)) tail"
  define name where "name = takeWhile (\<lambda>b. b \<noteq> CHR 0x00) window"
  have within: "CHR 0x00 \<in> set window \<Longrightarrow> length name + 1 \<le> ss_budget st"
    using length_takeWhile_found [of "CHR 0x00" window "\<lambda>b. b \<noteq> CHR 0x00"]
    by (simp add: name_def window_def)
  have "CHR 0x00 \<notin> set name" unfolding name_def by (auto dest: set_takeWhileD)
  with assms within show ?thesis
    unfolding read_symbol_def tail_def [symmetric] Let_def window_def [symmetric] name_def [symmetric]
    by (auto simp: scan_ok_def read_so_far_def)
qed

lemma read_symbol_counts:
  "ss_imports (read_symbol m strtab st nlist) + ss_exports (read_symbol m strtab st nlist)
     \<le> ss_imports st + ss_exports st + 1"
  by (simp add: read_symbol_def Let_def)

lemma read_symbols_ok:
  "scan_ok n st \<Longrightarrow> scan_ok n (foldl (read_symbol m strtab) st nlists)"
  by (induction nlists arbitrary: st) (auto intro: read_symbol_ok)

lemma read_symbols_counts:
  "ss_imports (foldl (read_symbol m strtab) st nlists) + ss_exports (foldl (read_symbol m strtab) st nlists)
     \<le> ss_imports st + ss_exports st + length nlists"
proof (induction nlists arbitrary: st)
  case (Cons a nlists)
  show ?case using Cons.IH [of "read_symbol m strtab st a"] read_symbol_counts [of m strtab st a] by simp
qed simp

text \<open>
  Whatever the load commands claim, reading the symbols of a Mach-O file reads no more
  bytes of names than the file has (each with its terminator, even when many symbols share one
  name), counts at most one symbol for every twelve bytes, and hands on only well-formed names
  without a NUL.
\<close>

theorem symbol_reading_bounded:
  "case macho_symbols m bytes of (names, imps, exps) \<Rightarrow>
     (\<Sum>name \<leftarrow> names. length name + 1) \<le> length bytes \<and> length names \<le> imps
     \<and> 12 * (imps + exps) \<le> length bytes
     \<and> list_all (\<lambda>name. valid_utf8 name \<and> CHR 0x00 \<notin> set name) names"
proof -
  obtain names imps exps where res0: "macho_symbols m bytes = (names, imps, exps)"
    by (cases "macho_symbols m bytes")
  have "(\<Sum>name \<leftarrow> names. length name + 1) \<le> length bytes \<and> length names \<le> imps
      \<and> 12 * (imps + exps) \<le> length bytes
      \<and> list_all (\<lambda>name. valid_utf8 name \<and> CHR 0x00 \<notin> set name) names"
  proof (cases "find_map symtab_of (mo_load_commands m)")
    case None
    with res0 show ?thesis by (auto simp: macho_symbols_def)
  next
    case (Some symtab)
    define w where "w = (if mo_is_64 m then 16 else 12 :: nat)"
    define entries where "entries = drop (unat (sy_symoff symtab)) bytes"
    define nlists where "nlists = take (unat (sy_nsyms symtab)) (chunks_exact w entries)"
    define st0 where "st0 = \<lparr>ss_budget = length bytes, ss_names = [], ss_imports = 0, ss_exports = 0\<rparr>"
    define st where "st = foldl (read_symbol m (drop (unat (sy_stroff symtab)) bytes)) st0 nlists"
    have res: "names = ss_names st" "imps = ss_imports st" "exps = ss_exports st"
      using res0 Some
      by (auto simp: macho_symbols_def Let_def st_def st0_def nlists_def entries_def w_def)
    have "scan_ok (length bytes) st"
      unfolding st_def by (rule read_symbols_ok) (simp add: st0_def scan_ok_def read_so_far_def)
    moreover have "imps + exps \<le> length nlists"
      using read_symbols_counts [of m _ st0 nlists] by (simp add: res st_def st0_def)
    moreover have "12 * length nlists \<le> length bytes"
    proof -
      have "12 * length nlists \<le> w * length (chunks_exact w entries)"
        by (rule mult_le_mono) (auto simp: w_def nlists_def)
      also have "\<dots> \<le> length entries" by (rule length_chunks_exact)
      finally show ?thesis by (simp add: entries_def)
    qed
    ultimately show ?thesis by (auto simp: scan_ok_def read_so_far_def res)
  qed
  then show ?thesis by (simp add: res0)
qed

section \<open>Strings\<close>

definition suspicious_run :: "string \<Rightarrow> bool" where
  "suspicious_run run \<longleftrightarrow>
     4 \<le> length run
     \<and> list_ex (str_contains (to_ascii_lowercase run)) (map to_ascii_lowercase SUSPICIOUS_STRING_PATTERNS)"

lemma first_occurrences_snoc:
  "first_occurrences (xs @ [x]) = (if x \<in> set xs then first_occurrences xs else first_occurrences xs @ [x])"
  by (simp add: first_occurrences_def)

lemma check_and_collect_step:
  assumes "found = first_occurrences (filter suspicious_run seen)"
  shows "check_and_collect (map to_ascii_lowercase SUSPICIOUS_STRING_PATTERNS) run found
           = first_occurrences (filter suspicious_run (seen @ [run]))"
  unfolding assms check_and_collect_def
  by (simp add: first_occurrences_snoc suspicious_run_def not_less)

lemma first_occurrences_append: "\<exists>zs. first_occurrences (xs @ ys) = first_occurrences xs @ zs"
proof (induction ys rule: rev_induct)
  case (snoc y ys)
  then show ?case
    using first_occurrences_snoc [of "xs @ ys" y] by auto
qed simp

lemma length_first_snoc:
  "length (first_occurrences (filter P (xs @ [x]))) \<le> length (first_occurrences (filter P xs)) + 1"
  by (simp add: first_occurrences_snoc)

lemma scan_strings_exact:
  assumes "length (first_occurrences (filter suspicious_run seen)) < MAX_SUSPICIOUS_STRINGS"
    and "list_all printable current"
  shows "scan_strings (map to_ascii_lowercase SUSPICIOUS_STRING_PATTERNS) current
           (first_occurrences (filter suspicious_run seen)) bs
         = take MAX_SUSPICIOUS_STRINGS
             (first_occurrences (filter suspicious_run (seen @ split_by (\<lambda>b. \<not> printable b) (current @ bs))))"
  using assms
proof (induction bs arbitrary: current seen)
  case Nil
  have "split_by (\<lambda>b. \<not> printable b) current = [current]"
    using Nil(2) by (intro split_by_none) (simp add: list_all_iff)
  then show ?case
    using Nil(1) length_first_snoc [of suspicious_run seen current]
      check_and_collect_step [OF refl, of current seen] by simp
next
  case (Cons b bs)
  let ?pats = "map to_ascii_lowercase SUSPICIOUS_STRING_PATTERNS"
  show ?case
  proof (cases "printable b")
    case True
    with Cons.IH [of seen "current @ [b]"] Cons.prems show ?thesis by simp
  next
    case False
    let ?now = "first_occurrences (filter suspicious_run (seen @ [current]))"
    have sp: "split_by (\<lambda>b. \<not> printable b) (current @ b # bs) = current # split_by (\<lambda>b. \<not> printable b) bs"
      using False Cons.prems(2) by (intro split_by_append) (simp_all add: list_all_iff)
    have step: "check_and_collect ?pats current (first_occurrences (filter suspicious_run seen)) = ?now"
      by (rule check_and_collect_step [OF refl])
    show ?thesis
    proof (cases "length ?now = MAX_SUSPICIOUS_STRINGS")
      case full: True
      obtain zs where "first_occurrences (filter suspicious_run ((seen @ [current]) @ split_by (\<lambda>b. \<not> printable b) bs)) = ?now @ zs"
        using first_occurrences_append [of "filter suspicious_run (seen @ [current])"] by (metis filter_append)
      with full False step sp show ?thesis by simp
    next
      case more: False
      then have less: "length ?now < MAX_SUSPICIOUS_STRINGS"
        using length_first_snoc [of suspicious_run seen current] Cons.prems(1) by simp
      have "scan_strings ?pats [] ?now bs
          = take MAX_SUSPICIOUS_STRINGS
              (first_occurrences (filter suspicious_run ((seen @ [current]) @ split_by (\<lambda>b. \<not> printable b) ([] @ bs))))"
        by (rule Cons.IH [OF less]) simp
      then show ?thesis using more False step sp by (simp del: filter_append)
    qed
  qed
qed

text \<open>
  The strings collected from a file are the first twenty distinct ones among its suspicious
  runs: the maximal runs of printable characters, at least four long, that contain a pattern
  in any letter case. So there are at most twenty of them however large the file is.
\<close>

theorem suspicious_strings_exact:
  "extract_suspicious_strings bytes
     = take 20 (first_occurrences (filter suspicious_run (split_by (\<lambda>b. \<not> printable b) bytes)))"
  using scan_strings_exact [of "[]" "[]" bytes]
  by (simp add: extract_suspicious_strings_def MAX_SUSPICIOUS_STRINGS_def first_occurrences_def)

section \<open>The score and the stage\<close>

lemma unit_clamp_nonneg: "x \<noteq> F_NaN \<Longrightarrow> f32_nonneg (unit_clamp x)"
  using f32_clamp_unit [of x] by auto

lemma f32_div_not_NaN: "x \<noteq> F_NaN \<Longrightarrow> q \<noteq> 0 \<Longrightarrow> f32_div x (F_Fin q) \<noteq> F_NaN"
  by (cases x) auto

lemma f32_of_nat_not_NaN [simp]: "f32_of_nat n \<noteq> F_NaN"
  by (simp add: f32_of_nat_def)

lemma signal_nonneg:
  "0 < q \<Longrightarrow> x \<noteq> F_NaN \<Longrightarrow> d \<noteq> 0 \<Longrightarrow> f32_nonneg (f32_mul (F_Fin q) (unit_clamp (f32_div x (F_Fin d))))"
  using f32_clamp_unit [of "f32_div x (F_Fin d)"] by (auto simp: f32_div_not_NaN)

lemma f32_lit_1_4 [f32_lits]: "f32_round (1 / 4) = F_Fin (1 / 4)"
  by code_simp

lemma f32_lit_1_20 [f32_lits]: "f32_round (1 / 20) = F_Fin (13421773 / 268435456)"
  by code_simp

lemma f32_lit_1_2 [f32_lits]: "f32_round (1 / 2) = F_Fin (1 / 2)"
  by code_simp

lemma weight_sum: "\<exists>w. f32_sum WEIGHTS = F_Fin w \<and> 0 < w"
proof -
  have "(case f32_sum WEIGHTS of F_Fin w \<Rightarrow> 0 < w | _ \<Rightarrow> False)" by code_simp
  then show ?thesis by (auto split: f32.splits)
qed

lemma weighted_signals_nonneg:
  "ff_entropy f \<noteq> F_NaN \<Longrightarrow> x \<in> set (weighted_signals f) \<Longrightarrow> f32_nonneg x"
  by (auto simp: weighted_signals_def section_signal_def f32_flag_def f32_lits signal_nonneg
      split: if_splits)

lemma heuristic_score_unit:
  assumes "ff_entropy f \<noteq> F_NaN"
  shows "\<exists>r. heuristic_score f = F_Fin r \<and> 0 \<le> r \<and> r \<le> 1"
proof -
  obtain w where w: "f32_sum WEIGHTS = F_Fin w" "0 < w" using weight_sum by auto
  have "f32_nonneg (f32_sum (weighted_signals f))"
    using weighted_signals_nonneg [OF assms] by (intro f32_sum_nonneg) blast
  then have "f32_nonneg (f32_div (f32_sum (weighted_signals f)) (F_Fin w))"
    using w(2) by (rule f32_div_pos_nonneg [rotated])
  then have "f32_div (f32_sum (weighted_signals f)) (F_Fin w) \<noteq> F_NaN" by auto
  then show ?thesis unfolding heuristic_score_def w(1) by (rule f32_clamp_unit)
qed

lemma calculate_entropy_not_NaN [simp]: "calculate_entropy log2 data \<noteq> F_NaN"
  by (simp add: calculate_entropy_def Let_def)

lemma ff_entropy_builders [simp]:
  "ff_entropy (plain_features n e strs) = e"
  "ff_entropy (from_pe log2 pe bytes n e strs) = e"
  "ff_entropy (from_elf log2 elf bytes n e strs) = e"
  "ff_entropy (from_single_macho log2 m bytes n e strs) = e"
  "ff_entropy (from_mach log2 mach bytes n e strs) = e"
  by (simp_all add: plain_features_def from_pe_def from_elf_def from_single_macho_def from_mach_def
      Let_def split_beta split: mach.split option.split)

lemma extract_entropy [simp]:
  "ff_entropy (extract_from_bytes log2 parse bytes) = calculate_entropy log2 bytes"
  by (simp add: extract_from_bytes_def Let_def split: option.split object.split)

text \<open>
  The confidence reported for a file that could be read is a number between 0 and 1,
  whatever its bytes are and whatever the parser makes of them.
\<close>

theorem confidence_in_unit:
  assumes "se_contents env path = Inr bytes"
  shows "\<exists>r. analyze_file env a path = Inr (F_Fin r) \<and> 0 \<le> r \<and> r \<le> 1"
  using heuristic_score_unit [of "extract_from_bytes (se_log2 env) (se_parse env) (take (sa_max_scan_bytes a) bytes)"]
    assms
  by (auto simp: analyze_file_def extract_with_limit_def split: option.split)

text \<open>Thresholds under which a reported verdict counts: both are positive.\<close>

definition static_ok :: "static_ai_stage \<Rightarrow> bool" where
  "static_ok s \<longleftrightarrow>
     f32_lt (F_Fin 0) (sas_malicious_threshold s) \<and> f32_lt (F_Fin 0) (sas_suspicious_threshold s)"

lemma static_ok_new [simp]: "static_ok (static_stage_new p)" "static_ok new_heuristic_only"
  by (simp_all add: static_ok_def static_stage_new_def new_heuristic_only_def f32_lits)

lemma static_ok_max_scan [simp]: "static_ok (with_max_scan_bytes n s) = static_ok s"
  by (simp add: static_ok_def with_max_scan_bytes_def)

lemma static_usable:
  assumes "static_ok s" and "f32_is_finite c"
    and "f32_le (sas_malicious_threshold s) c \<or> f32_le (sas_suspicious_threshold s) c"
  shows "usable (static_verdict env s fe c)"
  using assms unfolding usable_def static_ok_def static_verdict_def
  by (auto intro: f32_lt_le_trans)

lemma inspect_finite: "inspect env a path = Some (Inr c) \<Longrightarrow> f32_is_finite c"
  using heuristic_score_unit [of "extract_from_bytes (se_log2 env) (se_parse env) _"]
  by (fastforce simp: inspect_def analyze_file_def extract_with_limit_def f32_is_finite_iff
      split: option.splits if_splits sum.splits)

interpretation static_contract: guarded_stage static_analyze static_ok
proof
  fix s ev and env :: static_env
  assume s: "static_ok s"
  show "well_reported ev (snd (static_analyze env s ev))"
    by (auto simp: static_analyze_def well_reported_def reports_def Let_def inspect_finite static_usable [OF s]
        split: riggs_event.splits option.splits sum.splits if_splits)
      (simp_all add: static_verdict_def threshold_level_def)
  show "static_ok (fst (static_analyze env s ev))" using s by (simp add: static_analyze_def)
qed

context guarded_stage
begin

lemma guarded_merged:
  "ok s \<Longrightarrow> level_of (snd (analyze e s ev))
     \<le> merge_verdicts_weighted (collect_verdict (snd (analyze e s ev)) vs @ ws) mal sus"
  by (rule reported_merged [OF guarded_reported])

end

lemma static_level:
  assumes "fe_action fe \<in> {Create, Scan}" and "se_join env = None"
    and "inspect env (sas_analyzer s) (fe_path fe) = Some (Inr c)"
  shows "level_of (snd (static_analyze env s (File fe))) = threshold_level s c"
  using assms by (simp add: static_analyze_def threshold_level_def Let_def)

text \<open>
  C36: an executable is scored whatever its name is: a created or scanned regular file of at
  least 64 bytes that begins with an executable signature is reported at the level its score
  has under the thresholds, also under a name the stage otherwise skips, and the merged
  level of the pipeline is at least that, whatever the other stages say.
\<close>

theorem executables_always_scored:
  assumes "static_ok s" and "fe_action fe \<in> {Create, Scan}" and "se_join env = None"
    and "se_metadata env (fe_path fe) = Some (True, len)" and "64 \<le> len"
    and "has_executable_magic env (fe_path fe)" and "se_contents env (fe_path fe) = Inr bytes"
    and "lvl = threshold_level s (heuristic_score (extract_from_bytes (se_log2 env) (se_parse env)
                 (take (sa_max_scan_bytes (sas_analyzer s)) bytes)))"
  shows "level_of (snd (static_analyze env s (File fe))) = lvl
         \<and> lvl \<le> merge_verdicts_weighted (collect_verdict (snd (static_analyze env s (File fe))) vs @ ws) mal sus"
proof -
  have "inspect env (sas_analyzer s) (fe_path fe)
      = Some (Inr (heuristic_score (extract_from_bytes (se_log2 env) (se_parse env)
                 (take (sa_max_scan_bytes (sas_analyzer s)) bytes))))"
    using assms(4-7) by (simp add: inspect_def analyze_file_def extract_with_limit_def split: option.split)
  then have "level_of (snd (static_analyze env s (File fe))) = lvl"
    unfolding assms(8) by (rule static_level [OF assms(2,3)])
  then show ?thesis using static_contract.guarded_merged [OF assms(1), of env "File fe"] by simp
qed

section \<open>A renamed executable\<close>

definition renamed_bytes :: bytes where
  "renamed_bytes = ''MZ'' @ replicate 62 (CHR ''a'')"

definition renamed_env :: static_env where
  "renamed_env =
     \<lparr>se_log2 = (\<lambda>_. - 1), se_parse = (\<lambda>_. None), se_metadata = (\<lambda>_. Some (True, 64)),
      se_head = (\<lambda>_. Some renamed_bytes), se_contents = (\<lambda>_. Inr renamed_bytes), se_join = None, se_now = 0\<rparr>"

definition renamed_file :: file_event where
  "renamed_file =
     \<lparr>fe_event_id = EventId 3, fe_timestamp = 1, fe_context = sample_context, fe_action = Create,
      fe_path = ''/tmp/invoice.txt'', fe_hash = None, fe_fd = None\<rparr>"

lemma renamed_magic: "has_executable_magic renamed_env ''/tmp/invoice.txt''"
  by (simp add: has_executable_magic_def renamed_env_def renamed_bytes_def)

theorem confidence_in_unit_witness:
  "\<exists>r. analyze_file renamed_env analyzer_new_without_model ''/tmp/invoice.txt'' = Inr (F_Fin r) \<and> 0 \<le> r \<and> r \<le> 1"
  by (rule confidence_in_unit [of _ _ renamed_bytes]) (simp add: renamed_env_def)

theorem executables_always_scored_witness:
  "skipped_extension (fe_path renamed_file)
   \<and> level_of (snd (static_analyze renamed_env new_heuristic_only (File renamed_file)))
       = threshold_level new_heuristic_only
           (heuristic_score (extract_from_bytes (\<lambda>_. - 1) (\<lambda>_. None) renamed_bytes))"
proof -
  have cap: "take (sa_max_scan_bytes (sas_analyzer new_heuristic_only)) renamed_bytes = renamed_bytes"
    by (simp add: renamed_bytes_def DEFAULT_MAX_SCAN_BYTES_def new_heuristic_only_def
        analyzer_new_without_model_def)
  have path: "fe_path renamed_file = ''/tmp/invoice.txt''" "fe_action renamed_file \<in> {Create, Scan}"
    by (simp_all add: renamed_file_def)
  have env: "se_join renamed_env = None" "se_metadata renamed_env p = Some (True, 64)"
    "se_contents renamed_env p = Inr renamed_bytes" "se_log2 renamed_env = (\<lambda>_. - 1)"
    "se_parse renamed_env = (\<lambda>_. None)" for p
    by (simp_all add: renamed_env_def)
  have "skipped_extension ''/tmp/invoice.txt''" by code_simp
  moreover note executables_always_scored [of new_heuristic_only renamed_file renamed_env 64 renamed_bytes _
      "[]" "[]" "f32_lit (7 / 10)" "f32_lit (3 / 10)", OF static_ok_new(2) path(2) env(1) env(2) order_refl
      _ env(3) refl]
  ultimately show ?thesis using renamed_magic unfolding path(1) env(4,5) cap by blast
qed

end
