(* ===== verification/Console.thy ===== *)
theory Console
  imports Control
begin

text \<open>
  \<^verbatim>\<open>crates/riggs-cloud\<close> and its use by the daemon: connecting to the management console, enrolling,
  heartbeats and the reports of threats, DLP events and vulnerabilities. The gRPC client is
  generated code over a channel: a call is recorded as the message handed to the channel, and
  its reply is an input. The channel remembers whether it is encrypted and what it was given to
  verify the console with.
\<close>

section \<open>Configuration and connection\<close>

record console_config =
  cc_endpoint :: string
  cc_enrollment_token :: string
  cc_heartbeat_interval_secs :: u64
  cc_tls :: cloud_tls_config
  cc_require_tls :: bool

datatype console_error = CE_Config string | CE_Insecure string | CE_Tls string | CE_Transport string

fun console_error_display :: "console_error \<Rightarrow> string" where
  "console_error_display (CE_Config s) = ''invalid console endpoint: '' @ s"
| "console_error_display (CE_Insecure s) =
     ''refusing to send credentials over an insecure channel: '' @ s"
| "console_error_display (CE_Tls s) = ''failed to read TLS material: '' @ s"
| "console_error_display (CE_Transport s) = ''transport error: '' @ s"

text \<open>What \<^verbatim>\<open>ClientTlsConfig\<close> is built with.\<close>

record client_tls =
  ct_ca_certificate :: string
  ct_identity :: "(string \<times> string) option"
  ct_domain_name :: "string option"

datatype channel = Cleartext string | Encrypted string client_tls

record console_client =
  cl_config :: console_config
  cl_agent_id :: "string option"
  cl_channel :: "channel option"

definition console_client_new :: "console_config \<Rightarrow> console_client" where
  "console_client_new config = \<lparr>cl_config = config, cl_agent_id = None, cl_channel = None\<rparr>"

text \<open>
  The environment of a connection: whether the endpoint is a valid URI, the contents of the PEM
  files, and whether the transport accepts the TLS configuration and connects.
\<close>

record console_env =
  ce_uri_error :: "string \<Rightarrow> string option"
  ce_read :: "string \<Rightarrow> string + string"
  ce_tls_error :: "client_tls \<Rightarrow> string option"
  ce_connect_error :: "string option"

definition read_pem :: "console_env \<Rightarrow> string \<Rightarrow> string \<Rightarrow> console_error + string" where
  "read_pem env what path =
     (case ce_read env path of
        Inl e \<Rightarrow> Inl (CE_Tls (''reading '' @ what @ '' '' @ path @ '': '' @ e))
      | Inr pem \<Rightarrow> Inr pem)"

definition client_identity ::
  "console_env \<Rightarrow> cloud_tls_config \<Rightarrow> console_error + (string \<times> string) option" where
  "client_identity env tls =
     (case (tls_client_cert_path tls, tls_client_key_path tls) of
        (Some cert_path, Some key_path) \<Rightarrow>
          (case read_pem env ''client_cert_path'' cert_path of
             Inl e \<Rightarrow> Inl e
           | Inr cert \<Rightarrow>
               (case read_pem env ''client_key_path'' key_path of
                  Inl e \<Rightarrow> Inl e
                | Inr k \<Rightarrow> Inr (Some (cert, k))))
      | (None, None) \<Rightarrow> Inr None
      | _ \<Rightarrow> Inl (CE_Tls ''comms.tls.client_cert_path and client_key_path must be set together''))"

definition build_tls_config :: "console_env \<Rightarrow> console_client \<Rightarrow> console_error + client_tls" where
  "build_tls_config env c =
     (let tls = cc_tls (cl_config c) in
      case tls_ca_cert_path tls of
        None \<Rightarrow> Inl (CE_Tls ''comms.tls.ca_cert_path is required for an https console endpoint'')
      | Some ca_path \<Rightarrow>
          (case read_pem env ''ca_cert_path'' ca_path of
             Inl e \<Rightarrow> Inl e
           | Inr ca_pem \<Rightarrow>
               (case client_identity env tls of
                  Inl e \<Rightarrow> Inl e
                | Inr identity \<Rightarrow>
                    Inr \<lparr>ct_ca_certificate = ca_pem, ct_identity = identity,
                         ct_domain_name = tls_domain_name tls\<rparr>)))"

text \<open>How the channel is to be set up: encrypted, refused, or in the clear.\<close>

definition choose_channel :: "console_env \<Rightarrow> console_client \<Rightarrow> console_error + channel" where
  "choose_channel env c =
     (let endpoint = cc_endpoint (cl_config c) in
      if starts_with endpoint ''https://'' then
        (case build_tls_config env c of
           Inl e \<Rightarrow> Inl e
         | Inr tls \<Rightarrow>
             (case ce_tls_error env tls of
                Some e \<Rightarrow> Inl (CE_Transport e)
              | None \<Rightarrow> Inr (Encrypted endpoint tls)))
      else if cc_require_tls (cl_config c) \<and> cc_enrollment_token (cl_config c) \<noteq> [] then
        Inl (CE_Insecure (''console endpoint '' @ endpoint @
          '' is not https and comms.require_tls is set; use an https:// endpoint with [comms.tls] certificates, or set comms.require_tls = false to allow cleartext''))
      else Inr (Cleartext endpoint))"

definition connect :: "console_env \<Rightarrow> console_client \<Rightarrow> console_client \<times> console_error option" where
  "connect env c =
     (let endpoint = cc_endpoint (cl_config c) in
      case ce_uri_error env endpoint of
        Some e \<Rightarrow> (c, Some (CE_Config (endpoint @ '': '' @ e)))
      | None \<Rightarrow>
          (case choose_channel env c of
             Inl e \<Rightarrow> (c, Some e)
           | Inr ch \<Rightarrow>
               (case ce_connect_error env of
                  Some e \<Rightarrow> (c, Some (CE_Transport e))
                | None \<Rightarrow> (c\<lparr>cl_channel := Some ch\<rparr>, None))))"

section \<open>Messages\<close>

record enroll_request =
  en_hostname :: string
  en_os :: string
  en_os_version :: string
  en_arch :: string
  en_agent_version :: string
  en_ip_address :: string
  en_mac_address :: string
  en_enrollment_token :: string

record agent_health =
  ah_events_processed :: u64
  ah_threats_detected :: u64
  ah_dlp_blocks :: u64
  ah_sensor_healthy :: bool
  ah_pipeline_latency_us :: u64
  ah_store_size_bytes :: u64
  ah_uptime_secs :: u64
  ah_agent_version :: string
  ah_config_version :: nat

record verdict_detail =
  vd_source :: string
  vd_threat_level :: string
  vd_confidence :: f32
  vd_description :: string

record threat_report =
  tr_agent_id :: string
  tr_event_id :: string
  tr_storyline_id :: string
  tr_threat_level :: string
  tr_final_score :: f32
  tr_verdicts :: "verdict_detail list"
  tr_process_name :: string
  tr_process_path :: string
  tr_summary :: string

record dlp_event_report =
  de_agent_id :: string
  de_action :: string
  de_pid :: u32
  de_process_name :: string
  de_file_path :: string
  de_file_type :: string
  de_domain :: string
  de_domain_category :: string
  de_username :: string

record vuln_finding =
  vf_cve_id :: string
  vf_package_name :: string
  vf_package_version :: string
  vf_package_source :: string
  vf_cvss_score :: f32
  vf_severity :: string
  vf_fixed_version :: string

datatype console_message =
    Msg_Enroll enroll_request
  | Msg_Heartbeat string agent_health
  | Msg_Threat threat_report
  | Msg_Dlp dlp_event_report
  | Msg_Vuln string "vuln_finding list"

text \<open>A call over the channel of a client: the message goes out, or there is no channel.\<close>

definition grpc_client :: "console_client \<Rightarrow> channel option" where
  "grpc_client c = cl_channel c"

definition grpc_send :: "console_client \<Rightarrow> console_message \<Rightarrow> (channel \<times> console_message) list" where
  "grpc_send c m = (case grpc_client c of None \<Rightarrow> [] | Some ch \<Rightarrow> [(ch, m)])"

text \<open>What \<^verbatim>\<open>sysinfo\<close>, the build and a probing UDP socket say about the host.\<close>

record host_info =
  hi_host_name :: "string option"
  hi_os_name :: "string option"
  hi_os_version :: "string option"
  hi_arch :: string
  hi_agent_version :: string
  hi_local_addr :: "string option"
  hi_uptime :: u64

definition or_else :: "string option \<Rightarrow> string \<Rightarrow> string" where
  "or_else x d = (case x of Some s \<Rightarrow> s | None \<Rightarrow> d)"

definition enroll_request_of :: "host_info \<Rightarrow> console_client \<Rightarrow> enroll_request" where
  "enroll_request_of hi c =
     \<lparr>en_hostname = or_else (hi_host_name hi) ''unknown'', en_os = or_else (hi_os_name hi) ''Linux'',
      en_os_version = or_else (hi_os_version hi) ''unknown'', en_arch = hi_arch hi,
      en_agent_version = hi_agent_version hi, en_ip_address = or_else (hi_local_addr hi) ''0.0.0.0'',
      en_mac_address = [], en_enrollment_token = cc_enrollment_token (cl_config c)\<rparr>"

text \<open>\<^verbatim>\<open>enroll\<close>: what is sent and the result, given the console's reply.\<close>

definition enroll ::
  "host_info \<Rightarrow> string + string \<Rightarrow> console_client
   \<Rightarrow> (channel \<times> console_message) list \<times> (string + string)" where
  "enroll hi reply c =
     (case grpc_client c of
        None \<Rightarrow> ([], Inl ''not connected to console'')
      | Some ch \<Rightarrow> ([(ch, Msg_Enroll (enroll_request_of hi c))], reply))"

definition build_health :: "host_info \<Rightarrow> u64 \<Rightarrow> u64 \<Rightarrow> agent_health" where
  "build_health hi events threats =
     \<lparr>ah_events_processed = events, ah_threats_detected = threats, ah_dlp_blocks = 0,
      ah_sensor_healthy = True, ah_pipeline_latency_us = 0, ah_store_size_bytes = 0,
      ah_uptime_secs = hi_uptime hi, ah_agent_version = hi_agent_version hi, ah_config_version = 1\<rparr>"

definition heartbeat_tick ::
  "host_info \<Rightarrow> u64 \<Rightarrow> u64 \<Rightarrow> string \<Rightarrow> console_client \<Rightarrow> (channel \<times> console_message) list" where
  "heartbeat_tick hi events threats agent_id c =
     grpc_send c (Msg_Heartbeat agent_id (build_health hi events threats))"

text \<open>\<^verbatim>\<open>Uuid\<close> as text: 32 hexadecimal digits in groups of 8, 4, 4, 4 and 12.\<close>

definition uuid_digits :: "uuid \<Rightarrow> string" where
  "uuid_digits u = map (\<lambda>i. hex_digit (unat (drop_bit (4 * (31 - i)) u) mod 16)) [0 ..< 32]"

definition uuid_display :: "uuid \<Rightarrow> string" where
  "uuid_display u =
     (let d = uuid_digits u
      in take 8 d @ ''-'' @ take 4 (drop 8 d) @ ''-'' @ take 4 (drop 12 d) @ ''-''
         @ take 4 (drop 16 d) @ ''-'' @ drop 20 d)"

fun event_id_display :: "event_id \<Rightarrow> string" where
  "event_id_display (EventId u) = uuid_display u"

fun storyline_id_display :: "storyline_id \<Rightarrow> string" where
  "storyline_id_display (StorylineId u) = uuid_display u"

fun report_level :: "threat_level \<Rightarrow> string option" where
  "report_level Suspicious = Some ''suspicious''"
| "report_level Malicious = Some ''malicious''"
| "report_level Clean = None"

definition verdict_detail_of :: "verdict \<Rightarrow> verdict_detail" where
  "verdict_detail_of v =
     \<lparr>vd_source = detection_source_display (v_source v),
      vd_threat_level = to_ascii_lowercase (threat_level_display (v_threat_level v)),
      vd_confidence = v_confidence v, vd_description = v_description v\<rparr>"

definition threat_report_of :: "string \<Rightarrow> string \<Rightarrow> merged_verdict \<Rightarrow> threat_report" where
  "threat_report_of agent_id level mv =
     \<lparr>tr_agent_id = agent_id, tr_event_id = event_id_display (mv_event_id mv),
      tr_storyline_id = storyline_id_display (mv_storyline_id mv), tr_threat_level = level,
      tr_final_score = foldl f32_max (F_Fin 0) (map v_confidence (mv_verdicts mv)),
      tr_verdicts = map verdict_detail_of (mv_verdicts mv), tr_process_name = [], tr_process_path = [],
      tr_summary = level @ '' detected by '' @ show_nat (length (mv_verdicts mv)) @ '' engines''\<rparr>"

definition report_threat :: "console_client \<Rightarrow> string \<Rightarrow> merged_verdict \<Rightarrow> (channel \<times> console_message) list" where
  "report_threat c agent_id mv =
     (case report_level (mv_final_threat_level mv) of
        None \<Rightarrow> []
      | Some level \<Rightarrow> grpc_send c (Msg_Threat (threat_report_of agent_id level mv)))"

definition run_threat_reporter ::
  "console_client \<Rightarrow> string \<Rightarrow> merged_verdict list \<Rightarrow> (channel \<times> console_message) list" where
  "run_threat_reporter c agent_id mvs = concat (map (report_threat c agent_id) mvs)"

fun dlp_report_action :: "flow_action \<Rightarrow> string option" where
  "dlp_report_action Flow_Block = Some ''block''"
| "dlp_report_action Flow_Alert = Some ''alert''"
| "dlp_report_action Flow_Allow = None"

definition dlp_report_of :: "string \<Rightarrow> string \<Rightarrow> dlp_detection \<Rightarrow> dlp_event_report" where
  "dlp_report_of agent_id action det =
     \<lparr>de_agent_id = agent_id, de_action = action, de_pid = dd_pid det,
      de_process_name = dd_process_name det, de_file_path = dd_file_path det,
      de_file_type = dd_file_type det, de_domain = dd_domain det, de_domain_category = [],
      de_username = dd_username det\<rparr>"

definition report_dlp :: "console_client \<Rightarrow> string \<Rightarrow> dlp_detection \<Rightarrow> (channel \<times> console_message) list" where
  "report_dlp c agent_id det =
     (case dlp_report_action (dd_action det) of
        None \<Rightarrow> []
      | Some action \<Rightarrow> grpc_send c (Msg_Dlp (dlp_report_of agent_id action det)))"

definition run_dlp_reporter ::
  "console_client \<Rightarrow> string \<Rightarrow> dlp_detection list \<Rightarrow> (channel \<times> console_message) list" where
  "run_dlp_reporter c agent_id dets = concat (map (report_dlp c agent_id) dets)"

definition vuln_finding_of :: "vuln_match \<Rightarrow> vuln_finding" where
  "vuln_finding_of m =
     \<lparr>vf_cve_id = cve_id (vm_cve m), vf_package_name = vm_package_name m,
      vf_package_version = vm_installed_version m, vf_package_source = [],
      vf_cvss_score = cvss_score (vm_cve m), vf_severity = finding_severity (cve_level (vm_cve m)),
      vf_fixed_version = or_else (fixed_version (vm_cve m)) []\<rparr>"

definition report_to_console ::
  "(console_client \<times> string) option \<Rightarrow> vuln_report \<Rightarrow> (channel \<times> console_message) list" where
  "report_to_console slot report =
     (case slot of
        None \<Rightarrow> []
      | Some (c, agent_id) \<Rightarrow>
          grpc_send c (Msg_Vuln agent_id (map vuln_finding_of (vr_vulnerabilities report))))"

section \<open>Start-up of the console connection\<close>

text \<open>
  The part of the daemon's start-up that connects: the slot that the reporters and the scan use,
  and what was sent on the way.
\<close>

definition start_console ::
  "comms_config \<Rightarrow> console_env \<Rightarrow> host_info \<Rightarrow> string + string
   \<Rightarrow> (console_client \<times> string) option \<times> (channel \<times> console_message) list" where
  "start_console cm env hi reply =
     (if \<not> cm_cloud_enabled cm then (None, [])
      else case (cm_cloud_endpoint cm, cm_enrollment_token cm) of
        (Some endpoint, Some token) \<Rightarrow>
          (let cc = console_client_new
                      \<lparr>cc_endpoint = endpoint, cc_enrollment_token = token,
                       cc_heartbeat_interval_secs = cm_heartbeat_interval_secs cm,
                       cc_tls = cm_tls cm, cc_require_tls = cm_require_tls cm\<rparr>
           in case connect env cc of
                (cc', Some _) \<Rightarrow> (None, [])
              | (cc', None) \<Rightarrow>
                  (case enroll hi reply cc' of
                     (msgs, Inl _) \<Rightarrow> (None, msgs)
                   | (msgs, Inr agent_id) \<Rightarrow> (Some (cc'\<lparr>cl_agent_id := Some agent_id\<rparr>, agent_id), msgs)))
      | _ \<Rightarrow> (None, []))"

text \<open>What the tasks started afterwards send over the slot.\<close>

datatype console_activity =
    Act_Heartbeat host_info u64 u64
  | Act_Threats "merged_verdict list"
  | Act_Dlp "dlp_detection list"
  | Act_Vuln vuln_report

fun activity_sends :: "(console_client \<times> string) option \<Rightarrow> console_activity \<Rightarrow> (channel \<times> console_message) list" where
  "activity_sends None act = []"
| "activity_sends (Some (c, agent_id)) act =
     (case act of
        Act_Heartbeat hi ev th \<Rightarrow> heartbeat_tick hi ev th agent_id c
      | Act_Threats mvs \<Rightarrow> run_threat_reporter c agent_id mvs
      | Act_Dlp dets \<Rightarrow> run_dlp_reporter c agent_id dets
      | Act_Vuln report \<Rightarrow> report_to_console (Some (c, agent_id)) report)"

definition console_session ::
  "comms_config \<Rightarrow> console_env \<Rightarrow> host_info \<Rightarrow> string + string \<Rightarrow> console_activity list
   \<Rightarrow> (channel \<times> console_message) list" where
  "console_session cm env hi reply acts =
     (let (slot, msgs) = start_console cm env hi reply
      in msgs @ concat (map (activity_sends slot) acts))"

section \<open>Facts\<close>

text \<open>A channel that is encrypted and verifies the console with the configured authority.\<close>

definition authenticated :: "console_env \<Rightarrow> console_config \<Rightarrow> channel \<Rightarrow> bool" where
  "authenticated env cfg ch \<longleftrightarrow>
     (\<exists>tls ca. ch = Encrypted (cc_endpoint cfg) tls \<and> starts_with (cc_endpoint cfg) ''https://''
        \<and> tls_ca_cert_path (cc_tls cfg) = Some ca \<and> ce_read env ca = Inr (ct_ca_certificate tls)
        \<and> ct_domain_name tls = tls_domain_name (cc_tls cfg))"

lemma build_tls_config_ca:
  "build_tls_config env c = Inr tls \<Longrightarrow>
     (\<exists>ca. tls_ca_cert_path (cc_tls (cl_config c)) = Some ca \<and> ce_read env ca = Inr (ct_ca_certificate tls))
     \<and> ct_domain_name tls = tls_domain_name (cc_tls (cl_config c))"
  by (auto simp: build_tls_config_def read_pem_def Let_def split: option.splits sum.splits)

lemma choose_channel_secure:
  assumes "choose_channel env c = Inr ch" and "cc_require_tls (cl_config c)"
    and "cc_enrollment_token (cl_config c) \<noteq> []"
  shows "authenticated env (cl_config c) ch"
  using assms build_tls_config_ca [of env c]
  by (auto simp: choose_channel_def authenticated_def Let_def split: if_splits sum.splits option.splits)

lemma connect_config [simp]: "cl_config (fst (connect env c)) = cl_config c"
  by (simp add: connect_def Let_def split: option.split sum.split)

lemma connect_channel:
  "connect env c = (c', None) \<Longrightarrow> \<exists>ch. choose_channel env c = Inr ch \<and> c' = c\<lparr>cl_channel := Some ch\<rparr>"
  by (auto simp: connect_def Let_def split: option.splits sum.splits)

text \<open>Everything a client sends goes over its channel.\<close>

definition over :: "(channel \<Rightarrow> bool) \<Rightarrow> (channel \<times> console_message) list \<Rightarrow> bool" where
  "over P msgs \<longleftrightarrow> list_all (\<lambda>(ch, m). P ch) msgs"

lemma over_simps [simp]:
  "over P []" "over P (x # xs) \<longleftrightarrow> P (fst x) \<and> over P xs" "over P (xs @ ys) \<longleftrightarrow> over P xs \<and> over P ys"
  "over P (concat xss) \<longleftrightarrow> list_all (over P) xss"
  by (auto simp: over_def list_all_iff)

lemma grpc_send_over: "pred_option P (cl_channel c) \<Longrightarrow> over P (grpc_send c m)"
  by (cases "cl_channel c") (simp_all add: grpc_send_def grpc_client_def)

lemma activity_over:
  "pred_option P (cl_channel c) \<Longrightarrow> over P (activity_sends (Some (c, agent_id)) act)"
  by (cases act)
    (auto simp: heartbeat_tick_def run_threat_reporter_def run_dlp_reporter_def report_to_console_def
      report_threat_def report_dlp_def list_all_iff grpc_send_over split: option.split)

lemma start_console_over:
  assumes "start_console cm env hi reply = (slot, msgs)" and "cm_require_tls cm"
    and "cm_enrollment_token cm = Some token" and "token \<noteq> []"
  shows "\<exists>cfg. pred_option (\<lambda>(c, _). pred_option (authenticated env cfg) (cl_channel c)) slot
               \<and> over (authenticated env cfg) msgs \<and> cc_tls cfg = cm_tls cm
               \<and> (\<forall>endpoint. cm_cloud_endpoint cm = Some endpoint \<longrightarrow> cc_endpoint cfg = endpoint)"
proof (cases "cm_cloud_endpoint cm")
  case None
  have "slot = None" "msgs = []"
    using assms(1) None by (auto simp: start_console_def split: if_splits)
  then show ?thesis
    using None by (intro exI [of _ "\<lparr>cc_endpoint = [], cc_enrollment_token = [], cc_heartbeat_interval_secs = 0,
      cc_tls = cm_tls cm, cc_require_tls = True\<rparr>"]) simp
next
  case (Some endpoint)
  define cfg where "cfg = \<lparr>cc_endpoint = endpoint, cc_enrollment_token = token,
    cc_heartbeat_interval_secs = cm_heartbeat_interval_secs cm, cc_tls = cm_tls cm, cc_require_tls = cm_require_tls cm\<rparr>"
  obtain c' r where con: "connect env (console_client_new cfg) = (c', r)" by force
  have ch: "r = None \<Longrightarrow> pred_option (authenticated env cfg) (cl_channel c')"
    using connect_channel [of env "console_client_new cfg" c'] con
      choose_channel_secure [of env "console_client_new cfg"] assms(2,4)
    by (auto simp: console_client_new_def cfg_def)
  have "pred_option (\<lambda>(c, _). pred_option (authenticated env cfg) (cl_channel c)) slot
      \<and> over (authenticated env cfg) msgs"
    using assms(1,3) Some con ch unfolding start_console_def cfg_def [symmetric] Let_def
    by (auto simp: cfg_def [symmetric] enroll_def grpc_client_def
        split: if_splits option.splits sum.splits prod.splits)
  then show ?thesis using Some by (intro exI [of _ cfg]) (simp add: cfg_def)
qed

text \<open>
  C34: with TLS required and an enrollment token set, nothing ever goes to the console in the
  clear: neither the token nor any heartbeat, threat, DLP or vulnerability report. Every
  message of a session travels over a channel that is encrypted and that verifies the
  console's certificate with the configured authority and name.
\<close>

theorem console_only_encrypted:
  assumes "cm_require_tls cm" and "cm_enrollment_token cm = Some token" and "token \<noteq> []"
  shows "\<exists>cfg. cc_tls cfg = cm_tls cm
               \<and> list_all (\<lambda>(ch, m). authenticated env cfg ch) (console_session cm env hi reply acts)"
proof -
  obtain slot msgs where start: "start_console cm env hi reply = (slot, msgs)" by force
  from start_console_over [OF this assms] obtain cfg where cfg:
    "pred_option (\<lambda>(c, _). pred_option (authenticated env cfg) (cl_channel c)) slot"
    "over (authenticated env cfg) msgs" "cc_tls cfg = cm_tls cm" by blast
  have "over (authenticated env cfg) (activity_sends slot act)" for act
    using cfg(1) by (cases slot) (auto intro: activity_over)
  then have "over (authenticated env cfg) (console_session cm env hi reply acts)"
    using cfg(2) start by (simp add: console_session_def list_all_iff)
  then show ?thesis using cfg(3) by (auto simp: over_def)
qed

text \<open>
  Over a connected client the threat reporter sends one report for each verdict above Clean, in
  the order of the verdicts, and none for the others.
\<close>

theorem threats_reported_in_order:
  assumes "cl_channel c = Some ch"
  shows "run_threat_reporter c agent_id mvs =
           map (\<lambda>mv. (ch, Msg_Threat (threat_report_of agent_id
                    (to_ascii_lowercase (threat_level_display (mv_final_threat_level mv))) mv)))
             (filter (\<lambda>mv. mv_final_threat_level mv \<noteq> Clean) mvs)"
proof -
  have names: "to_ascii_lowercase (threat_level_display Suspicious) = ''suspicious''"
    "to_ascii_lowercase (threat_level_display Malicious) = ''malicious''" by code_simp+
  have one: "report_threat c agent_id mv =
      (if mv_final_threat_level mv = Clean then []
       else [(ch, Msg_Threat (threat_report_of agent_id
                    (to_ascii_lowercase (threat_level_display (mv_final_threat_level mv))) mv))])" for mv
    using assms
    by (cases "mv_final_threat_level mv")
      (simp_all add: report_threat_def grpc_send_def grpc_client_def names del: threat_level_display.simps)
  show ?thesis unfolding run_threat_reporter_def by (induction mvs) (simp_all add: one)
qed

section \<open>A session\<close>

definition sample_cloud :: comms_config where
  "sample_cloud =
     \<lparr>cm_socket_path = ''/tmp/riggs.sock'', cm_filter_socket_path = ''/tmp/filter.sock'',
      cm_cloud_enabled = True, cm_cloud_endpoint = Some ''https://murtaugh:4001'',
      cm_enrollment_token = Some ''secret'', cm_heartbeat_interval_secs = 30,
      cm_tls = cloud_tls_config_default\<lparr>tls_ca_cert_path := Some ''/etc/riggs/ca.pem''\<rparr>,
      cm_require_tls = True, cm_ipc_max_message_bytes = 64, cm_ipc_max_connections = 2\<rparr>"

definition sample_console_env :: console_env where
  "sample_console_env =
     \<lparr>ce_uri_error = (\<lambda>_. None), ce_read = (\<lambda>_. Inr ''CA''), ce_tls_error = (\<lambda>_. None), ce_connect_error = None\<rparr>"

definition sample_host_info :: host_info where
  "sample_host_info =
     \<lparr>hi_host_name = Some ''ws1'', hi_os_name = None, hi_os_version = None, hi_arch = ''x86_64'',
      hi_agent_version = ''0.1.0'', hi_local_addr = None, hi_uptime = 5\<rparr>"

theorem console_only_encrypted_witness:
  "length (console_session sample_cloud sample_console_env sample_host_info (Inr ''agent-1'')
             [Act_Heartbeat sample_host_info 3 1]) = 2
   \<and> (\<exists>cfg. cc_tls cfg = cm_tls sample_cloud
        \<and> list_all (\<lambda>(ch, m). authenticated sample_console_env cfg ch)
            (console_session sample_cloud sample_console_env sample_host_info (Inr ''agent-1'')
               [Act_Heartbeat sample_host_info 3 1]))"
proof
  show "length (console_session sample_cloud sample_console_env sample_host_info (Inr ''agent-1'')
             [Act_Heartbeat sample_host_info 3 1]) = 2"
    by code_simp
  show "\<exists>cfg. cc_tls cfg = cm_tls sample_cloud
        \<and> list_all (\<lambda>(ch, m). authenticated sample_console_env cfg ch)
            (console_session sample_cloud sample_console_env sample_host_info (Inr ''agent-1'')
               [Act_Heartbeat sample_host_info 3 1])"
    by (rule console_only_encrypted [of _ "''secret''"]) (simp_all add: sample_cloud_def)
qed

end
