(* ===== verification/Discovery.thy ===== *)
theory Discovery
  imports Addresses Text_Ops
begin

text \<open>
  \<^verbatim>\<open>crates/riggs-discovery\<close>: the active ARP scan of a subnet and passive discovery. The packets of
  \<^verbatim>\<open>pnet\<close> are records with the fields the code writes or reads; interfaces, the data-link channel,
  the clock and what is received are inputs. IPv4 addresses are 32-bit words, host byte order.
\<close>

unbundle bit_operations_syntax

section \<open>Subnets\<close>

datatype scan_error = ScanIo string | InvalidCidr string | ScanOther string

fun scan_error_display :: "scan_error \<Rightarrow> string" where
  "scan_error_display (ScanIo s) = ''IO error: '' @ s"
| "scan_error_display (InvalidCidr s) = ''Invalid CIDR: '' @ s"
| "scan_error_display (ScanOther s) = ''Scan error: '' @ s"

text \<open>\<^verbatim>\<open>Ipv4Addr::from_str\<close>: four decimal numbers below 256, without leading zeros.\<close>

definition parse_octet :: "string \<Rightarrow> nat option" where
  "parse_octet s =
     (if s \<noteq> [] \<and> length s \<le> 3 \<and> list_all is_digit s \<and> (length s = 1 \<or> hd s \<noteq> CHR ''0'')
         \<and> digits_value 0 s < 256
      then Some (digits_value 0 s) else None)"

definition parse_ipv4 :: "string \<Rightarrow> u32 option" where
  "parse_ipv4 s =
     (case map parse_octet (split_by (\<lambda>c. c = CHR ''.'') s) of
        [Some a, Some b, Some c, Some d] \<Rightarrow> Some (((of_nat a * 256 + of_nat b) * 256 + of_nat c) * 256 + of_nat d)
      | _ \<Rightarrow> None)"

definition parse_cidr :: "string \<Rightarrow> scan_error + (u32 \<times> nat)" where
  "parse_cidr cidr =
     (case split_by (\<lambda>c. c = CHR ''/'') cidr of
        [a, p] \<Rightarrow>
          (case parse_ipv4 a of
             None \<Rightarrow> Inl (InvalidCidr (''invalid IP: '' @ a))
           | Some ip \<Rightarrow>
               (case parse_unsigned 256 p of
                  None \<Rightarrow> Inl (InvalidCidr (''invalid prefix: '' @ p))
                | Some prefix \<Rightarrow>
                    if 32 < prefix then Inl (InvalidCidr (''prefix too large: '' @ show_nat prefix))
                    else Inr (ip, prefix)))
      | _ \<Rightarrow> Inl (InvalidCidr (''expected IP/prefix: '' @ cidr)))"

definition host_mask :: "nat \<Rightarrow> u32" where
  "host_mask prefix = NOT (push_bit (32 - prefix) 1 - 1)"

definition enumerate_hosts :: "u32 \<Rightarrow> nat \<Rightarrow> u32 list" where
  "enumerate_hosts base prefix =
     (if prefix = 0 then []
      else if 31 \<le> prefix then [base]
      else let msk = host_mask prefix;
               network = base AND msk;
               broadcast = network OR NOT msk
           in map of_nat [unat (network + 1) ..< unat broadcast])"

section \<open>Interfaces and packets\<close>

record network_interface =
  if_name :: string
  if_loopback :: bool
  if_up :: bool
  if_ips :: "ip_addr list"
  if_mac :: "string option"

definition find_interface_for_subnet :: "network_interface list \<Rightarrow> u32 \<Rightarrow> nat \<Rightarrow> network_interface option" where
  "find_interface_for_subnet ifaces target prefix =
     (let msk = (if prefix = 0 then 0 else if 32 \<le> prefix then - 1 else host_mask prefix);
          target_network = target AND msk
      in List.find
           (\<lambda>iface. \<not> if_loopback iface
              \<and> list_ex (\<lambda>ip. case ip of V4 v4 \<Rightarrow> v4 AND msk = target_network | V6 _ \<Rightarrow> False) (if_ips iface))
           ifaces)"

datatype arp_operation = ArpRequest | ArpReply | ArpOther

record arp_frame =
  af_destination :: string
  af_operation :: arp_operation
  af_sender_mac :: string
  af_sender_ip :: u32
  af_target_mac :: string
  af_target_ip :: u32

definition build_arp_request :: "string \<Rightarrow> u32 \<Rightarrow> u32 \<Rightarrow> arp_frame" where
  "build_arp_request source_mac source_ip target_ip =
     \<lparr>af_destination = ''ff:ff:ff:ff:ff:ff'', af_operation = ArpRequest, af_sender_mac = source_mac,
      af_sender_ip = source_ip, af_target_mac = ''00:00:00:00:00:00'', af_target_ip = target_ip\<rparr>"

record discovered_device =
  dv_ip :: ip_addr
  dv_mac :: "string option"
  dv_hostname :: "string option"
  dv_os_fingerprint :: "string option"
  dv_open_ports :: "u16 list"
  dv_first_seen :: timestamp
  dv_last_seen :: timestamp

text \<open>
  One turn of a receive loop: the clock at its head, and what \<^verbatim>\<open>receiver.next()\<close> gives: an ARP
  packet, some other frame, the expiry of the poll time-out, or a failure of the channel.
\<close>

datatype reception = Got_Arp arp_frame | Got_Other | Poll_Timeout | Read_Failed

definition ARP_REPLY_WAIT :: duration where "ARP_REPLY_WAIT = seconds 3"

fun collect_arp_replies ::
  "timestamp \<Rightarrow> (timestamp \<times> reception) list \<Rightarrow> (u32, string) hmap \<Rightarrow> (u32, string) hmap" where
  "collect_arp_replies deadline [] found = found"
| "collect_arp_replies deadline ((now, r) # rs) found =
     (if \<not> now < deadline then found
      else case r of
        Got_Arp a \<Rightarrow>
          collect_arp_replies deadline rs
            (if af_operation a = ArpReply then hm_insert (af_sender_ip a) (af_sender_mac a) found else found)
      | Got_Other \<Rightarrow> collect_arp_replies deadline rs found
      | Poll_Timeout \<Rightarrow> collect_arp_replies deadline rs found
      | Read_Failed \<Rightarrow> found)"

fun sniff_arp_traffic ::
  "timestamp \<Rightarrow> (timestamp \<times> reception) list \<Rightarrow> (ip_addr, string option) hmap \<Rightarrow> (ip_addr, string option) hmap" where
  "sniff_arp_traffic deadline [] seen = seen"
| "sniff_arp_traffic deadline ((now, r) # rs) seen =
     (if \<not> now < deadline then seen
      else case r of
        Got_Arp a \<Rightarrow>
          sniff_arp_traffic deadline rs
            (case hm_get seen (V4 (af_sender_ip a)) of
               Some _ \<Rightarrow> seen
             | None \<Rightarrow> hm_insert (V4 (af_sender_ip a)) (Some (af_sender_mac a)) seen)
      | Got_Other \<Rightarrow> sniff_arp_traffic deadline rs seen
      | Poll_Timeout \<Rightarrow> sniff_arp_traffic deadline rs seen
      | Read_Failed \<Rightarrow> seen)"

definition device_at :: "timestamp \<Rightarrow> ip_addr \<Rightarrow> string option \<Rightarrow> discovered_device" where
  "device_at now ip mac =
     \<lparr>dv_ip = ip, dv_mac = mac, dv_hostname = None, dv_os_fingerprint = None, dv_open_ports = [],
      dv_first_seen = now, dv_last_seen = now\<rparr>"

section \<open>Scans\<close>

datatype channel_result = Ethernet | OtherChannel | ChannelError string

text \<open>
  The environment of a scan. \<open>dl_send\<close> says what sending a frame gives: nothing, an error, or
  success.
\<close>

datatype send_result = SendNone | SendError string | SendOk

record datalink_env =
  dl_interfaces :: "network_interface list"
  dl_channel :: "network_interface \<Rightarrow> channel_result"
  dl_send :: "arp_frame \<Rightarrow> send_result"
  dl_received :: "(timestamp \<times> reception) list"
  dl_start :: timestamp
  dl_join :: "string option"
  dl_now :: timestamp

fun open_channel :: "datalink_env \<Rightarrow> network_interface \<Rightarrow> scan_error option" where
  "open_channel env iface =
     (case dl_channel env iface of
        Ethernet \<Rightarrow> None
      | OtherChannel \<Rightarrow> Some (ScanOther ''unsupported channel type'')
      | ChannelError e \<Rightarrow>
          Some (ScanOther (''failed to open datalink channel (may need root): '' @ e)))"

text \<open>The frames sent, in order, and the error that stopped the sending.\<close>

fun send_requests :: "datalink_env \<Rightarrow> string \<Rightarrow> u32 \<Rightarrow> u32 list \<Rightarrow> arp_frame list \<times> scan_error option" where
  "send_requests env mac ip [] = ([], None)"
| "send_requests env mac ip (t # ts) =
     (let frame = build_arp_request mac ip t in
      case dl_send env frame of
        SendNone \<Rightarrow> ([], Some (ScanOther ''send returned None''))
      | SendError e \<Rightarrow> ([], Some (ScanOther (''send failed: '' @ e)))
      | SendOk \<Rightarrow> let (frames, err) = send_requests env mac ip ts in (frame # frames, err))"

definition first_ipv4 :: "network_interface \<Rightarrow> u32 option" where
  "first_ipv4 iface = find_map (\<lambda>ip. case ip of V4 v4 \<Rightarrow> Some v4 | V6 _ \<Rightarrow> None) (if_ips iface)"

definition scan_subnet ::
  "datalink_env \<Rightarrow> string \<Rightarrow> arp_frame list \<times> (scan_error + discovered_device list)" where
  "scan_subnet env cidr =
     (case parse_cidr cidr of
        Inl e \<Rightarrow> ([], Inl e)
      | Inr (base_ip, prefix_len) \<Rightarrow>
          (case find_interface_for_subnet (dl_interfaces env) base_ip prefix_len of
             None \<Rightarrow> ([], Inl (ScanOther ''no suitable network interface found''))
           | Some iface \<Rightarrow>
               (case first_ipv4 iface of
                  None \<Rightarrow> ([], Inl (ScanOther ''interface has no IPv4 address''))
                | Some source_ip \<Rightarrow>
                    (case if_mac iface of
                       None \<Rightarrow> ([], Inl (ScanOther ''interface has no MAC address''))
                     | Some source_mac \<Rightarrow>
                         (case open_channel env iface of
                            Some e \<Rightarrow> ([], Inl e)
                          | None \<Rightarrow>
                              (case send_requests env source_mac source_ip (enumerate_hosts base_ip prefix_len) of
                                 (frames, Some e) \<Rightarrow> (frames, Inl e)
                               | (frames, None) \<Rightarrow>
                                   (case dl_join env of
                                      Some e \<Rightarrow> (frames, Inl (ScanOther (''blocking task failed: '' @ e)))
                                    | None \<Rightarrow>
                                        (frames,
                                         Inr (map (\<lambda>(ip, mac). device_at (dl_now env) (V4 ip) (Some mac))
                                           (collect_arp_replies (dl_start env + ARP_REPLY_WAIT)
                                              (dl_received env) []))))))))))"

definition passive_discover :: "datalink_env \<Rightarrow> nat \<Rightarrow> scan_error + discovered_device list" where
  "passive_discover env duration_secs =
     (case List.find (\<lambda>i. \<not> if_loopback i \<and> if_up i \<and> if_ips i \<noteq> []) (dl_interfaces env) of
        None \<Rightarrow> Inl (ScanOther ''no suitable network interface'')
      | Some iface \<Rightarrow>
          (case open_channel env iface of
             Some e \<Rightarrow> Inl e
           | None \<Rightarrow>
               (case dl_join env of
                  Some e \<Rightarrow> Inl (ScanOther (''blocking task failed: '' @ e))
                | None \<Rightarrow>
                    Inr (map (\<lambda>(ip, mac). device_at (dl_now env) ip mac)
                      (sniff_arp_traffic (dl_start env + seconds (int duration_secs)) (dl_received env) [])))))"

section \<open>The hosts of a subnet\<close>

lemma host_mask_mask: "prefix \<le> 32 \<Longrightarrow> host_mask prefix = NOT (mask (32 - prefix))"
  by (simp add: host_mask_def mask_eq_exp_minus_1 push_bit_eq_mult)

lemma unat_below: "unat (a :: 'a::len word) < 2 ^ LENGTH('a)"
  by (rule unsigned_less)

lemma and_not_mask: "a AND NOT (mask k) = a - take_bit k (a :: 'a::len word)"
proof -
  have "a AND NOT (mask k) = push_bit k (drop_bit k a)"
    by (rule bit_word_eqI) (auto simp: bit_simps)
  also have "\<dots> = a - take_bit k a" using bits_ident [of k a] by (metis add_diff_cancel_right')
  finally show ?thesis .
qed

lemma unat_network: "unat (a AND NOT (mask k) :: 'a::len word) = unat a - unat a mod 2 ^ k"
proof -
  have low: "unat (take_bit k a) = unat a mod 2 ^ k"
    by (subst unsigned_take_bit_eq) (simp add: take_bit_eq_mod)
  then show ?thesis unfolding and_not_mask by (simp add: unat_sub_if' low)
qed

lemma or_mask: "(a AND NOT (mask k)) OR mask k = (a AND NOT (mask k)) + (mask k :: 'a::len word)"
  by (rule disjunctive_add [symmetric]) (auto simp: bit_simps)

lemma unat_low_mask: "k < LENGTH('a) \<Longrightarrow> unat (mask k :: 'a::len word) = 2 ^ k - 1"
  unfolding unat_eq_nat_uint uint_mask_eq by (simp add: mask_eq_exp_minus_1 nat_diff_distrib nat_power_eq)

lemma unat_broadcast:
  assumes "k < LENGTH('a)"
  shows "unat ((a AND NOT (mask k)) OR mask k :: 'a::len word) = unat a - unat a mod 2 ^ k + (2 ^ k - 1)"
proof -
  have "unat a - unat a mod 2 ^ k + (2 ^ k - 1) < 2 ^ LENGTH('a)"
  proof -
    have "unat a div 2 ^ k < 2 ^ (LENGTH('a) - k)"
      using assms unat_below [of a] by (simp add: less_mult_imp_div_less flip: power_add)
    then have "(unat a div 2 ^ k + 1) * 2 ^ k \<le> 2 ^ (LENGTH('a) - k) * 2 ^ k"
      by (intro mult_le_mono1) simp
    also have "\<dots> = 2 ^ LENGTH('a)" using assms by (simp flip: power_add)
    finally have "unat a div 2 ^ k * 2 ^ k + 2 ^ k \<le> 2 ^ LENGTH('a)" by simp
    moreover have "unat a - unat a mod 2 ^ k = unat a div 2 ^ k * 2 ^ k" by (simp add: minus_mod_eq_div_mult)
    moreover have "0 < (2 :: nat) ^ k" by simp
    ultimately show ?thesis by linarith
  qed
  then have "unat (a AND NOT (mask k)) + unat (mask k :: 'a word) < 2 ^ LENGTH('a)"
    using assms by (simp only: unat_network unat_low_mask)
  then have "unat ((a AND NOT (mask k)) + mask k) = unat (a AND NOT (mask k)) + unat (mask k :: 'a word)"
    by (simp only: unat_add_lem)
  then show ?thesis
    using assms by (simp only: or_mask unat_network unat_low_mask)
qed

lemma block_inner:
  fixes n m q :: nat
  assumes "1 < m"
  shows "n div m = q \<and> n mod m \<noteq> 0 \<and> n mod m \<noteq> m - 1 \<longleftrightarrow> q * m + 1 \<le> n \<and> n < q * m + (m - 1)"
    (is "?pos \<longleftrightarrow> ?in")
proof
  assume ?pos
  then have "n = q * m + n mod m" "n mod m \<noteq> 0" "n mod m \<noteq> m - 1" using div_mult_mod_eq [of n m] by auto
  moreover have "n mod m < m" using assms by simp
  ultimately show ?in by linarith
next
  assume inner: ?in
  define r where "r = n - q * m"
  have "n = q * m + r" "r \<noteq> 0" "r < m - 1" using inner by (auto simp: r_def)
  then show ?pos using assms by simp
qed

text \<open>Two addresses are in the same subnet when they agree above the host bits.\<close>

definition same_subnet :: "nat \<Rightarrow> u32 \<Rightarrow> u32 \<Rightarrow> bool" where
  "same_subnet prefix a b \<longleftrightarrow> unat a div 2 ^ (32 - prefix) = unat b div 2 ^ (32 - prefix)"

text \<open>The host part of an address: its position in the subnet.\<close>

definition host_part :: "nat \<Rightarrow> u32 \<Rightarrow> nat" where
  "host_part prefix a = unat a mod 2 ^ (32 - prefix)"

lemma enumerate_hosts_range:
  assumes "1 \<le> prefix" and "prefix \<le> 30"
  shows "enumerate_hosts base prefix =
    map of_nat [unat base div 2 ^ (32 - prefix) * 2 ^ (32 - prefix) + 1
                ..< unat base div 2 ^ (32 - prefix) * 2 ^ (32 - prefix) + (2 ^ (32 - prefix) - 1)]"
proof -
  define k where "k = 32 - prefix"
  have k: "2 \<le> k" "k < 32" using assms by (simp_all add: k_def)
  have net: "unat (base AND NOT (mask k)) = unat base div 2 ^ k * 2 ^ k"
    by (simp add: unat_network minus_mod_eq_div_mult)
  have brd: "unat ((base AND NOT (mask k)) OR mask k) = unat base div 2 ^ k * 2 ^ k + (2 ^ k - 1)"
    using unat_broadcast [of k base] k by (simp add: minus_mod_eq_div_mult)
  have "2 \<le> (2 :: nat) ^ k" using k power_increasing [of 1 k "2 :: nat"] by simp
  then have "unat (base AND NOT (mask k)) + 1 \<le> unat ((base AND NOT (mask k)) OR mask k)"
    using net brd by linarith
  then have "unat (base AND NOT (mask k)) + 1 < 2 ^ 32" using unat_below [of "(base AND NOT (mask k)) OR mask k"] by simp
  then have "unat ((base AND NOT (mask k)) + 1) = unat (base AND NOT (mask k)) + 1"
    by (subst unat_add_lem [THEN iffD1]) simp_all
  with net brd show ?thesis
    using assms by (simp add: enumerate_hosts_def host_mask_mask Let_def flip: k_def)
qed

text \<open>
  For a prefix from 1 to 30 the hosts are the addresses of the subnet other than its first (the
  network) and its last (the broadcast address), each once and in ascending order.
\<close>

lemma hosts_of_subnet:
  assumes "1 \<le> prefix" and "prefix \<le> 30"
  shows "set (enumerate_hosts base prefix) =
           {a. same_subnet prefix a base \<and> host_part prefix a \<noteq> 0
               \<and> host_part prefix a \<noteq> 2 ^ (32 - prefix) - 1}
         \<and> sorted_wrt (<) (enumerate_hosts base prefix)
         \<and> length (enumerate_hosts base prefix) = 2 ^ (32 - prefix) - 2"
proof -
  define k where "k = 32 - prefix"
  define q where "q = unat base div 2 ^ k"
  have k: "2 \<le> k" "k < 32" using assms by (simp_all add: k_def)
  have four: "4 \<le> (2 :: nat) ^ k" using k power_increasing [of 2 k "2 :: nat"] by simp
  have hosts: "enumerate_hosts base prefix = map of_nat [q * 2 ^ k + 1 ..< q * 2 ^ k + (2 ^ k - 1)]"
    using enumerate_hosts_range [OF assms, of base] by (simp add: k_def q_def)
  have fits: "q * 2 ^ k + (2 ^ k - 1) < 2 ^ 32"
    using unat_broadcast [of k base] k unat_below [of "(base AND NOT (mask k)) OR mask k"]
    by (simp add: minus_mod_eq_div_mult q_def)
  have un: "unat (of_nat n :: u32) = n" if "n < q * 2 ^ k + (2 ^ k - 1)" for n
    using that fits by (simp add: unat_of_nat take_bit_nat_eq_self)
  note same = block_inner [where m = "2 ^ k" and q = q]
  have "set (enumerate_hosts base prefix) = {a. unat a \<in> {q * 2 ^ k + 1 ..< q * 2 ^ k + (2 ^ k - 1)}}"
    (is "_ = ?inner")
  proof
    show "set (enumerate_hosts base prefix) \<subseteq> ?inner" unfolding hosts using un by auto
    show "?inner \<subseteq> set (enumerate_hosts base prefix)"
    proof
      fix a assume "a \<in> ?inner"
      then have "a = of_nat (unat a)" "unat a \<in> set [q * 2 ^ k + 1 ..< q * 2 ^ k + (2 ^ k - 1)]" by auto
      then show "a \<in> set (enumerate_hosts base prefix)" unfolding hosts by (metis image_eqI list.set_map)
    qed
  qed
  moreover have "sorted_wrt (<) (enumerate_hosts base prefix)"
    unfolding hosts sorted_wrt_map
    by (rule sorted_wrt_mono_rel [OF _ sorted_wrt_upt]) (simp add: word_less_nat_alt un)
  moreover have "length (enumerate_hosts base prefix) = 2 ^ k - 2" using four by (simp add: hosts)
  ultimately show ?thesis
    using same four by (simp add: same_subnet_def host_part_def q_def flip: k_def)
qed

section \<open>What a scan asks and hears\<close>

lemma send_requests_all:
  "send_requests env mac ip ts = (frames, None) \<Longrightarrow> frames = map (build_arp_request mac ip) ts"
  by (induction ts arbitrary: frames) (auto simp: Let_def split: send_result.splits prod.splits)

text \<open>The replies that arrive before the deadline and before the channel fails.\<close>

fun heard_reply :: "timestamp \<times> reception \<Rightarrow> arp_frame option" where
  "heard_reply (now, Got_Arp a) = (if af_operation a = ArpReply then Some a else None)"
| "heard_reply _ = None"

definition heard :: "timestamp \<Rightarrow> (timestamp \<times> reception) list \<Rightarrow> arp_frame list" where
  "heard deadline rs =
     List.map_filter heard_reply (takeWhile (\<lambda>(now, r). now < deadline \<and> r \<noteq> Read_Failed) rs)"

lemma collect_heard:
  "collect_arp_replies deadline rs found =
     foldl (\<lambda>m a. hm_insert (af_sender_ip a) (af_sender_mac a) m) found (heard deadline rs)"
proof (induction rs arbitrary: found)
  case (Cons x rs)
  then show ?case
    by (cases x; cases "snd x") (auto simp: heard_def map_filter_simps)
qed (simp add: heard_def map_filter_simps)

lemma hm_keys_insert: "fst ` set (hm_insert k v m) = insert k (fst ` set m)"
  by (simp add: hm_insert_def dom_update)

lemma hm_insert_subset: "set (hm_insert k v m) \<subseteq> insert (k, v) (set m)"
  unfolding hm_insert_def by (induction m) auto

lemma collected_entries:
  "set (foldl (\<lambda>m a. hm_insert (af_sender_ip a) (af_sender_mac a) m) found as)
     \<subseteq> set found \<union> (\<lambda>a. (af_sender_ip a, af_sender_mac a)) ` set as
   \<and> fst ` set (foldl (\<lambda>m a. hm_insert (af_sender_ip a) (af_sender_mac a) m) found as)
     = fst ` set found \<union> af_sender_ip ` set as"
proof (induction "as" arbitrary: found)
  case (Cons a as)
  have "set (hm_insert (af_sender_ip a) (af_sender_mac a) found)
      \<subseteq> set found \<union> {(af_sender_ip a, af_sender_mac a)}"
    using hm_insert_subset by fastforce
  with Cons.IH [of "hm_insert (af_sender_ip a) (af_sender_mac a) found"] show ?case
    by (auto simp: hm_keys_insert)
qed simp

text \<open>
  C40: a scan of a subnet with a prefix from 1 to 30 that succeeds has asked every host of the
  subnet exactly once, and no other address; it lists exactly the addresses from which a reply was
  heard before the deadline, each with a hardware address that replied for it.
\<close>

theorem scan_asks_subnet:
  assumes "scan_subnet env cidr = (frames, Inr devices)" and "parse_cidr cidr = Inr (base, prefix)"
    and "1 \<le> prefix" and "prefix \<le> 30"
    and "replies = heard (dl_start env + ARP_REPLY_WAIT) (dl_received env)"
  shows "set (map af_target_ip frames) =
           {a. same_subnet prefix a base \<and> host_part prefix a \<noteq> 0
               \<and> host_part prefix a \<noteq> 2 ^ (32 - prefix) - 1}
         \<and> distinct (map af_target_ip frames) \<and> list_all (\<lambda>f. af_operation f = ArpRequest) frames
         \<and> set (map dv_ip devices) = (V4 \<circ> af_sender_ip) ` set replies
         \<and> list_all (\<lambda>d. list_ex (\<lambda>a. dv_ip d = V4 (af_sender_ip a) \<and> dv_mac d = Some (af_sender_mac a)) replies)
             devices"
proof -
  obtain mac ip where frames: "frames = map (build_arp_request mac ip) (enumerate_hosts base prefix)"
    and devices: "devices = map (\<lambda>(ip, mac). device_at (dl_now env) (V4 ip) (Some mac))
        (collect_arp_replies (dl_start env + ARP_REPLY_WAIT) (dl_received env) [])"
    using assms(1,2)
    by (auto simp: scan_subnet_def split: option.splits prod.splits dest!: send_requests_all)
  have targets: "map af_target_ip frames = enumerate_hosts base prefix"
    unfolding frames by (simp add: o_def build_arp_request_def)
  have "sorted_wrt (<) (enumerate_hosts base prefix)" using hosts_of_subnet [OF assms(3,4)] by blast
  then have "distinct (enumerate_hosts base prefix)" using strict_sorted_iff by blast
  moreover note hosts_of_subnet [OF assms(3,4), of base]
  moreover have "list_all (\<lambda>f. af_operation f = ArpRequest) frames"
    by (auto simp: frames list_all_iff build_arp_request_def)
  moreover define found where "found = collect_arp_replies (dl_start env + ARP_REPLY_WAIT) (dl_received env) []"
  moreover have found: "set found \<subseteq> (\<lambda>a. (af_sender_ip a, af_sender_mac a)) ` set replies"
    "fst ` set found = af_sender_ip ` set replies"
    using collected_entries [of "[]" replies] by (simp_all add: found_def collect_heard assms(5))
  moreover have "set (map dv_ip devices) = V4 ` fst ` set found"
    unfolding devices found_def [symmetric] by (force simp: device_at_def image_iff)
  moreover have "list_all (\<lambda>d. list_ex (\<lambda>a. dv_ip d = V4 (af_sender_ip a) \<and> dv_mac d = Some (af_sender_mac a)) replies)
             devices"
    using found(1) unfolding devices found_def [symmetric]
    by (fastforce simp: list_all_iff list_ex_iff device_at_def)
  ultimately show ?thesis by (simp add: targets image_comp)
qed

section \<open>A small subnet\<close>

definition office_env :: datalink_env where
  "office_env =
     \<lparr>dl_interfaces = [\<lparr>if_name = ''eth0'', if_loopback = False, if_up = True, if_ips = [V4 5],
                        if_mac = Some ''02:00:00:00:00:01''\<rparr>],
      dl_channel = (\<lambda>_. Ethernet), dl_send = (\<lambda>_. SendOk),
      dl_received = [(1, Got_Arp \<lparr>af_destination = ''02:00:00:00:00:01'', af_operation = ArpReply,
                                   af_sender_mac = ''02:00:00:00:00:02'', af_sender_ip = 6,
                                   af_target_mac = ''02:00:00:00:00:01'', af_target_ip = 5\<rparr>),
                     (2, Read_Failed)],
      dl_start = 0, dl_join = None, dl_now = 9\<rparr>"

lemma office_cidr: "parse_cidr ''0.0.0.4/30'' = Inr (4, 30)"
  by code_simp

lemma office_scan:
  "\<exists>frames devices. scan_subnet office_env ''0.0.0.4/30'' = (frames, Inr devices)
     \<and> length frames = 2 \<and> length devices = 1"
proof -
  have "(case scan_subnet office_env ''0.0.0.4/30'' of
           (frames, Inr devices) \<Rightarrow> length frames = 2 \<and> length devices = 1 | _ \<Rightarrow> False)"
    by code_simp
  then show ?thesis by (auto split: prod.splits sum.splits)
qed

theorem scan_asks_subnet_witness:
  "\<exists>frames devices. scan_subnet office_env ''0.0.0.4/30'' = (frames, Inr devices)
     \<and> length frames = 2 \<and> length devices = 1 \<and> distinct (map af_target_ip frames)"
  using office_scan scan_asks_subnet [OF _ office_cidr _ _ refl, of office_env] by fastforce

end
