(* ===== verification/Devices.thy ===== *)
theory Devices
  imports Linux_Net
begin

text \<open>
  \<^verbatim>\<open>crates/riggs-device-control\<close>: the policies, reading the USB devices out of the JSON that
  \<^verbatim>\<open>system_profiler\<close> prints, and the polling monitor. The JSON text is parsed by \<^verbatim>\<open>serde_json\<close>; its
  value is the datatype below, with the members of an object in iteration order. Log messages
  are not modelled: what a policy does is the unmounting of a volume.
\<close>

section \<open>Policies\<close>

datatype device_class = UsbStorage | UsbHid | UsbOther | Bluetooth | Thunderbolt | UnknownClass

datatype device_action = DeviceAllow | DeviceBlock | DeviceReadOnly | DeviceNotify

record device_policy =
  dpol_device_class :: device_class
  dpol_vendor_id :: "u16 option"
  dpol_product_id :: "u16 option"
  dpol_action :: device_action
  dpol_description :: string

datatype json =
    J_Null
  | J_Bool bool
  | J_Number string
  | J_String string
  | J_Array "json list"
  | J_Object "(string \<times> json) list"

record usb_device =
  usb_id :: string
  usb_name :: string
  usb_vendor_id :: u16
  usb_product_id :: u16
  usb_volume_path :: "string option"

section \<open>Devices in the report\<close>

fun as_str :: "json \<Rightarrow> string option" where
  "as_str (J_String s) = Some s"
| "as_str _ = None"

fun as_array :: "json \<Rightarrow> json list option" where
  "as_array (J_Array xs) = Some xs"
| "as_array _ = None"

text \<open>\<^verbatim>\<open>Value::get\<close> with a key.\<close>

fun json_get :: "json \<Rightarrow> string \<Rightarrow> json option" where
  "json_get (J_Object kvs) k = map_of kvs k"
| "json_get _ k = None"

text \<open>\<^verbatim>\<open>trim_start_matches("0x")\<close> strips the prefix as often as it occurs.\<close>

fun strip_0x :: "string \<Rightarrow> string" where
  "strip_0x (a # b # s) = (if a = CHR ''0'' \<and> b = CHR ''x'' then strip_0x s else a # b # s)"
| "strip_0x s = s"

definition parse_hex_id :: "string \<Rightarrow> u16" where
  "parse_hex_id s = (case from_hex 65536 (strip_0x (trim s)) of Some n \<Rightarrow> of_nat n | None \<Rightarrow> 0)"

text \<open>\<^verbatim>\<open>{:04x}\<close> of a 16-bit number.\<close>

definition show_hex4 :: "u16 \<Rightarrow> string" where
  "show_hex4 w = map (\<lambda>i. hex_digit (unat w div 16 ^ i mod 16)) [3, 2, 1, 0]"

definition string_at :: "(string \<times> json) list \<Rightarrow> string \<Rightarrow> string option" where
  "string_at kvs k = Option.bind (map_of kvs k) as_str"

definition volume_of :: "(string \<times> json) list \<Rightarrow> string option" where
  "volume_of kvs =
     Option.bind (Option.bind (map_of kvs ''volumes'') as_array)
       (\<lambda>vols. case vols of
          [] \<Rightarrow> None
        | v # _ \<Rightarrow> Option.bind (json_get v ''mount_point'') as_str)"

definition usb_device_of :: "(string \<times> json) list \<Rightarrow> usb_device option" where
  "usb_device_of kvs =
     (case (string_at kvs ''_name'', string_at kvs ''vendor_id'') of
        (Some name, Some vid_str) \<Rightarrow>
          (let vendor_id = parse_hex_id vid_str;
               product_id = (case string_at kvs ''product_id'' of Some s \<Rightarrow> parse_hex_id s | None \<Rightarrow> 0);
               serial = (case string_at kvs ''serial_num'' of Some s \<Rightarrow> s | None \<Rightarrow> ''unknown'')
           in Some \<lparr>usb_id = show_hex4 vendor_id @ '':'' @ show_hex4 product_id @ '':'' @ serial,
                    usb_name = name, usb_vendor_id = vendor_id, usb_product_id = product_id,
                    usb_volume_path = volume_of kvs\<rparr>)
      | _ \<Rightarrow> None)"

definition child_key :: "string \<Rightarrow> bool" where
  "child_key k \<longleftrightarrow> k = ''_items'' \<or> k = ''SPUSBDataType''"

fun extract_usb_devices :: "json \<Rightarrow> usb_device list" where
  "extract_usb_devices (J_Object kvs) =
     (case usb_device_of kvs of Some d \<Rightarrow> [d] | None \<Rightarrow> [])
     @ concat (map (\<lambda>kv. if child_key (fst kv) then extract_usb_devices (snd kv) else []) kvs)"
| "extract_usb_devices (J_Array xs) = concat (map extract_usb_devices xs)"
| "extract_usb_devices _ = []"

text \<open>The report: the run of \<^verbatim>\<open>system_profiler\<close> fails, exits with an error, or prints a text.\<close>

datatype profiler_run = NotRun string | ExitFailure | Printed string

definition scan_usb_devices :: "(string \<Rightarrow> string + json) \<Rightarrow> profiler_run \<Rightarrow> string + usb_device list" where
  "scan_usb_devices json_parse run =
     (case run of
        NotRun e \<Rightarrow> Inl (''IO error: '' @ e)
      | ExitFailure \<Rightarrow> Inl ''Monitor error: system_profiler failed''
      | Printed out \<Rightarrow>
          (case json_parse out of
             Inl e \<Rightarrow> Inl (''Monitor error: JSON parse error: '' @ e)
           | Inr v \<Rightarrow> Inr (extract_usb_devices v)))"

section \<open>The monitor\<close>

definition matches_policy :: "usb_device \<Rightarrow> device_policy \<Rightarrow> bool" where
  "matches_policy device policy \<longleftrightarrow>
     dpol_device_class policy \<in> {UsbStorage, UsbHid, UsbOther}
     \<and> (case dpol_vendor_id policy of Some vid \<Rightarrow> vid = usb_vendor_id device | None \<Rightarrow> True)
     \<and> (case dpol_product_id policy of Some pid \<Rightarrow> pid = usb_product_id device | None \<Rightarrow> True)"

record device_monitor =
  dmon_policies :: "device_policy list"
  dmon_running :: bool
  dmon_known_devices :: "string list"

definition monitor_new :: "device_policy list \<Rightarrow> device_monitor" where
  "monitor_new policies = \<lparr>dmon_policies = policies, dmon_running = False, dmon_known_devices = []\<rparr>"

definition apply_policy :: "usb_device \<Rightarrow> device_policy \<Rightarrow> string list" where
  "apply_policy dev policy =
     (if matches_policy dev policy then
        (case dpol_action policy of
           DeviceBlock \<Rightarrow> (case usb_volume_path dev of Some vol \<Rightarrow> [vol] | None \<Rightarrow> [])
         | DeviceNotify \<Rightarrow> []
         | DeviceReadOnly \<Rightarrow> []
         | DeviceAllow \<Rightarrow> [])
      else [])"

definition monitor_start :: "string + usb_device list \<Rightarrow> device_monitor \<Rightarrow> device_monitor" where
  "monitor_start scan m =
     m\<lparr>dmon_running := True,
       dmon_known_devices := (case scan of Inl _ \<Rightarrow> dmon_known_devices m
                                         | Inr ds \<Rightarrow> dmon_known_devices m @ map usb_id ds)\<rparr>"

definition monitor_stop :: "device_monitor \<Rightarrow> device_monitor" where
  "monitor_stop m = m\<lparr>dmon_running := False\<rparr>"

text \<open>One tick: the volumes unmounted, and the monitor afterwards.\<close>

definition monitor_tick :: "string + usb_device list \<Rightarrow> device_monitor \<Rightarrow> device_monitor \<times> string list" where
  "monitor_tick scan m =
     (case scan of
        Inl _ \<Rightarrow> (m, [])
      | Inr ds \<Rightarrow>
          (m\<lparr>dmon_known_devices := map usb_id ds\<rparr>,
           concat (map (\<lambda>d. if usb_id d \<in> set (dmon_known_devices m) then []
                            else concat (map (apply_policy d) (dmon_policies m))) ds)))"

fun run_monitor :: "(string + usb_device list) list \<Rightarrow> device_monitor \<Rightarrow> device_monitor \<times> string list" where
  "run_monitor [] m = (m, [])"
| "run_monitor (scan # scans) m =
     (if \<not> dmon_running m then (m, [])
      else let (m1, out1) = monitor_tick scan m; (m2, out2) = run_monitor scans m1 in (m2, out1 @ out2))"

section \<open>Which devices are read\<close>

text \<open>An entry of the report: an object reached through arrays and the two child keys.\<close>

inductive usb_entry :: "json \<Rightarrow> (string \<times> json) list \<Rightarrow> bool" where
  here: "usb_entry (J_Object kvs) kvs"
| in_array: "x \<in> set xs \<Longrightarrow> usb_entry x kvs \<Longrightarrow> usb_entry (J_Array xs) kvs"
| in_child: "(k, v) \<in> set kvs \<Longrightarrow> child_key k \<Longrightarrow> usb_entry v es \<Longrightarrow> usb_entry (J_Object kvs) es"

inductive_cases usb_entry_ObjectE: "usb_entry (J_Object kvs) es"
inductive_cases usb_entry_ArrayE: "usb_entry (J_Array xs) es"

lemma usb_entry_extracted:
  "usb_entry v kvs \<Longrightarrow> usb_device_of kvs = Some d \<Longrightarrow> d \<in> set (extract_usb_devices v)"
  by (induction rule: usb_entry.induct) (auto simp: Bex_def split: option.splits)

lemma extracted_usb_entry:
  "d \<in> set (extract_usb_devices v) \<Longrightarrow> \<exists>kvs. usb_entry v kvs \<and> usb_device_of kvs = Some d"
proof (induction v rule: extract_usb_devices.induct)
  case (1 kvs)
  show ?case
  proof (cases "usb_device_of kvs = Some d")
    case True
    then show ?thesis by (blast intro: here)
  next
    case False
    with 1(2) obtain k v where kv: "(k, v) \<in> set kvs" "child_key k" "d \<in> set (extract_usb_devices v)"
      by (auto split: option.splits if_splits)
    with 1(1) [of "(k, v)"] show ?thesis by (auto intro: in_child)
  qed
next
  case (2 xs)
  then obtain x where "x \<in> set xs" "d \<in> set (extract_usb_devices x)" by auto
  with 2(1) show ?case by (meson in_array)
qed auto

text \<open>
  The devices read from a report are exactly those described by its entries: a device is
  listed if and only if some object reached through arrays and the keys \<^verbatim>\<open>_items\<close> and \<^verbatim>\<open>SPUSBDataType\<close>
  has a name and a vendor id, at any depth, and describes it.
\<close>

theorem usb_devices_exact:
  "set (extract_usb_devices v) = {d. \<exists>kvs. usb_entry v kvs \<and> usb_device_of kvs = Some d}"
  using usb_entry_extracted extracted_usb_entry by blast

section \<open>What the monitor does\<close>

text \<open>
  A blocking policy acts on a device once, when it appears: a device listed in every scan since
  the monitor started is never unmounted.
\<close>

definition lists_device :: "string \<Rightarrow> string + usb_device list \<Rightarrow> bool" where
  "lists_device i scan \<longleftrightarrow> (case scan of Inl _ \<Rightarrow> True | Inr ds \<Rightarrow> i \<in> set (map usb_id ds))"

definition only_volume :: "string \<Rightarrow> string \<Rightarrow> string + usb_device list \<Rightarrow> bool" where
  "only_volume i vol scan \<longleftrightarrow>
     (case scan of Inl _ \<Rightarrow> True
      | Inr ds \<Rightarrow> list_all (\<lambda>d. usb_volume_path d = Some vol \<longrightarrow> usb_id d = i) ds)"

lemma apply_policy_volume: "vol \<in> set (apply_policy d p) \<Longrightarrow> usb_volume_path d = Some vol"
  by (cases "matches_policy d p"; cases "dpol_action p"; cases "usb_volume_path d") (simp_all add: apply_policy_def)

lemma known_not_unmounted:
  assumes "i \<in> set (dmon_known_devices m)" and "only_volume i vol scan"
  shows "vol \<notin> set (snd (monitor_tick scan m))"
proof (cases scan)
  case (Inr ds)
  show ?thesis
  proof
    assume "vol \<in> set (snd (monitor_tick scan m))"
    with Inr obtain d p where "d \<in> set ds" "usb_id d \<notin> set (dmon_known_devices m)" "vol \<in> set (apply_policy d p)"
      by (auto simp: monitor_tick_def split: if_splits)
    with assms Inr show False
      by (auto simp: only_volume_def list_all_iff dest!: apply_policy_volume)
  qed
qed (simp add: monitor_tick_def)

lemma known_device_untouched:
  assumes "i \<in> set (dmon_known_devices m)" and "list_all (lists_device i) scans"
    and "list_all (only_volume i vol) scans"
  shows "vol \<notin> set (snd (run_monitor scans m))"
  using assms
proof (induction scans arbitrary: m)
  case (Cons scan scans)
  show ?case
  proof (cases scan)
    case (Inl e)
    with Cons show ?thesis by (auto simp: monitor_tick_def Let_def split: prod.splits)
  next
    case (Inr ds)
    let ?m = "m\<lparr>dmon_known_devices := map usb_id ds\<rparr>"
    have "i \<in> set (dmon_known_devices ?m)" using Cons.prems(2) Inr by (auto simp: lists_device_def)
    then have "vol \<notin> set (snd (run_monitor scans ?m))" using Cons by auto
    moreover have "vol \<notin> set (snd (monitor_tick scan m))"
      using known_not_unmounted [of i m vol scan] Cons.prems(1,3) by simp
    ultimately show ?thesis using Inr by (auto simp: monitor_tick_def Let_def split: prod.splits)
  qed
qed simp

text \<open>
  The class of a policy does not have to be the class of the device: a blocking policy for USB
  storage unmounts whatever matches its ids, and one for keyboards does the same.
\<close>

theorem device_class_ignored:
  "matches_policy d (p\<lparr>dpol_device_class := UsbStorage\<rparr>) = matches_policy d (p\<lparr>dpol_device_class := UsbHid\<rparr>)"
  by (simp add: matches_policy_def)

text \<open>
  A volume that is mounted after the device was first seen stays mounted, whatever the policies
  say: the device is known by then.
\<close>

theorem late_volume_not_blocked:
  assumes "usb_id d \<in> set (dmon_known_devices m)" and "usb_volume_path d = Some vol"
    and "list_all (\<lambda>e. usb_volume_path e = Some vol \<longrightarrow> usb_id e = usb_id d) ds"
  shows "vol \<notin> set (snd (monitor_tick (Inr ds) m))"
  using assms by (intro known_not_unmounted [of "usb_id d"]) (simp_all add: only_volume_def)

end
