(* ===== verification/Macos.thy ===== *)
theory Macos
  imports Linux_Sensor Linux_Net
begin

text \<open>
  \<^verbatim>\<open>crates/riggs-platform-macos\<close>: file notifications, process polling, signals and containment with
  the packet filter (\<^verbatim>\<open>sensor.rs\<close>), and the connections read from socket descriptors (\<^verbatim>\<open>net.rs\<close>). The
  polling loop and \<^verbatim>\<open>build_process_context\<close> are the statements of the Linux sensor and are given by
  the definitions of \<open>Linux_Sensor\<close>. What \<^verbatim>\<open>kill\<close>, \<^verbatim>\<open>pfctl\<close> and \<^verbatim>\<open>libproc\<close> answer are inputs.
\<close>

unbundle bit_operations_syntax

section \<open>Files and processes\<close>

definition PF_ANCHOR :: string where "PF_ANCHOR = ''riggs-containment''"

definition DEFAULT_PF_CONF_PATH :: string where "DEFAULT_PF_CONF_PATH = ''/var/lib/riggs/pf-containment.conf''"

record mac_sensor =
  mac_running :: bool
  mac_pf_conf_path :: string

definition mac_new :: mac_sensor where
  "mac_new = \<lparr>mac_running = False, mac_pf_conf_path = DEFAULT_PF_CONF_PATH\<rparr>"

definition with_pf_conf_path :: "string \<Rightarrow> mac_sensor \<Rightarrow> mac_sensor" where
  "with_pf_conf_path path s = (if path \<noteq> [] then s\<lparr>mac_pf_conf_path := path\<rparr> else s)"

text \<open>Starting can fail on the file watcher, after the sensor is marked as running.\<close>

definition mac_start :: "string option \<Rightarrow> mac_sensor \<Rightarrow> mac_sensor \<times> (riggs_error + unit)" where
  "mac_start watcher_error s =
     (s\<lparr>mac_running := True\<rparr>,
      case watcher_error of
        Some e \<Rightarrow> Inl (Platform (''failed to create file watcher: '' @ e))
      | None \<Rightarrow> Inr ())"

definition mac_stop :: "mac_sensor \<Rightarrow> mac_sensor" where
  "mac_stop s = s\<lparr>mac_running := False\<rparr>"

definition mac_health_check :: "mac_sensor \<Rightarrow> bool" where
  "mac_health_check s = mac_running s"

fun mac_notify_action :: "notify_kind \<Rightarrow> file_action option" where
  "mac_notify_action NotifyCreate = Some Create"
| "mac_notify_action NotifyModifyData = Some Modify"
| "mac_notify_action NotifyModifyOther = Some Modify"
| "mac_notify_action NotifyRemove = Some Delete"
| "mac_notify_action NotifyOther = None"

definition mac_notify_events ::
  "(nat \<Rightarrow> event_id \<times> timestamp \<times> storyline_id) \<Rightarrow> notify_kind \<Rightarrow> string list \<Rightarrow> riggs_event list" where
  "mac_notify_events mint kind paths =
     (case mac_notify_action kind of
        None \<Rightarrow> []
      | Some act \<Rightarrow>
          map (\<lambda>(n, p). case mint n of (eid, now, fresh) \<Rightarrow> new_file eid now act (unattributed fresh) p None)
            (zip [0 ..< length paths] paths))"

definition mac_poll_run :: "(draw \<times> proc_table) list \<Rightarrow> proc_table \<Rightarrow> poll_state \<times> riggs_event list" where
  "mac_poll_run polls first = poll_run polls (poll_init first)"

text \<open>\<^verbatim>\<open>process_context\<close>, given what \<^verbatim>\<open>sysinfo\<close> finds for the pid.\<close>

definition mac_process_context :: "proc_table \<Rightarrow> u32 \<Rightarrow> storyline_id \<Rightarrow> process_context option" where
  "mac_process_context procs pid fresh =
     map_option (\<lambda>p. build_process_context p pid fresh) (hm_get procs pid)"

section \<open>Signals and containment\<close>

text \<open>
  The signals delivered, the file system, and the rules loaded into the anchor of the packet
  filter.
\<close>

record mac_host =
  mh_signals :: "(u32 \<times> signal) list"
  mh_fs :: fs
  mh_anchor :: string

record mac_env =
  me_own_pid :: u32
  me_kill_fails :: "u32 \<Rightarrow> signal \<Rightarrow> mac_host \<Rightarrow> string option"
  me_io :: io_env
  me_pfctl_spawn_fails :: "mac_host \<Rightarrow> string option"
  me_pfctl_stderr :: "mac_host \<Rightarrow> string option"

fun signal_name :: "signal \<Rightarrow> string" where
  "signal_name SIGKILL = ''SIGKILL''"
| "signal_name SIGSTOP = ''SIGSTOP''"
| "signal_name SIGCONT = ''SIGCONT''"

definition mac_send_signal :: "mac_env \<Rightarrow> u32 \<Rightarrow> signal \<Rightarrow> mac_host platform_call" where
  "mac_send_signal env pid sig h =
     (if pid \<le> 1 \<or> pid = me_own_pid env then
        (h, Inl (Platform (''refusing to send '' @ signal_name sig @ '' to pid '' @ show_nat (unat pid) @
           '': pid 0 signals the daemon'' @ [CHR 0x27] @ ''s own process group, pid 1 is init, and the daemon never signals itself'')))
      else case me_kill_fails env pid sig h of
        Some e \<Rightarrow>
          (h, Inl (Platform (''failed to send '' @ signal_name sig @ '' to pid '' @ show_nat (unat pid) @ '': '' @ e)))
      | None \<Rightarrow> (h\<lparr>mh_signals := mh_signals h @ [(pid, sig)]\<rparr>, Inr ()))"

definition pf_rules :: "ip_addr list \<Rightarrow> string" where
  "pf_rules ips =
     (let nl = [CHR 0x0A]
      in ''# riggs containment rules'' @ nl @ ''block all'' @ nl
         @ concat (map (\<lambda>ip. ''pass out quick to '' @ show_ip ip @ nl) ips)
         @ ''pass quick on lo0 all'' @ nl)"

text \<open>\<^verbatim>\<open>pfctl\<close> with an effect on the anchor.\<close>

definition pfctl_call ::
  "mac_env \<Rightarrow> string \<Rightarrow> (mac_host \<Rightarrow> mac_host) \<Rightarrow> mac_host platform_call" where
  "pfctl_call env what effect h =
     (case me_pfctl_spawn_fails env h of
        Some e \<Rightarrow> (h, Inl (Platform (''failed to run pfctl: '' @ e)))
      | None \<Rightarrow>
          (case me_pfctl_stderr env h of
             Some e \<Rightarrow> (h, Inl (Platform (what @ '' failed: '' @ e)))
           | None \<Rightarrow> (effect h, Inr ())))"

text \<open>The rules \<^verbatim>\<open>pfctl -f\<close> loads are what the file holds at that moment.\<close>

definition file_text :: "fs \<Rightarrow> string \<Rightarrow> string" where
  "file_text fs p = (case fs p of Some (FileNode d _) \<Rightarrow> d | _ \<Rightarrow> [])"

definition mac_contain :: "mac_env \<Rightarrow> mac_sensor \<Rightarrow> ip_addr list \<Rightarrow> mac_host platform_call" where
  "mac_contain env s ips h =
     (let path = mac_pf_conf_path s; (fs', ok) = fs_write (me_io env) path (pf_rules ips) (mh_fs h);
          h' = h\<lparr>mh_fs := fs'\<rparr>
      in if \<not> ok then (h', Inl (Platform (''failed to write pf rules: '' @ io_error (me_io env) (IO_Write path))))
         else pfctl_call env ''pfctl load'' (\<lambda>h. h\<lparr>mh_anchor := file_text (mh_fs h) path\<rparr>) h')"

definition mac_release :: "mac_env \<Rightarrow> mac_sensor \<Rightarrow> mac_host platform_call" where
  "mac_release env s =
     pfctl_call env ''pfctl flush''
       (\<lambda>h. h\<lparr>mh_anchor := [], mh_fs := fst (fs_remove (me_io env) (mac_pf_conf_path s) (mh_fs h))\<rparr>)"

text \<open>\<^verbatim>\<open>pfctl -sr\<close> lists the rules of the anchor, or cannot be run.\<close>

definition mac_is_contained :: "string + string \<Rightarrow> riggs_error + bool" where
  "mac_is_contained listing =
     (case listing of
        Inl e \<Rightarrow> Inl (Platform (''failed to query pfctl: '' @ e))
      | Inr rules \<Rightarrow> Inr (trim rules \<noteq> []))"

definition mac_control :: "mac_env \<Rightarrow> mac_sensor \<Rightarrow> mac_host platform_control" where
  "mac_control env s =
     \<lparr>pl_kill_process = (\<lambda>pid. mac_send_signal env pid SIGKILL),
      pl_suspend_process = (\<lambda>pid. mac_send_signal env pid SIGSTOP),
      pl_contain = mac_contain env s, pl_release = mac_release env s\<rparr>"

section \<open>Connections\<close>

definition SOCKINFO_IN :: int where "SOCKINFO_IN = 1"
definition SOCKINFO_TCP :: int where "SOCKINFO_TCP = 2"
definition TSI_S_CLOSED :: int where "TSI_S_CLOSED = 0"
definition TSI_S_LISTEN :: int where "TSI_S_LISTEN = 1"
definition INI_IPV4 :: u8 where "INI_IPV4 = 1"
definition IPPROTO_UDP :: int where "IPPROTO_UDP = 17"

text \<open>The fields of \<^verbatim>\<open>struct socket_fdinfo\<close> that the code reads; addresses are sixteen bytes.\<close>

record socket_fd_info =
  sf_protocol :: int
  sf_kind :: int
  sf_fport :: "32 word"
  sf_lport :: "32 word"
  sf_vflag :: u8
  sf_faddr :: "nat list"
  sf_laddr :: "nat list"
  sf_tcp_state :: int

text \<open>\<^verbatim>\<open>Ipv6Addr::is_unicast_link_local\<close>: the prefix \<^verbatim>\<open>fe80::/10\<close>.\<close>

definition is_unicast_link_local :: "nat list \<Rightarrow> bool" where
  "is_unicast_link_local bs \<longleftrightarrow> bs ! 0 = 0xFE \<and> bs ! 1 div 64 = 2"

definition sock_ip :: "u8 \<Rightarrow> nat list \<Rightarrow> ip_addr" where
  "sock_ip vflag addr =
     (if vflag AND INI_IPV4 \<noteq> 0 then V4 (of_nat (from_be 0 (drop 12 addr)))
      else
        let addr' = (if is_unicast_link_local addr then addr[2 := 0, 3 := 0] else addr)
        in to_canonical (V6 (of_nat (from_be 0 addr'))))"

text \<open>\<^verbatim>\<open>u16::from_be(raw as u16)\<close> on a little-endian machine.\<close>

definition sock_port :: "32 word \<Rightarrow> u16" where
  "sock_port raw = (let p = ucast raw :: u16 in push_bit 8 p OR drop_bit 8 p)"

definition mac_proto :: "socket_fd_info \<Rightarrow> string option" where
  "mac_proto info =
     (if sf_kind info = SOCKINFO_TCP \<and> sf_tcp_state info \<noteq> TSI_S_CLOSED then Some ''tcp''
      else if sf_kind info = SOCKINFO_IN \<and> sf_protocol info = IPPROTO_UDP then Some ''udp''
      else None)"

text \<open>A descriptor whose information could not be read in full gives no socket.\<close>

definition mac_socket :: "u32 \<Rightarrow> socket_fd_info option \<Rightarrow> (connection \<times> bool) option" where
  "mac_socket pid filled =
     (case filled of
        None \<Rightarrow> None
      | Some info \<Rightarrow>
          (case mac_proto info of
             None \<Rightarrow> None
           | Some proto \<Rightarrow>
               Some (\<lparr>cn_pid = pid, cn_proto = proto,
                      cn_local = (sock_ip (sf_vflag info) (sf_laddr info), sock_port (sf_lport info)),
                      cn_remote = (sock_ip (sf_vflag info) (sf_faddr info), sock_port (sf_fport info))\<rparr>,
                     proto = ''tcp'' \<and> sf_tcp_state info = TSI_S_LISTEN)))"

definition mac_connections :: "(u32 \<times> socket_fd_info option list) list \<Rightarrow> connection list" where
  "mac_connections procs =
     (let sockets = concat (map (\<lambda>(pid, fds). List.map_filter (mac_socket pid) fds) procs);
          listening = map (\<lambda>(c, _). snd (cn_local c)) (filter snd sockets)
      in filter (\<lambda>c. \<not> (cn_proto c = ''tcp'' \<and> snd (cn_local c) \<in> set listening))
           (filter (\<lambda>c. snd (cn_remote c) \<noteq> 0 \<and> \<not> is_unspecified (fst (cn_remote c))
                        \<and> \<not> is_loopback (fst (cn_remote c)))
             (map fst sockets)))"

text \<open>One poll of the connection sensor.\<close>

definition mac_net_poll ::
  "u32 \<Rightarrow> (connection \<Rightarrow> event_id \<times> timestamp) \<Rightarrow> (u32 \<Rightarrow> process_context option)
   \<Rightarrow> (u32 \<times> socket_fd_info option list) list \<Rightarrow> connection list \<Rightarrow> connection list \<times> riggs_event list" where
  "mac_net_poll own_pid draw ctx_of procs known = net_poll own_pid draw ctx_of (mac_connections procs) known"

section \<open>Facts\<close>

definition mac_spares :: "u32 \<Rightarrow> mac_host \<Rightarrow> bool" where
  "mac_spares own_pid h \<longleftrightarrow> list_all (\<lambda>(pid, _). 1 < pid \<and> pid \<noteq> own_pid) (mh_signals h)"

lemma mac_send_signal_spares:
  "mac_spares (me_own_pid env) h \<Longrightarrow> mac_spares (me_own_pid env) (fst (mac_send_signal env pid sig h))"
  by (auto simp: mac_send_signal_def mac_spares_def split: option.splits)

lemma pfctl_call_spares:
  "mac_spares own h \<Longrightarrow> (\<And>h. mh_signals (effect h) = mh_signals h) \<Longrightarrow> mac_spares own (fst (pfctl_call env what effect h))"
  by (auto simp: pfctl_call_def mac_spares_def split: option.splits)

lemma mac_contain_spares: "mac_spares own h \<Longrightarrow> mac_spares own (fst (mac_contain env s ips h))"
  unfolding mac_contain_def Let_def
  by (auto simp: mac_spares_def split: prod.split intro!: pfctl_call_spares [unfolded mac_spares_def])

interpretation mac_platform: guarded_platform "mac_control env s" "mac_spares (me_own_pid env)" for env s
  by unfold_locales
    (simp_all add: mac_control_def mac_send_signal_spares mac_contain_spares mac_release_def pfctl_call_spares)

text \<open>
  Whatever actions the executor is given, on macOS no signal reaches pid 0, the init process or
  the daemon itself.
\<close>

theorem mac_signals_spare_daemon:
  assumes "re_platform ex = mac_control env s" and "mh_signals (rw_platform w) = []"
  shows "list_all (\<lambda>(pid, _). 1 < pid \<and> pid \<noteq> me_own_pid env)
           (mh_signals (rw_platform (fst (execute_all ex feed acts w))))"
proof -
  have "mac_spares (me_own_pid env) (rw_platform w)" using assms(2) by (simp add: mac_spares_def)
  from mac_platform.execute_all_ok [OF assms(1) this, of feed acts] show ?thesis by (simp add: mac_spares_def)
qed

text \<open>
  A containment that succeeds has loaded exactly the rules for the allowed addresses, and a
  release that succeeds after it leaves no rule in the anchor; neither sends a signal. Apart
  from the rules file no file is touched.
\<close>

theorem mac_containment_round_trip:
  assumes "mac_contain env s ips h = (h1, Inr ())" and "mac_release env s h1 = (h2, Inr ())"
  shows "mh_anchor h1 = pf_rules ips \<and> mh_anchor h2 = [] \<and> mh_signals h2 = mh_signals h
         \<and> (\<forall>p. p \<noteq> mac_pf_conf_path s \<longrightarrow> mh_fs h2 p = mh_fs h p)"
  using assms
  by (auto simp: mac_contain_def mac_release_def pfctl_call_def Let_def fs_write_def fs_remove_def file_text_def
      split: option.splits prod.splits fs_node.splits if_splits)

text \<open>A port stored in network byte order is read back.\<close>

lemma sock_port_network: "sock_port (ucast (push_bit 8 p OR drop_bit 8 p)) = (p :: u16)"
  by (rule bit_word_eqI) (auto simp: sock_port_def Let_def bit_simps dest: bit_imp_le_length)

text \<open>
  On macOS too the connections found are exactly the outgoing ones: those of a socket that is an
  open TCP or a UDP socket, whose peer has a port and an address that is neither unspecified nor
  loopback, and whose local port no TCP socket of the host listens on when it is TCP itself.
\<close>

theorem mac_connections_exact:
  "c \<in> set (mac_connections procs) \<longleftrightarrow>
     (\<exists>pid fds info listen. (pid, fds) \<in> set procs \<and> Some info \<in> set fds
        \<and> mac_socket pid (Some info) = Some (c, listen))
     \<and> snd (cn_remote c) \<noteq> 0 \<and> \<not> is_unspecified (fst (cn_remote c)) \<and> \<not> is_loopback (fst (cn_remote c))
     \<and> \<not> (cn_proto c = ''tcp''
            \<and> (\<exists>pid fds info d. (pid, fds) \<in> set procs \<and> Some info \<in> set fds
                  \<and> mac_socket pid (Some info) = Some (d, True) \<and> snd (cn_local d) = snd (cn_local c)))"
proof -
  define sockets where "sockets = concat (map (\<lambda>(pid, fds). List.map_filter (mac_socket pid) fds) procs)"
  have in_sockets: "x \<in> set sockets \<longleftrightarrow>
      (\<exists>pid fds info. (pid, fds) \<in> set procs \<and> Some info \<in> set fds \<and> mac_socket pid (Some info) = Some x)" for x
  proof -
    have "x \<in> set (List.map_filter (mac_socket pid) fds) \<longleftrightarrow>
        (\<exists>info. Some info \<in> set fds \<and> mac_socket pid (Some info) = Some x)" for pid fds
      unfolding in_map_filter by (metis (no_types, lifting) mac_socket_def not_None_eq option.case(1))
    then show ?thesis unfolding sockets_def by auto
  qed
  have "c \<in> set (mac_connections procs) \<longleftrightarrow>
      (\<exists>listen. (c, listen) \<in> set sockets)
      \<and> snd (cn_remote c) \<noteq> 0 \<and> \<not> is_unspecified (fst (cn_remote c)) \<and> \<not> is_loopback (fst (cn_remote c))
      \<and> \<not> (cn_proto c = ''tcp'' \<and> (\<exists>d. (d, True) \<in> set sockets \<and> snd (cn_local d) = snd (cn_local c)))"
    unfolding mac_connections_def Let_def sockets_def [symmetric] by (force simp: image_iff)
  then show ?thesis unfolding in_sockets by blast
qed

end
