(* ===== verification/Startup.thy ===== *)
theory Startup
  imports Behavior Static_Ai Console
begin

text \<open>
  \<^verbatim>\<open>riggs-daemon/src/daemon.rs\<close>, the start of the daemon: reading the configuration, choosing the
  policies, and building the detection pipeline out of the five stages. The shared state of the
  pipeline is one record with the state of each stage. TOML parsing is a parameter; what a stage
  meets when it is called (its environment, and whether its time budget elapses) comes from the
  record \<open>detection_env\<close>.
\<close>

section \<open>Configuration\<close>

definition CONFIG_PATHS :: "string list" where
  "CONFIG_PATHS = [''/etc/riggs/riggs.toml'', ''config/riggs.toml'']"

text \<open>Reading a file that exists gives its text or an error; \<open>None\<close> is a path that does not exist.\<close>

type_synonym file_probe = "string \<Rightarrow> (string + string) option"

fun read_config ::
  "(string \<Rightarrow> string + riggs_config) \<Rightarrow> file_probe \<Rightarrow> string list
   \<Rightarrow> riggs_error + (riggs_config \<times> string option)" where
  "read_config toml probe [] = Inr (riggs_config_default, None)"
| "read_config toml probe (p # ps) =
     (case probe p of
        None \<Rightarrow> read_config toml probe ps
      | Some (Inl e) \<Rightarrow> Inl (Config (''failed to read '' @ p @ '': '' @ e))
      | Some (Inr contents) \<Rightarrow>
          (case toml contents of
             Inl e \<Rightarrow> Inl (Config (''failed to parse '' @ p @ '': '' @ e))
           | Inr cfg \<Rightarrow> Inr (cfg, Some p)))"

definition env_overrides :: "string option \<Rightarrow> string option \<Rightarrow> riggs_config \<Rightarrow> riggs_config" where
  "env_overrides url token cfg =
     (let cm1 = (case url of
                   Some u \<Rightarrow> (rg_comms cfg)\<lparr>cm_cloud_enabled := True, cm_cloud_endpoint := Some u\<rparr>
                 | None \<Rightarrow> rg_comms cfg);
          cm2 = (case token of Some t \<Rightarrow> cm1\<lparr>cm_enrollment_token := Some t\<rparr> | None \<Rightarrow> cm1)
      in cfg\<lparr>rg_comms := cm2\<rparr>)"

definition load_config ::
  "(string \<Rightarrow> string + riggs_config) \<Rightarrow> file_probe \<Rightarrow> string option \<Rightarrow> string option
   \<Rightarrow> riggs_error + (riggs_config \<times> string option)" where
  "load_config toml probe url token =
     (case read_config toml probe CONFIG_PATHS of
        Inl e \<Rightarrow> Inl e
      | Inr (cfg, path) \<Rightarrow>
          (let cfg' = env_overrides url token cfg in
           if en_stage_timeout_ms (rg_engine cfg') = 0
           then Inl (Config ''[engine] stage_timeout_ms must be greater than 0'')
           else Inr (cfg', path)))"

definition DLP_POLICY_PATHS :: "string list" where
  "DLP_POLICY_PATHS = [''/etc/riggs/dlp-policy.toml'', ''config/dlp-policy.toml'']"

definition EGRESS_POLICY_PATHS :: "string list" where
  "EGRESS_POLICY_PATHS = [''/etc/riggs/egress-policy.toml'', ''config/egress-policy.toml'']"

text \<open>
  \<^verbatim>\<open>find_policy_file\<close> and \<^verbatim>\<open>load_policy_file\<close> of a policy called \<open>what\<close>: the first file that exists, or
  the section of the main configuration when there is none.
\<close>

fun policy_config ::
  "string \<Rightarrow> (string \<Rightarrow> string + 'c) \<Rightarrow> 'c \<Rightarrow> file_probe \<Rightarrow> string list \<Rightarrow> riggs_error + ('c \<times> string option)" where
  "policy_config what toml fallback probe [] = Inr (fallback, None)"
| "policy_config what toml fallback probe (p # ps) =
     (case probe p of
        None \<Rightarrow> policy_config what toml fallback probe ps
      | Some (Inl e) \<Rightarrow> Inl (Config (''failed to read '' @ what @ '' policy '' @ p @ '': '' @ e))
      | Some (Inr contents) \<Rightarrow>
          (case toml contents of
             Inl e \<Rightarrow> Inl (Config (''failed to parse '' @ what @ '' policy '' @ p @ '': '' @ e))
           | Inr c \<Rightarrow> Inr (c, Some p)))"

section \<open>The state of the stages\<close>

record detection_world =
  dw_static :: static_ai_stage
  dw_rules :: rules_stage
  dw_behavior :: behavior_tracker
  dw_intel :: intel_stage
  dw_dlp :: dlp_stage

text \<open>
  What the stages meet. \<open>dn_timeout\<close> of a stage and an event is the state in which the abandoned
  call leaves the stages when its budget elapses; \<open>dn_clock\<close> gives the microseconds a call took
  and the clock after it.
\<close>

record detection_env =
  dn_static :: "riggs_event \<Rightarrow> static_env"
  dn_yara :: "riggs_event \<Rightarrow> yara_scan option"
  dn_rules_clock :: "riggs_event \<Rightarrow> nat \<Rightarrow> timestamp"
  dn_lower :: "string \<Rightarrow> string"
  dn_now :: "riggs_event \<Rightarrow> timestamp"
  dn_hash :: double_hash
  dn_intel :: "riggs_event \<Rightarrow> intel_env"
  dn_header :: "riggs_event \<Rightarrow> string \<Rightarrow> string option"
  dn_timeout :: "string \<Rightarrow> riggs_event \<Rightarrow> detection_world \<Rightarrow> detection_world option"
  dn_clock :: "string \<Rightarrow> riggs_event \<Rightarrow> nat \<times> timestamp"

text \<open>A stage under \<^verbatim>\<open>tokio::time::timeout\<close>, as the pipeline calls it.\<close>

definition timed_call ::
  "detection_env \<Rightarrow> string \<Rightarrow> (detection_world \<Rightarrow> riggs_event \<Rightarrow> detection_world \<times> analysis)
   \<Rightarrow> detection_world \<Rightarrow> riggs_event \<Rightarrow> detection_world \<times> analysis timed \<times> nat \<times> timestamp" where
  "timed_call env name f w ev =
     (case dn_timeout env name ev w of
        Some w' \<Rightarrow> (w', Elapsed, dn_clock env name ev)
      | None \<Rightarrow> (let (w', r) = f w ev in (w', Completed r, dn_clock env name ev)))"

definition call_static :: "detection_env \<Rightarrow> detection_world \<Rightarrow> riggs_event \<Rightarrow> detection_world \<times> analysis" where
  "call_static env w ev =
     (let (s, r) = static_analyze (dn_static env ev) (dw_static w) ev in (w\<lparr>dw_static := s\<rparr>, r))"

definition call_rules :: "detection_env \<Rightarrow> detection_world \<Rightarrow> riggs_event \<Rightarrow> detection_world \<times> analysis" where
  "call_rules env w ev =
     (let (s, r) = rules_analyze (dn_yara env ev) (dn_rules_clock env ev) (dw_rules w) ev in (w\<lparr>dw_rules := s\<rparr>, r))"

definition call_behavior :: "detection_env \<Rightarrow> detection_world \<Rightarrow> riggs_event \<Rightarrow> detection_world \<times> analysis" where
  "call_behavior env w ev =
     (let (s, r) = behavioral_analyze (dn_lower env) (dn_now env ev) (dw_behavior w) ev in (w\<lparr>dw_behavior := s\<rparr>, r))"

definition call_intel :: "detection_env \<Rightarrow> detection_world \<Rightarrow> riggs_event \<Rightarrow> detection_world \<times> analysis" where
  "call_intel env w ev =
     (let (s, r) = intel_analyze (dn_hash env) (dn_intel env ev) (dw_intel w) ev in (w\<lparr>dw_intel := s\<rparr>, r))"

definition call_dlp :: "detection_env \<Rightarrow> detection_world \<Rightarrow> riggs_event \<Rightarrow> detection_world \<times> analysis" where
  "call_dlp env w ev =
     (let (s, r) = dlp_analyze (dn_header env ev) (dn_now env ev) (dw_dlp w) ev in (w\<lparr>dw_dlp := s\<rparr>, r))"

section \<open>Building the pipeline\<close>

text \<open>
  Whether the threat-intelligence stage is added depends on its cache opening; \<open>cache_table\<close> is
  what the cache file holds, or \<open>None\<close> when it cannot be opened.
\<close>

definition add_if ::
  "bool \<Rightarrow> detection_env \<Rightarrow> string \<Rightarrow> detection_source
   \<Rightarrow> (detection_env \<Rightarrow> detection_world \<Rightarrow> riggs_event \<Rightarrow> detection_world \<times> analysis)
   \<Rightarrow> detection_world detection_pipeline \<Rightarrow> detection_world detection_pipeline" where
  "add_if enabled env name source f p =
     (if enabled then add_stage name source (timed_call env name (f env)) p else p)"

definition build_pipeline ::
  "riggs_config \<Rightarrow> bool \<Rightarrow> detection_env \<Rightarrow> detection_world detection_pipeline" where
  "build_pipeline cfg cache_opens env =
     (let en = rg_engine cfg;
          p0 = with_merge_thresholds (en_merge_malicious_threshold en) (en_merge_suspicious_threshold en) pipeline_new;
          p1 = add_if (en_static_ai_enabled en) env STATIC_AI StaticAI call_static p0;
          p2 = add_if (en_rules_enabled en) env RULES YaraRule call_rules p1;
          p3 = add_if (en_behavioral_ai_enabled en) env BEHAVIORAL_AI BehavioralAI call_behavior p2;
          p4 = add_if (ic_enabled (rg_intel cfg) \<and> cache_opens) env THREAT_INTEL ThreatIntel call_intel p3
      in add_if (dlpc_enabled (rg_dlp cfg)) env DLP Dlp call_dlp p4)"

definition initial_static :: "engine_config \<Rightarrow> static_ai_stage" where
  "initial_static en =
     with_max_scan_bytes (unat (en_static_ai_max_scan_mib en * 1024 * 1024))
       (static_stage_new (en_static_ai_model_path en))"

definition client_if :: "bool \<Rightarrow> string \<Rightarrow> nat \<Rightarrow> nat \<Rightarrow> rate_limiter option" where
  "client_if enabled api_key per_minute now =
     (if enabled \<and> api_key \<noteq> [] then Some (rate_limiter_new per_minute now) else None)"

definition initial_intel ::
  "intel_config \<Rightarrow> bloom_filter \<Rightarrow> (string, cached_verdict option) hmap \<Rightarrow> nat \<Rightarrow> intel_stage" where
  "initial_intel ic bloom table now =
     \<lparr>is_bloom = bloom,
      is_cache = \<lparr>vc_table = table, vc_ttl_clean_hours = ic_cache_ttl_clean_hours ic,
                  vc_ttl_malicious_hours = ic_cache_ttl_malicious_hours ic\<rparr>,
      is_vt = client_if (vt_enabled (ic_virustotal ic)) (vt_api_key (ic_virustotal ic)) 4 now,
      is_abuseipdb = client_if (abi_enabled (ic_abuseipdb ic)) (abi_api_key (ic_abuseipdb ic)) 60 now\<rparr>"

definition initial_dlp :: "dlp_config \<Rightarrow> dlp_stage" where
  "initial_dlp dc =
     with_detection_channel 1000
       (dlp_stage_new (dlp_new (dlp_from_config dc) (sint (dlpc_correlation_window_secs dc))))"

text \<open>
  The detection side of \<^verbatim>\<open>run\<close> up to the event loop: a DLP policy file that does not load stops
  the start. \<open>local_rules\<close> are the indicator lists and custom rules of an existing rules directory.
\<close>

record boot_inputs =
  bi_probe :: file_probe
  bi_dlp_toml :: "string \<Rightarrow> string + dlp_config"
  bi_egress_toml :: "string \<Rightarrow> string + egress_config"
  bi_local_rules :: "(ioc_matcher \<times> custom_rule_engine) option"
  bi_bloom :: bloom_filter
  bi_cache_table :: "(string, cached_verdict option) hmap option"
  bi_now :: nat

definition initial_rules :: "engine_config \<Rightarrow> (ioc_matcher \<times> custom_rule_engine) option \<Rightarrow> rules_stage" where
  "initial_rules en local_rules =
     (if en_rules_enabled en
      then \<lparr>rs_ioc = None, rs_local_ioc = map_option fst local_rules, rs_custom = map_option snd local_rules\<rparr>
      else \<lparr>rs_ioc = None, rs_local_ioc = None, rs_custom = None\<rparr>)"

definition boot_detection ::
  "riggs_config \<Rightarrow> boot_inputs \<Rightarrow> detection_env
   \<Rightarrow> riggs_error + (detection_world \<times> detection_world detection_pipeline)" where
  "boot_detection cfg bi env =
     (case (if dlpc_enabled (rg_dlp cfg)
            then policy_config ''DLP'' (bi_dlp_toml bi) (rg_dlp cfg) (bi_probe bi) DLP_POLICY_PATHS
            else Inr (rg_dlp cfg, None)) of
        Inl e \<Rightarrow> Inl e
      | Inr (dlp, _) \<Rightarrow>
          Inr (\<lparr>dw_static = initial_static (rg_engine cfg),
                dw_rules = initial_rules (rg_engine cfg) (bi_local_rules bi),
                dw_behavior = behavioral_configured (en_behavioral_max_events_per_storyline (rg_engine cfg))
                                (en_behavioral_max_storylines (rg_engine cfg)) (rg_detection cfg),
                dw_intel = initial_intel (rg_intel cfg) (bi_bloom bi)
                             (case bi_cache_table bi of Some t \<Rightarrow> t | None \<Rightarrow> []) (bi_now bi),
                dw_dlp = initial_dlp dlp\<rparr>,
               build_pipeline cfg (bi_cache_table bi \<noteq> None) env))"

text \<open>The egress engine of the daemon: the policy file is the source of truth.\<close>

definition boot_egress ::
  "(string \<Rightarrow> 'net option) \<Rightarrow> riggs_config \<Rightarrow> boot_inputs \<Rightarrow> riggs_error + ('net egress_engine \<times> string)" where
  "boot_egress net_parse cfg bi =
     (case policy_config ''egress'' (bi_egress_toml bi) (rg_egress cfg) (bi_probe bi) EGRESS_POLICY_PATHS of
        Inl e \<Rightarrow> Inl e
      | Inr (ec, file) \<Rightarrow>
          Inr (egress_new (egress_from_config net_parse ec),
               case file of Some p \<Rightarrow> p | None \<Rightarrow> hd EGRESS_POLICY_PATHS))"

section \<open>A bad file stops the start\<close>

text \<open>The first path of a list at which something exists.\<close>

definition first_existing :: "file_probe \<Rightarrow> string list \<Rightarrow> string option" where
  "first_existing probe ps = List.find (\<lambda>p. probe p \<noteq> None) ps"

lemma read_config_first:
  "read_config toml probe ps = Inr (cfg, path) \<Longrightarrow>
     path = first_existing probe ps
     \<and> (case path of None \<Rightarrow> cfg = riggs_config_default | Some p \<Rightarrow> (\<exists>text. probe p = Some (Inr text) \<and> toml text = Inr cfg))"
  by (induction ps) (auto simp: first_existing_def split: option.splits sum.splits)

lemma policy_config_first:
  "policy_config what toml fallback probe ps = Inr (c, path) \<Longrightarrow>
     path = first_existing probe ps
     \<and> (case path of None \<Rightarrow> c = fallback | Some p \<Rightarrow> (\<exists>text. probe p = Some (Inr text) \<and> toml text = Inr c))"
  by (induction ps) (auto simp: first_existing_def split: option.splits sum.splits)


section \<open>The pipeline keeps the contracts of its stages\<close>

text \<open>A verdict that counts: about this event, above Clean, and with a confidence the merge uses.\<close>

definition counts :: "riggs_event \<Rightarrow> verdict \<Rightarrow> bool" where
  "counts ev v \<longleftrightarrow> usable v \<and> v_event_id v = event_id_of ev \<and> v_threat_level v \<noteq> Clean"

text \<open>What a stage of a pipeline promises as long as the shared state is in order.\<close>

locale kept_world =
  fixes ok :: "'w \<Rightarrow> bool"
begin

definition sound_stage :: "'w tracked_stage \<Rightarrow> bool" where
  "sound_stage st \<longleftrightarrow>
     (\<forall>w ev. ok w \<longrightarrow> ok (fst (ts_analyze st w ev))
        \<and> (\<forall>r. fst (snd (ts_analyze st w ev)) = Completed r \<longrightarrow> well_reported ev r))"

lemma collect_counts:
  "well_reported ev r \<Longrightarrow> list_all (counts ev) vs \<Longrightarrow> list_all (counts ev) (collect_verdict r vs)"
  by (auto simp: collect_verdict_def well_reported_def reports_def counts_def split: sum.splits stage_verdict.splits)

lemma run_stage_sound:
  assumes "sound_stage st" and "ok w" and "list_all (counts ev) vs"
    and "run_stage ev t w st vs = (w', st', vs')"
  shows "ok w' \<and> sound_stage st' \<and> list_all (counts ev) vs'"
proof -
  obtain r us now where call: "ts_analyze st w ev = (w', r, us, now)" and st': "ts_analyze st' = ts_analyze st"
    and vs': "vs' = (case r of Completed a \<Rightarrow> collect_verdict a vs
       | Elapsed \<Rightarrow> if is_file ev then vs @ [timeout_verdict now ev t st] else vs)"
    using assms(4) by (auto simp: run_stage_def Let_def split: prod.splits)
  have w': "ok w'" and rep: "\<And>a. r = Completed a \<Longrightarrow> well_reported ev a"
    using assms(1,2) call unfolding sound_stage_def by (metis fst_conv snd_conv)+
  have "counts ev (timeout_verdict now ev t st)"
    using timeout_verdict_usable by (simp add: counts_def timeout_verdict_def verdict_new_def)
  then have "list_all (counts ev) vs'"
    using vs' rep assms(3) by (auto simp: collect_counts split: timed.splits)
  with w' st' assms(1) show ?thesis by (simp add: sound_stage_def)
qed

lemma run_stages_sound:
  "list_all sound_stage sts \<Longrightarrow> ok w \<Longrightarrow> list_all (counts ev) vs \<Longrightarrow>
     run_stages ev t w sts vs = (w', sts', vs') \<Longrightarrow>
     ok w' \<and> list_all sound_stage sts' \<and> list_all (counts ev) vs'"
proof (induction sts arbitrary: w vs w' sts' vs')
  case (Cons st sts)
  from Cons.prems(4) show ?case
  proof (cases rule: run_stages_ConsE)
    case (skip sts2)
    with Cons.IH [of w vs w' sts2 vs'] Cons.prems show ?thesis by simp
  next
    case (run w1 st1 vs1 sts2)
    have "ok w1 \<and> sound_stage st1 \<and> list_all (counts ev) vs1"
      using run_stage_sound [OF _ _ _ run(2)] Cons.prems by simp
    with Cons.IH [of w1 vs1 w' sts2 vs'] run Cons.prems show ?thesis by simp
  qed
qed simp

lemma pipeline_run_sound:
  assumes "list_all sound_stage (dp_stages p)" and "ok w" and "pipeline_run ev t w p = (w', p', mv)"
  shows "ok w' \<and> list_all sound_stage (dp_stages p')
         \<and> list_all (\<lambda>v. counts ev v \<and> v_threat_level v \<le> mv_final_threat_level mv) (mv_verdicts mv)"
proof -
  obtain sts' where run: "run_stages ev t w (dp_stages p) [] = (w', sts', mv_verdicts mv)" "dp_stages p' = sts'"
    "mv_final_threat_level mv =
      merge_verdicts_weighted (mv_verdicts mv) (dp_malicious_threshold p) (dp_suspicious_threshold p)"
    using pipeline_run_unfold [OF assms(3)] by metis
  from run_stages_sound [OF assms(1,2) _ run(1)] show ?thesis
    using run(2,3) merge_at_least by (auto simp: list_all_iff counts_def)
qed

end

text \<open>The state the daemon starts in and keeps, and calls that are abandoned without breaking it.\<close>

definition world_ok :: "detection_world \<Rightarrow> bool" where
  "world_ok w \<longleftrightarrow> static_ok (dw_static w) \<and> cache_ok (dw_intel w)"

definition abandoned_ok :: "detection_env \<Rightarrow> bool" where
  "abandoned_ok env \<longleftrightarrow>
     (\<forall>name ev w w'. world_ok w \<longrightarrow> dn_timeout env name ev w = Some w' \<longrightarrow> world_ok w')"

interpretation daemon_world: kept_world world_ok .

lemma calls_reported:
  assumes "world_ok w"
  shows "world_ok (fst (call_static env w ev)) \<and> well_reported ev (snd (call_static env w ev))"
    and "world_ok (fst (call_rules env w ev)) \<and> well_reported ev (snd (call_rules env w ev))"
    and "world_ok (fst (call_behavior env w ev)) \<and> well_reported ev (snd (call_behavior env w ev))"
    and "world_ok (fst (call_intel env w ev)) \<and> well_reported ev (snd (call_intel env w ev))"
    and "world_ok (fst (call_dlp env w ev)) \<and> well_reported ev (snd (call_dlp env w ev))"
  using assms static_contract.guarded_reported static_contract.guarded_ok rules_stage_contract.reported
    behavioral_stage_contract.reported intel_stage_contract.guarded_reported intel_stage_contract.guarded_ok
    dlp_stage_contract.reported
  by (auto simp: world_ok_def call_static_def call_rules_def call_behavior_def call_intel_def call_dlp_def split_beta)

lemma timed_call_sound:
  assumes "abandoned_ok env" and "ts_analyze st = timed_call env name f"
    and "\<And>w ev. world_ok w \<Longrightarrow> world_ok (fst (f w ev)) \<and> well_reported ev (snd (f w ev))"
  shows "daemon_world.sound_stage st"
  using assms
  by (auto simp: daemon_world.sound_stage_def timed_call_def abandoned_ok_def split_beta split: option.split)

lemma add_if_sound:
  assumes "abandoned_ok env" and "list_all daemon_world.sound_stage (dp_stages p)"
    and "\<And>w ev. world_ok w \<Longrightarrow> world_ok (fst (f env w ev)) \<and> well_reported ev (snd (f env w ev))"
  shows "list_all daemon_world.sound_stage (dp_stages (add_if b env name source f p))"
  using assms(2) timed_call_sound [OF assms(1) _ assms(3)] by (simp add: add_if_def add_stage_def)

lemma build_pipeline_sound:
  assumes "abandoned_ok env"
  shows "list_all daemon_world.sound_stage (dp_stages (build_pipeline cfg cache_opens env))"
  unfolding build_pipeline_def Let_def
  by (intro add_if_sound assms calls_reported) (simp add: pipeline_new_def with_merge_thresholds_def)

text \<open>The verdicts on a sequence of events.\<close>

fun detect_all ::
  "nat \<Rightarrow> riggs_event list \<Rightarrow> 'w \<Rightarrow> 'w detection_pipeline \<Rightarrow> (riggs_event \<times> merged_verdict) list" where
  "detect_all t [] w p = []"
| "detect_all t (ev # evs) w p =
     (let (w', p', mv) = pipeline_run ev t w p in (ev, mv) # detect_all t evs w' p')"

lemma detect_all_sound:
  "list_all daemon_world.sound_stage (dp_stages p) \<Longrightarrow> world_ok w \<Longrightarrow>
     list_all (\<lambda>(ev, mv). list_all (\<lambda>v. counts ev v \<and> v_threat_level v \<le> mv_final_threat_level mv) (mv_verdicts mv))
       (detect_all t evs w p)"
proof (induction evs arbitrary: w p)
  case (Cons ev evs)
  obtain w' p' mv where "pipeline_run ev t w p = (w', p', mv)" by (cases "pipeline_run ev t w p")
  with daemon_world.pipeline_run_sound [OF Cons.prems this] Cons.IH [of p' w'] show ?case by simp
qed simp

text \<open>
  C3: the pipeline the daemon builds keeps the contract of each of its stages. Whichever stages the
  configuration enables, over any sequence of events every verdict recorded on an event is about
  that event, is above Clean with a confidence that counts, and is not diluted: the final
  level of the event is at least its level. It is assumed that the cache file holds entries
  this program can have written, and that a call abandoned at its time-out leaves such a cache.
\<close>

theorem daemon_verdicts_sound:
  assumes "boot_detection cfg bi env = Inr (w, p)" and "abandoned_ok env" and "cache_ok (dw_intel w)"
  shows "list_all (\<lambda>(ev, mv). list_all (\<lambda>v. counts ev v \<and> v_threat_level v \<le> mv_final_threat_level mv) (mv_verdicts mv))
           (detect_all timeout_ms evs w p)"
proof (rule detect_all_sound)
  show "list_all daemon_world.sound_stage (dp_stages p)"
    using assms(1) build_pipeline_sound [OF assms(2)]
    by (auto simp: boot_detection_def split: sum.splits prod.splits if_splits)
  have "static_ok (dw_static w)"
    using assms(1) by (auto simp: boot_detection_def initial_static_def split: sum.splits prod.splits if_splits)
  with assms(3) show "world_ok w" by (simp add: world_ok_def)
qed

text \<open>
  A host with a configuration file, an egress policy file and a cached verdict, whose static
  stage always overruns its budget.
\<close>

definition sample_boot_config :: riggs_config where
  "sample_boot_config = riggs_config_default\<lparr>rg_comms := sample_cloud\<rparr>"

definition sample_probe :: file_probe where
  "sample_probe p = (if p \<in> set [''config/riggs.toml'', ''/etc/riggs/egress-policy.toml''] then Some (Inr ''enabled'') else None)"

definition sample_boot :: boot_inputs where
  "sample_boot =
     \<lparr>bi_probe = sample_probe, bi_dlp_toml = (\<lambda>_. Inl ''no table''),
      bi_egress_toml = (\<lambda>t. if t = ''enabled'' then Inr (egress_config_default\<lparr>ec_enabled := True\<rparr>) else Inl ''bad''),
      bi_local_rules = None, bi_bloom = bloom_new 64 1,
      bi_cache_table = Some [(''ab'', None)], bi_now = 0\<rparr>"

definition sample_detection :: detection_env where
  "sample_detection =
     \<lparr>dn_static = (\<lambda>_. \<lparr>se_log2 = (\<lambda>_. 0), se_parse = (\<lambda>_. None), se_metadata = (\<lambda>_. None), se_head = (\<lambda>_. None),
                       se_contents = (\<lambda>_. Inl ''gone''), se_join = None, se_now = 0\<rparr>),
      dn_yara = (\<lambda>_. None), dn_rules_clock = (\<lambda>_ _. 0), dn_lower = (\<lambda>s. s), dn_now = (\<lambda>_. 0),
      dn_hash = sample_hash, dn_intel = (\<lambda>_. quiet_env), dn_header = (\<lambda>_ _. None),
      dn_timeout = (\<lambda>name _ w. if name = STATIC_AI then Some w else None), dn_clock = (\<lambda>_ _. (5, 0))\<rparr>"

lemma sample_config_loads:
  "load_config (\<lambda>_. Inr sample_boot_config) sample_probe None (Some ''t'')
     = Inr (sample_boot_config\<lparr>rg_comms := sample_cloud\<lparr>cm_enrollment_token := Some ''t''\<rparr>\<rparr>, Some ''config/riggs.toml'')"
  by (simp add: load_config_def env_overrides_def CONFIG_PATHS_def sample_probe_def sample_boot_config_def riggs_config_default_def
      engine_config_default_def Let_def)

lemma sample_egress_boots:
  "boot_egress (\<lambda>_. None) cfg sample_boot
     = Inr (egress_new (egress_from_config (\<lambda>_. None :: unit option) (egress_config_default\<lparr>ec_enabled := True\<rparr>)),
            ''/etc/riggs/egress-policy.toml'')"
  by (simp add: boot_egress_def EGRESS_POLICY_PATHS_def sample_boot_def sample_probe_def)


theorem daemon_verdicts_sound_witness:
  "list_all (\<lambda>(ev, mv). list_all (\<lambda>v. counts ev v \<and> v_threat_level v \<le> mv_final_threat_level mv) (mv_verdicts mv))
     (detect_all 10 [sample_file]
        (fst (projr (boot_detection sample_boot_config sample_boot sample_detection)))
        (snd (projr (boot_detection sample_boot_config sample_boot sample_detection))))"
proof (rule daemon_verdicts_sound)
  have "dlpc_enabled (rg_dlp sample_boot_config) = False"
    by (simp add: sample_boot_config_def riggs_config_default_def dlp_config_default_def)
  then obtain w p where boot: "boot_detection sample_boot_config sample_boot sample_detection = Inr (w, p)"
    and table: "vc_table (is_cache (dw_intel w)) = [(''ab'', None)]"
    by (simp add: boot_detection_def initial_intel_def sample_boot_def)
  then show "boot_detection sample_boot_config sample_boot sample_detection
      = Inr (fst (projr (boot_detection sample_boot_config sample_boot sample_detection)),
             snd (projr (boot_detection sample_boot_config sample_boot sample_detection)))"
    and "cache_ok (dw_intel (fst (projr (boot_detection sample_boot_config sample_boot sample_detection))))"
    by (simp_all add: cache_ok_def)
  show "abandoned_ok sample_detection" by (simp add: abandoned_ok_def sample_detection_def)
qed

end
