(* ===== verification/Cli.thy ===== *)
theory Cli
  imports Ipc Console Devices Collector
begin

text \<open>
  The command line, \<^verbatim>\<open>riggs-cli/src/main.rs\<close> and \<^verbatim>\<open>commands.rs\<close>: the arguments, the message each command
  sends over the local socket, and what it prints for each reply. A run is composed with the model
  of the daemon's handler in \<open>Ipc\<close>, so a command line is a function on the state of the daemon.
  Text is in bytes: the rules drawn on the terminal are the bytes of their UTF-8 encoding.
\<close>

section \<open>Lines\<close>

text \<open>
  A line on the standard output or on the standard error. The line about a reply of an unexpected
  kind is told from other text, as it is what the agreement of client and daemon is about.
\<close>

datatype cli_line = Out string | Err string | UnexpectedOut | UnexpectedErr

definition esc :: "string \<Rightarrow> string" where "esc s = CHR 0x1B # s"

definition RED :: string where "RED = esc ''[31m''"
definition GREEN :: string where "GREEN = esc ''[32m''"
definition YELLOW :: string where "YELLOW = esc ''[33m''"
definition CYAN :: string where "CYAN = esc ''[36m''"
definition BOLD :: string where "BOLD = esc ''[1m''"
definition DIM :: string where "DIM = esc ''[2m''"
definition RESET :: string where "RESET = esc ''[0m''"

definition in_color :: "string \<Rightarrow> string \<Rightarrow> string" where
  "in_color color s = color @ s @ RESET"

fun line_text :: "cli_line \<Rightarrow> string" where
  "line_text (Out s) = s"
| "line_text (Err s) = s"
| "line_text UnexpectedOut = ''  '' @ in_color RED ''Unexpected response from daemon''"
| "line_text UnexpectedErr = in_color RED ''Unexpected response from daemon''"

text \<open>A horizontal rule, in characters of three bytes each.\<close>

definition bar :: "nat \<Rightarrow> cli_line" where
  "bar n = Out (in_color DIM (concat (replicate n [CHR 0xE2, CHR 0x94, CHR 0x80])))"

text \<open>A format with a width pads a text on the right, counting characters.\<close>

definition pad_right :: "nat \<Rightarrow> string \<Rightarrow> string" where
  "pad_right w s = s @ replicate (w - length (filter (\<lambda>c. \<not> is_continuation c) s)) CHR '' ''"

definition label :: "string \<Rightarrow> string \<Rightarrow> string \<Rightarrow> cli_line" where
  "label name gap value = Out (''  '' @ in_color BOLD name @ gap @ value)"

definition error_line :: "string \<Rightarrow> cli_line" where
  "error_line e = Err (in_color RED ''Error:'' @ '' '' @ e)"

section \<open>Talking to the daemon\<close>

text \<open>
  What a run meets: the daemon and its libraries, whether its socket accepts, the owner of the
  caller, the file system, and the texts of times, of I/O errors and of TOML values.
\<close>

record 'net cli_env =
  cl_ipc :: "'net ipc_libs"
  cl_limit :: nat
  cl_is_owner :: bool
  cl_accepts :: "string \<Rightarrow> bool"
  cl_io_error :: string
  cl_canonicalize :: "string \<Rightarrow> string + string"
  cl_probe :: "string \<Rightarrow> (string + string) option"
  cl_toml :: "string \<Rightarrow> string + json"
  cl_show_time :: "timestamp \<Rightarrow> string"
  cl_show_utc :: "timestamp \<Rightarrow> string"

type_synonym 'net cli_run = "'net daemon_state \<times> cli_line list \<times> (riggs_error + unit)"

fun ipc_error_display :: "string \<Rightarrow> ipc_error \<Rightarrow> string" where
  "ipc_error_display io Ipc_Io = ''IO error: '' @ io"
| "ipc_error_display io (Ipc_Serialization e) = ''Serialization error: '' @ e"
| "ipc_error_display io (Ipc_Other e) = ''IPC error: '' @ e"

definition cli_connect ::
  "'net cli_env \<Rightarrow> string \<Rightarrow> ('net daemon_state \<Rightarrow> 'net cli_run) \<Rightarrow> 'net daemon_state \<Rightarrow> 'net cli_run" where
  "cli_connect env sock k s =
     (if cl_accepts env sock then k s
      else (s, [], Inl (Comms (''Could not connect to daemon at '' @ sock @ [CHR 0x0A] @ ''Is the riggs daemon running?''))))"

definition cli_send ::
  "'net cli_env \<Rightarrow> client_message \<Rightarrow> (daemon_message \<Rightarrow> cli_line list) \<Rightarrow> 'net daemon_state \<Rightarrow> 'net cli_run" where
  "cli_send env msg view s =
     (case client_send (cl_ipc env) (cl_limit env) (cl_is_owner env) msg s of
        (s', Inl e) \<Rightarrow> (s', [], Inl (Comms (''Communication error: '' @ ipc_error_display (cl_io_error env) e)))
      | (s', Inr r) \<Rightarrow> (s', view r, Inr ()))"

definition with_lines :: "cli_line list \<Rightarrow> 'net cli_run \<Rightarrow> 'net cli_run" where
  "with_lines ls run = (case run of (s, out, r) \<Rightarrow> (s, ls @ out, r))"

section \<open>What is shown for a reply\<close>

fun show_status :: "daemon_message \<Rightarrow> cli_line list" where
  "show_status r =
     [Out (in_color BOLD ''riggs - Endpoint Protection''), bar 36] @
     (case r of
        StatusReply running events_processed active_threats \<Rightarrow>
          [label ''Status:'' ''           '' (if running then in_color GREEN ''active'' else in_color RED ''stopped''),
           label ''Events processed:'' '' '' (show_nat (unat events_processed)),
           label ''Active threats:'' ''   '' (in_color (if 0 < active_threats then RED else GREEN) (show_nat (unat active_threats)))]
      | ErrorReply e \<Rightarrow> [Out (''  '' @ in_color RED ''Error:'' @ '' '' @ e)]
      | _ \<Rightarrow> [UnexpectedOut])"

fun level_color :: "threat_level \<Rightarrow> string" where
  "level_color Malicious = RED"
| "level_color Suspicious = YELLOW"
| "level_color Clean = GREEN"

text \<open>
  The widths of the identifiers and of the level have no effect: \<^verbatim>\<open>Display\<close> of these types writes
  its text without the padding of the formatter.
\<close>

definition threat_row :: "merged_verdict \<Rightarrow> cli_line" where
  "threat_row t =
     Out (''  '' @ event_id_display (mv_event_id t) @ '' '' @
          in_color (level_color (mv_final_threat_level t)) (threat_level_display (mv_final_threat_level t)) @ '' '' @
          pad_right 10 (join '', '' (map (\<lambda>v. detection_source_display (v_source v)) (mv_verdicts t))) @ '' '' @
          in_color DIM (storyline_id_display (mv_storyline_id t)))"

definition show_threats :: "daemon_message \<Rightarrow> cli_line list" where
  "show_threats r =
     (case r of
        ThreatsReply threats \<Rightarrow>
          if threats = [] then [Out (in_color GREEN ''No active threats detected.'')]
          else [Out (in_color BOLD ''Active Threats''), bar 77,
                Out (''  '' @ in_color BOLD (pad_right 38 ''EVENT ID'' @ '' '' @ pad_right 12 ''LEVEL'' @ '' '' @
                  pad_right 10 ''SOURCES'' @ '' '' @ pad_right 14 ''STORYLINE'')), bar 77]
               @ map threat_row threats
               @ [Out [], Out (''  '' @ in_color BOLD ''Total:'' @ '' '' @ show_nat (length threats) @ '' threat(s)'')]
      | ErrorReply e \<Rightarrow> [error_line e]
      | _ \<Rightarrow> [UnexpectedErr])"

fun sev_color :: "severity \<Rightarrow> string" where
  "sev_color Critical = RED"
| "sev_color High = RED"
| "sev_color Medium = YELLOW"
| "sev_color Low = CYAN"
| "sev_color Info = DIM"

fun process_word :: "process_action \<Rightarrow> string" where
  "process_word Exec = ''exec''" | "process_word Fork = ''fork''" | "process_word Exit = ''exit''"

fun file_word :: "file_action \<Rightarrow> string" where
  "file_word Create = ''create''" | "file_word Modify = ''modify''" | "file_word Delete = ''delete''"
| "file_word Rename = ''rename''" | "file_word Open = ''open''" | "file_word Close = ''close''"
| "file_word Scan = ''scan''"

fun auth_word :: "auth_action \<Rightarrow> string" where
  "auth_word Login = ''login''" | "auth_word Logout = ''logout''"
| "auth_word Escalation = ''escalation''" | "auth_word Failed = ''failed''"

fun kernel_word :: "kernel_action \<Rightarrow> string" where
  "kernel_word ModuleLoad = ''module_load''" | "kernel_word SyscallFilter = ''syscall_filter''"
| "kernel_word MemoryExec = ''memory_exec''"

fun event_summary :: "riggs_event \<Rightarrow> string \<times> string" where
  "event_summary (Process e) = (''PROCESS'', process_word (pe_action e) @ '' '' @ pc_path (pe_context e))"
| "event_summary (File e) = (''FILE'', file_word (fe_action e) @ '' '' @ fe_path e)"
| "event_summary (Network e) =
     (''NETWORK'', (case ne_direction e of Inbound \<Rightarrow> ''in'' | Outbound \<Rightarrow> ''out'') @ '' '' @
       ne_src_addr e @ '':'' @ show_nat (unat (ne_src_port e)) @ '' -> '' @
       ne_dst_addr e @ '':'' @ show_nat (unat (ne_dst_port e)))"
| "event_summary (Dns e) = (''DNS'', de_query e @ '' -> '' @ de_response e)"
| "event_summary (Auth e) = (''AUTH'', auth_word (ae_action e) @ '' user='' @ ae_user e)"
| "event_summary (Kernel e) = (''KERNEL'', kernel_word (ke_action e) @ '' '' @ ke_detail e)"

definition event_row :: "'net cli_env \<Rightarrow> riggs_event \<Rightarrow> cli_line" where
  "event_row env ev =
     (let (etype, detail) = event_summary ev; severity = event_severity ev
      in Out (''  '' @ pad_right 24 (cl_show_time env (timestamp_of ev)) @ '' '' @ pad_right 10 etype @ '' '' @
              in_color (sev_color severity) (severity_display severity) @ '' '' @
              pad_right 6 (show_nat (unat (pc_pid (process_context_of ev)))) @ '' '' @ detail))"

definition show_events :: "'net cli_env \<Rightarrow> daemon_message \<Rightarrow> cli_line list" where
  "show_events env r =
     (case r of
        EventsReply events \<Rightarrow>
          if events = [] then [Out (in_color DIM ''No events to display.'')]
          else [Out (in_color BOLD ''Recent Events''), bar 77,
                Out (''  '' @ in_color BOLD (pad_right 24 ''TIMESTAMP'' @ '' '' @ pad_right 10 ''TYPE'' @ '' '' @
                  pad_right 8 ''SEVERITY'' @ '' '' @ pad_right 6 ''PID'' @ '' DETAIL'')), bar 77]
               @ map (event_row env) events
               @ [Out [], Out (''  '' @ in_color BOLD ''Showing:'' @ '' '' @ show_nat (length events) @ '' event(s)'')]
      | ErrorReply e \<Rightarrow> [error_line e]
      | _ \<Rightarrow> [UnexpectedErr])"

definition show_done :: "daemon_message \<Rightarrow> cli_line list" where
  "show_done r =
     (case r of
        DoneReply outcome \<Rightarrow> [Out (in_color GREEN outcome)]
      | ErrorReply e \<Rightarrow> [error_line e]
      | _ \<Rightarrow> [UnexpectedErr])"

definition show_config :: "daemon_message \<Rightarrow> cli_line list" where
  "show_config r =
     (case r of
        ConfigReply cfg \<Rightarrow> [Out (in_color BOLD ''Current Configuration''), bar 36, Out cfg]
      | ErrorReply e \<Rightarrow> [error_line e]
      | _ \<Rightarrow> [UnexpectedErr])"

definition show_scan :: "daemon_message \<Rightarrow> cli_line list" where
  "show_scan r =
     (case r of
        DoneReply outcome \<Rightarrow> [Out (in_color GREEN outcome)]
      | ErrorReply e \<Rightarrow> [Err (in_color RED ''Scan failed:'' @ '' '' @ e)]
      | _ \<Rightarrow> [UnexpectedErr])"

definition quarantine_row :: "'net cli_env \<Rightarrow> quarantined_file \<Rightarrow> cli_line" where
  "quarantine_row env f =
     Out (''  '' @ qf_id f @ ''  '' @ qf_original_path f @ ''  '' @ show_nat (unat (qf_file_size f)) @ '' bytes  '' @
          in_color DIM (cl_show_utc env (qf_quarantined_at f)))"

definition show_quarantine :: "'net cli_env \<Rightarrow> daemon_message \<Rightarrow> cli_line list" where
  "show_quarantine env r =
     (case r of
        QuarantineReply files \<Rightarrow>
          [Out (in_color BOLD ''Quarantine''), bar 36]
          @ (if files = [] then [Out (''  '' @ in_color DIM ''No quarantined files.'')] else [])
          @ map (quarantine_row env) files
          @ (if files \<noteq> [] then [Out [], Out (''  '' @ in_color DIM ''Restore with: riggs quarantine restore <id>'')] else [])
      | ErrorReply e \<Rightarrow> [error_line e]
      | _ \<Rightarrow> [UnexpectedErr])"

definition show_intel :: "daemon_message \<Rightarrow> cli_line list" where
  "show_intel r =
     (case r of
        IntelStatusReply bloom_size cache_entries feeds_last_updated \<Rightarrow>
          [Out (in_color BOLD ''Threat Intelligence''), bar 36,
           label ''Bloom filter:'' ''   '' (show_nat (unat bloom_size) @ '' hashes''),
           label ''Cache entries:'' ''  '' (show_nat (unat cache_entries)),
           label ''Last updated:'' ''   '' (case feeds_last_updated of Some ts \<Rightarrow> ts | None \<Rightarrow> in_color DIM ''never'')]
      | ErrorReply e \<Rightarrow> [error_line e]
      | _ \<Rightarrow> [UnexpectedErr])"

definition show_dlp :: "daemon_message \<Rightarrow> cli_line list" where
  "show_dlp r =
     (case r of
        DlpStatusReply enabled tracked_pids tracked_accesses watched_domains \<Rightarrow>
          [Out (in_color BOLD ''DLP Module''), bar 36,
           label ''Status:'' ''           '' (if enabled then in_color GREEN ''active'' else in_color DIM ''disabled''),
           label ''Watched domains:'' ''  '' (show_nat watched_domains),
           label ''Tracked PIDs:'' ''     '' (show_nat tracked_pids),
           label ''File accesses:'' ''    '' (show_nat tracked_accesses)]
      | ErrorReply e \<Rightarrow> [error_line e]
      | _ \<Rightarrow> [UnexpectedErr])"

definition show_egress :: "daemon_message \<Rightarrow> cli_line list" where
  "show_egress r =
     (case r of
        EgressStatusReply mode allow_domains process_rules \<Rightarrow>
          [Out (in_color BOLD ''Egress Allowlist''), bar 36,
           label ''Mode:'' ''            ''
             (if mode = ''enforce'' then in_color RED ''enforce''
              else if mode = ''monitor'' then in_color YELLOW ''monitor'' else in_color DIM ''off''),
           label ''Allow domains:'' ''   '' (show_nat allow_domains),
           label ''Process rules:'' ''   '' (show_nat process_rules)]
      | ErrorReply e \<Rightarrow> [error_line e]
      | _ \<Rightarrow> [UnexpectedErr])"

definition show_ok :: "daemon_message \<Rightarrow> cli_line list" where
  "show_ok r =
     (case r of
        OkReply \<Rightarrow> [Out (in_color GREEN ''ok'')]
      | ErrorReply e \<Rightarrow> [error_line e]
      | _ \<Rightarrow> [UnexpectedErr])"

section \<open>Commands\<close>

definition cmd_status :: "'net cli_env \<Rightarrow> string \<Rightarrow> 'net daemon_state \<Rightarrow> 'net cli_run" where
  "cmd_status env sock = cli_connect env sock (cli_send env GetStatus show_status)"

definition cmd_threats :: "'net cli_env \<Rightarrow> string \<Rightarrow> 'net daemon_state \<Rightarrow> 'net cli_run" where
  "cmd_threats env sock = cli_connect env sock (cli_send env (QueryThreats ''Low'') show_threats)"

fun events_args :: "string list \<Rightarrow> string option \<Rightarrow> nat \<Rightarrow> riggs_error + (string option \<times> nat)" where
  "events_args (a # b # rest) storyline_id limit =
     (if a \<in> {''--storyline'', ''-s''} then events_args rest (Some b) limit
      else if a \<in> {''--limit'', ''-n''} then
        (case parse_unsigned (2 ^ 64) b of
           Some n \<Rightarrow> events_args rest storyline_id n
         | None \<Rightarrow> Inl (Other ''Invalid limit value''))
      else events_args (b # rest) storyline_id limit)"
| "events_args _ storyline_id limit = Inr (storyline_id, limit)"

definition cmd_events :: "'net cli_env \<Rightarrow> string \<Rightarrow> string list \<Rightarrow> 'net daemon_state \<Rightarrow> 'net cli_run" where
  "cmd_events env sock args s =
     (case events_args args None 50 of
        Inl e \<Rightarrow> (s, [], Inl e)
      | Inr (storyline_id, limit) \<Rightarrow>
          cli_connect env sock (cli_send env (QueryEvents storyline_id limit) (show_events env)) s)"

definition cmd_config :: "'net cli_env \<Rightarrow> string \<Rightarrow> string list \<Rightarrow> 'net daemon_state \<Rightarrow> 'net cli_run" where
  "cmd_config env sock args =
     cli_connect env sock
       (case args of
          fld # value # _ \<Rightarrow> cli_send env (UpdateConfig fld value) show_done
        | _ \<Rightarrow> cli_send env GetConfig show_config)"

definition first_arg :: "string list \<Rightarrow> string \<Rightarrow> string" where
  "first_arg args d = (case args of a # _ \<Rightarrow> a | [] \<Rightarrow> d)"

definition cmd_scan :: "'net cli_env \<Rightarrow> string \<Rightarrow> string list \<Rightarrow> 'net daemon_state \<Rightarrow> 'net cli_run" where
  "cmd_scan env sock args s =
     (let requested = first_arg args ''.'' in
      case cl_canonicalize env requested of
        Inl e \<Rightarrow> (s, [], Inl (Io (''cannot scan '' @ requested @ '': '' @ e)))
      | Inr path \<Rightarrow>
          cli_connect env sock
            (\<lambda>s. with_lines [Out (in_color BOLD ''Requesting scan:'' @ '' '' @ path)]
                   (cli_send env (TriggerScan path) show_scan s)) s)"

definition cmd_quarantine :: "'net cli_env \<Rightarrow> string \<Rightarrow> string list \<Rightarrow> 'net daemon_state \<Rightarrow> 'net cli_run" where
  "cmd_quarantine env sock args =
     cli_connect env sock
       (if first_arg args [] = ''restore'' then
          (case args of
             _ # i # _ \<Rightarrow> cli_send env (QuarantineRestore i) show_done
           | _ \<Rightarrow> (\<lambda>s. (s, [Err ''Usage: riggs quarantine restore <id>''], Inr ())))
        else cli_send env QuarantineList (show_quarantine env))"

definition cmd_intel :: "'net cli_env \<Rightarrow> string \<Rightarrow> string list \<Rightarrow> 'net daemon_state \<Rightarrow> 'net cli_run" where
  "cmd_intel env sock args =
     (let subcmd = first_arg args ''status'' in
      cli_connect env sock
        (if subcmd = ''update'' then
           (\<lambda>s. with_lines [Out (in_color BOLD ''Refreshing threat intelligence feeds...'')]
                  (cli_send env RefreshFeeds show_done s))
         else if subcmd = ''status'' then cli_send env IntelStatus show_intel
         else (\<lambda>s. (s, [Err (''Unknown intel subcommand: '' @ subcmd), Out ''Usage: riggs intel [update|status]''], Inr ()))))"

definition cmd_egress :: "'net cli_env \<Rightarrow> string \<Rightarrow> string list \<Rightarrow> 'net daemon_state \<Rightarrow> 'net cli_run" where
  "cmd_egress env sock args s =
     (let subcmd = first_arg args ''status'' in
      if subcmd \<in> {''status'', ''list''} then cli_connect env sock (cli_send env EgressStatus show_egress) s
      else if subcmd \<in> {''allow'', ''deny'', ''mode''} then
        (case args of
           _ # value # _ \<Rightarrow>
             cli_connect env sock
               (cli_send env
                  (if subcmd = ''allow'' then EgressAllow value
                   else if subcmd = ''deny'' then EgressDeny value else EgressSetMode value) show_ok) s
         | _ \<Rightarrow> (s, [Err (''Usage: riggs egress '' @ subcmd @ '' <value>'')], Inr ()))
      else (s, [Err (''Unknown egress subcommand: '' @ subcmd),
                Out ''Usage: riggs egress [status | allow <domain> | deny <domain> | mode off|monitor|enforce]''], Inr ()))"

definition cmd_vuln :: "'net cli_env \<Rightarrow> string \<Rightarrow> string list \<Rightarrow> 'net daemon_state \<Rightarrow> 'net cli_run" where
  "cmd_vuln env sock args =
     (let subcmd = first_arg args ''status'' in
      cli_connect env sock
        (if subcmd = ''update'' then
           (\<lambda>s. with_lines [Out (in_color BOLD ''Refreshing vulnerability database from OSV.dev...'')]
                  (cli_send env VulnUpdate show_done s))
         else (\<lambda>s. (s, [Err (''Unknown vuln subcommand: '' @ subcmd), Out ''Usage: riggs vuln update''], Inr ()))))"

subsection \<open>The DLP policy file\<close>

definition CLI_DLP_PATHS :: "string list" where
  "CLI_DLP_PATHS = [''/etc/riggs/dlp-policy.toml'', ''config/dlp-policy.toml'']"

text \<open>\<^verbatim>\<open>Value::as_i64\<close> of a number given by its text.\<close>

fun as_i64 :: "json \<Rightarrow> int option" where
  "as_i64 (J_Number (c # t)) =
     (if c = CHR ''-'' then
        (if list_all is_digit t \<and> t \<noteq> [] \<and> digits_value 0 t \<le> 2 ^ 63 then Some (- int (digits_value 0 t)) else None)
      else map_option int (parse_unsigned (2 ^ 63) (c # t)))"
| "as_i64 _ = None"

definition path_get :: "json \<Rightarrow> string list \<Rightarrow> json option" where
  "path_get v keys = foldl (\<lambda>o' k. Option.bind o' (\<lambda>w. json_get w k)) (Some v) keys"

definition strings_at :: "json \<Rightarrow> string list \<Rightarrow> string list option" where
  "strings_at v keys = map_option (List.map_filter as_str) (Option.bind (path_get v keys) as_array)"

definition domain_row :: "json \<Rightarrow> cli_line" where
  "domain_row d =
     (let pattern = (case Option.bind (json_get d ''pattern'') as_str of Some s \<Rightarrow> s | None \<Rightarrow> ''?'');
          category = (case Option.bind (json_get d ''category'') as_str of Some s \<Rightarrow> s | None \<Rightarrow> [])
      in Out (''    '' @ in_color CYAN (pad_right 30 pattern) @ '' '' @ in_color DIM category))"

definition listed :: "string \<Rightarrow> string \<Rightarrow> string \<Rightarrow> string list option \<Rightarrow> cli_line list" where
  "listed name gap color xs =
     (case xs of Some ts \<Rightarrow> [label name gap (in_color color (join '', '' ts))] | None \<Rightarrow> [])"

definition show_policy :: "string \<Rightarrow> json \<Rightarrow> cli_line list" where
  "show_policy path config =
     [Out (in_color BOLD ''DLP Policy'' @ '' '' @ in_color DIM (''('' @ path @ '')'')), bar 36]
     @ (case Option.bind (json_get config ''action'') as_str of
          Some action \<Rightarrow> [label ''Action:'' ''           '' (in_color (if action = ''block'' then RED else YELLOW) action)]
        | None \<Rightarrow> [])
     @ (case Option.bind (json_get config ''correlation_window_secs'') as_i64 of
          Some window \<Rightarrow> [label ''Window:'' ''           '' (show_int window @ ''s'')]
        | None \<Rightarrow> [])
     @ [Out [], Out (''  '' @ in_color BOLD ''Watched Domains:'')]
     @ (case Option.bind (json_get config ''watched_domains'') as_array of
          Some domains \<Rightarrow> map domain_row domains
        | None \<Rightarrow> [])
     @ [Out []]
     @ listed ''Blocked types:'' ''    '' RED (strings_at config [''file_types'', ''block''])
     @ listed ''Alert types:'' ''      '' YELLOW (strings_at config [''file_types'', ''alert''])
     @ [Out []]
     @ listed ''Excluded:'' ''         '' DIM (strings_at config [''excluded_processes'', ''names''])"

definition cmd_policy :: "'net cli_env \<Rightarrow> cli_line list \<times> (riggs_error + unit)" where
  "cmd_policy env =
     (case List.find (\<lambda>p. cl_probe env p \<noteq> None) CLI_DLP_PATHS of
        None \<Rightarrow>
          ([Out (in_color DIM ''No DLP policy file found.''), Out [],
            Out ''Create one at /etc/riggs/dlp-policy.toml or config/dlp-policy.toml'',
            Out ''See config/dlp-policy.toml in the repository for a template.''], Inr ())
      | Some path \<Rightarrow>
          (case cl_probe env path of
             Some (Inr contents) \<Rightarrow>
               (case cl_toml env contents of
                  Inl e \<Rightarrow> ([], Inl (Config (''failed to parse '' @ path @ '': '' @ e)))
                | Inr config \<Rightarrow> (show_policy path config, Inr ()))
           | Some (Inl e) \<Rightarrow> ([], Inl (Io (''failed to read '' @ path @ '': '' @ e)))
           | None \<Rightarrow> ([], Inr ())))"

definition cmd_dlp :: "'net cli_env \<Rightarrow> string \<Rightarrow> string list \<Rightarrow> 'net daemon_state \<Rightarrow> 'net cli_run" where
  "cmd_dlp env sock args s =
     (let subcmd = first_arg args ''status'' in
      if subcmd = ''status'' then cli_connect env sock (cli_send env DlpStatus show_dlp) s
      else if subcmd = ''policy'' then (s, cmd_policy env)
      else (s, [Err (''Unknown dlp subcommand: '' @ subcmd), Out ''Usage: riggs dlp [status|policy]''], Inr ()))"

section \<open>The program\<close>

definition DEFAULT_SOCKET_PATH :: string where "DEFAULT_SOCKET_PATH = ''/var/run/riggs.sock''"

definition usage :: "cli_line list" where
  "usage =
     [Out ''riggs - Endpoint Protection System'', Out [],
      Out ''Usage: riggs [--socket <path>] <command> [options]'', Out [],
      Out ''Options:'',
      Out (''  --socket <path>  Override daemon socket path (default: '' @ DEFAULT_SOCKET_PATH @ '')''), Out [],
      Out ''Commands:'',
      Out ''  status       Show daemon status and active threats'',
      Out ''  threats      List detected threats'',
      Out ''  events       Query event log'',
      Out ''  config       View/update configuration'',
      Out ''  scan <path>  Trigger on-demand scan'',
      Out ''  quarantine   Manage quarantined files'',
      Out ''  intel        Threat intelligence management'',
      Out ''  dlp          Data loss prevention status and policy'',
      Out ''  egress       Default-deny egress allowlist (status/allow/deny/mode)'',
      Out ''  vuln         Vulnerability feed management'',
      Out ''  help         Show this help message'']"

text \<open>The options before the command; \<open>None\<close> is a \<^verbatim>\<open>--socket\<close> without its path.\<close>

fun main_args :: "string \<Rightarrow> string list \<Rightarrow> (string \<times> string list) option" where
  "main_args sock [] = Some (sock, [])"
| "main_args sock (a # args) =
     (if a = ''--socket'' then (case args of [] \<Rightarrow> None | p # rest \<Rightarrow> main_args p rest)
      else Some (sock, a # args))"

definition command :: "'net cli_env \<Rightarrow> string \<Rightarrow> string \<Rightarrow> string list \<Rightarrow> 'net daemon_state \<Rightarrow> 'net cli_run" where
  "command env sock cmd args s =
     (if cmd = ''status'' then cmd_status env sock s
      else if cmd = ''threats'' then cmd_threats env sock s
      else if cmd = ''events'' then cmd_events env sock args s
      else if cmd = ''config'' then cmd_config env sock args s
      else if cmd = ''scan'' then cmd_scan env sock args s
      else if cmd = ''quarantine'' then cmd_quarantine env sock args s
      else if cmd = ''intel'' then cmd_intel env sock args s
      else if cmd = ''dlp'' then cmd_dlp env sock args s
      else if cmd = ''egress'' then cmd_egress env sock args s
      else if cmd = ''vuln'' then cmd_vuln env sock args s
      else if cmd \<in> {''help'', ''--help'', ''-h''} then (s, usage, Inr ())
      else (s, Err (''Unknown command: '' @ cmd) # usage, Inr ()))"

definition cli_main ::
  "'net cli_env \<Rightarrow> string option \<Rightarrow> string list \<Rightarrow> 'net daemon_state \<Rightarrow> 'net daemon_state \<times> cli_line list \<times> nat" where
  "cli_main env riggs_socket args s =
     (case main_args (case riggs_socket of Some p \<Rightarrow> p | None \<Rightarrow> DEFAULT_SOCKET_PATH) args of
        None \<Rightarrow> (s, [Err ''Error: --socket requires a path argument''], 1)
      | Some (sock, []) \<Rightarrow> (s, usage, 0)
      | Some (sock, cmd # rest) \<Rightarrow>
          (case command env sock cmd rest s of
             (s', lines, Inr _) \<Rightarrow> (s', lines, 0)
           | (s', lines, Inl e) \<Rightarrow> (s', lines @ [Err (''Error: '' @ error_display e)], 1)))"


section \<open>Client and daemon agree\<close>

text \<open>The message a command line asks the daemon to carry out, if any.\<close>

definition egress_request :: "string list \<Rightarrow> client_message option" where
  "egress_request args =
     (case args of
        [] \<Rightarrow> Some EgressStatus
      | sub # rest \<Rightarrow>
          if sub \<in> {''status'', ''list''} then Some EgressStatus
          else case rest of
            [] \<Rightarrow> None
          | value # _ \<Rightarrow>
              if sub = ''allow'' then Some (EgressAllow value)
              else if sub = ''deny'' then Some (EgressDeny value)
              else if sub = ''mode'' then Some (EgressSetMode value) else None)"

definition request_of :: "'net cli_env \<Rightarrow> string \<Rightarrow> string list \<Rightarrow> client_message option" where
  "request_of env cmd args =
     (if cmd = ''status'' then Some GetStatus
      else if cmd = ''threats'' then Some (QueryThreats ''Low'')
      else if cmd = ''events'' then
        (case events_args args None 50 of Inr (sid, n) \<Rightarrow> Some (QueryEvents sid n) | Inl _ \<Rightarrow> None)
      else if cmd = ''config'' then (case args of k # v # _ \<Rightarrow> Some (UpdateConfig k v) | _ \<Rightarrow> Some GetConfig)
      else if cmd = ''scan'' then
        (case cl_canonicalize env (first_arg args ''.'') of Inr p \<Rightarrow> Some (TriggerScan p) | Inl _ \<Rightarrow> None)
      else if cmd = ''quarantine'' then
        (case args of
           a # rest \<Rightarrow> if a = ''restore'' then (case rest of i # _ \<Rightarrow> Some (QuarantineRestore i) | [] \<Rightarrow> None)
                      else Some QuarantineList
         | [] \<Rightarrow> Some QuarantineList)
      else if cmd = ''intel'' then
        (if first_arg args ''status'' = ''update'' then Some RefreshFeeds
         else if first_arg args ''status'' = ''status'' then Some IntelStatus else None)
      else if cmd = ''dlp'' then (if first_arg args ''status'' = ''status'' then Some DlpStatus else None)
      else if cmd = ''egress'' then egress_request args
      else if cmd = ''vuln'' then (if first_arg args ''status'' = ''update'' then Some VulnUpdate else None)
      else None)"

fun view_of :: "'net cli_env \<Rightarrow> client_message \<Rightarrow> daemon_message \<Rightarrow> cli_line list" where
  "view_of env GetStatus = show_status"
| "view_of env (QueryThreats _) = show_threats"
| "view_of env (QueryEvents _ _) = show_events env"
| "view_of env GetConfig = show_config"
| "view_of env (TriggerScan _) = show_scan"
| "view_of env QuarantineList = show_quarantine env"
| "view_of env IntelStatus = show_intel"
| "view_of env DlpStatus = show_dlp"
| "view_of env EgressStatus = show_egress"
| "view_of env (EgressAllow _) = show_ok"
| "view_of env (EgressDeny _) = show_ok"
| "view_of env (EgressSetMode _) = show_ok"
| "view_of env _ = show_done"

definition understood :: "cli_line list \<Rightarrow> bool" where
  "understood ls \<longleftrightarrow> list_all (\<lambda>l. l \<noteq> UnexpectedOut \<and> l \<noteq> UnexpectedErr) ls"

lemma understood_simps [simp]:
  "understood []" "understood (Out t # ls) = understood ls" "understood (Err t # ls) = understood ls"
  "understood (UnexpectedOut # ls) = False" "understood (UnexpectedErr # ls) = False"
  "understood (bar n # ls) = understood ls" "understood (label a b c # ls) = understood ls"
  "understood (error_line e # ls) = understood ls"
  "understood (ls @ ls') = (understood ls \<and> understood ls')"
  by (simp_all add: understood_def bar_def label_def error_line_def)

lemma understood_rows [simp]:
  "understood (map threat_row ts)" "understood (map (event_row env) evs)" "understood (map (quarantine_row env) fs)"
  by (auto simp: understood_def list_all_iff threat_row_def event_row_def quarantine_row_def Let_def split: prod.splits)

lemmas views = show_threats_def show_events_def show_config_def show_scan_def show_quarantine_def
  show_intel_def show_dlp_def show_egress_def show_ok_def show_done_def

lemmas commands = command_def cmd_status_def cmd_threats_def cmd_events_def cmd_config_def cmd_scan_def
  cmd_quarantine_def cmd_intel_def cmd_dlp_def cmd_egress_def cmd_vuln_def

text \<open>One case per command.\<close>

lemma command_cases:
  obtains (status) "cmd = ''status''"
    | (threats) "cmd = ''threats''"
    | (events) "cmd = ''events''"
    | (config) "cmd = ''config''"
    | (scan) "cmd = ''scan''"
    | (quarantine) "cmd = ''quarantine''"
    | (intel) "cmd = ''intel''"
    | (dlp) "cmd = ''dlp''"
    | (egress) "cmd = ''egress''"
    | (vuln) "cmd = ''vuln''"
    | (other) "cmd \<noteq> ''status'' \<and> cmd \<noteq> ''threats'' \<and> cmd \<noteq> ''events'' \<and> cmd \<noteq> ''config'' \<and> cmd \<noteq> ''scan''
        \<and> cmd \<noteq> ''quarantine'' \<and> cmd \<noteq> ''intel'' \<and> cmd \<noteq> ''dlp'' \<and> cmd \<noteq> ''egress'' \<and> cmd \<noteq> ''vuln''"
  by argo

text \<open>What is sent to the daemon and what is made of its reply, for any command.\<close>

lemma command_request:
  assumes "request_of env cmd args = Some msg" and "cl_accepts env sock"
  shows "\<exists>pre. understood pre \<and> command env sock cmd args s = with_lines pre (cli_send env msg (view_of env msg) s)"
proof -
  have id: "with_lines [] run = run" for run :: "'a cli_run" by (cases run) (simp add: with_lines_def)
  have "command env sock cmd args s = cli_send env msg (view_of env msg) s
        \<or> (\<exists>t. command env sock cmd args s = with_lines [Out t] (cli_send env msg (view_of env msg) s))"
    using assms
    by (cases cmd rule: command_cases)
      (auto simp: request_of_def egress_request_def commands first_arg_def cli_connect_def Let_def
        split: if_splits sum.splits list.splits)
  then show ?thesis by (metis id understood_simps(1,2))
qed

definition daemon_answer ::
  "'net ipc_libs \<Rightarrow> bool \<Rightarrow> client_message \<Rightarrow> 'net daemon_state \<Rightarrow> 'net daemon_state \<times> daemon_message" where
  "daemon_answer il is_owner msg s =
     (if needs_privilege msg \<and> \<not> is_owner then (s, ErrorReply PERMISSION_DENIED) else handle_message il s msg)"

text \<open>The outcome is visible in the last line: what was done, that it was done, or the daemon's error.\<close>

fun tells_outcome :: "daemon_message \<Rightarrow> cli_line list \<Rightarrow> bool" where
  "tells_outcome (DoneReply t) ls = (ls \<noteq> [] \<and> last ls = Out (in_color GREEN t))"
| "tells_outcome OkReply ls = (ls \<noteq> [] \<and> last ls = Out (in_color GREEN ''ok''))"
| "tells_outcome (ErrorReply e) ls = (ls \<noteq> [] \<and> ends_with (line_text (last ls)) e)"
| "tells_outcome _ ls = True"

lemma tells_outcome_append: "tells_outcome r ls \<Longrightarrow> tells_outcome r (pre @ ls)"
  by (cases r) auto

fun flow_query :: "client_message \<Rightarrow> bool" where
  "flow_query (DlpCheckFlow _ _ _ _) = True"
| "flow_query (EgressCheckFlow _ _ _ _ _) = True"
| "flow_query _ = False"

lemma request_not_flow_query: "request_of env cmd args = Some msg \<Longrightarrow> \<not> flow_query msg"
  by (auto simp: request_of_def egress_request_def split: if_splits sum.splits list.splits)

lemma view_error: "understood (view_of env msg (ErrorReply e)) \<and> tells_outcome (ErrorReply e) (view_of env msg (ErrorReply e))"
  by (cases msg) (simp_all add: views error_line_def ends_with_iff)

lemma view_answer:
  "\<not> flow_query msg \<Longrightarrow>
     understood (view_of env msg (snd (handle_message il s msg)))
     \<and> tells_outcome (snd (handle_message il s msg)) (view_of env msg (snd (handle_message il s msg)))"
  by (cases msg)
    (auto simp: views egress_mutate_def control_def error_line_def ends_with_iff
      split: slot.splits prod.splits sum.splits option.splits)

text \<open>
  C32: the command line and the daemon agree. Whatever the command, once its message and the reply fit
  the encoding, the daemon is left as carrying out that message leaves it (or untouched, when
  the caller may not ask for it), the reply is of the kind the command expects, its outcome or
  error is the end of what is printed, and the exit code is 0.
\<close>

theorem cli_agrees_with_daemon:
  assumes "main_args (case riggs_socket of Some p \<Rightarrow> p | None \<Rightarrow> DEFAULT_SOCKET_PATH) args = Some (sock, cmd # rest)"
    and "cl_accepts env sock" and "request_of env cmd rest = Some msg"
    and "daemon_answer (cl_ipc env) (cl_is_owner env) msg s = (s', reply)"
    and "message_codec (cl_ipc env) msg reply (cl_limit env)"
  shows "\<exists>lines. cli_main env riggs_socket args s = (s', lines, 0) \<and> understood lines \<and> tells_outcome reply lines"
proof -
  have "client_send (cl_ipc env) (cl_limit env) (cl_is_owner env) msg s = (s', Inr reply)"
    using client_send_answer [of "(s', reply)", OF _ _] assms(4,5) by (simp add: daemon_answer_def)
  then have sent: "cli_send env msg (view_of env msg) s = (s', view_of env msg reply, Inr ())"
    by (simp add: cli_send_def)
  have view: "understood (view_of env msg reply) \<and> tells_outcome reply (view_of env msg reply)"
    using assms(4) view_error view_answer [OF request_not_flow_query [OF assms(3)], of env "cl_ipc env" s]
    by (auto simp: daemon_answer_def split: if_splits)
  obtain pre where "understood pre" "command env sock cmd rest s = with_lines pre (cli_send env msg (view_of env msg) s)"
    using command_request [OF assms(3,2)] by blast
  with sent view assms(1) show ?thesis
    by (simp add: cli_main_def with_lines_def tells_outcome_append)
qed

section \<open>Who can change the daemon\<close>

text \<open>A JSON codec that reads back what it writes, in frames whose length fits the prefix.\<close>

definition client_codec :: "'net ipc_libs \<Rightarrow> bool" where
  "client_codec il \<longleftrightarrow>
     (\<forall>msg b. il_write_client il msg = Inr b \<longrightarrow> il_read_client il b = Inr msg \<and> length b < 2 ^ 32)"

lemma client_send_keeps:
  assumes "client_codec il" and "\<not> (needs_privilege msg \<and> is_owner)"
  shows "fst (client_send il limit is_owner msg s) = s"
proof (cases "il_write_client il msg")
  case (Inr b)
  then have "il_read_client il b = Inr msg" "length b < 2 ^ 32" using assms(1) by (auto simp: client_codec_def)
  with Inr assms(2) read_frame [of b limit "[]"] show ?thesis
    by (auto simp: client_send_def handle_client_def split_beta query_keeps_state)
qed (simp add: client_send_def)

lemma cli_send_keeps:
  "client_codec (cl_ipc env) \<Longrightarrow> \<not> (needs_privilege msg \<and> cl_is_owner env) \<Longrightarrow> fst (cli_send env msg view s) = s"
  using client_send_keeps [of "cl_ipc env" msg "cl_is_owner env" "cl_limit env" s]
  by (auto simp: cli_send_def split: prod.splits sum.splits)

lemma fst_with_lines [simp]: "fst (with_lines ls run) = fst run"
  by (cases run) (simp add: with_lines_def)

lemma command_unreachable: "\<not> cl_accepts env sock \<Longrightarrow> fst (command env sock cmd args s) = s"
  by (simp add: commands cli_connect_def Let_def split: sum.split list.split)

lemma silent_commands:
  "egress_request args = None \<Longrightarrow> fst (cmd_egress env sock args s) = s"
  "first_arg args ''status'' \<notin> {''update'', ''status''} \<Longrightarrow> fst (cmd_intel env sock args s) = s"
  "first_arg args ''status'' \<noteq> ''status'' \<Longrightarrow> fst (cmd_dlp env sock args s) = s"
  "first_arg args ''status'' \<noteq> ''update'' \<Longrightarrow> fst (cmd_vuln env sock args s) = s"
  "fst (cmd_quarantine env sock [''restore''] s) = s"
  "cl_canonicalize env (first_arg args ''.'') = Inl e \<Longrightarrow> fst (cmd_scan env sock args s) = s"
  "events_args args None 50 = Inl e' \<Longrightarrow> fst (cmd_events env sock args s) = s"
  by (auto simp: cmd_egress_def egress_request_def cmd_intel_def cmd_dlp_def cmd_vuln_def cmd_quarantine_def cmd_scan_def
      cmd_events_def first_arg_def cli_connect_def Let_def split: list.splits if_splits)

lemma command_no_request:
  assumes "request_of env cmd args = None"
  shows "fst (command env sock cmd args s) = s"
  using assms
  by (cases cmd rule: command_cases)
    (auto simp: request_of_def command_def silent_commands split: if_splits sum.splits list.splits)

lemma command_changes:
  assumes "client_codec (cl_ipc env)" and "fst (command env sock cmd args s) \<noteq> s"
  shows "cl_is_owner env \<and> (\<exists>msg. request_of env cmd args = Some msg \<and> needs_privilege msg)"
proof -
  obtain msg where r: "request_of env cmd args = Some msg"
    using command_no_request [of env cmd args sock s] assms(2) by (cases "request_of env cmd args") auto
  moreover have "cl_accepts env sock" using command_unreachable assms(2) by blast
  ultimately obtain pre where "command env sock cmd args s = with_lines pre (cli_send env msg (view_of env msg) s)"
    using command_request by blast
  then have "fst (cli_send env msg (view_of env msg) s) \<noteq> s" using assms(2) by simp
  with cli_send_keeps [OF assms(1), of msg] r show ?thesis by auto
qed

text \<open>
  A command line changes the daemon only when its caller is the owner of the daemon and the command
  asks for one of the messages that need the owner: no other arguments and no other caller can.
\<close>

theorem cli_changes_only_as_owner:
  assumes "client_codec (cl_ipc env)" and "fst (cli_main env riggs_socket args s) \<noteq> s"
  shows "cl_is_owner env
         \<and> (\<exists>sock cmd rest msg.
              main_args (case riggs_socket of Some p \<Rightarrow> p | None \<Rightarrow> DEFAULT_SOCKET_PATH) args = Some (sock, cmd # rest)
              \<and> request_of env cmd rest = Some msg \<and> needs_privilege msg)"
  using assms(2) command_changes [OF assms(1), of _ _ _ s]
  by (auto simp: cli_main_def split: option.splits list.splits prod.splits sum.splits) (metis fst_conv)+

text \<open>A run of \<^verbatim>\<open>riggs --socket /tmp/r egress allow a.test\<close> by someone who does not own the daemon.\<close>

definition sample_cli :: "unit cli_env" where
  "sample_cli =
     \<lparr>cl_ipc = sample_ipc, cl_limit = 1024, cl_is_owner = False, cl_accepts = (\<lambda>p. p = ''/tmp/r''), cl_io_error = ''gone'',
      cl_canonicalize = Inr, cl_probe = (\<lambda>_. None), cl_toml = (\<lambda>_. Inl ''bad''), cl_show_time = (\<lambda>_. []), cl_show_utc = (\<lambda>_. [])\<rparr>"

theorem cli_agrees_with_daemon_witness:
  "\<exists>lines. cli_main sample_cli None [''--socket'', ''/tmp/r'', ''egress'', ''allow'', ''a.test''] (daemon_state_new Map.empty)
             = (daemon_state_new Map.empty, lines, 0)
           \<and> understood lines \<and> tells_outcome (ErrorReply PERMISSION_DENIED) lines"
proof (rule cli_agrees_with_daemon)
  show "main_args (case None of Some p \<Rightarrow> p | None \<Rightarrow> DEFAULT_SOCKET_PATH) [''--socket'', ''/tmp/r'', ''egress'', ''allow'', ''a.test'']
      = Some (''/tmp/r'', [''egress'', ''allow'', ''a.test''])" by simp
  show "cl_accepts sample_cli ''/tmp/r''" by (simp add: sample_cli_def)
  show "request_of sample_cli ''egress'' [''allow'', ''a.test''] = Some (EgressAllow ''a.test'')"
    by (simp add: request_of_def egress_request_def)
  show "daemon_answer (cl_ipc sample_cli) (cl_is_owner sample_cli) (EgressAllow ''a.test'') (daemon_state_new Map.empty)
      = (daemon_state_new Map.empty, ErrorReply PERMISSION_DENIED)"
    by (simp add: daemon_answer_def sample_cli_def)
  show "message_codec (cl_ipc sample_cli) (EgressAllow ''a.test'') (ErrorReply PERMISSION_DENIED) (cl_limit sample_cli)"
    by (simp add: sample_cli_def sample_ipc_def message_codec_def DEFAULT_MAX_MSG_LEN_def)
qed

end
