(* ===== verification/Cvss.thy ===== *)
theory Cvss
  imports Vuln Static_Ai
begin

text \<open>
  The scores of OSV advisories, \<^verbatim>\<open>riggs-vuln/src/osv.rs\<close>: reading a number, the base score of a CVSS v3
  vector in double precision, and the time stamps. Rust leaves the precision of \<^verbatim>\<open>powi\<close> open, so it is
  a parameter; the parsers of \<^verbatim>\<open>chrono\<close> are parameters too.
\<close>

section \<open>Numbers\<close>

text \<open>\<^verbatim>\<open>f32::from_str\<close>: an optional sign, then a special value or a decimal number with an exponent.\<close>

definition pow10 :: "int \<Rightarrow> rat" where
  "pow10 k = (if 0 \<le> k then 10 ^ nat k else 1 / 10 ^ nat (- k))"

definition take_sign :: "string \<Rightarrow> bool \<times> string" where
  "take_sign s =
     (case s of
        c # t \<Rightarrow> if c = CHR ''-'' then (True, t) else if c = CHR ''+'' then (False, t) else (False, s)
      | [] \<Rightarrow> (False, []))"

definition parse_exponent :: "string \<Rightarrow> int option" where
  "parse_exponent s =
     (case s of
        [] \<Rightarrow> Some 0
      | c # t \<Rightarrow>
          if c = CHR ''e'' \<or> c = CHR ''E'' then
            (let (neg, ds) = take_sign t
             in if ds \<noteq> [] \<and> list_all is_digit ds
                then Some (if neg then - int (digits_value 0 ds) else int (digits_value 0 ds)) else None)
          else None)"

definition parse_decimal :: "string \<Rightarrow> rat option" where
  "parse_decimal s =
     (let ip = takeWhile is_digit s; r = dropWhile is_digit s;
          (fp, r') = (case r of
                        c # t \<Rightarrow> if c = CHR ''.'' then (takeWhile is_digit t, dropWhile is_digit t) else ([], r)
                      | [] \<Rightarrow> ([], []))
      in if ip = [] \<and> fp = [] then None
         else map_option (\<lambda>e. of_nat (digits_value 0 (ip @ fp)) * pow10 (e - int (length fp))) (parse_exponent r'))"

definition f32_parse :: "string \<Rightarrow> f32 option" where
  "f32_parse s =
     (let (neg, t) = take_sign s; l = to_ascii_lowercase t
      in if l = ''inf'' \<or> l = ''infinity'' then Some (F_Inf neg)
         else if l = ''nan'' then Some F_NaN
         else map_option (\<lambda>v. f32_round (if neg then - v else v)) (parse_decimal t))"

section \<open>The base score\<close>

type_synonym power_fn = "rat \<Rightarrow> nat \<Rightarrow> rat"

definition metrics_of :: "string \<Rightarrow> string \<Rightarrow> string option" where
  "metrics_of vector = map_of (rev (List.map_filter (split_once (CHR '':'')) (split_by (\<lambda>c. c = CHR ''/'') vector)))"

text \<open>A table of the values of a metric; the numbers are double-precision literals.\<close>

definition weight :: "(string \<times> rat) list \<Rightarrow> string \<Rightarrow> rat option" where
  "weight table v = map_option f64_near (map_of table v)"

definition attack_vector :: "(string \<times> rat) list" where
  "attack_vector = [(''N'', 85 / 100), (''A'', 62 / 100), (''L'', 55 / 100), (''P'', 2 / 10)]"

definition attack_complexity :: "(string \<times> rat) list" where
  "attack_complexity = [(''L'', 77 / 100), (''H'', 44 / 100)]"

definition user_interaction :: "(string \<times> rat) list" where
  "user_interaction = [(''N'', 85 / 100), (''R'', 62 / 100)]"

definition privileges :: "bool \<Rightarrow> (string \<times> rat) list" where
  "privileges scope_changed =
     [(''N'', 85 / 100), (''L'', if scope_changed then 68 / 100 else 62 / 100),
      (''H'', if scope_changed then 5 / 10 else 27 / 100)]"

definition impact_metric :: "(string \<times> rat) list" where
  "impact_metric = [(''H'', 56 / 100), (''L'', 22 / 100), (''N'', 0)]"

definition scope_of :: "string \<Rightarrow> bool option" where
  "scope_of v = (if v = ''U'' then Some False else if v = ''C'' then Some True else None)"

definition roundup :: "rat \<Rightarrow> rat" where
  "roundup x = f64_near (of_int \<lceil>f64_near (x * 10)\<rceil> / 10)"

definition impact_of :: "power_fn \<Rightarrow> bool \<Rightarrow> rat \<Rightarrow> rat" where
  "impact_of pw scope_changed iss =
     (if scope_changed
      then f64_near (f64_near (f64_near (752 / 100) * f64_near (iss - f64_near (29 / 1000)))
                     - f64_near (f64_near (325 / 100) * pw (f64_near (iss - f64_near (2 / 100))) 15))
      else f64_near (f64_near (642 / 100) * iss))"

definition impact_score :: "rat \<Rightarrow> rat \<Rightarrow> rat \<Rightarrow> rat" where
  "impact_score c i a =
     f64_near (1 - f64_near (f64_near (f64_near (1 - c) * f64_near (1 - i)) * f64_near (1 - a)))"

definition exploitability_of :: "rat \<Rightarrow> rat \<Rightarrow> rat \<Rightarrow> rat \<Rightarrow> rat" where
  "exploitability_of av ac pr ui =
     f64_near (f64_near (f64_near (f64_near (f64_near (822 / 100) * av) * ac) * pr) * ui)"

definition base_of :: "bool \<Rightarrow> rat \<Rightarrow> rat \<Rightarrow> rat" where
  "base_of scope_changed impact exploitability =
     (if impact \<le> 0 then 0
      else let total = f64_near (impact + exploitability)
           in roundup (min (if scope_changed then f64_near (f64_near (108 / 100) * total) else total) 10))"

definition cvss_v3_base_score :: "power_fn \<Rightarrow> string \<Rightarrow> f32 option" where
  "cvss_v3_base_score pw vector =
     (let m = metrics_of vector in
      Option.bind (Option.bind (m ''AV'') (weight attack_vector)) (\<lambda>av.
      Option.bind (Option.bind (m ''AC'') (weight attack_complexity)) (\<lambda>ac.
      Option.bind (Option.bind (m ''UI'') (weight user_interaction)) (\<lambda>ui.
      Option.bind (Option.bind (m ''S'') scope_of) (\<lambda>scope_changed.
      Option.bind (Option.bind (m ''PR'') (weight (privileges scope_changed))) (\<lambda>pr.
      Option.bind (Option.bind (m ''C'') (weight impact_metric)) (\<lambda>c.
      Option.bind (Option.bind (m ''I'') (weight impact_metric)) (\<lambda>i.
      Option.bind (Option.bind (m ''A'') (weight impact_metric)) (\<lambda>a.
        Some (f32_round (base_of scope_changed (impact_of pw scope_changed (impact_score c i a))
                                  (exploitability_of av ac pr ui))))))))))))"

definition parse_cvss_vector :: "power_fn \<Rightarrow> string \<Rightarrow> f32 option" where
  "parse_cvss_vector pw score_str =
     (let s = trim score_str in
      case f32_parse s of
        Some score \<Rightarrow> Some score
      | None \<Rightarrow> if starts_with s ''CVSS:3'' then cvss_v3_base_score pw s else None)"

text \<open>The three formats of a time stamp, tried in turn.\<close>

definition parse_osv_timestamp ::
  "(string \<Rightarrow> timestamp option) \<Rightarrow> (string \<Rightarrow> timestamp option) \<Rightarrow> (string \<Rightarrow> timestamp option)
   \<Rightarrow> string \<Rightarrow> timestamp option" where
  "parse_osv_timestamp rfc3339 naive date ts =
     (case rfc3339 ts of
        Some t \<Rightarrow> Some t
      | None \<Rightarrow> (case naive ts of Some t \<Rightarrow> Some t | None \<Rightarrow> date ts))"

section \<open>Scores stay on the scale\<close>

lemma f64_near_nonneg: "0 \<le> x \<Longrightarrow> 0 \<le> f64_near x"
  by (auto simp: f64_near_def Let_def less_imp_le intro!: mult_nonneg_nonneg round_even_nonneg divide_nonneg_nonneg)

lemma round_even_le: "x \<le> of_int n \<Longrightarrow> round_even x \<le> n"
proof (cases "x = of_int n")
  case False
  assume "x \<le> of_int n"
  with False have "x < of_int n" by simp
  then have "\<lfloor>x\<rfloor> < n" by (simp add: floor_less_iff)
  then show ?thesis by (auto simp: round_even_def Let_def)
qed simp

lemma ilog2_below:
  assumes "0 < x" and "x < pow2 k"
  shows "ilog2 x < k"
proof (rule ccontr)
  assume "\<not> ilog2 x < k"
  then have "pow2 k \<le> pow2 (ilog2 x)" by (simp add: pow2_mono)
  with ilog2_le [OF assms(1)] assms(2) show False by simp
qed

text \<open>Rounding to a grid of fractions does not cross a whole number.\<close>

lemma grid_le_int:
  assumes "x \<le> of_int n" and "e \<le> 0"
  shows "of_int (round_even (x / pow2 e)) * pow2 e \<le> of_int n"
proof -
  have p: "0 < pow2 e" by simp
  have unit: "of_int n / pow2 e = of_int (n * 2 ^ nat (- e))" using assms(2) by (auto simp: pow2_def)
  have "x / pow2 e \<le> of_int n / pow2 e" using assms(1) p by (intro divide_right_mono less_imp_le [OF p])
  then have "round_even (x / pow2 e) \<le> n * 2 ^ nat (- e)" unfolding unit by (rule round_even_le)
  then have "of_int (round_even (x / pow2 e)) \<le> (of_int n / pow2 e :: rat)"
    unfolding unit by (simp only: of_int_le_iff)
  then show ?thesis using p by (simp add: pos_le_divide_eq)
qed

lemma ilog2_small:
  assumes "0 < x" and "x \<le> of_int n" and "n < 2 ^ m"
  shows "ilog2 x < int m"
proof -
  have "(of_int n :: rat) < of_int (2 ^ m)" using assms(3) by (simp only: of_int_less_iff)
  then have "x < of_int (2 ^ m)" using assms(2) by (rule le_less_trans [rotated])
  then show ?thesis by (intro ilog2_below [OF assms(1)]) (simp add: pow2_def)
qed

lemma f64_near_le_int:
  assumes "0 \<le> x" and "x \<le> of_int n" and "n < 2 ^ 52"
  shows "f64_near x \<le> of_int n"
proof (cases "x = 0")
  case False
  then have "max (ilog2 \<bar>x\<bar> - 52) (- 1074) \<le> 0" using assms ilog2_small [of x n 52] by simp
  from grid_le_int [OF assms(2) this] False show ?thesis by (simp add: f64_near_def Let_def)
qed (use assms in \<open>simp add: f64_near_def\<close>)

lemma f32_round_between:
  assumes "0 \<le> x" and "x \<le> of_int n" and "n < 2 ^ 23"
  shows "f32_le (F_Fin 0) (f32_round x) \<and> f32_le (f32_round x) (F_Fin (of_int n))"
proof (cases "x = 0")
  case False
  define v where "v = of_int (round_even (x / pow2 (max (ilog2 \<bar>x\<bar> - 23) (- 149)))) * pow2 (max (ilog2 \<bar>x\<bar> - 23) (- 149))"
  have "max (ilog2 \<bar>x\<bar> - 23) (- 149) \<le> 0" using False assms ilog2_small [of x n 23] by simp
  from grid_le_int [OF assms(2) this] have hi: "v \<le> of_int n" by (simp add: v_def)
  have lo: "0 \<le> v"
    using assms(1) by (auto simp: v_def less_imp_le intro!: mult_nonneg_nonneg round_even_nonneg divide_nonneg_nonneg)
  have "(of_int n :: rat) < of_int (2 ^ 23)" using assms(3) by (simp only: of_int_less_iff)
  with hi lo have "\<not> pow2 128 \<le> \<bar>v\<bar>" by (simp add: pow2_def)
  with False hi lo show ?thesis by (simp add: f32_round_def v_def [symmetric] Let_def)
qed (use assms in simp)

lemma weight_nonneg: "weight t v = Some w \<Longrightarrow> list_all (\<lambda>(_, x). 0 \<le> x) t \<Longrightarrow> 0 \<le> w"
  by (auto simp: weight_def list_all_iff dest!: map_of_SomeD intro: f64_near_nonneg)

lemma roundup_tenths:
  assumes "0 \<le> x" and "x \<le> 10"
  shows "\<exists>k \<le> 100. roundup x = f64_near (of_nat k / 10)"
proof -
  have lo: "0 \<le> f64_near (x * 10)" using assms(1) by (simp add: f64_near_nonneg)
  have "f64_near (x * 10) \<le> of_int 100" using assms by (intro f64_near_le_int) auto
  then have "\<lceil>f64_near (x * 10)\<rceil> \<le> 100" by (simp add: ceiling_le_iff)
  moreover have "0 \<le> \<lceil>f64_near (x * 10)\<rceil>" using lo by (simp add: zero_le_ceiling)
  then have "(of_nat (nat \<lceil>f64_near (x * 10)\<rceil>) :: rat) = of_int \<lceil>f64_near (x * 10)\<rceil>" by (rule of_nat_nat)
  ultimately have "nat \<lceil>f64_near (x * 10)\<rceil> \<le> 100"
    "(of_nat (nat \<lceil>f64_near (x * 10)\<rceil>) :: rat) = of_int \<lceil>f64_near (x * 10)\<rceil>"
    by linarith+
  then show ?thesis unfolding roundup_def by metis
qed

lemma base_of_tenths:
  assumes "0 \<le> exploitability"
  shows "\<exists>k \<le> 100. base_of scope_changed impact exploitability = f64_near (of_nat k / 10)"
proof (cases "impact \<le> 0")
  case False
  define x where "x = min (if scope_changed then f64_near (f64_near (108 / 100) * f64_near (impact + exploitability))
      else f64_near (impact + exploitability)) 10"
  have "0 \<le> f64_near (impact + exploitability)" "0 \<le> f64_near (108 / 100)"
    using False assms by (simp_all add: f64_near_nonneg)
  then have "0 \<le> x" "x \<le> 10" by (auto simp: x_def f64_near_nonneg)
  from roundup_tenths [OF this] False show ?thesis by (simp add: base_of_def x_def Let_def)
qed (auto simp: base_of_def f64_near_def intro!: exI [of _ 0])

lemma tenths_scale:
  assumes "k \<le> 100"
  shows "f32_le (F_Fin 0) (f32_round (f64_near (of_nat k / 10))) \<and> f32_le (f32_round (f64_near (of_nat k / 10))) (F_Fin 10)"
proof -
  have "(of_nat k :: rat) \<le> of_nat 100" using assms by (simp only: of_nat_le_iff)
  then have "of_nat k / 10 \<le> (of_int 10 :: rat)" by simp
  then have "f64_near (of_nat k / 10) \<le> of_int 10" by (intro f64_near_le_int) auto
  then show ?thesis using f32_round_between [of "f64_near (of_nat k / 10)" 10] by (simp add: f64_near_nonneg)
qed

lemma tables_nonneg:
  "list_all (\<lambda>(_, x). 0 \<le> x) attack_vector" "list_all (\<lambda>(_, x). 0 \<le> x) attack_complexity"
  "list_all (\<lambda>(_, x). 0 \<le> x) user_interaction" "list_all (\<lambda>(_, x). 0 \<le> x) (privileges sc)"
  by (simp_all add: attack_vector_def attack_complexity_def user_interaction_def privileges_def)

lemma exploitability_nonneg:
  "0 \<le> av \<Longrightarrow> 0 \<le> ac \<Longrightarrow> 0 \<le> pr \<Longrightarrow> 0 \<le> ui \<Longrightarrow> 0 \<le> exploitability_of av ac pr ui"
  by (simp add: exploitability_of_def f64_near_nonneg)

text \<open>
  C24: the score computed from a CVSS v3 vector is one of the 101 tenths of the scale. Whatever text the
  feed delivers as a vector, and however the power is rounded by the platform, a score that is
  produced at all is the single-precision value of k / 10 with k at most 100, so it lies between 0
  and 10; and none is produced unless the vector gives every one of the eight base metrics.
\<close>

theorem cvss_on_scale:
  assumes "cvss_v3_base_score pw vector = Some score"
  shows "(\<exists>k \<le> 100. score = f32_round (f64_near (of_nat k / 10)))
         \<and> f32_le (F_Fin 0) score \<and> f32_le score (F_Fin 10)
         \<and> list_all (\<lambda>metric. metrics_of vector metric \<noteq> None)
             [''AV'', ''AC'', ''UI'', ''S'', ''PR'', ''C'', ''I'', ''A'']"
proof -
  let ?m = "metrics_of vector"
  from assms obtain av ac ui sc pr c i a where
    w: "Option.bind (?m ''AV'') (weight attack_vector) = Some av" "Option.bind (?m ''AC'') (weight attack_complexity) = Some ac"
      "Option.bind (?m ''UI'') (weight user_interaction) = Some ui" "Option.bind (?m ''PR'') (weight (privileges sc)) = Some pr"
    and rest: "Option.bind (?m ''S'') scope_of = Some sc" "Option.bind (?m ''C'') (weight impact_metric) = Some c"
      "Option.bind (?m ''I'') (weight impact_metric) = Some i" "Option.bind (?m ''A'') (weight impact_metric) = Some a"
    and score: "score = f32_round (base_of sc (impact_of pw sc (impact_score c i a)) (exploitability_of av ac pr ui))"
    by (auto simp: cvss_v3_base_score_def Let_def bind_eq_Some_conv)
  have "0 \<le> av" "0 \<le> ac" "0 \<le> ui" "0 \<le> pr"
    using w weight_nonneg tables_nonneg by (auto simp: bind_eq_Some_conv)
  from base_of_tenths [OF exploitability_nonneg [OF this(1,2,4,3)], of sc "impact_of pw sc (impact_score c i a)"]
  obtain k where "k \<le> 100" "score = f32_round (f64_near (of_nat k / 10))" unfolding score by metis
  moreover have "list_all (\<lambda>metric. ?m metric \<noteq> None) [''AV'', ''AC'', ''UI'', ''S'', ''PR'', ''C'', ''I'', ''A'']"
    using w rest by (auto simp: bind_eq_Some_conv)
  ultimately show ?thesis using tenths_scale by blast
qed


text \<open>
  A score given as a number is not checked: it may lie off the scale, or not be a number, and then
  the advisory is critical or has no severity at all.
\<close>

theorem numeric_score_unchecked:
  "parse_cvss_vector pw ''1e3'' = Some (F_Fin 1000) \<and> from_cvss (F_Fin 1000) = CriticalSeverity
   \<and> parse_cvss_vector pw ''nan'' = Some F_NaN \<and> from_cvss F_NaN = NoSeverity"
proof -
  have t: "trim ''1e3'' = ''1e3''" "trim ''nan'' = ''nan''" by (simp_all add: solid_def)
  have p: "f32_parse ''1e3'' = Some (F_Fin 1000)" "f32_parse ''nan'' = Some F_NaN" by code_simp+
  show ?thesis by (simp add: parse_cvss_vector_def t p from_cvss_def)
qed

text \<open>A well-known vector of the standard: 9.8, Critical.\<close>

lemma log4shell_class:
  "cvss_v3_base_score (^) ''CVSS:3.1/AV:N/AC:L/PR:N/UI:N/S:U/C:H/I:H/A:H'' = Some (f32_round (f64_near (98 / 10)))"
  by code_simp

theorem cvss_on_scale_witness:
  "cvss_v3_base_score (^) ''CVSS:3.1/AV:N/AC:L/PR:N/UI:N/S:U/C:H/I:H/A:H'' = Some (f32_round (f64_near (98 / 10)))
   \<and> f32_le (f32_round (f64_near (98 / 10))) (F_Fin 10)"
  using cvss_on_scale [OF log4shell_class] log4shell_class by simp

end
