(* ===== verification/Rule_Files.thy ===== *)
theory Rule_Files
  imports Rules_Stage Control Linux_Files "HOL-Library.Char_ord" "HOL-Library.List_Lexorder"
begin

text \<open>
  Rules on disk, \<^verbatim>\<open>riggs-rules/src/lib.rs\<close>, \<^verbatim>\<open>yara.rs\<close>, \<^verbatim>\<open>loader.rs\<close> and the loaders of \<^verbatim>\<open>ioc.rs\<close> and \<^verbatim>\<open>custom.rs\<close>:
  finding the rule files of a directory, compiling and running YARA rules, and the loop that
  reloads what changed. The YARA compiler and scanner, JSON, TOML and the Aho-Corasick automaton are
  parameters; the directory is a tree and reading a file gives its text or an error.
\<close>

section \<open>Rule files\<close>

fun is_directory :: "fs_tree \<Rightarrow> bool" where
  "is_directory (Directory _) = True"
| "is_directory _ = False"

text \<open>\<^verbatim>\<open>Path\<close> is ordered by its components.\<close>

fun rule_files :: "string \<Rightarrow> string list \<Rightarrow> fs_tree \<Rightarrow> string list" where
  "rule_files dir extensions (Directory (Some es)) =
     sort_key path_components
       (concat (map (\<lambda>e. if is_directory (snd e) then rule_files (path_join dir (fst e)) extensions (snd e)
                         else if has_extension (path_join dir (fst e)) extensions then [path_join dir (fst e)]
                         else []) es))"
| "rule_files dir extensions _ = []"

text \<open>What reading a file gives.\<close>

type_synonym read_text = "string \<Rightarrow> string + string"

definition load_custom_file :: "(string \<Rightarrow> string + custom_rule list) \<Rightarrow> read_text \<Rightarrow> string \<Rightarrow> riggs_error + custom_rule list" where
  "load_custom_file toml reads path =
     (case reads path of
        Inl e \<Rightarrow> Inl (Io (''failed to read rules file '' @ path @ '': '' @ e))
      | Inr contents \<Rightarrow>
          (case toml contents of
             Inl e \<Rightarrow> Inl (Config (''failed to parse TOML rules from '' @ path @ '': '' @ e))
           | Inr rs \<Rightarrow> Inr rs))"

definition load_ioc_file :: "(string \<Rightarrow> string + ioc list) \<Rightarrow> read_text \<Rightarrow> string \<Rightarrow> riggs_error + ioc list" where
  "load_ioc_file json reads path =
     (case reads path of
        Inl e \<Rightarrow> Inl (Io (''failed to read IOC file '' @ path @ '': '' @ e))
      | Inr contents \<Rightarrow>
          (case json contents of
             Inl e \<Rightarrow> Inl (Config (''failed to parse IOC JSON from '' @ path @ '': '' @ e))
           | Inr iocs \<Rightarrow> Inr iocs))"

definition load_custom_dir ::
  "(string \<Rightarrow> string + custom_rule list) \<Rightarrow> read_text \<Rightarrow> string \<Rightarrow> fs_tree \<Rightarrow> custom_rule_engine" where
  "load_custom_dir toml reads dir t =
     custom_load_dir (map (load_custom_file toml reads) (rule_files dir CUSTOM_RULE_EXTENSIONS t))"

definition load_ioc_dir ::
  "(string list \<Rightarrow> (string \<Rightarrow> nat list) option) \<Rightarrow> read_text \<Rightarrow> string \<Rightarrow> fs_tree \<Rightarrow> ioc_matcher" where
  "load_ioc_dir aho reads dir t =
     ioc_load_dir aho
       (map (\<lambda>p. case reads p of Inr text \<Rightarrow> Some text | Inl _ \<Rightarrow> None) (rule_files dir IOC_EXTENSIONS t))"

section \<open>The YARA engine\<close>

definition MAX_SCAN_BYTES :: nat where "MAX_SCAN_BYTES = 64 * 1024 * 1024"

record yara_match =
  ym_rule_name :: string
  ym_tags :: "string list"
  ym_matched_strings :: "string list"

text \<open>A matching rule as the scanner reports it: its patterns with the offsets of their matches.\<close>

record yara_hit =
  yh_identifier :: string
  yh_tags :: "string list"
  yh_patterns :: "(string \<times> nat list) list"

text \<open>
  The compiler and the scanner of \<^verbatim>\<open>yara_x\<close>. Adding a source leaves the compiler in a state of its
  own and says whether the source was accepted.
\<close>

record ('c, 'r) yara_libs =
  yl_compiler :: 'c
  yl_add_source :: "'c \<Rightarrow> string \<Rightarrow> 'c \<times> bool"
  yl_build :: "'c \<Rightarrow> 'r"
  yl_scan :: "'r \<Rightarrow> string \<Rightarrow> string + yara_hit list"

record 'r yara_engine =
  ye_rules_dir :: string
  ye_compiled_rules :: "'r option"

fun add_sources :: "('c, 'r) yara_libs \<Rightarrow> read_text \<Rightarrow> string list \<Rightarrow> 'c \<Rightarrow> riggs_error + 'c" where
  "add_sources yl reads [] c = Inr c"
| "add_sources yl reads (p # ps) c =
     (case reads p of
        Inl e \<Rightarrow> Inl (Io (''failed to read '' @ p @ '': '' @ e))
      | Inr source \<Rightarrow> add_sources yl reads ps (fst (yl_add_source yl c source)))"

definition load_rules ::
  "('c, 'r) yara_libs \<Rightarrow> read_text \<Rightarrow> fs_tree \<Rightarrow> 'r yara_engine \<Rightarrow> riggs_error + 'r yara_engine" where
  "load_rules yl reads t eng =
     (case add_sources yl reads (rule_files (ye_rules_dir eng) YARA_EXTENSIONS t) (yl_compiler yl) of
        Inl e \<Rightarrow> Inl e
      | Inr c \<Rightarrow> Inr (eng\<lparr>ye_compiled_rules := Some (yl_build yl c)\<rparr>))"

definition yara_new ::
  "('c, 'r) yara_libs \<Rightarrow> read_text \<Rightarrow> string \<Rightarrow> fs_tree option \<Rightarrow> riggs_error + 'r yara_engine" where
  "yara_new yl reads dir tree =
     (case tree of
        Some t \<Rightarrow>
          if is_directory t then load_rules yl reads t \<lparr>ye_rules_dir = dir, ye_compiled_rules = None\<rparr>
          else Inl (Config (''YARA rules directory does not exist: '' @ dir))
      | None \<Rightarrow> Inl (Config (''YARA rules directory does not exist: '' @ dir)))"

function show_hex :: "nat \<Rightarrow> string" where
  "show_hex n = (if n < 16 then [hex_digit n] else show_hex (n div 16) @ [hex_digit (n mod 16)])"
  by pat_completeness auto
termination by (relation "measure id") auto

declare show_hex.simps [simp del]

definition yara_match_of :: "yara_hit \<Rightarrow> yara_match" where
  "yara_match_of h =
     \<lparr>ym_rule_name = yh_identifier h, ym_tags = yh_tags h,
      ym_matched_strings =
        concat (map (\<lambda>(ident, starts). map (\<lambda>start. ''0x'' @ show_hex start @ '':'' @ ident) starts) (yh_patterns h))\<rparr>"

definition scan_file :: "('c, 'r) yara_libs \<Rightarrow> read_text \<Rightarrow> 'r yara_engine \<Rightarrow> string \<Rightarrow> riggs_error + yara_match list" where
  "scan_file yl reads eng path =
     (case ye_compiled_rules eng of
        None \<Rightarrow> Inl (Engine ''YARA rules not compiled yet'')
      | Some rules \<Rightarrow>
          (case reads path of
             Inl e \<Rightarrow> Inl (Io (''failed to read '' @ path @ '': '' @ e))
           | Inr contents \<Rightarrow>
               (case yl_scan yl rules (take MAX_SCAN_BYTES contents) of
                  Inl e \<Rightarrow> Inl (Engine (''YARA scan error: '' @ e))
                | Inr hits \<Rightarrow> Inr (map yara_match_of hits))))"

text \<open>The scan as the rules stage runs it on its blocking task, which may fail as a whole.\<close>

definition stage_scan ::
  "('c, 'r) yara_libs \<Rightarrow> read_text \<Rightarrow> (string \<Rightarrow> bool) \<Rightarrow> string option \<Rightarrow> 'r yara_engine \<Rightarrow> yara_scan" where
  "stage_scan yl reads regular join_error eng path =
     (case join_error of
        Some e \<Rightarrow> Inl e
      | None \<Rightarrow>
          Inr (if regular path then map_sum id (map ym_rule_name) (scan_file yl reads eng path) else Inr []))"

section \<open>Reloading\<close>

datatype rule_event_kind = RuleCreate | RuleModify | RuleRemove | RuleOther

text \<open>
  What the watcher delivers: an error, or a change, with the directory as it is when the reload
  runs and whether the reload task itself fails.
\<close>

record rules_host =
  rh_tree :: "fs_tree option"
  rh_reads :: read_text
  rh_join_error :: bool

datatype rules_watch_event = RW_Error string | RW_Event rule_event_kind "string list" rules_host

record ('c, 'r) rule_libs =
  rb_yara :: "('c, 'r) yara_libs"
  rb_aho :: "string list \<Rightarrow> (string \<Rightarrow> nat list) option"
  rb_toml :: "string \<Rightarrow> string + custom_rule list"

definition host_tree :: "rules_host \<Rightarrow> fs_tree" where
  "host_tree h = (case rh_tree h of Some t \<Rightarrow> t | None \<Rightarrow> Directory None)"

definition fresh_yara :: "('c, 'r) rule_libs \<Rightarrow> string \<Rightarrow> rules_host \<Rightarrow> riggs_error + 'r yara_engine" where
  "fresh_yara rb dir h = yara_new (rb_yara rb) (rh_reads h) dir (rh_tree h)"

definition fresh_ioc :: "('c, 'r) rule_libs \<Rightarrow> string \<Rightarrow> rules_host \<Rightarrow> ioc_matcher" where
  "fresh_ioc rb dir h = load_ioc_dir (rb_aho rb) (rh_reads h) dir (host_tree h)"

definition fresh_custom :: "('c, 'r) rule_libs \<Rightarrow> string \<Rightarrow> rules_host \<Rightarrow> custom_rule_engine" where
  "fresh_custom rb dir h = load_custom_dir (rb_toml rb) (rh_reads h) dir (host_tree h)"

fun rules_watch_step ::
  "('c, 'r) rule_libs \<Rightarrow> string \<Rightarrow> 'r yara_engine rule_sets \<Rightarrow> rules_watch_event \<Rightarrow> 'r yara_engine rule_sets" where
  "rules_watch_step rb dir rl (RW_Error e) = rl"
| "rules_watch_step rb dir rl (RW_Event kind paths h) =
     (if kind \<noteq> RuleOther \<and> \<not> rh_join_error h
      then reload_affected (fresh_yara rb dir h) (fresh_ioc rb dir h) (fresh_custom rb dir h) paths rl
      else rl)"

definition rules_watch ::
  "('c, 'r) rule_libs \<Rightarrow> string \<Rightarrow> rules_watch_event list \<Rightarrow> 'r yara_engine rule_sets \<Rightarrow> 'r yara_engine rule_sets" where
  "rules_watch rb dir evs rl = foldl (rules_watch_step rb dir) rl evs"

section \<open>Which files are read\<close>

text \<open>A path below a directory that is not itself a directory.\<close>

inductive leaf_at :: "string \<Rightarrow> fs_tree \<Rightarrow> string \<Rightarrow> bool" where
  leaf: "(n, t) \<in> set es \<Longrightarrow> \<not> is_directory t \<Longrightarrow> leaf_at dir (Directory (Some es)) (path_join dir n)"
| below: "(n, t) \<in> set es \<Longrightarrow> is_directory t \<Longrightarrow> leaf_at (path_join dir n) t p \<Longrightarrow> leaf_at dir (Directory (Some es)) p"

inductive_cases leaf_at_DirE: "leaf_at dir (Directory (Some es)) p"
inductive_cases leaf_at_otherE: "leaf_at dir RegularFile p" "leaf_at dir Special p" "leaf_at dir (Directory None) p"

lemma rule_files_iff: "p \<in> set (rule_files dir exts t) \<longleftrightarrow> leaf_at dir t p \<and> has_extension p exts"
proof (induction dir exts t rule: rule_files.induct)
  case (1 dir exts es)
  have sub: "p \<in> set (rule_files (path_join dir n) exts t) \<longleftrightarrow> leaf_at (path_join dir n) t p \<and> has_extension p exts"
    if "(n, t) \<in> set es" "is_directory t" for n t using 1 [of "(n, t)"] that by simp
  show ?case
  proof
    assume "p \<in> set (rule_files dir exts (Directory (Some es)))"
    then obtain n t where "(n, t) \<in> set es"
      "(if is_directory t then p \<in> set (rule_files (path_join dir n) exts t)
        else has_extension (path_join dir n) exts \<and> p = path_join dir n)"
      by (auto split: if_splits)
    with sub show "leaf_at dir (Directory (Some es)) p \<and> has_extension p exts"
      by (auto intro: leaf_at.intros split: if_splits)
  next
    assume "leaf_at dir (Directory (Some es)) p \<and> has_extension p exts"
    then show "p \<in> set (rule_files dir exts (Directory (Some es)))"
      by (elim conjE leaf_at_DirE) (force simp: sub)+
  qed
qed (auto elim: leaf_at_otherE)

text \<open>
  Exactly the files with one of the extensions are read, at any depth of the directory, in the
  order of their paths.
\<close>

theorem rule_files_exact:
  "set (rule_files dir exts t) = {p. leaf_at dir t p \<and> has_extension p exts}
   \<and> sorted_wrt (\<le>) (map path_components (rule_files dir exts t))"
proof
  show "set (rule_files dir exts t) = {p. leaf_at dir t p \<and> has_extension p exts}"
    using rule_files_iff by blast
  show "sorted_wrt (\<le>) (map path_components (rule_files dir exts t))"
    by (cases "(dir, exts, t)" rule: rule_files.cases) simp_all
qed

section \<open>A match is malicious\<close>

lemma iter_max_Malicious:
  assumes "Malicious \<in> set ls"
  shows "iter_max ls = Some Malicious"
proof -
  obtain m where m: "iter_max ls = Some m" using assms by (cases "iter_max ls") auto
  from iter_max_Some [OF m] assms have "Malicious \<le> m" by blast
  then have "m = Malicious" by (cases m) (simp_all add: less_eq_threat_level_def)
  with m show ?thesis by simp
qed

text \<open>
  C21: a file whose first 64 MiB match a YARA rule is malicious. Whenever a file is created, changed,
  renamed or scanned, can be read and the scanner reports a rule, the rules stage answers
  Malicious, whatever the indicator lists and the custom rules say.
\<close>

theorem yara_match_malicious:
  assumes "ye_compiled_rules eng = Some rules" and "scanned_path ev = Some path"
    and "regular path" and "reads path = Inr contents"
    and "yl_scan yl rules (take MAX_SCAN_BYTES contents) = Inr (h # hits)"
  shows "level_of (snd (rules_analyze (Some (stage_scan yl reads regular None eng)) clock s ev)) = Malicious"
proof -
  have scan: "stage_scan yl reads regular None eng path = Inr (Inr (map (ym_rule_name \<circ> yara_match_of) (h # hits)))"
    using assms by (simp add: stage_scan_def scan_file_def)
  obtain v where y: "yara_candidates (Some (stage_scan yl reads regular None eng)) (clock 3) ev = Inr [v]"
    and v: "v_threat_level v = Malicious"
    using assms(2) scan by (simp add: yara_candidates_def)
  have "iter_max (map v_threat_level (vs @ [v])) = Some Malicious" for vs
    using v by (intro iter_max_Malicious) simp
  then show ?thesis
    unfolding rules_analyze_def Let_def
    by (simp add: y split_beta level_of_strongest flip: append_assoc del: map_append append_assoc)
qed

section \<open>The live rules are the last good ones\<close>

text \<open>An event that makes the sets with these extensions load anew, and where it does so.\<close>

fun reloads_at :: "string list \<Rightarrow> rules_watch_event \<Rightarrow> rules_host option" where
  "reloads_at exts (RW_Error _) = None"
| "reloads_at exts (RW_Event kind paths h) =
     (if kind \<noteq> RuleOther \<and> \<not> rh_join_error h \<and> list_ex (\<lambda>p. has_extension p exts) paths then Some h else None)"

definition newest :: "(rules_watch_event \<Rightarrow> 'a option) \<Rightarrow> rules_watch_event list \<Rightarrow> 'a option" where
  "newest f evs = find_map f (rev evs)"

lemma newest_simps [simp]:
  "newest f [] = None" "newest f (evs @ [ev]) = (case f ev of Some x \<Rightarrow> Some x | None \<Rightarrow> newest f evs)"
  by (simp_all add: newest_def split: option.split)

definition good_yara :: "('c, 'r) rule_libs \<Rightarrow> string \<Rightarrow> rules_watch_event \<Rightarrow> 'r yara_engine option" where
  "good_yara rb dir ev =
     Option.bind (reloads_at YARA_EXTENSIONS ev) (\<lambda>h. case fresh_yara rb dir h of Inr y \<Rightarrow> Some y | Inl _ \<Rightarrow> None)"

lemma rules_watch_snoc: "rules_watch rb dir (evs @ [ev]) rl = rules_watch_step rb dir (rules_watch rb dir evs rl) ev"
  by (simp add: rules_watch_def)

text \<open>
  C22: the rules in use are those of the last change that could be used. After any sequence of watcher
  events, the indicator lists and the custom rules are what the directory held when a file of
  their kind last changed, the YARA rules are those of the last change that compiled, and a
  set that is switched off stays off.
\<close>

theorem live_rules_last_good:
  "rl_yara (rules_watch rb dir evs rl) =
     map_option (\<lambda>old. case newest (good_yara rb dir) evs of Some y \<Rightarrow> y | None \<Rightarrow> old) (rl_yara rl)
   \<and> rl_local_ioc (rules_watch rb dir evs rl) =
     map_option (\<lambda>old. case newest (reloads_at IOC_EXTENSIONS) evs of Some h \<Rightarrow> fresh_ioc rb dir h | None \<Rightarrow> old) (rl_local_ioc rl)
   \<and> rl_custom (rules_watch rb dir evs rl) =
     map_option (\<lambda>old. case newest (reloads_at CUSTOM_RULE_EXTENSIONS) evs of Some h \<Rightarrow> fresh_custom rb dir h | None \<Rightarrow> old) (rl_custom rl)"
proof (induction evs rule: rev_induct)
  case Nil
  show ?case by (simp add: rules_watch_def option.map_ident)
next
  case (snoc ev evs)
  then show ?case
    unfolding rules_watch_snoc
    by (cases ev; cases "rl_yara rl"; cases "rl_local_ioc rl"; cases "rl_custom rl")
      (auto simp: reload_affected_def Let_def good_yara_def split: sum.splits option.splits)
qed


section \<open>A scan\<close>

definition sample_yara :: "(string list, string list) yara_libs" where
  "sample_yara =
     \<lparr>yl_compiler = [], yl_add_source = (\<lambda>c src. (c @ [src], True)), yl_build = (\<lambda>c. c),
      yl_scan = (\<lambda>rules data. Inr (map (\<lambda>r. \<lparr>yh_identifier = r, yh_tags = [], yh_patterns = [(r, [0])]\<rparr>)
                                    (filter (\<lambda>r. str_contains data r) rules)))\<rparr>"

theorem yara_match_malicious_witness:
  "level_of (snd (rules_analyze
      (Some (stage_scan sample_yara (\<lambda>_. Inr ''xEVILx'') (\<lambda>_. True) None
               \<lparr>ye_rules_dir = ''/rules'', ye_compiled_rules = Some [''EVIL'']\<rparr>))
      (\<lambda>_. 0) feed_stage sample_file)) = Malicious"
proof (rule yara_match_malicious)
  show "scanned_path sample_file = Some ''/tmp/crafted''" by (simp add: sample_file_def new_file_def)
  have "take MAX_SCAN_BYTES ''xEVILx'' = ''xEVILx''" by (simp add: MAX_SCAN_BYTES_def)
  moreover have "str_contains ''xEVILx'' ''EVIL''" by code_simp
  ultimately show "yl_scan sample_yara [''EVIL''] (take MAX_SCAN_BYTES ''xEVILx'')
      = Inr (\<lparr>yh_identifier = ''EVIL'', yh_tags = [], yh_patterns = [(''EVIL'', [0])]\<rparr> # [])"
    by (simp add: sample_yara_def)
qed simp_all

end
