(* ===== verification/Config_Json.thy ===== *)
theory Config_Json
  imports Startup Devices Ipc
begin

text \<open>
  What the daemon shows of its configuration: the \<^verbatim>\<open>Serialize\<close> of each struct of
  \<^verbatim>\<open>crates/riggs-types/src/config.rs\<close> (its fields in order, less the ones marked
  \<^verbatim>\<open>skip_serializing\<close>), the copy that \<^verbatim>\<open>RiggsDaemon::run\<close> keeps for \<^verbatim>\<open>GetConfig\<close>, and the keys that
  \<^verbatim>\<open>set_config_value\<close> of \<^verbatim>\<open>control.rs\<close> accepts, which are the members of the same document. How
  \<^verbatim>\<open>serde_json\<close> writes a number that is no integer, how it lays a document out and how it follows
  a JSON pointer are parameters.
\<close>

section \<open>Values\<close>

text \<open>\<open>jw_pretty\<close> is \<^verbatim>\<open>to_string_pretty\<close>, which may fail.\<close>

record json_writer =
  jw_f32 :: "f32 \<Rightarrow> json"
  jw_f64 :: "f64 \<Rightarrow> json"
  jw_pretty :: "json \<Rightarrow> string + string"

definition j_nat :: "nat \<Rightarrow> json" where
  "j_nat n = J_Number (show_nat n)"

definition j_int :: "int \<Rightarrow> json" where
  "j_int n = J_Number (show_int n)"

definition j_strings :: "string list \<Rightarrow> json" where
  "j_strings ss = J_Array (map J_String ss)"

definition j_option :: "string option \<Rightarrow> json" where
  "j_option v = (case v of None \<Rightarrow> J_Null | Some s \<Rightarrow> J_String s)"

section \<open>The sections\<close>

definition rules_json :: "rules_config \<Rightarrow> json" where
  "rules_json c = J_Object [(''rules_dir'', J_String (rul_rules_dir c))]"

definition egress_baseline_json :: "egress_baseline \<Rightarrow> json" where
  "egress_baseline_json b =
     J_Object [(''dns'', J_Bool (eb_dns b)), (''dhcp_ntp'', J_Bool (eb_dhcp_ntp b)), (''loopback'', J_Bool (eb_loopback b))]"

definition egress_process_rule_json :: "egress_process_rule \<Rightarrow> json" where
  "egress_process_rule_json r =
     J_Object [(''process'', J_String (epr_process r)), (''allow_domains'', j_strings (epr_allow_domains r)),
               (''allow_cidrs'', j_strings (epr_allow_cidrs r))]"

definition egress_json :: "egress_config \<Rightarrow> json" where
  "egress_json c =
     J_Object [(''enabled'', J_Bool (ec_enabled c)), (''mode'', J_String (ec_mode c)),
               (''allow_domains'', j_strings (ec_allow_domains c)), (''allow_cidrs'', j_strings (ec_allow_cidrs c)),
               (''allow_ports'', J_Array (map (\<lambda>p. j_nat (unat p)) (ec_allow_ports c))),
               (''baseline'', egress_baseline_json (ec_baseline c)),
               (''process_rules'', J_Array (map egress_process_rule_json (ec_process_rules c))),
               (''resolve_interval_secs'', j_nat (unat (ec_resolve_interval_secs c)))]"

definition detection_json :: "json_writer \<Rightarrow> detection_config \<Rightarrow> json" where
  "detection_json jw c =
     J_Object [(''exfil_outbound_threshold'', j_nat (dc_exfil_outbound_threshold c)),
               (''rapid_encryption_file_threshold'', j_nat (dc_rapid_encryption_file_threshold c)),
               (''rapid_encryption_window_secs'', j_int (dc_rapid_encryption_window_secs c)),
               (''threat_score_threshold'', jw_f32 jw (dc_threat_score_threshold c)),
               (''persistence_paths'', j_strings (dc_persistence_paths c))]"

definition sensor_json :: "sensor_config \<Rightarrow> json" where
  "sensor_json c =
     J_Object [(''enabled_sources'', j_strings (sen_enabled_sources c)),
               (''poll_interval_ms'', j_nat (unat (sen_poll_interval_ms c)))]"

definition engine_json :: "json_writer \<Rightarrow> engine_config \<Rightarrow> json" where
  "engine_json jw c =
     J_Object [(''static_ai_enabled'', J_Bool (en_static_ai_enabled c)),
               (''behavioral_ai_enabled'', J_Bool (en_behavioral_ai_enabled c)),
               (''rules_enabled'', J_Bool (en_rules_enabled c)),
               (''merge_malicious_threshold'', jw_f32 jw (en_merge_malicious_threshold c)),
               (''merge_suspicious_threshold'', jw_f32 jw (en_merge_suspicious_threshold c)),
               (''static_ai_max_scan_mib'', j_nat (unat (en_static_ai_max_scan_mib c))),
               (''stage_timeout_ms'', j_nat (unat (en_stage_timeout_ms c))),
               (''behavioral_max_events_per_storyline'', j_nat (en_behavioral_max_events_per_storyline c)),
               (''behavioral_max_storylines'', j_nat (en_behavioral_max_storylines c)),
               (''storyline_max_events'', j_nat (en_storyline_max_events c)),
               (''storyline_idle_secs'', j_nat (unat (en_storyline_idle_secs c))),
               (''static_ai_model_path'', J_String (en_static_ai_model_path c)),
               (''storyline_prune_interval_secs'', j_nat (unat (en_storyline_prune_interval_secs c))),
               (''health_check_secs'', j_nat (unat (en_health_check_secs c))),
               (''retention_sweep_secs'', j_nat (unat (en_retention_sweep_secs c)))]"

definition store_json :: "store_config \<Rightarrow> json" where
  "store_json c =
     J_Object [(''db_path'', J_String (sto_db_path c)), (''retention_days'', j_nat (unat (sto_retention_days c))),
               (''compression_enabled'', J_Bool (sto_compression_enabled c)), (''batch_max'', j_nat (sto_batch_max c)),
               (''batch_flush_ms'', j_nat (unat (sto_batch_flush_ms c)))]"

text \<open>\<^verbatim>\<open>client_key_path\<close> is marked \<^verbatim>\<open>skip_serializing\<close>.\<close>

definition tls_json :: "cloud_tls_config \<Rightarrow> json" where
  "tls_json c =
     J_Object [(''ca_cert_path'', j_option (tls_ca_cert_path c)), (''client_cert_path'', j_option (tls_client_cert_path c)),
               (''domain_name'', j_option (tls_domain_name c))]"

text \<open>\<^verbatim>\<open>enrollment_token\<close> is marked \<^verbatim>\<open>skip_serializing\<close>.\<close>

definition comms_json :: "comms_config \<Rightarrow> json" where
  "comms_json c =
     J_Object [(''socket_path'', J_String (cm_socket_path c)), (''filter_socket_path'', J_String (cm_filter_socket_path c)),
               (''cloud_enabled'', J_Bool (cm_cloud_enabled c)), (''cloud_endpoint'', j_option (cm_cloud_endpoint c)),
               (''heartbeat_interval_secs'', j_nat (unat (cm_heartbeat_interval_secs c))), (''tls'', tls_json (cm_tls c)),
               (''require_tls'', J_Bool (cm_require_tls c)), (''ipc_max_message_bytes'', j_nat (cm_ipc_max_message_bytes c)),
               (''ipc_max_connections'', j_nat (cm_ipc_max_connections c))]"

definition response_json :: "response_config \<Rightarrow> json" where
  "response_json c =
     J_Object [(''auto_respond'', J_Bool (rc_auto_respond c)), (''kill_on_critical'', J_Bool (rc_kill_on_critical c)),
               (''quarantine_on_malicious'', J_Bool (rc_quarantine_on_malicious c)),
               (''quarantine_path'', J_String (rc_quarantine_path c)), (''pf_conf_path'', J_String (rc_pf_conf_path c)),
               (''preemptive_snapshots'', J_Bool (rc_preemptive_snapshots c)),
               (''snapshot_path'', J_String (rc_snapshot_path c)),
               (''snapshot_max_file_mib'', j_nat (unat (rc_snapshot_max_file_mib c))),
               (''snapshot_retention_hours'', j_nat (unat (rc_snapshot_retention_hours c)))]"

text \<open>Of the two services with an API key only the switch is serialised.\<close>

definition vt_json :: "vt_config \<Rightarrow> json" where
  "vt_json c = J_Object [(''enabled'', J_Bool (vt_enabled c))]"

definition abuseipdb_json :: "abuseipdb_config \<Rightarrow> json" where
  "abuseipdb_json c = J_Object [(''enabled'', J_Bool (abi_enabled c))]"

definition feeds_json :: "feeds_config \<Rightarrow> json" where
  "feeds_json c =
     J_Object [(''malwarebazaar_enabled'', J_Bool (fds_malwarebazaar_enabled c)),
               (''malwarebazaar_interval_hours'', j_nat (unat (fds_malwarebazaar_interval_hours c))),
               (''urlhaus_enabled'', J_Bool (fds_urlhaus_enabled c)),
               (''urlhaus_interval_hours'', j_nat (unat (fds_urlhaus_interval_hours c))),
               (''osv_enabled'', J_Bool (fds_osv_enabled c)),
               (''osv_interval_hours'', j_nat (unat (fds_osv_interval_hours c)))]"

definition intel_json :: "json_writer \<Rightarrow> intel_config \<Rightarrow> json" where
  "intel_json jw c =
     J_Object [(''enabled'', J_Bool (ic_enabled c)), (''cache_path'', J_String (ic_cache_path c)),
               (''cache_ttl_clean_hours'', j_nat (unat (ic_cache_ttl_clean_hours c))),
               (''cache_ttl_malicious_hours'', j_nat (unat (ic_cache_ttl_malicious_hours c))),
               (''virustotal'', vt_json (ic_virustotal c)), (''abuseipdb'', abuseipdb_json (ic_abuseipdb c)),
               (''feeds'', feeds_json (ic_feeds c)), (''bloom_capacity'', j_nat (ic_bloom_capacity c)),
               (''bloom_false_positive_rate'', jw_f64 jw (ic_bloom_false_positive_rate c))]"

definition watched_domain_json :: "watched_domain \<Rightarrow> json" where
  "watched_domain_json d =
     J_Object [(''pattern'', J_String (wd_pattern d)), (''category'', J_String (wd_category d))]"

definition dlp_file_types_json :: "dlp_file_types \<Rightarrow> json" where
  "dlp_file_types_json f =
     J_Object [(''block'', j_strings (ft_block f)), (''alert'', j_strings (ft_alert f))]"

definition dlp_exclusions_json :: "dlp_exclusions \<Rightarrow> json" where
  "dlp_exclusions_json x = J_Object [(''names'', j_strings (dx_names x))]"

definition dlp_json :: "dlp_config \<Rightarrow> json" where
  "dlp_json c =
     J_Object [(''enabled'', J_Bool (dlpc_enabled c)), (''action'', J_String (dlpc_action c)),
               (''correlation_window_secs'', j_nat (unat (dlpc_correlation_window_secs c))),
               (''watched_domains'', J_Array (map watched_domain_json (dlpc_watched_domains c))),
               (''file_types'', dlp_file_types_json (dlpc_file_types c)),
               (''excluded_processes'', dlp_exclusions_json (dlpc_excluded_processes c))]"

definition config_json :: "json_writer \<Rightarrow> riggs_config \<Rightarrow> json" where
  "config_json jw c =
     J_Object [(''sensor'', sensor_json (rg_sensor c)), (''engine'', engine_json jw (rg_engine c)),
               (''store'', store_json (rg_store c)), (''comms'', comms_json (rg_comms c)),
               (''response'', response_json (rg_response c)), (''intel'', intel_json jw (rg_intel c)),
               (''dlp'', dlp_json (rg_dlp c)), (''detection'', detection_json jw (rg_detection c)),
               (''egress'', egress_json (rg_egress c)), (''rules'', rules_json (rg_rules c))]"

text \<open>
  The copy for \<^verbatim>\<open>GetConfig\<close>, made once when the daemon starts; a configuration that cannot be
  written, or a poisoned lock, leaves the copy as it is.
\<close>

definition serialize_config :: "json_writer \<Rightarrow> riggs_config \<Rightarrow> 'net daemon_state \<Rightarrow> 'net daemon_state" where
  "serialize_config jw cfg s =
     (case jw_pretty jw (config_json jw cfg) of
        Inl _ \<Rightarrow> s
      | Inr text \<Rightarrow> (case st_config_json s of None \<Rightarrow> s | Some _ \<Rightarrow> s\<lparr>st_config_json := Some text\<rparr>))"

text \<open>The check for a known key: the pointer leads to a value of the default configuration.\<close>

definition known_key :: "(json \<Rightarrow> string \<Rightarrow> json option) \<Rightarrow> json_writer \<Rightarrow> string \<Rightarrow> bool" where
  "known_key pointer jw p \<longleftrightarrow> pointer (config_json jw riggs_config_default) p \<noteq> None"

section \<open>Public and secret settings\<close>

definition public_part :: "riggs_config \<Rightarrow> riggs_config" where
  "public_part c =
     c\<lparr>rg_comms := (rg_comms c)\<lparr>cm_enrollment_token := None, cm_tls := (cm_tls (rg_comms c))\<lparr>tls_client_key_path := None\<rparr>\<rparr>,
       rg_intel := (rg_intel c)\<lparr>ic_virustotal := (ic_virustotal (rg_intel c))\<lparr>vt_api_key := []\<rparr>,
                                ic_abuseipdb := (ic_abuseipdb (rg_intel c))\<lparr>abi_api_key := []\<rparr>,
                                ic_feeds := (ic_feeds (rg_intel c))\<lparr>fds_abusech_auth_key := []\<rparr>\<rparr>\<rparr>"

definition SECRET_KEYS :: "string list" where
  "SECRET_KEYS = [''comms.enrollment_token'', ''comms.tls.client_key_path'', ''intel.virustotal.api_key'',
                  ''intel.abuseipdb.api_key'', ''intel.feeds.abusech_auth_key'']"

text \<open>Distinct numbers are written differently.\<close>

definition writes_numbers :: "json_writer \<Rightarrow> riggs_config set \<Rightarrow> bool" where
  "writes_numbers jw cs \<longleftrightarrow>
     inj_on (jw_f32 jw) (\<Union>c \<in> cs. {en_merge_malicious_threshold (rg_engine c), en_merge_suspicious_threshold (rg_engine c),
                                     dc_threat_score_threshold (rg_detection c)})
     \<and> inj_on (jw_f64 jw) ((\<lambda>c. ic_bloom_false_positive_rate (rg_intel c)) ` cs)"

lemma show_int_inject [simp]: "show_int a = show_int b \<longleftrightarrow> a = b"
proof -
  have no_sign: "show_nat n \<noteq> CHR ''-'' # cs" for n cs
    using show_nat_digits [of n] by (auto simp: is_digit_def of_char_def)
  then have "CHR ''-'' # cs \<noteq> show_nat n" for n cs by metis
  with no_sign show ?thesis by (auto simp: show_int_def)
qed

lemma j_nat_inject [simp]: "j_nat m = j_nat n \<longleftrightarrow> m = n"
  by (simp add: j_nat_def)

lemma j_int_inject [simp]: "j_int m = j_int n \<longleftrightarrow> m = n"
  by (simp add: j_int_def)

lemma j_strings_inject [simp]: "j_strings xs = j_strings ys \<longleftrightarrow> xs = ys"
  by (simp add: j_strings_def inj_map_eq_map inj_def)

lemma j_option_inject [simp]: "j_option v = j_option w \<longleftrightarrow> v = w"
  by (simp add: j_option_def split: option.splits)

named_theorems section_inject

lemma rules_json_inject [section_inject]: "rules_json a = rules_json b \<longleftrightarrow> a = b"
  by (cases a, cases b) (simp add: rules_json_def)

lemma egress_baseline_json_inject [section_inject]: "egress_baseline_json a = egress_baseline_json b \<longleftrightarrow> a = b"
  by (cases a, cases b) (simp add: egress_baseline_json_def)

lemma egress_process_rule_json_inject: "egress_process_rule_json a = egress_process_rule_json b \<longleftrightarrow> a = b"
  by (cases a, cases b) (simp add: egress_process_rule_json_def)

lemma egress_json_inject [section_inject]: "egress_json a = egress_json b \<longleftrightarrow> a = b"
  by (cases a, cases b)
    (simp add: egress_json_def section_inject inj_map_eq_map inj_def egress_process_rule_json_inject unsigned_word_eqI
      word_unat_eq_iff [symmetric])

lemma sensor_json_inject [section_inject]: "sensor_json a = sensor_json b \<longleftrightarrow> a = b"
  by (cases a, cases b) (simp add: sensor_json_def word_unat_eq_iff)

lemma store_json_inject [section_inject]: "store_json a = store_json b \<longleftrightarrow> a = b"
  by (cases a, cases b) (simp add: store_json_def word_unat_eq_iff)

lemma response_json_inject [section_inject]: "response_json a = response_json b \<longleftrightarrow> a = b"
  by (cases a, cases b) (simp add: response_json_def word_unat_eq_iff)

lemma dlp_json_inject [section_inject]: "dlp_json a = dlp_json b \<longleftrightarrow> a = b"
proof -
  have "watched_domain_json x = watched_domain_json y \<longleftrightarrow> x = y" for x y
    by (cases x, cases y) (simp add: watched_domain_json_def)
  moreover have "dlp_file_types_json x = dlp_file_types_json y \<longleftrightarrow> x = y" for x y
    by (cases x, cases y) (simp add: dlp_file_types_json_def)
  moreover have "dlp_exclusions_json x = dlp_exclusions_json y \<longleftrightarrow> x = y" for x y
    by (cases x, cases y) (simp add: dlp_exclusions_json_def)
  ultimately show ?thesis
    by (cases a, cases b) (simp add: dlp_json_def word_unat_eq_iff inj_map_eq_map inj_def)
qed

lemma comms_json_public:
  "comms_json a = comms_json b \<longleftrightarrow>
     a\<lparr>cm_enrollment_token := None, cm_tls := (cm_tls a)\<lparr>tls_client_key_path := None\<rparr>\<rparr>
     = b\<lparr>cm_enrollment_token := None, cm_tls := (cm_tls b)\<lparr>tls_client_key_path := None\<rparr>\<rparr>"
proof -
  have "tls_json x = tls_json y \<longleftrightarrow> x\<lparr>tls_client_key_path := None\<rparr> = y\<lparr>tls_client_key_path := None\<rparr>" for x y
    by (cases x, cases y) (simp add: tls_json_def)
  then show ?thesis by (cases a, cases b) (simp add: comms_json_def word_unat_eq_iff conj_ac)
qed

lemma intel_json_public:
  assumes "jw_f64 jw (ic_bloom_false_positive_rate a) = jw_f64 jw (ic_bloom_false_positive_rate b)
             \<longleftrightarrow> ic_bloom_false_positive_rate a = ic_bloom_false_positive_rate b"
  shows "intel_json jw a = intel_json jw b \<longleftrightarrow>
     a\<lparr>ic_virustotal := (ic_virustotal a)\<lparr>vt_api_key := []\<rparr>, ic_abuseipdb := (ic_abuseipdb a)\<lparr>abi_api_key := []\<rparr>,
       ic_feeds := (ic_feeds a)\<lparr>fds_abusech_auth_key := []\<rparr>\<rparr>
     = b\<lparr>ic_virustotal := (ic_virustotal b)\<lparr>vt_api_key := []\<rparr>, ic_abuseipdb := (ic_abuseipdb b)\<lparr>abi_api_key := []\<rparr>,
         ic_feeds := (ic_feeds b)\<lparr>fds_abusech_auth_key := []\<rparr>\<rparr>"
proof -
  have "vt_json x = vt_json y \<longleftrightarrow> x\<lparr>vt_api_key := []\<rparr> = y\<lparr>vt_api_key := []\<rparr>" for x y
    by (cases x, cases y) (simp add: vt_json_def)
  moreover have "abuseipdb_json x = abuseipdb_json y \<longleftrightarrow> x\<lparr>abi_api_key := []\<rparr> = y\<lparr>abi_api_key := []\<rparr>" for x y
    by (cases x, cases y) (simp add: abuseipdb_json_def)
  moreover have "feeds_json x = feeds_json y \<longleftrightarrow> x\<lparr>fds_abusech_auth_key := []\<rparr> = y\<lparr>fds_abusech_auth_key := []\<rparr>" for x y
    by (cases x, cases y) (simp add: feeds_json_def word_unat_eq_iff)
  ultimately show ?thesis using assms by (cases a, cases b) (simp add: intel_json_def word_unat_eq_iff conj_ac)
qed

lemma engine_json_inject:
  assumes "inj_on (jw_f32 jw) (\<Union>x \<in> {a, b}. {en_merge_malicious_threshold x, en_merge_suspicious_threshold x})"
  shows "engine_json jw a = engine_json jw b \<longleftrightarrow> a = b"
  using assms by (cases a, cases b) (auto simp: engine_json_def word_unat_eq_iff inj_on_def)

lemma detection_json_inject:
  assumes "inj_on (jw_f32 jw) {dc_threat_score_threshold a, dc_threat_score_threshold b}"
  shows "detection_json jw a = detection_json jw b \<longleftrightarrow> a = b"
  using assms by (cases a, cases b) (auto simp: detection_json_def inj_on_def)

lemma public_part_eq:
  "public_part c = public_part c' \<longleftrightarrow>
     rg_sensor c = rg_sensor c' \<and> rg_engine c = rg_engine c' \<and> rg_store c = rg_store c' \<and> comms_json (rg_comms c) = comms_json (rg_comms c')
     \<and> rg_response c = rg_response c' \<and> rg_intel (public_part c) = rg_intel (public_part c')
     \<and> rg_dlp c = rg_dlp c' \<and> rg_detection c = rg_detection c' \<and> rg_egress c = rg_egress c' \<and> rg_rules c = rg_rules c'"
  unfolding comms_json_public by (cases c, cases c') (simp add: public_part_def)

lemma config_json_public:
  assumes "writes_numbers jw {c, c'}"
  shows "config_json jw c = config_json jw c' \<longleftrightarrow> public_part c = public_part c'"
proof -
  have "engine_json jw (rg_engine c) = engine_json jw (rg_engine c') \<longleftrightarrow> rg_engine c = rg_engine c'"
    by (rule engine_json_inject) (rule inj_on_subset [OF assms [unfolded writes_numbers_def, THEN conjunct1]], simp)
  moreover have "detection_json jw (rg_detection c) = detection_json jw (rg_detection c') \<longleftrightarrow> rg_detection c = rg_detection c'"
    by (rule detection_json_inject) (rule inj_on_subset [OF assms [unfolded writes_numbers_def, THEN conjunct1]], simp)
  moreover have "jw_f64 jw (ic_bloom_false_positive_rate (rg_intel c)) = jw_f64 jw (ic_bloom_false_positive_rate (rg_intel c'))
      \<longleftrightarrow> ic_bloom_false_positive_rate (rg_intel c) = ic_bloom_false_positive_rate (rg_intel c')"
    by (rule inj_on_eq_iff [OF assms [unfolded writes_numbers_def, THEN conjunct2]]) simp_all
  from intel_json_public [OF this]
  have "intel_json jw (rg_intel c) = intel_json jw (rg_intel c') \<longleftrightarrow> rg_intel (public_part c) = rg_intel (public_part c')"
    by (simp add: public_part_def)
  ultimately show ?thesis unfolding public_part_eq config_json_def by (simp add: section_inject)
qed

section \<open>Over the socket\<close>

lemma handle_message_keeps_config: "st_config_json (fst (handle_message il s msg)) = st_config_json s"
  by (cases msg) (auto simp: control_def egress_mutate_def Let_def split: slot.splits prod.splits)

definition after_messages :: "'net ipc_libs \<Rightarrow> 'net daemon_state \<Rightarrow> client_message list \<Rightarrow> 'net daemon_state" where
  "after_messages il s msgs = foldl (\<lambda>s msg. fst (handle_message il s msg)) s msgs"

lemma after_messages_config: "st_config_json (after_messages il s msgs) = st_config_json s"
  unfolding after_messages_def by (induction msgs arbitrary: s) (simp_all add: handle_message_keeps_config)

text \<open>
  What is documented of a JSON pointer (RFC 6901): the empty one is the whole document, and one that
  starts with the name of a member, free of the two characters that are escaped, goes on in that
  member.
\<close>

definition follows_members :: "(json \<Rightarrow> string \<Rightarrow> json option) \<Rightarrow> bool" where
  "follows_members pointer \<longleftrightarrow>
     (\<forall>j. pointer j [] = Some j)
     \<and> (\<forall>kvs name rest. CHR ''/'' \<notin> set name \<and> CHR ''~'' \<notin> set name \<and> (rest = [] \<or> hd rest = CHR ''/'')
          \<longrightarrow> pointer (J_Object kvs) (CHR ''/'' # name @ rest) = Option.bind (map_of kvs name) (\<lambda>v. pointer v rest))"

lemma follow_member:
  "follows_members pointer \<Longrightarrow> CHR ''/'' \<notin> set name \<Longrightarrow> CHR ''~'' \<notin> set name \<Longrightarrow> rest = [] \<or> hd rest = CHR ''/''
   \<Longrightarrow> pointer (J_Object kvs) (CHR ''/'' # name @ rest) = Option.bind (map_of kvs name) (\<lambda>v. pointer v rest)"
  by (simp add: follows_members_def)

definition plain_name :: "string \<Rightarrow> bool" where
  "plain_name name \<longleftrightarrow> CHR ''/'' \<notin> set name \<and> CHR ''~'' \<notin> set name"

lemma pointer_missing:
  assumes "follows_members pointer" and "plain_name name" and "map_of kvs name = None"
  shows "pointer (J_Object kvs) (CHR ''/'' # name) = None"
  using follow_member [OF assms(1), of name "[]"] assms(2,3) by (simp add: plain_name_def)

lemma pointer_below:
  assumes "follows_members pointer" and "plain_name name" and "map_of kvs name = Some v"
    and "pointer v (CHR ''/'' # rest) = None" and "p = name @ CHR ''/'' # rest"
  shows "pointer (J_Object kvs) (CHR ''/'' # p) = None"
  using follow_member [OF assms(1), of name "CHR ''/'' # rest"] assms(2-5) by (simp add: plain_name_def)

lemma secret_hidden:
  assumes "follows_members pointer"
  shows "pointer (config_json jw c) ''/comms/enrollment_token'' = None"
    and "pointer (config_json jw c) ''/comms/tls/client_key_path'' = None"
    and "pointer (config_json jw c) ''/intel/virustotal/api_key'' = None"
    and "pointer (config_json jw c) ''/intel/abuseipdb/api_key'' = None"
    and "pointer (config_json jw c) ''/intel/feeds/abusech_auth_key'' = None"
proof -
  note missing = pointer_missing [OF assms] and below = pointer_below [OF assms]
  have comms: "pointer (config_json jw c) (CHR ''/'' # ''comms'' @ CHR ''/'' # p) = None"
    if "pointer (comms_json (rg_comms c)) (CHR ''/'' # p) = None" for p
    unfolding config_json_def by (rule below [where name = "''comms''", OF _ _ that]) (simp_all add: plain_name_def)
  have intel: "pointer (config_json jw c) (CHR ''/'' # ''intel'' @ CHR ''/'' # p) = None"
    if "pointer (intel_json jw (rg_intel c)) (CHR ''/'' # p) = None" for p
    unfolding config_json_def by (rule below [where name = "''intel''", OF _ _ that]) (simp_all add: plain_name_def)
  have "pointer (comms_json (rg_comms c)) ''/enrollment_token'' = None"
    unfolding comms_json_def by (rule missing) (simp_all add: plain_name_def)
  then show "pointer (config_json jw c) ''/comms/enrollment_token'' = None" using comms by simp
  have "pointer (tls_json (cm_tls (rg_comms c))) ''/client_key_path'' = None"
    unfolding tls_json_def by (rule missing) (simp_all add: plain_name_def)
  then have "pointer (comms_json (rg_comms c)) ''/tls/client_key_path'' = None"
    unfolding comms_json_def by (rule below [where name = "''tls''", rotated 2]) (simp_all add: plain_name_def)
  then show "pointer (config_json jw c) ''/comms/tls/client_key_path'' = None" using comms by simp
  have "pointer (vt_json (ic_virustotal (rg_intel c))) ''/api_key'' = None"
    unfolding vt_json_def by (rule missing) (simp_all add: plain_name_def)
  then have "pointer (intel_json jw (rg_intel c)) ''/virustotal/api_key'' = None"
    unfolding intel_json_def by (rule below [where name = "''virustotal''", rotated 2]) (simp_all add: plain_name_def)
  then show "pointer (config_json jw c) ''/intel/virustotal/api_key'' = None" using intel by simp
  have "pointer (abuseipdb_json (ic_abuseipdb (rg_intel c))) ''/api_key'' = None"
    unfolding abuseipdb_json_def by (rule missing) (simp_all add: plain_name_def)
  then have "pointer (intel_json jw (rg_intel c)) ''/abuseipdb/api_key'' = None"
    unfolding intel_json_def by (rule below [where name = "''abuseipdb''", rotated 2]) (simp_all add: plain_name_def)
  then show "pointer (config_json jw c) ''/intel/abuseipdb/api_key'' = None" using intel by simp
  have "pointer (feeds_json (ic_feeds (rg_intel c))) ''/abusech_auth_key'' = None"
    unfolding feeds_json_def by (rule missing) (simp_all add: plain_name_def)
  then have "pointer (intel_json jw (rg_intel c)) ''/feeds/abusech_auth_key'' = None"
    unfolding intel_json_def by (rule below [where name = "''feeds''", rotated 2]) (simp_all add: plain_name_def)
  then show "pointer (config_json jw c) ''/intel/feeds/abusech_auth_key'' = None" using intel by simp
qed

lemma secret_unknown:
  assumes "follows_members pointer" and "fld \<in> set SECRET_KEYS"
  shows "\<not> known_key pointer jw (''/'' @ replace_char (CHR ''.'') (CHR ''/'') fld)"
  using assms(2) by (auto simp: SECRET_KEYS_def known_key_def replace_char_def secret_hidden [OF assms(1)])

lemma unknown_key_refused:
  "\<not> cl_known cl (''/'' @ replace_char (CHR ''.'') (CHR ''/'') fld) \<Longrightarrow> \<exists>e. update_config cl env fld v w = (w, Inl e)"
  by (auto simp: update_config_def set_config_value_def Let_def split: prod.splits option.splits)


section \<open>A daemon with secrets\<close>

text \<open>A reader of pointers for the members of objects.\<close>

fun follow :: "json \<Rightarrow> string list \<Rightarrow> json option" where
  "follow j [] = Some j"
| "follow (J_Object kvs) (name # names) = Option.bind (map_of kvs name) (\<lambda>v. follow v names)"
| "follow _ _ = None"

definition member_pointer :: "json \<Rightarrow> string \<Rightarrow> json option" where
  "member_pointer j p =
     (case p of [] \<Rightarrow> Some j
      | c # cs \<Rightarrow> if c = CHR ''/'' then follow j (split_by (\<lambda>c. c = CHR ''/'') cs) else None)"

lemma member_pointer_follows: "follows_members member_pointer"
proof -
  have "member_pointer (J_Object kvs) (CHR ''/'' # name @ rest) = Option.bind (map_of kvs name) (\<lambda>v. member_pointer v rest)"
    if "CHR ''/'' \<notin> set name" "rest = [] \<or> hd rest = CHR ''/''" for kvs name rest
  proof (cases rest)
    case Nil
    have "split_by (\<lambda>c. c = CHR ''/'') name = [name]" using that(1) by (intro split_by_none) auto
    with Nil show ?thesis by (simp add: member_pointer_def)
  next
    case (Cons c cs)
    with that(2) have c: "c = CHR ''/''" by simp
    have "split_by (\<lambda>c. c = CHR ''/'') (name @ c # cs) = name # split_by (\<lambda>c. c = CHR ''/'') cs"
      using that(1) c by (intro split_by_append) auto
    with Cons c show ?thesis by (simp add: member_pointer_def)
  qed
  then show ?thesis by (simp add: follows_members_def member_pointer_def)
qed

definition sample_writer :: json_writer where
  "sample_writer =
     \<lparr>jw_f32 = (\<lambda>f. case f of F_Fin r \<Rightarrow> J_Array [j_int (fst (quotient_of r)), j_int (snd (quotient_of r))] | _ \<Rightarrow> J_Null),
      jw_f64 = (\<lambda>f. case f of D_Fin r \<Rightarrow> J_Array [j_int (fst (quotient_of r)), j_int (snd (quotient_of r))] | _ \<Rightarrow> J_Null),
      jw_pretty = (\<lambda>_. Inr ''{...}'')\<rparr>"

lemma sample_writes_numbers: "writes_numbers sample_writer {riggs_config_default, sample_boot_config}"
proof -
  have "jw_f32 sample_writer (F_Fin a) = jw_f32 sample_writer (F_Fin b) \<longleftrightarrow> a = b" for a b
    by (auto simp: sample_writer_def prod_eq_iff [symmetric] dest: quotient_of_inject)
  then show ?thesis
    by (auto simp: writes_numbers_def sample_boot_config_def inj_on_def riggs_config_default_def engine_config_default_def
        detection_config_default_def f32_lits)
qed


end
