(* ===== verification/Boot.thy ===== *)
theory Boot
  imports Config_Json Daemon Collector Executor
begin

text \<open>
  \<^verbatim>\<open>RiggsDaemon::new\<close> and the frame of \<^verbatim>\<open>RiggsDaemon::run\<close> in \<^verbatim>\<open>riggs-daemon/src/daemon.rs\<close>: how the
  components are created out of the configuration and handed to one another, in which order the
  start can fail, which tasks are supervised, and the shutdown. What the components do is in their
  theories. A component that the code shares by reference-counting (the egress engine, the DLP
  correlator, the store, the counters) is the same value in each place that has it at the start.
\<close>

section \<open>The host\<close>

datatype target_os = Linux_Os | Macos_Os | Other_Os

text \<open>
  What the start meets besides the files of \<open>boot_inputs\<close>: which directories exist, whether the sensor
  starts, whether the directory of the database can be created and what the database holds, and
  the console.
\<close>

record boot_host =
  bh_target :: target_os
  bh_exists :: "string \<Rightarrow> bool"
  bh_sensor :: "riggs_error option"
  bh_store_dir :: "string \<Rightarrow> string option"
  bh_database :: "string + (table \<times> table \<times> table)"
  bh_fs :: fs
  bh_own_pid :: u32
  bh_now :: timestamp
  bh_console :: console_env
  bh_host_info :: host_info
  bh_enroll :: "string + string"

record riggs_daemon =
  rd_config :: riggs_config
  rd_config_path :: "string option"
  rd_supervisor :: supervisor

definition daemon_new ::
  "(string \<Rightarrow> string + riggs_config) \<Rightarrow> file_probe \<Rightarrow> string option \<Rightarrow> string option \<Rightarrow> riggs_error + riggs_daemon" where
  "daemon_new toml probe url token =
     (case load_config toml probe url token of
        Inl e \<Rightarrow> Inl e
      | Inr (cfg, path) \<Rightarrow> Inr \<lparr>rd_config = cfg, rd_config_path = path, rd_supervisor = supervisor_new\<rparr>)"

section \<open>The components\<close>

definition boot_egress_adapter ::
  "(string \<Rightarrow> 'net option) \<Rightarrow> riggs_config \<Rightarrow> boot_inputs \<Rightarrow> riggs_error + 'net egress_adapter" where
  "boot_egress_adapter net_parse cfg bi =
     (case policy_config ''egress'' (bi_egress_toml bi) (rg_egress cfg) (bi_probe bi) EGRESS_POLICY_PATHS of
        Inl e \<Rightarrow> Inl e
      | Inr (ec, file) \<Rightarrow>
          Inr \<lparr>ea_engine = egress_new (egress_from_config net_parse ec),
               ea_policy_path = (case file of Some p \<Rightarrow> p | None \<Rightarrow> hd EGRESS_POLICY_PATHS),
               ea_config = ec, ea_poisoned = False\<rparr>)"

definition boot_feeds :: "intel_config \<Rightarrow> feed_manager option" where
  "boot_feeds ic =
     (if ic_enabled ic
      then Some \<lparr>fm_auth_key = fds_abusech_auth_key (ic_feeds ic),
                 fm_malwarebazaar_enabled = fds_malwarebazaar_enabled (ic_feeds ic),
                 fm_urlhaus_enabled = fds_urlhaus_enabled (ic_feeds ic), fm_known_hashes = [],
                 fm_bloom_min_capacity = max (max (ic_bloom_capacity ic div 100) 1) 1\<rparr>
      else None)"

definition boot_correlator :: "riggs_config \<Rightarrow> timestamp \<Rightarrow> storyline_correlator" where
  "boot_correlator cfg now =
     with_threat_threshold (dc_threat_score_threshold (rg_detection cfg))
       (with_limits (en_storyline_max_events (rg_engine cfg)) (en_storyline_idle_secs (rg_engine cfg))
          (en_storyline_prune_interval_secs (rg_engine cfg)) (storyline_new now))"

definition boot_control :: "riggs_config \<Rightarrow> string option \<Rightarrow> control_adapter" where
  "boot_control cfg config_path =
     \<lparr>ca_config_path = config_path, ca_scans = [], ca_feeds = boot_feeds (rg_intel cfg), ca_refresh_requested = False,
      ca_vuln_running = False, ca_vault_dir = rc_quarantine_path (rg_response cfg)\<rparr>"

text \<open>Opening the database creates the tables that are missing; any of its steps may fail.\<close>

definition store_with_compression :: "string + (table \<times> table \<times> table) \<Rightarrow> bool \<Rightarrow> riggs_error + riggs_store" where
  "store_with_compression db compress =
     (case db of
        Inl e \<Rightarrow> Inl (Store e)
      | Inr (events, verdicts, responses) \<Rightarrow>
          Inr \<lparr>rs_events = events, rs_verdicts = verdicts, rs_response_log = responses, rs_compress = compress\<rparr>)"

definition boot_store :: "store_config \<Rightarrow> boot_host \<Rightarrow> riggs_error + riggs_store" where
  "boot_store sto bh =
     (case Option.bind (path_parent (sto_db_path sto)) (\<lambda>d. map_option (Pair d) (bh_store_dir bh d)) of
        Some (d, e) \<Rightarrow> Inl (Store (''failed to create store directory '' @ d @ '': '' @ e))
      | None \<Rightarrow> store_with_compression (bh_database bh) (sto_compression_enabled sto))"

definition boot_snapshots :: "response_config \<Rightarrow> snapshot_store option" where
  "boot_snapshots rc =
     (if rc_preemptive_snapshots rc
      then Some \<lparr>ss_dir = rc_snapshot_path rc, ss_max_file_bytes = rc_snapshot_max_file_mib rc * 1024 * 1024\<rparr> else None)"

definition boot_executor ::
  "response_config \<Rightarrow> 'w platform_control \<Rightarrow> vault_libs \<Rightarrow> snapshot_libs \<Rightarrow> 'w response_executor" where
  "boot_executor rc platform vl sl =
     \<lparr>re_platform = platform, re_vault_libs = vl, re_vault_dir = rc_quarantine_path rc, re_snapshot_libs = sl,
      re_snapshots = boot_snapshots rc\<rparr>"

text \<open>The policy of the responses is the built-in one, whatever the configuration says.\<close>

definition boot_loop_config :: "riggs_config \<Rightarrow> u32 \<Rightarrow> daemon_config" where
  "boot_loop_config cfg own_pid =
     \<lparr>dg_auto_respond = rc_auto_respond (rg_response cfg), dg_snapshots = boot_snapshots (rg_response cfg) \<noteq> None,
      dg_stage_timeout_ms = unat (en_stage_timeout_ms (rg_engine cfg)), dg_policy = default_policy, dg_own_pid = own_pid\<rparr>"

definition usize_saturating :: "nat \<Rightarrow> nat" where
  "usize_saturating n = min n (2 ^ 64 - 1)"

definition boot_queue :: "store_config \<Rightarrow> store_queue" where
  "boot_queue sto =
     \<lparr>sq_items = [], sq_capacity = max (usize_saturating (max (sto_batch_max sto) 1 * 4)) 1, sq_closed = False\<rparr>"

section \<open>The supervised tasks\<close>

definition watched :: "boot_host \<Rightarrow> string \<Rightarrow> bool" where
  "watched bh path = (case path_parent path of Some d \<Rightarrow> bh_exists bh d | None \<Rightarrow> False)"

definition policy_path :: "file_probe \<Rightarrow> string list \<Rightarrow> string" where
  "policy_path probe ps = (case first_existing probe ps of Some p \<Rightarrow> p | None \<Rightarrow> hd ps)"

definition boot_tasks :: "riggs_config \<Rightarrow> boot_inputs \<Rightarrow> boot_host \<Rightarrow> bool \<Rightarrow> string list" where
  "boot_tasks cfg bi bh enrolled =
     (if dlpc_enabled (rg_dlp cfg)
      then [''dlp-reaper''] @ (if watched bh (policy_path (bi_probe bi) DLP_POLICY_PATHS) then [''dlp-policy-watcher''] else [])
      else []) @
     (if watched bh (policy_path (bi_probe bi) EGRESS_POLICY_PATHS) then [''egress-policy-watcher''] else []) @
     (if bh_target bh = Linux_Os then [''egress-nftables''] else []) @
     (if ic_enabled (rg_intel cfg) then [''feed-manager'', ''feed-dispatcher''] else []) @
     [''retention''] @
     (if boot_snapshots (rg_response cfg) \<noteq> None then [''snapshot-prune''] else []) @
     [''health-check'', ''ipc-server''] @
     (if bh_target bh = Macos_Os then [''filter-ipc-server''] else []) @
     (if en_rules_enabled (rg_engine cfg) \<and> bi_local_rules bi \<noteq> None then [''rule-watcher''] else []) @
     (if enrolled then [''cloud-heartbeat'', ''cloud-threat-reporter'', ''cloud-dlp-reporter''] else [])"

definition spawn_all :: "string list \<Rightarrow> supervisor \<Rightarrow> supervisor" where
  "spawn_all names s = foldl (\<lambda>s name. supervisor_spawn name s) s names"

text \<open>
  What a turn of the periodic tasks does, and how often it comes: the retention of the store, the
  expiry of snapshots, whose age is cast from \<^verbatim>\<open>u64\<close> to \<^verbatim>\<open>i64\<close>, and the health check.
\<close>

definition retention_sweep_secs :: "riggs_config \<Rightarrow> u64" where
  "retention_sweep_secs cfg = max (en_retention_sweep_secs (rg_engine cfg)) 1"

definition retention_turn :: "riggs_config \<Rightarrow> (nat \<Rightarrow> string option) \<Rightarrow> timestamp \<Rightarrow> riggs_store \<Rightarrow> riggs_store" where
  "retention_turn cfg txn now s = fst (run_cleanup txn now (unat (sto_retention_days (rg_store cfg))) s)"

definition snapshot_max_age :: "riggs_config \<Rightarrow> duration" where
  "snapshot_max_age cfg = seconds (sint (rc_snapshot_retention_hours (rg_response cfg)) * 3600)"

definition snapshot_prune_turn ::
  "riggs_config \<Rightarrow> snapshot_libs \<Rightarrow> io_env \<Rightarrow> snapshot_store \<Rightarrow> timestamp \<Rightarrow> fs \<Rightarrow> fs" where
  "snapshot_prune_turn cfg sl env st now fs = fst (snap_prune sl env st now (snapshot_max_age cfg) fs)"

definition health_check_secs :: "riggs_config \<Rightarrow> u64" where
  "health_check_secs cfg = max (en_health_check_secs (rg_engine cfg)) 1"

text \<open>The line a health check logs: events and threats.\<close>

definition health_check_turn :: "'net daemon_state \<Rightarrow> u64 \<times> u64" where
  "health_check_turn s = (st_events_processed s, st_threats_detected s)"

text \<open>The two sockets.\<close>

definition boot_ipc_server :: "comms_config \<Rightarrow> nat \<Rightarrow> ipc_server" where
  "boot_ipc_server cm euid =
     server_with_limits (cm_ipc_max_message_bytes cm) (cm_ipc_max_connections cm)
       \<lparr>sv_max_message_bytes = DEFAULT_MAX_MSG_LEN, sv_max_connections = 32, sv_root_only = False, sv_euid = euid\<rparr>"

definition boot_filter_server :: "comms_config \<Rightarrow> nat \<Rightarrow> ipc_server" where
  "boot_filter_server cm euid = server_root_only (boot_ipc_server cm euid)"

section \<open>The start\<close>

record ('w, 'net) started =
  sd_supervisor :: supervisor
  sd_state :: "'net daemon_state"
  sd_loop :: "(detection_world, 'net) daemon"
  sd_loop_config :: daemon_config
  sd_executor :: "'w response_executor"
  sd_collector :: event_collector
  sd_store :: riggs_store
  sd_console_messages :: "(channel \<times> console_message) list"

definition boot_state ::
  "json_writer \<Rightarrow> riggs_config \<Rightarrow> string option \<Rightarrow> boot_host \<Rightarrow> detection_world \<Rightarrow> 'net egress_adapter \<Rightarrow> riggs_store
   \<Rightarrow> 'net daemon_state" where
  "boot_state jw cfg config_path bh w adapter store =
     (serialize_config jw cfg (daemon_state_new (bh_fs bh)))
       \<lparr>st_dlp := (if dlpc_enabled (rg_dlp cfg) then Ready (ds_correlator (dw_dlp w)) else Unset),
        st_egress := Ready adapter, st_control := Ready (boot_control cfg config_path), st_store := Ready store\<rparr>"

definition boot_loop ::
  "riggs_config \<Rightarrow> boot_host \<Rightarrow> detection_world \<Rightarrow> detection_world detection_pipeline \<Rightarrow> 'net egress_engine
   \<Rightarrow> (detection_world, 'net) daemon" where
  "boot_loop cfg bh w p engine =
     \<lparr>dm_correlator = boot_correlator cfg (bh_now bh), dm_pipeline = p, dm_stages = w, dm_egress = engine,
      dm_egress_warned = [], dm_events_processed = 0, dm_threats_detected = 0, dm_snapshot_requests = [],
      dm_response_requests = [], dm_store_queue = boot_queue (rg_store cfg)\<rparr>"

definition boot_daemon ::
  "json_writer \<Rightarrow> (string \<Rightarrow> 'net option) \<Rightarrow> 'w platform_control \<Rightarrow> vault_libs \<Rightarrow> snapshot_libs \<Rightarrow> detection_env
   \<Rightarrow> riggs_daemon \<Rightarrow> boot_inputs \<Rightarrow> boot_host \<Rightarrow> riggs_error + ('w, 'net) started" where
  "boot_daemon jw net_parse platform vl sl env d bi bh =
     (let cfg = rd_config d
      in case boot_detection cfg bi env of
           Inl e \<Rightarrow> Inl e
         | Inr (w, p) \<Rightarrow>
             (case boot_egress_adapter net_parse cfg bi of
                Inl e \<Rightarrow> Inl e
              | Inr adapter \<Rightarrow>
                  (case collector_start (bh_sensor bh) (collector_new None) of
                     (collector, Some e) \<Rightarrow> Inl e
                   | (collector, None) \<Rightarrow>
                       (case boot_store (rg_store cfg) bh of
                          Inl e \<Rightarrow> Inl e
                        | Inr store \<Rightarrow>
                            (let (console, sent_msgs) =
                               start_console (rg_comms cfg) (bh_console bh) (bh_host_info bh) (bh_enroll bh)
                             in Inr \<lparr>sd_supervisor = spawn_all (boot_tasks cfg bi bh (console \<noteq> None)) (rd_supervisor d),
                                     sd_state = boot_state jw cfg (rd_config_path d) bh w adapter store,
                                     sd_loop = boot_loop cfg bh w p (ea_engine adapter),
                                     sd_loop_config = boot_loop_config cfg (bh_own_pid bh),
                                     sd_executor = boot_executor (rg_response cfg) platform vl sl,
                                     sd_collector = collector, sd_store = store,
                                     sd_console_messages = sent_msgs\<rparr>)))))"

section \<open>The shutdown\<close>

text \<open>
  The collector is stopped, every supervised task aborted, and the channel to the store writer
  closed; the writer then takes what is still queued and flushes, if it gets there in time.
\<close>

definition shutdown_daemon ::
  "riggs_error option \<Rightarrow> nat \<Rightarrow> bool \<Rightarrow> ('w, 'net) started \<Rightarrow> (riggs_event \<times> merged_verdict) writer
   \<Rightarrow> ('w, 'net) started \<times> (riggs_event \<times> merged_verdict) writer" where
  "shutdown_daemon sensor batch_max in_time d wr =
     (let queue = dm_store_queue (sd_loop d)
      in (d\<lparr>sd_collector := fst (collector_stop sensor (sd_collector d)),
            sd_supervisor := shutdown_all (sd_supervisor d),
            sd_loop := (sd_loop d)\<lparr>dm_store_queue := queue\<lparr>sq_closed := True, sq_items := []\<rparr>\<rparr>\<rparr>,
          if in_time then close_writer (foldl (writer_step (max batch_max 1)) wr (map Received (sq_items queue))) else wr))"

section \<open>Facts\<close>

lemma boot_egress_adapter_engine:
  "boot_egress net_parse cfg bi =
     (case boot_egress_adapter net_parse cfg bi of Inl e \<Rightarrow> Inl e | Inr a \<Rightarrow> Inr (ea_engine a, ea_policy_path a))"
  by (simp add: boot_egress_def boot_egress_adapter_def split: sum.split)

lemma boot_egress_adapter_policy:
  "boot_egress_adapter net_parse cfg bi = Inr a \<Longrightarrow> ee_policy (ea_engine a) = egress_from_config net_parse (ea_config a)"
  by (auto simp: boot_egress_adapter_def egress_new_def split: sum.splits)

lemma supervisor_inv_spawn: "supervisor_inv s \<Longrightarrow> supervisor_inv (supervisor_spawn name s)"
  by (auto simp: supervisor_inv_def supervisor_spawn_def hm_wf_insert hm_get_insert) metis

lemma spawn_all_tasks:
  "supervisor_inv s \<Longrightarrow> supervisor_inv (spawn_all names s)
     \<and> fst ` set (sv_tasks (spawn_all names s)) = fst ` set (sv_tasks s) \<union> set names"
proof (induction names arbitrary: s)
  case (Cons n names)
  have "fst ` set (sv_tasks (supervisor_spawn n s)) = insert n (fst ` set (sv_tasks s))"
    by (simp add: supervisor_spawn_def hm_insert_def dom_update)
  with Cons.IH [OF supervisor_inv_spawn [OF Cons.prems], of n] show ?case by (simp add: spawn_all_def)
qed (simp add: spawn_all_def)

lemma boot_correlator_inv: "linked (boot_correlator cfg now) \<and> real_trees (boot_correlator cfg now) \<and> within_cap (boot_correlator cfg now)"
  by (simp add: boot_correlator_def with_threat_threshold_def with_limits_def storyline_new_def linked_def real_trees_def within_cap_def)

lemma boot_detection_world:
  assumes "boot_detection cfg bi env = Inr (w, p)" and "cache_ok (dw_intel w)"
  shows "world_ok w"
  using assms by (auto simp: boot_detection_def initial_static_def world_ok_def split: sum.splits prod.splits if_splits)

lemma boot_daemon_parts:
  assumes "boot_daemon jw net_parse platform vl sl env d bi bh = Inr sd"
  obtains w p adapter store enrolled where
    "boot_detection (rd_config d) bi env = Inr (w, p)"
    "boot_egress_adapter net_parse (rd_config d) bi = Inr adapter"
    "sd_supervisor sd = spawn_all (boot_tasks (rd_config d) bi bh enrolled) (rd_supervisor d)"
    "sd_state sd = boot_state jw (rd_config d) (rd_config_path d) bh w adapter store"
    "sd_loop sd = boot_loop (rd_config d) bh w p (ea_engine adapter)"
    "sd_loop_config sd = boot_loop_config (rd_config d) (bh_own_pid bh)"
    "sd_executor sd = boot_executor (rg_response (rd_config d)) platform vl sl"
    "ec_task (sd_collector sd)" "sd_store sd = store"
  using assms
  by (auto simp: boot_daemon_def collector_start_def Let_def split: sum.splits prod.splits option.splits)


text \<open>The socket of the filter extension serves root alone; the other one admits a first peer of either kind.\<close>

lemma sockets_admit:
  "cred \<noteq> Some 0 \<Longrightarrow> snd (server_step (boot_filter_server cm euid) pools (Connection cred)) = DroppedNonRoot"
  "snd (server_step (boot_ipc_server cm euid) \<lparr>po_owner_busy = 0, po_other_busy = 0\<rparr> (Connection cred))
     = Served (cred = Some euid)"
  by (auto simp: boot_filter_server_def boot_ipc_server_def server_root_only_def server_with_limits_def peer_is_owner_def
      split: option.splits)

text \<open>
  A shutdown loses nothing that the loop accepted: when the writer finishes in time, what it has handed to
  the store is what it held before, its buffer and the queue, in order. Every supervised task has
  been aborted.
\<close>

theorem shutdown_stores_accepted:
  "shutdown_daemon sensor batch_max True d wr = (d', wr') \<Longrightarrow>
     concat (wr_batches wr') = concat (wr_batches wr) @ wr_buf wr @ sq_items (dm_store_queue (sd_loop d))
     \<and> wr_buf wr' = [] \<and> sv_tasks (sd_supervisor d') = []
     \<and> te_handle ` snd ` set (sv_tasks (sd_supervisor d)) \<subseteq> set (sv_aborted (sd_supervisor d'))"
  using run_writer_steps(2) [of "max batch_max 1" wr "map Received (sq_items (dm_store_queue (sd_loop d)))"]
  by (auto simp: shutdown_daemon_def close_writer_def flush_simps shutdown_all_def Let_def comp_def concat_map_singleton)

section \<open>A start\<close>

definition sample_daemon_object :: riggs_daemon where
  "sample_daemon_object = \<lparr>rd_config = sample_boot_config, rd_config_path = None, rd_supervisor = supervisor_new\<rparr>"

definition sample_host :: boot_host where
  "sample_host =
     \<lparr>bh_target = Linux_Os, bh_exists = (\<lambda>_. True), bh_sensor = None, bh_store_dir = (\<lambda>_. None),
      bh_database = Inr ([], [], []), bh_fs = Map.empty, bh_own_pid = 40, bh_now = 0, bh_console = sample_console_env,
      bh_host_info = sample_host_info, bh_enroll = Inr ''agent-1''\<rparr>"

definition idle_platform :: "unit platform_control" where
  "idle_platform =
     \<lparr>pl_kill_process = (\<lambda>_ w. (w, Inr ())), pl_suspend_process = (\<lambda>_ w. (w, Inr ())), pl_contain = (\<lambda>_ w. (w, Inr ())),
      pl_release = (\<lambda>w. (w, Inr ()))\<rparr>"

abbreviation sample_start :: "riggs_error + (unit, unit) started" where
  "sample_start \<equiv> boot_daemon sample_writer (\<lambda>_. None) idle_platform (il_vault sample_ipc) snap_libs sample_detection
                    sample_daemon_object sample_boot sample_host"

lemma sample_start_works:
  "\<exists>sd. sample_start = Inr sd \<and> cache_ok (dw_intel (dm_stages (sd_loop sd)))"
proof -
  have "dlpc_enabled (rg_dlp sample_boot_config) = False"
    by (simp add: sample_boot_config_def riggs_config_default_def dlp_config_default_def)
  then obtain w p where det: "boot_detection sample_boot_config sample_boot sample_detection = Inr (w, p)"
    and table: "vc_table (is_cache (dw_intel w)) = [(''ab'', None)]"
    by (simp add: boot_detection_def initial_intel_def sample_boot_def)
  have "boot_egress_adapter (\<lambda>_. None :: unit option) sample_boot_config sample_boot \<noteq> Inl e" for e
    by (simp add: boot_egress_adapter_def EGRESS_POLICY_PATHS_def sample_boot_def sample_probe_def)
  then obtain a where eg: "boot_egress_adapter (\<lambda>_. None :: unit option) sample_boot_config sample_boot = Inr a"
    by (cases "boot_egress_adapter (\<lambda>_. None :: unit option) sample_boot_config sample_boot") auto
  have "\<exists>store. boot_store (rg_store sample_boot_config) sample_host = Inr store"
    by (simp add: boot_store_def sample_host_def store_with_compression_def split: option.split)
  then obtain store where store: "boot_store (rg_store sample_boot_config) sample_host = Inr store" by blast
  obtain sd where sd: "sample_start = Inr sd"
    by (simp add: boot_daemon_def sample_daemon_object_def det eg store collector_start_def split_beta)
      (simp add: sample_host_def)
  then have "dm_stages (sd_loop sd) = w"
    by (auto simp: boot_daemon_def sample_daemon_object_def det eg store boot_loop_def split_beta split: option.splits)
  with table sd show ?thesis by (auto simp: cache_ok_def)
qed


end
