(* ===== verification/Menubar.thy ===== *)
theory Menubar
  imports Ipc
begin

text \<open>
  The menu bar application, \<^verbatim>\<open>riggs-menubar/src/status.rs\<close>, \<^verbatim>\<open>poller.rs\<close> and the texts of
  \<^verbatim>\<open>app.rs\<close>: the status it polls from the daemon, what it makes of it, and the scan it can ask for.
  The AppKit objects that hold the texts are not modelled. Text is in bytes of its UTF-8 encoding.
\<close>

section \<open>The status\<close>

record daemon_status =
  ds_connected :: bool
  ds_running :: bool
  ds_events_processed :: u64
  ds_active_threats :: u32
  ds_bloom_size :: u64
  ds_cache_entries :: u64
  ds_feeds_last_updated :: "string option"
  ds_last_update :: "timestamp option"

definition daemon_status_default :: daemon_status where
  "daemon_status_default =
     \<lparr>ds_connected = False, ds_running = False, ds_events_processed = 0, ds_active_threats = 0, ds_bloom_size = 0,
      ds_cache_entries = 0, ds_feeds_last_updated = None, ds_last_update = None\<rparr>"

text \<open>The rate of events in double precision, from the seconds since the last update.\<close>

definition events_per_sec :: "(timestamp \<Rightarrow> rat) \<Rightarrow> daemon_status \<Rightarrow> rat option" where
  "events_per_sec elapsed_since s =
     Option.bind (ds_last_update s) (\<lambda>t.
       let elapsed = elapsed_since t
       in if 0 < elapsed \<and> 0 < ds_events_processed s
          then Some (f64_near (f64_near (of_nat (unat (ds_events_processed s))) / max elapsed 1)) else None)"

section \<open>Polling\<close>

definition DEFAULT_POLL_INTERVAL_SECS :: u64 where "DEFAULT_POLL_INTERVAL_SECS = 3"

definition socket_path :: "string option \<Rightarrow> string" where
  "socket_path riggs_socket = (case riggs_socket of Some p \<Rightarrow> p | None \<Rightarrow> ''/var/run/riggs.sock'')"

definition poll_interval_secs :: "string option \<Rightarrow> u64" where
  "poll_interval_secs var =
     (case Option.bind var (parse_unsigned (2 ^ 64)) of
        Some n \<Rightarrow> if 0 < n then of_nat n else DEFAULT_POLL_INTERVAL_SECS
      | None \<Rightarrow> DEFAULT_POLL_INTERVAL_SECS)"

text \<open>
  What a poll meets: each of its two connections is accepted or not and finds the daemon in some
  state. The lock of the status may be poisoned.
\<close>

record 'net menubar_env =
  mb_ipc :: "'net ipc_libs"
  mb_limit :: nat
  mb_is_owner :: bool
  mb_lock_poisoned :: bool
  mb_now :: timestamp

datatype 'net meeting = Refused | Accepted "'net daemon_state"

definition ask :: "'net menubar_env \<Rightarrow> client_message \<Rightarrow> 'net meeting \<Rightarrow> daemon_message option" where
  "ask env msg m =
     (case m of
        Refused \<Rightarrow> None
      | Accepted s \<Rightarrow>
          (case snd (client_send (mb_ipc env) (mb_limit env) (mb_is_owner env) msg s) of Inl _ \<Rightarrow> None | Inr r \<Rightarrow> Some r))"

text \<open>The result tells whether the poll ended with an error.\<close>

definition note_status :: "'net menubar_env \<Rightarrow> daemon_message \<Rightarrow> daemon_status \<Rightarrow> daemon_status \<times> bool" where
  "note_status env r st =
     (case r of
        StatusReply running events_processed active_threats \<Rightarrow>
          if mb_lock_poisoned env then (st, True)
          else (st\<lparr>ds_connected := True, ds_running := running, ds_events_processed := events_processed,
                   ds_active_threats := active_threats, ds_last_update := Some (mb_now env)\<rparr>, False)
      | _ \<Rightarrow> (st, False))"

definition note_intel :: "'net menubar_env \<Rightarrow> daemon_message option \<Rightarrow> daemon_status \<Rightarrow> daemon_status \<times> bool" where
  "note_intel env r st =
     (case r of
        Some (IntelStatusReply bloom_size cache_entries feeds_last_updated) \<Rightarrow>
          if mb_lock_poisoned env then (st, True)
          else (st\<lparr>ds_bloom_size := bloom_size, ds_cache_entries := cache_entries,
                   ds_feeds_last_updated := feeds_last_updated\<rparr>, False)
      | _ \<Rightarrow> (st, False))"

definition poll_once :: "'net menubar_env \<Rightarrow> 'net meeting \<Rightarrow> 'net meeting \<Rightarrow> daemon_status \<Rightarrow> daemon_status \<times> bool" where
  "poll_once env m1 m2 st =
     (case ask env GetStatus m1 of
        None \<Rightarrow> (st, True)
      | Some r \<Rightarrow>
          (let (st1, failed) = note_status env r st
           in if failed then (st1, True) else note_intel env (ask env IntelStatus m2) st1))"

definition poll_round :: "'net menubar_env \<Rightarrow> 'net meeting \<Rightarrow> 'net meeting \<Rightarrow> daemon_status \<Rightarrow> daemon_status" where
  "poll_round env m1 m2 st =
     (let (st', failed) = poll_once env m1 m2 st
      in if failed \<and> \<not> mb_lock_poisoned env then st'\<lparr>ds_connected := False\<rparr> else st')"

section \<open>Asking for a scan\<close>

datatype scan_log = ScanTriggered | ScanRefused string | ScanUnexpected | ScanNotSent | ScanNotConnected

definition trigger_scan_background ::
  "'net menubar_env \<Rightarrow> string \<Rightarrow> 'net meeting \<Rightarrow> 'net meeting \<times> scan_log" where
  "trigger_scan_background env path m =
     (case m of
        Refused \<Rightarrow> (m, ScanNotConnected)
      | Accepted s \<Rightarrow>
          (case client_send (mb_ipc env) (mb_limit env) (mb_is_owner env) (TriggerScan path) s of
             (s', Inl e) \<Rightarrow> (Accepted s', ScanNotSent)
           | (s', Inr r) \<Rightarrow>
               (Accepted s', case r of OkReply \<Rightarrow> ScanTriggered | ErrorReply e \<Rightarrow> ScanRefused e | _ \<Rightarrow> ScanUnexpected)))"

definition scan_now :: "'net menubar_env \<Rightarrow> 'net meeting \<Rightarrow> 'net meeting \<times> scan_log" where
  "scan_now env m = trigger_scan_background env ''/'' m"

section \<open>The menu\<close>

text \<open>One decimal, rounded to the nearest and on a tie to the even digit.\<close>

definition one_decimal :: "rat \<Rightarrow> string" where
  "one_decimal x = (let t = nat (round_even (x * 10)) in show_nat (t div 10) @ ''.'' @ show_nat (t mod 10))"

definition format_count :: "u64 \<Rightarrow> string" where
  "format_count n =
     (if 1000000 \<le> n then one_decimal (f64_near (f64_near (of_nat (unat n)) / 1000000)) @ ''M''
      else if 1000 \<le> n then one_decimal (f64_near (f64_near (of_nat (unat n)) / 1000)) @ ''K''
      else show_nat (unat n))"

definition plural :: "u32 \<Rightarrow> string" where
  "plural n = (if n = 1 then [] else ''s'')"

record menu_texts =
  mt_title :: string
  mt_status :: string
  mt_threats :: string
  mt_events :: string
  mt_intel :: string
  mt_feeds :: string

definition title_and_status :: "daemon_status \<Rightarrow> string \<times> string" where
  "title_and_status st =
     (if \<not> ds_connected st then (''R!'', ''Disconnected from daemon'')
      else if 0 < ds_active_threats st then
        (''R!'', show_nat (unat (ds_active_threats st)) @ '' threat'' @ plural (ds_active_threats st) @ '' detected'')
      else if ds_running st then (''R'', ''Protected'')
      else (''R?'', ''Daemon not running''))"

definition update_menu :: "daemon_status \<Rightarrow> menu_texts" where
  "update_menu st =
     \<lparr>mt_title = fst (title_and_status st), mt_status = snd (title_and_status st),
      mt_threats =
        (if 0 < ds_active_threats st
         then [CHR 0xE2, CHR 0x9A, CHR 0xA0, CHR 0xEF, CHR 0xB8, CHR 0x8F] @ ''  '' @ show_nat (unat (ds_active_threats st))
              @ '' active threat'' @ plural (ds_active_threats st)
         else [CHR 0xE2, CHR 0x9C, CHR 0x85] @ ''  No active threats''),
      mt_events =
        [CHR 0xF0, CHR 0x9F, CHR 0x93, CHR 0x8A] @ ''  '' @ format_count (ds_events_processed st) @ '' events processed'',
      mt_intel =
        [CHR 0xF0, CHR 0x9F, CHR 0x94, CHR 0x8D] @
        (if 0 < ds_bloom_size st \<or> 0 < ds_cache_entries st
         then ''  '' @ format_count (ds_bloom_size st) @ '' hashes | '' @ format_count (ds_cache_entries st) @ '' IOC cache entries''
         else ''  Intel: loading...''),
      mt_feeds =
        [CHR 0xF0, CHR 0x9F, CHR 0x93, CHR 0xA1] @
        (case ds_feeds_last_updated st of Some ts \<Rightarrow> ''  Feeds updated: '' @ ts | None \<Rightarrow> ''  Feeds: active'')\<rparr>"

section \<open>The menu tells the state of the daemon\<close>

lemma ask_answer:
  assumes "\<not> needs_privilege msg" and "message_codec (mb_ipc env) msg (snd (handle_message (mb_ipc env) s msg)) (mb_limit env)"
  shows "ask env msg (Accepted s) = Some (snd (handle_message (mb_ipc env) s msg))"
  using client_send_answer [of "handle_message (mb_ipc env) s msg" msg "mb_is_owner env" s "mb_ipc env" "mb_limit env"] assms
  by (simp add: ask_def)

text \<open>A poll that fails: the socket does not accept, or the exchange breaks.\<close>

definition unreachable :: "'net menubar_env \<Rightarrow> 'net meeting \<Rightarrow> bool" where
  "unreachable env m \<longleftrightarrow> ask env GetStatus m = None"

text \<open>
  The menu says \<^verbatim>\<open>Protected\<close> only of a daemon that answered the last poll and has counted no
  threat. Take any history of polls that ends with one that found the lock of the status intact.
  When that poll reached the daemon, whatever earlier polls saw, the title and
  the status line tell the threats the daemon counts (as 32 bits show them), and are the ones of a
  protected host exactly if there are none; when it did not, they tell that the daemon cannot be
  reached.
\<close>

theorem menu_tells_daemon_state:
  assumes "\<not> mb_lock_poisoned env" and "st = poll_round env m1 m2 st0"
    and "\<forall>s. m1 = Accepted s \<longrightarrow> message_codec (mb_ipc env) GetStatus (snd (handle_message (mb_ipc env) s GetStatus)) (mb_limit env)"
  shows "(case m1 of
            Refused \<Rightarrow> title_and_status st = (''R!'', ''Disconnected from daemon'')
          | Accepted s \<Rightarrow>
              (let threats = ucast (st_threats_detected s) :: u32
               in title_and_status st =
                    (if threats = 0 then (''R'', ''Protected'')
                     else (''R!'', show_nat (unat threats) @ '' threat'' @ plural threats @ '' detected''))
                  \<and> ds_events_processed st = st_events_processed s))"
proof (cases m1)
  case Refused
  then show ?thesis using assms(1,2) by (simp add: poll_round_def poll_once_def ask_def title_and_status_def)
next
  case (Accepted s)
  have "ask env GetStatus m1 = Some (StatusReply True (st_events_processed s) (ucast (st_threats_detected s)))"
    using ask_answer [of GetStatus env s] assms(3) Accepted by simp
  then have "ds_connected st \<and> ds_running st \<and> ds_active_threats st = ucast (st_threats_detected s)
             \<and> ds_events_processed st = st_events_processed s"
    using assms(1,2)
    by (auto simp: poll_round_def poll_once_def note_status_def note_intel_def split: option.split daemon_message.split)
  then show ?thesis using Accepted by (simp add: title_and_status_def Let_def word_gt_0)
qed

text \<open>A scan that the daemon accepts is logged as an unexpected response: the daemon answers \<^verbatim>\<open>Done\<close>.\<close>

theorem accepted_scan_unexpected:
  assumes "handle_message (mb_ipc env) s (TriggerScan path) = (s', DoneReply t)" and "mb_is_owner env"
    and "message_codec (mb_ipc env) (TriggerScan path) (DoneReply t) (mb_limit env)"
  shows "trigger_scan_background env path (Accepted s) = (Accepted s', ScanUnexpected)"
proof -
  have "client_send (mb_ipc env) (mb_limit env) (mb_is_owner env) (TriggerScan path) s = (s', Inr (DoneReply t))"
    using client_send_answer [of "(s', DoneReply t)" "TriggerScan path" "mb_is_owner env" s "mb_ipc env" "mb_limit env"] assms by simp
  then show ?thesis by (simp add: trigger_scan_background_def)
qed

text \<open>A daemon that has counted one threat.\<close>

definition sample_menubar :: "unit menubar_env" where
  "sample_menubar =
     \<lparr>mb_ipc = sample_ipc
        \<lparr>il_read_client := (\<lambda>b. if b = ''status'' then Inr GetStatus else Inl ''bad''),
         il_write_client := (\<lambda>m. if m = GetStatus then Inr ''status'' else Inl ''bad''),
         il_read_daemon := (\<lambda>b. if b = ''one'' then Inr (StatusReply True 9 1) else Inl ''bad''),
         il_write_daemon := (\<lambda>m. if m = StatusReply True 9 1 then Inr ''one'' else Inl ''bad'')\<rparr>,
      mb_limit = 1024, mb_is_owner = False, mb_lock_poisoned = False, mb_now = 7\<rparr>"

definition sample_threatened :: "unit daemon_state" where
  "sample_threatened = (daemon_state_new Map.empty)\<lparr>st_events_processed := 9, st_threats_detected := 1\<rparr>"

theorem menu_tells_daemon_state_witness:
  "title_and_status (poll_round sample_menubar (Accepted sample_threatened) Refused daemon_status_default)
     = (''R!'', ''1 threat detected'')"
proof -
  have one: "show_nat 1 = ''1''" by code_simp
  have "message_codec (mb_ipc sample_menubar) GetStatus
          (snd (handle_message (mb_ipc sample_menubar) sample_threatened GetStatus)) (mb_limit sample_menubar)"
    by (simp add: message_codec_def sample_menubar_def sample_threatened_def DEFAULT_MAX_MSG_LEN_def)
  then show ?thesis
    using menu_tells_daemon_state [of sample_menubar, OF _ refl, of "Accepted sample_threatened" Refused daemon_status_default] one
    by (simp add: sample_menubar_def sample_threatened_def plural_def)
qed

end
