(* ===== verification/Shell.thy ===== *)
theory Shell
  imports Events
begin

text \<open>
  The remote shell, \<^verbatim>\<open>riggs-shell/src/auth.rs\<close> and \<^verbatim>\<open>session.rs\<close>: the keys that may open a session
  and the life of the pseudo-terminal and the shell process behind one. Ed25519 verification and the
  operations of the pseudo-terminal are parameters.
\<close>

section \<open>Authorised keys\<close>

record 'k shell_auth =
  sa_authorized_keys :: "'k list"

definition shell_auth_new :: "'k shell_auth" where
  "shell_auth_new = \<lparr>sa_authorized_keys = []\<rparr>"

definition add_authorized_key :: "'k \<Rightarrow> 'k shell_auth \<Rightarrow> 'k shell_auth" where
  "add_authorized_key k a = a\<lparr>sa_authorized_keys := sa_authorized_keys a @ [k]\<rparr>"

definition verify_challenge ::
  "('k \<Rightarrow> string \<Rightarrow> 's \<Rightarrow> bool) \<Rightarrow> 'k shell_auth \<Rightarrow> 'k \<Rightarrow> string \<Rightarrow> 's \<Rightarrow> bool" where
  "verify_challenge verify a public_key challenge signature =
     (if \<not> list_ex (\<lambda>k. k = public_key) (sa_authorized_keys a) then False else verify public_key challenge signature)"

section \<open>Sessions\<close>

text \<open>A terminal and a process are named by numbers.\<close>

record 'k shell_session =
  ss_id :: uuid
  ss_created_at :: timestamp
  ss_user :: string
  ss_auth :: "'k shell_auth"
  ss_master :: "nat option"
  ss_child :: "nat option"

definition shell_session_new :: "uuid \<Rightarrow> timestamp \<Rightarrow> 'k shell_auth \<Rightarrow> riggs_error + 'k shell_session" where
  "shell_session_new i now auth =
     Inr \<lparr>ss_id = i, ss_created_at = now, ss_user = ''unknown'', ss_auth = auth, ss_master = None, ss_child = None\<rparr>"

text \<open>
  The processes that run, and what the pseudo-terminal system does: open a terminal, spawn the
  shell in it, kill a process. Dropping the handle of a running process leaves the process.
\<close>

record pty_env =
  py_open :: "string + nat"
  py_spawn :: "string \<Rightarrow> string + nat"
  py_kill :: "nat \<Rightarrow> string option"
  py_shell :: "string option"

definition shell_start ::
  "pty_env \<Rightarrow> 'k shell_session \<times> nat list \<Rightarrow> ('k shell_session \<times> nat list) \<times> (riggs_error + unit)" where
  "shell_start env w =
     (let (ss, running) = w
      in case py_open env of
           Inl e \<Rightarrow> (w, Inl (Platform (''failed to open PTY: '' @ e)))
         | Inr master \<Rightarrow>
             (let shell = (case py_shell env of Some s \<Rightarrow> s | None \<Rightarrow> ''/bin/zsh'')
              in case py_spawn env shell of
                   Inl e \<Rightarrow> (w, Inl (Platform (''failed to spawn shell: '' @ e)))
                 | Inr pid \<Rightarrow> ((ss\<lparr>ss_master := Some master, ss_child := Some pid\<rparr>, running @ [pid]), Inr ())))"

definition shell_stop ::
  "pty_env \<Rightarrow> 'k shell_session \<times> nat list \<Rightarrow> ('k shell_session \<times> nat list) \<times> (riggs_error + unit)" where
  "shell_stop env w =
     (let (ss, running) = w
      in case ss_child ss of
           Some pid \<Rightarrow>
             (case py_kill env pid of
                Some e \<Rightarrow> ((ss\<lparr>ss_child := None\<rparr>, running), Inl (Platform (''failed to kill shell process: '' @ e)))
              | None \<Rightarrow> ((ss\<lparr>ss_child := None, ss_master := None\<rparr>, removeAll pid running), Inr ()))
         | None \<Rightarrow> ((ss\<lparr>ss_master := None\<rparr>, running), Inr ()))"

section \<open>Facts\<close>

text \<open>
  A challenge is accepted only of a key that was added before, and then exactly if the signature
  verifies; without keys no one is accepted.
\<close>

theorem challenge_accepted_iff:
  "verify_challenge verify (foldl (\<lambda>a k. add_authorized_key k a) shell_auth_new ks) key challenge signature
     \<longleftrightarrow> key \<in> set ks \<and> verify key challenge signature"
proof -
  have "sa_authorized_keys (foldl (\<lambda>a k. add_authorized_key k a) a ks) = sa_authorized_keys a @ ks" for a :: "'a shell_auth"
    by (induction ks arbitrary: a) (simp_all add: add_authorized_key_def)
  then show ?thesis by (auto simp: verify_challenge_def shell_auth_new_def list_ex_iff)
qed

text \<open>
  A session that was stopped leaves no process of its own behind, but a second start without a stop
  between loses the first process: it runs on, and no stop reaches it.
\<close>

theorem start_stop_leaves_nothing:
  assumes "shell_start env (ss, running) = (w, Inr ())" and "ss_child (fst w) = Some pid"
    and "py_kill env pid = None" and "pid \<notin> set running"
  shows "shell_stop env w = ((ss\<lparr>ss_master := None, ss_child := None\<rparr>, running), Inr ())"
  using assms by (auto simp: shell_start_def shell_stop_def split: sum.splits)

text \<open>Starting a session consults neither the keys nor any challenge.\<close>

theorem start_ignores_keys:
  "shell_start env (ss\<lparr>ss_auth := a\<rparr>, running) =
     (case shell_start env (ss, running) of ((ss', running'), r) \<Rightarrow> ((ss'\<lparr>ss_auth := a\<rparr>, running'), r))"
  by (simp add: shell_start_def split: sum.splits)

end
