(* ===== verification/Mounts.thy ===== *)
theory Mounts
  imports Linux_Files Linux_Sensor
begin

text \<open>
  The start of fanotify on Linux, \<^verbatim>\<open>riggs-platform-linux/src/fanotify.rs\<close> (\<^verbatim>\<open>start\<close>, \<^verbatim>\<open>init\<close>, \<^verbatim>\<open>mount_id\<close>),
  and the choice of the sensor between its reports and those of inotify: which mounts are marked,
  and for which paths an inotify event is dropped because fanotify reports the write. The
  system calls are arguments.
\<close>

section \<open>Marking mounts\<close>

text \<open>
  \<open>mh_init\<close> and \<open>mh_mark\<close> give the error of the call, if any; \<open>mh_statx\<close> the mount id that \<^verbatim>\<open>statx\<close>
  reports for a path, if it does.
\<close>

record mount_host =
  mh_canonicalize :: "string \<Rightarrow> string option"
  mh_init :: "string option"
  mh_mark :: "string \<Rightarrow> string option"
  mh_statx :: "string \<Rightarrow> u64 option"
  mh_mountinfo :: "string + string"

text \<open>A path with a zero byte is no C string.\<close>

definition c_string :: "string \<Rightarrow> bool" where
  "c_string p \<longleftrightarrow> CHR 0x00 \<notin> set p"

definition mark_mount :: "mount_host \<Rightarrow> string \<Rightarrow> string option" where
  "mark_mount h p = (if c_string p then mh_mark h p else Some ''data provided contains a nul byte'')"

definition mount_id :: "mount_host \<Rightarrow> string \<Rightarrow> u64 option" where
  "mount_id h p = (if c_string p then mh_statx h p else None)"

definition note_mount :: "mount_host \<Rightarrow> string \<Rightarrow> u64 list \<Rightarrow> u64 list" where
  "note_mount h p ids = (case mount_id h p of Some i \<Rightarrow> List.insert i ids | None \<Rightarrow> ids)"

fun mark_roots :: "mount_host \<Rightarrow> string list \<Rightarrow> u64 list \<Rightarrow> string + u64 list" where
  "mark_roots h [] ids = Inr ids"
| "mark_roots h (r # rs) ids =
     (case mark_mount h r of Some e \<Rightarrow> Inl e | None \<Rightarrow> mark_roots h rs (note_mount h r ids))"

text \<open>The fifth field of a line is the mount point.\<close>

definition mount_points :: "string \<Rightarrow> string list" where
  "mount_points mountinfo =
     List.map_filter (\<lambda>line. let fields = split_by (\<lambda>c. c = CHR '' '') line
                             in if 4 < length fields then Some (fields ! 4) else None) (str_lines mountinfo)"

definition below_roots :: "string list \<Rightarrow> string \<Rightarrow> bool" where
  "below_roots roots p \<longleftrightarrow> list_ex (\<lambda>r. path_starts_with p r) roots"

definition mark_child :: "mount_host \<Rightarrow> string list \<Rightarrow> u64 list \<Rightarrow> string \<Rightarrow> u64 list" where
  "mark_child h roots ids p =
     (if below_roots roots p \<and> mark_mount h p = None then note_mount h p ids else ids)"

definition fanotify_init :: "mount_host \<Rightarrow> string list \<Rightarrow> string + u64 list" where
  "fanotify_init h roots =
     (case mh_init h of
        Some e \<Rightarrow> Inl e
      | None \<Rightarrow>
          (case mark_roots h roots [] of
             Inl e \<Rightarrow> Inl e
           | Inr ids \<Rightarrow>
               (case mh_mountinfo h of
                  Inl e \<Rightarrow> Inl e
                | Inr mountinfo \<Rightarrow> Inr (foldl (mark_child h roots) ids (mount_points mountinfo)))))"

text \<open>The watched roots with what they resolve to; a root that does not resolve is left out.\<close>

definition resolved_roots :: "mount_host \<Rightarrow> string list \<Rightarrow> (string \<times> string) list" where
  "resolved_roots h dirs = List.map_filter (\<lambda>d. map_option (\<lambda>r. (r, d)) (mh_canonicalize h d)) dirs"

definition fanotify_start :: "mount_host \<Rightarrow> string list \<Rightarrow> u64 list option" where
  "fanotify_start h dirs =
     (case fanotify_init h (map fst (resolved_roots h dirs)) of Inl _ \<Rightarrow> None | Inr marked \<Rightarrow> Some marked)"

definition covers :: "mount_host \<Rightarrow> u64 list \<Rightarrow> string \<Rightarrow> bool" where
  "covers h marked p = (case mount_id h p of Some i \<Rightarrow> i \<in> set marked | None \<Rightarrow> False)"

text \<open>Without fanotify no path is covered.\<close>

definition sensor_covers :: "mount_host \<Rightarrow> string list \<Rightarrow> string \<Rightarrow> bool" where
  "sensor_covers h dirs p = (case fanotify_start h dirs of Some marked \<Rightarrow> covers h marked p | None \<Rightarrow> False)"

section \<open>What is covered\<close>

text \<open>The paths whose mount was marked: the resolved roots and, of the mount points below one, those that could be.\<close>

definition marked_path :: "mount_host \<Rightarrow> string list \<Rightarrow> string \<Rightarrow> bool" where
  "marked_path h roots p \<longleftrightarrow>
     mark_mount h p = None
     \<and> (p \<in> set roots
        \<or> below_roots roots p \<and> (\<exists>mountinfo. mh_mountinfo h = Inr mountinfo \<and> p \<in> set (mount_points mountinfo)))"

lemma set_note_mount: "set (note_mount h p ids) = set ids \<union> {i. mount_id h p = Some i}"
  by (auto simp: note_mount_def split: option.split)

lemma mark_roots_ok:
  "mark_roots h roots ids = Inr ids' \<Longrightarrow>
     list_all (\<lambda>r. mark_mount h r = None) roots
     \<and> set ids' = set ids \<union> {i. \<exists>r \<in> set roots. mount_id h r = Some i}"
  by (induction h roots ids rule: mark_roots.induct) (auto simp: set_note_mount split: option.splits)

lemma mark_children:
  "set (foldl (mark_child h roots) ids ps)
     = set ids \<union> {i. \<exists>p \<in> set ps. below_roots roots p \<and> mark_mount h p = None \<and> mount_id h p = Some i}"
  by (induction ps arbitrary: ids) (auto simp: mark_child_def set_note_mount)

lemma fanotify_init_marks:
  assumes "fanotify_init h roots = Inr marked"
  shows "set marked = {i. \<exists>p. marked_path h roots p \<and> mount_id h p = Some i}"
proof -
  from assms obtain ids mountinfo where r: "mark_roots h roots [] = Inr ids" and m: "mh_mountinfo h = Inr mountinfo"
    and f: "marked = foldl (mark_child h roots) ids (mount_points mountinfo)"
    by (auto simp: fanotify_init_def split: option.splits sum.splits)
  from mark_roots_ok [OF r] show ?thesis
    unfolding f mark_children by (auto simp: marked_path_def m list_all_iff)
qed

text \<open>
  A write is left to fanotify only where fanotify sees it. When the sensor drops an inotify event
  about changed data, fanotify has started, and each path of the event lies on a mount that was
  marked: the mount of a watched root, or one mounted below such a root. On any other mount, and
  whenever fanotify or one of the roots could not be set up, the event is reported.
\<close>

theorem dropped_write_is_marked:
  assumes "notify_action (sensor_covers h dirs) NotifyModifyData paths = None" and "p \<in> set paths"
  shows "\<exists>q. marked_path h (map fst (resolved_roots h dirs)) q \<and> mount_id h q = mount_id h p \<and> mount_id h p \<noteq> None"
proof -
  from assms have "sensor_covers h dirs p" by (auto simp: list_all_iff split: if_splits)
  then obtain marked i where s: "fanotify_start h dirs = Some marked" and i: "mount_id h p = Some i" "i \<in> set marked"
    by (auto simp: sensor_covers_def covers_def split: option.splits)
  from s have "fanotify_init h (map fst (resolved_roots h dirs)) = Inr marked"
    by (auto simp: fanotify_start_def split: sum.splits)
  from fanotify_init_marks [OF this] i show ?thesis by auto
qed

text \<open>And every write on such a mount is left to it.\<close>

theorem marked_write_is_dropped:
  assumes "fanotify_start h dirs = Some marked"
    and "\<And>p. p \<in> set paths \<Longrightarrow>
           \<exists>q i. marked_path h (map fst (resolved_roots h dirs)) q \<and> mount_id h q = Some i \<and> mount_id h p = Some i"
  shows "notify_action (sensor_covers h dirs) NotifyModifyData paths = None"
proof -
  from assms(1) have "fanotify_init h (map fst (resolved_roots h dirs)) = Inr marked"
    by (auto simp: fanotify_start_def split: sum.splits)
  from fanotify_init_marks [OF this] have "sensor_covers h dirs p" if "p \<in> set paths" for p
    using assms(1) assms(2) [OF that] by (auto simp: sensor_covers_def covers_def)
  then show ?thesis by (simp add: list_all_iff)
qed

text \<open>
  The mount points are taken as they are written in \<^verbatim>\<open>mountinfo\<close>, where a space is the four
  characters of an octal escape: the mount point itself is not among them.
\<close>

lemma escaped_mount_point_missed:
  "''/home/my disk'' \<notin> set (mount_points (''36 35 8:1 / /home/my'' @ [CHR 0x5C] @ ''040disk rw - ext4 /dev/sda1 rw''))"
  by code_simp

end
