(* ===== verification/Packages.thy ===== *)
theory Packages
  imports Vuln Control
begin

text \<open>
  The rest of \<^verbatim>\<open>riggs-vuln/src/packages.rs\<close>: the names of the package sources, the applications of a
  macOS host, dpkg's status file, and the list of installed packages on either system. Directory
  listings and the contents of files are arguments.
\<close>

fun package_source_display :: "package_source \<Rightarrow> string" where
  "package_source_display Homebrew = ''homebrew''"
| "package_source_display System = ''system''"
| "package_source_display Application = ''application''"
| "package_source_display Pip = ''pip''"
| "package_source_display Npm = ''npm''"
| "package_source_display Gem = ''gem''"
| "package_source_display Dpkg = ''dpkg''"
| "package_source_display Rpm = ''rpm''"
| "package_source_display Binary = ''binary''"

definition package_display :: "installed_package \<Rightarrow> string" where
  "package_display p = pkg_name p @ '' '' @ pkg_version p @ '' ('' @ package_source_display (pkg_source p) @ '')''"

text \<open>What is at a path: nothing, or something that may or may not read as text.\<close>

type_synonym file_at = "string \<Rightarrow> string option option"

definition macos_app :: "file_at \<Rightarrow> string \<Rightarrow> string \<Rightarrow> installed_package option" where
  "macos_app files dir entry =
     (let app_path = path_join dir entry; plist_path = path_join app_path ''Contents/Info.plist'' in
      if path_extension app_path \<noteq> Some ''app'' then None
      else case files plist_path of
        None \<Rightarrow> None
      | Some content \<Rightarrow>
          Some \<lparr>pkg_name = (case path_file_name app_path of Some n \<Rightarrow> file_stem n | None \<Rightarrow> []),
                pkg_version = (case read_plist_version content of Some v \<Rightarrow> v | None \<Rightarrow> ''unknown''),
                pkg_source = Application, install_path = Some app_path\<rparr>)"

definition enumerate_macos_apps :: "file_at \<Rightarrow> listing \<Rightarrow> installed_package list" where
  "enumerate_macos_apps files ls =
     concat (map (\<lambda>dir. List.map_filter (macos_app files dir) (entries_of ls dir)) [''/Applications''])"

definition enumerate_dpkg :: "file_at \<Rightarrow> installed_package list" where
  "enumerate_dpkg files =
     (case files ''/var/lib/dpkg/status'' of Some (Some content) \<Rightarrow> parse_dpkg_status content | _ \<Rightarrow> [])"

datatype package_host = MacHost | LinuxHost | OtherHost

definition enumerate_host_packages ::
  "package_host \<Rightarrow> file_at \<Rightarrow> string \<Rightarrow> manifests \<Rightarrow> listing \<Rightarrow> installed_package list" where
  "enumerate_host_packages host files home manifest ls =
     (case host of
        MacHost \<Rightarrow> enumerate_homebrew ls @ enumerate_macos_apps files ls
      | LinuxHost \<Rightarrow> enumerate_dpkg files
      | OtherHost \<Rightarrow> [])
     @ enumerate_pip home ls @ enumerate_npm_global home manifest ls"

section \<open>Facts\<close>

text \<open>On a Linux host this is the list the scanner of \<open>Vuln\<close> works on.\<close>

lemma linux_packages:
  "enumerate_host_packages LinuxHost files home manifest ls
     = enumerate_packages (Option.bind (files ''/var/lib/dpkg/status'') id) home manifest ls"
  by (simp add: enumerate_host_packages_def enumerate_packages_def enumerate_dpkg_def split: option.split)

text \<open>
  Exactly the application bundles with a property list are reported, each from its own directory
  and with a version that is never missing.
\<close>

lemma macos_apps_exact:
  "p \<in> set (enumerate_macos_apps files ls) \<longleftrightarrow>
     (\<exists>entry. entry \<in> set (entries_of ls ''/Applications'') \<and> macos_app files ''/Applications'' entry = Some p)"
  by (auto simp: enumerate_macos_apps_def List.map_filter_def image_iff)

lemma source_of_entry:
  "dist_info_package dir name = Some p \<Longrightarrow> pkg_source p = Pip"
  "npm_package manifest path = Some p \<Longrightarrow> pkg_source p = Npm"
  "macos_app files dir entry = Some p \<Longrightarrow> pkg_source p = Application"
  by (auto simp: dist_info_package_def npm_package_def macos_app_def Let_def split: option.splits if_splits)

theorem listed_sources:
  "set (map pkg_source (enumerate_host_packages host files home manifest ls))
     \<subseteq> (case host of MacHost \<Rightarrow> {Homebrew, Application, Pip, Npm} | LinuxHost \<Rightarrow> {Dpkg, Pip, Npm} | OtherHost \<Rightarrow> {Pip, Npm})"
proof -
  have pip: "pkg_source p = Pip" if "p \<in> set (enumerate_pip home ls)" for p
    using that source_of_entry(1) unfolding enumerate_pip_def by (fastforce simp: in_map_filter)
  have npm: "pkg_source p = Npm" if "p \<in> set (enumerate_npm_global home manifest ls)" for p
    using that source_of_entry(2) unfolding enumerate_npm_global_def npm_dir_def by (fastforce simp: in_map_filter)
  have apps: "pkg_source p = Application" if "p \<in> set (enumerate_macos_apps files ls)" for p
    using that source_of_entry(3) unfolding macos_apps_exact by blast
  have brew: "pkg_source p = Homebrew" if "p \<in> set (enumerate_homebrew ls)" for p
    using that by (auto simp: enumerate_homebrew_def)
  have dpkg: "pkg_source p = Dpkg" if "p \<in> set (enumerate_dpkg files)" for p
    using that by (auto simp: enumerate_dpkg_def parse_dpkg_status_def split: option.splits prod.splits)
  show ?thesis
    by (cases host) (auto simp: enumerate_host_packages_def dest: pip npm apps brew dpkg)
qed

end
