(* ===== verification/Spec2Isabelle.thy ===== *)
theory Spec2Isabelle
  imports Behavior Dlp_Model Egress Storyline Response_Policy Vault Snapshots Executor Daemon
    Rules_Stage Intel Vuln Control Store_Model Ipc Collector Linux_Files Linux_Sensor Linux_Net Static_Ai
    Console Discovery Devices Macos Startup Cli Cvss Rule_Files Config_Json Boot Menubar Shell Mounts Packages
begin

text \<open>
  \<^bold>\<open>Riggs, an endpoint-protection agent.\<close> The agent (the Rust crates under \<^verbatim>\<open>src/crates\<close>) observes
  process, file, network, DNS, authentication and kernel events of a host, groups them into
  storylines, runs detection stages over each event, answers threats, and restricts what the host
  may send out. This development models the parts that decide: what an event is worth, what is
  remembered about it, what is done about it, and what may leave the host.

  \<^bold>\<open>How the parts interact.\<close> A platform sensor (on Linux the process, file and connection sensors)
  sends events through the collector, which normalizes them, to the event loop of the daemon. The
  loop asks the storyline correlator for the storyline of an event and stamps it, notes whether the
  egress policy would refuse an outbound connection, runs the detection pipeline, gives the verdicts
  back to the correlator, requests a snapshot of a file that a threat storyline opens, asks the
  response policy for actions, hands them to the executor, and queues event and verdict for the
  store writer. The pipeline routes the event by its kind to five stages: threat intelligence,
  static analysis, rules, behavioural detection and data-loss prevention. The executor quarantines
  files in a vault, rolls a storyline back from its snapshots and signals processes or cuts the
  network through the platform. On Linux a separate task keeps a kernel ruleset in step with the
  egress policy; watchers swap policies and rules when their files change; a feed manager brings
  new indicators. Local clients query and command the daemon over a socket.

  \<^bold>\<open>Theories.\<close>

  \<^item> \<open>Prelude\<close>: machine integers, time, the string and path operations of the Rust library that the
    code uses, hash maps as association lists in iteration order, ordered maps, and two
    interfaces as locales: \<open>map_interface\<close> (lookup after insert, remove and retain; interpreted for
    both kinds of map) and \<open>bounded_history\<close> (a log with a cap; interpreted for both ways the code
    trims one). \<open>Text_Ops\<close>: lines, splitting, searching and trimming of text. \<open>Addresses\<close>: IP
    addresses, their order and their text. \<open>Float32\<close>: single-precision numbers with correct
    rounding, used for confidences and scores.
  \<^item> \<open>Events\<close> and \<open>Configuration\<close>: \<^verbatim>\<open>riggs-types\<close> (\<^verbatim>\<open>events.rs\<close>, \<^verbatim>\<open>verdict.rs\<close>, \<^verbatim>\<open>errors.rs\<close> and \<^verbatim>\<open>config.rs\<close>
    with the default of each section). \<open>Config_Json\<close>: what is serialised of the configuration, the
    copy the socket shows and the keys it lets one set. Shown: two configurations look the same
    exactly if they differ in secrets alone, and no secret can be set.
  \<^item> \<open>Engine\<close>: \<^verbatim>\<open>riggs-engine\<close>. \<^verbatim>\<open>EventRouter::stages_for_event\<close>, \<^verbatim>\<open>DetectionPipeline\<close> and its \<^verbatim>\<open>run\<close>,
    \<^verbatim>\<open>merge_verdicts_weighted\<close>. The locale \<open>detection_stage\<close> is the contract of the trait
    \<^verbatim>\<open>DetectionStage\<close>, interpreted by the stages whose verdicts always count; \<open>guarded_stage\<close> (in
    \<open>Intel\<close>) is the contract of a stage that keeps it under an invariant of its own state. Shown: a
    merged verdict is never below a usable one, a timed-out file analysis is never clean, routing
    is exact, the thresholds act monotonically.
  \<^item> \<open>Behavior\<close>: \<^verbatim>\<open>riggs-behavioral-ai\<close>. The tracker with its caps and eviction, the eight pattern
    checks of \<^verbatim>\<open>tracker.rs\<close> and the stage. Shown: the caps, which storyline is evicted, that the
    sliding-window scan is exact, which signals suffice.
  \<^item> \<open>Dlp_Model\<close>: \<^verbatim>\<open>riggs-dlp\<close>. File types, policy, the correlator with its two maps and the stage.
    Shown: exactly when a flow is flagged, that an open descriptor cannot be waited out, that
    eviction is invisible, that exits clear.
  \<^item> \<open>Static_Ai\<close>: \<^verbatim>\<open>riggs-static-ai\<close>. Entropy in double precision under the byte budget of
    \<^verbatim>\<open>entropy_by_section\<close>, imported names, the Mach-O symbol table, suspicious strings, the features of
    each format, the heuristic score and the stage. Shown: the work is bounded by the length of the
    file, the bound hides no packed section, the strings are the first twenty, the score lies
    between 0 and 1, a renamed executable is scored.
  \<^item> \<open>Custom_Rules\<close> and \<open>Rules_Stage\<close>: \<^verbatim>\<open>riggs-rules\<close>. Rule conditions and sequences, indicator lists and
    their matching, the stage and the reload of rule sets. Shown: a sequence rule fires exactly for
    its steps in order and in time, a listed indicator is reported, the level of the stage.
    \<open>Rule_Files\<close>: the search for rule files, the YARA engine around its compiler and scanner, and the
    watcher. Shown: exactly the files with the extensions are read, a match is malicious, the rules
    in use are the last good ones.
  \<^item> \<open>Intel\<close>: \<^verbatim>\<open>riggs-intel\<close> and the feed dispatcher of \<^verbatim>\<open>riggs-daemon\<close>. The Bloom filter (locale
    \<open>membership_filter\<close>), the verdict cache, the rate limiter, the four clients, the feed manager and
    the stage. Shown: no false negative, a hash of a feed is never clean, the rate is bounded.
  \<^item> \<open>Versions\<close> and \<open>Vuln\<close>: \<^verbatim>\<open>riggs-vuln\<close>. The order of versions, advisories and their ranges, the
    database, package lists, the translation of OSV advisories and the report. Shown: the order is a
    total order, a report lists exactly the affected packages, ranges are read back. \<open>Cvss\<close>: the base
    score of a CVSS v3 vector in double precision. Shown: a score is a tenth between 0 and 10.
    \<open>Packages\<close>: the installed packages of either system.
  \<^item> \<open>Reload\<close>: the watcher loops of \<^verbatim>\<open>riggs-dlp/src/reload.rs\<close> and \<^verbatim>\<open>riggs-egress/src/reload.rs\<close> over the
    locale \<open>policy_cell\<close>, interpreted by the DLP correlator and by the egress engine.
  \<^item> \<open>Egress\<close>: \<^verbatim>\<open>riggs-egress\<close>. The policy and its evaluation, the host-wide snapshot, the rendered
    ruleset, and the enforcing task of \<^verbatim>\<open>nftables/linux.rs\<close> as a step relation. An abstract chain of
    rules with packet semantics is the specification that the rendered text refines. Shown:
    default deny, monitor mode as a dry run, the snapshot covers the policy, what the chain lets
    out, freshness of enforced addresses, finality of the clean stop.
  \<^item> \<open>Storyline\<close>: \<^verbatim>\<open>riggs-storyline\<close>. All operations of the correlator and, as a step relation, the
    states they reach. Shown: associations are backed by the process tree, children join parents,
    exits end associations, bounds of the retained events and of the score.
  \<^item> \<open>Filesystem\<close>, \<open>Response_Policy\<close>, \<open>Vault\<close>, \<open>Snapshots\<close>, \<open>Executor\<close>: \<^verbatim>\<open>riggs-response\<close>. A file system
    whose every call may fail; policy compilation and evaluation; the quarantine vault; snapshots
    and rollback; the executor, over the locale \<open>guarded_platform\<close>. Shown: selected actions never turn
    against the host, quarantine and restore are inverse, a rollback restores the recorded content,
    every action is recorded.
  \<^item> \<open>Collector\<close>: \<^verbatim>\<open>riggs-sensor\<close>. Normalizing and forwarding events. Shown: strings are cut at a
    character, events arrive normalized and in order.
  \<^item> \<open>Linux_Files\<close>, \<open>Linux_Sensor\<close>, \<open>Linux_Net\<close>: \<^verbatim>\<open>riggs-platform-linux\<close>. File events and the processes
    they are attributed to (\<^verbatim>\<open>fanotify.rs\<close>), process polling, signals and containment (\<^verbatim>\<open>sensor.rs\<close>),
    connections from the socket tables (\<^verbatim>\<open>net.rs\<close>). \<open>Mounts\<close>: the mounts fanotify marks; a write is left
    to it only on a marked mount. Shown: an attribution is backed by a fresh
    sighting, starts and exits alternate, no signal reaches init or the daemon, the connections are
    exactly the outgoing rows, addresses are read back.
  \<^item> \<open>Daemon\<close> and \<open>Control\<close>: the event loop, the batched store writer, the supervisor, the control
    operations and the policy adapters of \<^verbatim>\<open>riggs-daemon\<close>. Shown: the loop goes on, responses are safe
    and only to threats, the writer loses nothing it received, restarts are bounded, an egress
    command changes file and engine together or neither, a scan covers a tree.
  \<^item> \<open>Store_Model\<close>: \<^verbatim>\<open>riggs-store\<close>, over the ordered tables of the redb database. Shown: a batch is
    stored whole or not at all and reads back, retention removes exactly what is older.
  \<^item> \<open>Ipc\<close>: \<^verbatim>\<open>riggs-comms\<close>. Framing, messages, the handler of each request and the admission of
    clients. Shown: a peer without privilege changes nothing, an exchange returns the answer of the
    handler, the owner is never starved.
  \<^item> \<open>Macos\<close>: \<^verbatim>\<open>riggs-platform-macos\<close>. Notifications, signals, containment with the packet filter and the
    sockets of \<^verbatim>\<open>net.rs\<close>; it interprets \<open>guarded_platform\<close> as the Linux sensor does. Shown: no signal
    reaches init or the daemon, a release undoes a containment, ports and addresses are read back,
    the connections are exactly the outgoing sockets.
  \<^item> \<open>Console\<close>: \<^verbatim>\<open>riggs-cloud\<close> and its start by the daemon. Connecting, enrolment, heartbeats and reports.
    Shown: with a token and required encryption nothing leaves in the clear or to an unverified
    console, every threat above Clean is reported once and in order.
  \<^item> \<open>Discovery\<close>: \<^verbatim>\<open>riggs-discovery\<close>. Subnets, the ARP scan and passive discovery. Shown: a scan asks
    exactly the hosts of the subnet and lists exactly who answered in time.
  \<^item> \<open>Devices\<close>: \<^verbatim>\<open>riggs-device-control\<close>. Policies, the USB report and the monitor. Shown: exactly the
    described devices are read, what a blocking policy does and misses.
  \<^item> \<open>Startup\<close>: the start of \<^verbatim>\<open>daemon.rs\<close>. Configuration and policy files, the five stages and the
    pipeline built of them. Inside the locale \<open>kept_world\<close>, a pipeline whose stages keep an
    invariant of the shared state reports soundly; its interpretation on the daemon's state rests on
    the contracts the stages interpret. Shown: a file that cannot be used is never replaced, the
    verdicts of the assembled pipeline are about their event and are not diluted.
  \<^item> \<open>Boot\<close>: the frame of \<^verbatim>\<open>RiggsDaemon::run\<close>. Every component created out of the configuration, the
    supervised tasks, the two sockets and the shutdown. Shown: a daemon that starts satisfies the
    invariants of its components and shares their state consistently, a shutdown stores what was
    accepted.
  \<^item> \<open>Cli\<close>: \<^verbatim>\<open>riggs-cli\<close>. Arguments, messages and printed lines of every command, composed with \<open>Ipc\<close>.
    Shown: client and daemon agree on every exchange, only the owner changes the daemon.
    \<open>Menubar\<close>: the polled status and the texts of \<^verbatim>\<open>riggs-menubar\<close>. Shown: the menu tells the state of
    the daemon. \<open>Shell\<close>: the keys and sessions of \<^verbatim>\<open>riggs-shell\<close>.
  \<^item> This theory: the properties that involve several components.

  \<^bold>\<open>Conventions.\<close> Machine integers keep their width, timestamps and durations are integers (in
  nanoseconds) and strings are lists of bytes. A clock reading, a drawn identifier, the content of
  a file, a DNS answer, a reply over HTTP and the outcome of a subprocess are arguments of the
  operation that obtains them. Code of other packages is a parameter of the definitions that use it:
  IP networks of \<^verbatim>\<open>ipnetwork\<close> (parser, membership, printing), the Aho-Corasick matcher, the
  goblin parser, \<^verbatim>\<open>yara_x\<close>, Ed25519, pseudo-terminals, JSON, TOML, SHA-256, zstd, Unicode lower case, the logarithms and the platform
  traits. What a property relies on about them is a hypothesis of its statement. The iteration order
  of a hash map is the order of the association list, about which nothing is assumed. All functions
  are total and every recursion has a measure, so no fuel is used; a loop of the daemon that runs
  forever is given by its iteration and, where histories matter, by an inductive relation or a fold
  over the inputs.

  \<^bold>\<open>Not modelled\<close>: code whose work is done elsewhere (the generated gRPC client under \<^verbatim>\<open>riggs-cloud\<close>,
  HTTP requests, system calls, whose answers are arguments), the Windows layer,
  whose operations are unimplemented, the AppKit objects of \<^verbatim>\<open>riggs-menubar\<close>, reading TOML, log
  messages, and the waiting for signals. These are calls into other packages or the operating
  system without decisions of their own.
\<close>

section \<open>Properties that span components\<close>

lemma dlp_matches_egress: "dlp_domain_matches pattern host = domain_matches (to_ascii_lowercase pattern) host"
proof (cases "strip_prefix (to_ascii_lowercase pattern) ''*.''")
  case None
  then show ?thesis by (simp add: dlp_domain_matches_def domain_matches_def)
next
  case (Some bare)
  then have "to_ascii_lowercase pattern = ''*.'' @ bare" by (simp add: strip_prefix_Some_iff)
  then have "drop 1 (to_ascii_lowercase pattern) = ''.'' @ bare" by simp
  with Some show ?thesis by (auto simp: dlp_domain_matches_def domain_matches_def)
qed

text \<open>
  Both policies read a domain pattern the same way. The matcher of the DLP policy and the one
  of the egress policy, written independently, agree on every pattern and host once the pattern
  is in lower case; a wildcard matches the bare domain and its subdomains, so a host that merely
  ends in the same letters is not matched.
\<close>

theorem domain_matchers_agree:
  "dlp_domain_matches pattern host = domain_matches (to_ascii_lowercase pattern) host \<and>
   (domain_matches (''*.'' @ bare) host \<longleftrightarrow> host = bare \<or> (\<exists>sub. host = sub @ ''.'' @ bare))"
  using strip_prefix_Some_iff [of "''*.'' @ bare" "''*.''" bare]
  by (simp add: dlp_matches_egress domain_matches_def ends_with_iff)

text \<open>
  C10: a policy file that does not load never changes the live policy. For the DLP correlator and
  for the egress engine, after any run of watcher events the live policy is the one compiled from
  the last configuration that was read successfully, or the initial one when none was.
\<close>

theorem live_policies_last_good:
  "dlp_policy_of (watch_policy dlp_replace_policy dlp_from_config path c evs) =
     (case rev (loaded_configs path evs) of [] \<Rightarrow> dlp_policy_of c | cfg # _ \<Rightarrow> dlp_from_config cfg) \<and>
   ee_policy (watch_policy egress_replace_policy (egress_from_config net_parse) path' e evs') =
     (case rev (loaded_configs path' evs') of
        [] \<Rightarrow> ee_policy e | cfg # _ \<Rightarrow> egress_from_config net_parse cfg)"
  by (simp only: dlp_cell.watch_policy_current egress_cell.watch_policy_current)

text \<open>
  A pipeline in which only the stage registered as \<^verbatim>\<open>dlp\<close> works on the part of the shared state
  that \<open>dlp_of\<close> reads.
\<close>

definition only_dlp_stage_touches :: "('w \<Rightarrow> 'd) \<Rightarrow> 'w detection_pipeline \<Rightarrow> bool" where
  "only_dlp_stage_touches dlp_of p \<longleftrightarrow>
     (\<forall>st \<in> set (dp_stages p). \<forall>w ev. ts_name st \<noteq> DLP \<longrightarrow> dlp_of (fst (ts_analyze st w ev)) = dlp_of w)"

text \<open>
  A process exit never reaches the DLP correlator. Whatever the process event, one iteration of
  the daemon leaves the DLP state as it was, because the router sends no process event to the
  \<^verbatim>\<open>dlp\<close> stage; so the accesses of an exited process are still attributed to its pid.
\<close>

theorem dlp_never_sees_exits:
  assumes "handle_event nc pip ln_1p cfg tk (Process pe) d = (d', go)" and "tk_panic tk = None"
    and "only_dlp_stage_touches dlp_of (dm_pipeline d)"
  shows "dlp_of (dm_stages d') = dlp_of (dm_stages d)"
proof -
  from assms(1,2) obtain sc sid ev w p mv d1 where
    ev: "ev = map_process_context (\<lambda>ctx. ctx\<lparr>pc_storyline_id := sid\<rparr>) (Process pe)"
    and run: "pipeline_run ev (dg_stage_timeout_ms cfg) (dm_stages d) (dm_pipeline d) = (w, p, mv)"
    and r: "react ln_1p cfg tk ev sid mv d1 = (d', go)" and w: "dm_stages d1 = w"
    by (rule handle_eventE)
  obtain sts' where "run_stages ev (dg_stage_timeout_ms cfg) (dm_stages d) (dp_stages (dm_pipeline d)) [] =
      (w, sts', mv_verdicts mv)"
    using pipeline_run_unfold [OF run] by metis
  then have "dlp_of w = dlp_of (dm_stages d)"
  proof (rule run_stages_frame)
    fix st w' assume st: "st \<in> set (dp_stages (dm_pipeline d))" "routed ev st"
    then have "ts_name st \<noteq> DLP" by (auto simp: ev routed_def RULES_def BEHAVIORAL_AI_def DLP_def)
    with st(1) assms(3) show "dlp_of (fst (ts_analyze st w' ev)) = dlp_of w'"
      by (simp add: only_dlp_stage_touches_def)
  qed
  with react_simps(1) [OF r] w show ?thesis by simp
qed

definition dlp_pipeline :: "dlp_stage detection_pipeline" where
  "dlp_pipeline = add_stage DLP Dlp
     (\<lambda>s ev. let (s', r) = dlp_analyze (\<lambda>_. None) 6 s ev in (s', Completed r, 10, 6)) pipeline_new"

definition dlp_daemon :: "(dlp_stage, u32 \<times> u32) daemon" where
  "dlp_daemon =
     \<lparr>dm_correlator = storyline_new 0, dm_pipeline = dlp_pipeline, dm_stages = sample_stage,
      dm_egress = egress_new sample_egress, dm_egress_warned = [], dm_events_processed = 0,
      dm_threats_detected = 0, dm_snapshot_requests = [], dm_response_requests = [],
      dm_store_queue = \<lparr>sq_items = [], sq_capacity = 1, sq_closed = False\<rparr>\<rparr>"

definition dlp_tick :: "dlp_stage tick" where
  "dlp_tick = \<lparr>tk_fresh = StorylineId 9, tk_now = 5, tk_now_prune = 5, tk_now_verdict = 6, tk_panic = None\<rparr>"

definition exit_of_seven :: process_event where
  "exit_of_seven =
     \<lparr>pe_event_id = EventId 4, pe_timestamp = 6,
      pe_context = process_context_new 7 1 ''cat'' ''/bin/cat'' '''' ''u'' (StorylineId 0),
      pe_action = Exit, pe_parent = None\<rparr>"

theorem dlp_never_sees_exits_witness:
  "dm_stages (fst (handle_event mask_contains (\<lambda>_. None) id sample_config dlp_tick
      (Process exit_of_seven) dlp_daemon)) = sample_stage \<and>
   \<not> fv_allow (check_flow 7 (ds_correlator sample_stage) 7 ''x.ai'')"
proof (rule conjI)
  let ?r = "handle_event mask_contains (\<lambda>_. None) id sample_config dlp_tick (Process exit_of_seven) dlp_daemon"
  have h: "tk_panic dlp_tick = None" "only_dlp_stage_touches id (dm_pipeline dlp_daemon)"
    "dm_stages dlp_daemon = sample_stage"
    by (simp_all add: dlp_tick_def only_dlp_stage_touches_def dlp_daemon_def dlp_pipeline_def add_stage_def
        pipeline_new_def)
  show "dm_stages (fst ?r) = sample_stage"
    using dlp_never_sees_exits [of mask_contains "\<lambda>_. None" id sample_config dlp_tick exit_of_seven dlp_daemon
        "fst ?r" "snd ?r" id, OF prod.collapse [symmetric] h(1,2)] h(3) by simp
  show "\<not> fv_allow (check_flow 7 (ds_correlator sample_stage) 7 ''x.ai'')" by code_simp
qed

end
